(* ===== verification/Py_Prelude.thy ===== *)
theory Py_Prelude
  imports Complex_Main "HOL-Library.AList"
begin

text \<open>
  Shared vocabulary of the development.  The gateway keeps its durable state as JSON
  documents and handles them as Python dictionaries, so the model has one value type
  \<open>json\<close>, dictionaries as association lists in insertion order (the order Python
  guarantees), and the Python operations on them that the sources use: \<open>get\<close>,
  subscription (which raises \<open>KeyError\<close>), item assignment, \<open>update\<close>, \<open>pop\<close>,
  \<open>setdefault\<close>, truth value, \<open>==\<close>, \<open>int(...)\<close> on optional counters, slices and
  the few string methods.  Strings are lists of 8-bit characters; lower-casing and
  stripping are the ASCII ones.  Raised exceptions are values of \<open>py_error\<close>.
\<close>

named_theorems dict_simps \<open>reading a dictionary after writing it\<close>
named_theorems exn_simps \<open>unfolding of the exception plumbing\<close>

section \<open>Values\<close>

datatype json =
    JNull
  | JBool bool
  | JInt int
  | JFloat rat
  | JStr string
  | JList "json list"
  | JObj "(string \<times> json) list"

type_synonym dict = "(string \<times> json) list"

text \<open>\<open>isinstance\<close> tests.  A Python \<open>bool\<close> is an \<open>int\<close>; \<open>is_JInt_strict\<close> is
  \<open>type(x) is int\<close>.\<close>

fun is_str :: "json \<Rightarrow> bool" where
  "is_str (JStr _) = True"
| "is_str _ = False"

fun is_dict :: "json \<Rightarrow> bool" where
  "is_dict (JObj _) = True"
| "is_dict _ = False"

fun is_list :: "json \<Rightarrow> bool" where
  "is_list (JList _) = True"
| "is_list _ = False"

fun is_int_strict :: "json \<Rightarrow> bool" where
  "is_int_strict (JInt _) = True"
| "is_int_strict _ = False"

text \<open>Python truth value.\<close>

fun truthy :: "json \<Rightarrow> bool" where
  "truthy JNull = False"
| "truthy (JBool b) = b"
| "truthy (JInt i) = (i \<noteq> 0)"
| "truthy (JFloat q) = (q \<noteq> 0)"
| "truthy (JStr s) = (s \<noteq> [])"
| "truthy (JList xs) = (xs \<noteq> [])"
| "truthy (JObj d) = (d \<noteq> [])"

text \<open>Python's \<open>a or b\<close>.\<close>

definition por :: "json \<Rightarrow> json \<Rightarrow> json" where
  "por a b = (if truthy a then a else b)"

text \<open>Python's \<open>==\<close>: numbers compare by value across \<open>bool\<close>, \<open>int\<close> and
  \<open>float\<close>, dictionaries compare without regard to key order.\<close>

fun num_of :: "json \<Rightarrow> rat option" where
  "num_of (JBool b) = Some (if b then 1 else 0)"
| "num_of (JInt i) = Some (of_int i)"
| "num_of (JFloat q) = Some q"
| "num_of _ = None"

fun jeq :: "json \<Rightarrow> json \<Rightarrow> bool"
  and jeqs :: "json list \<Rightarrow> json list \<Rightarrow> bool"
  and jsub :: "dict \<Rightarrow> dict \<Rightarrow> bool" where
  "jeq JNull y = (y = JNull)"
| "jeq (JBool b) y = (num_of y = Some (if b then 1 else 0))"
| "jeq (JInt i) y = (num_of y = Some (of_int i))"
| "jeq (JFloat q) y = (num_of y = Some q)"
| "jeq (JStr s) y = (y = JStr s)"
| "jeq (JList xs) y = (case y of JList ys \<Rightarrow> jeqs xs ys | _ \<Rightarrow> False)"
| "jeq (JObj d) y = (case y of JObj e \<Rightarrow> length d = length e \<and> jsub d e | _ \<Rightarrow> False)"
| "jeqs [] ys = (ys = [])"
| "jeqs (x # xs) ys = (case ys of [] \<Rightarrow> False | y # ys' \<Rightarrow> jeq x y \<and> jeqs xs ys')"
| "jsub [] e = True"
| "jsub ((k, v) # d) e =
     ((case map_of e k of None \<Rightarrow> False | Some w \<Rightarrow> jeq v w) \<and> jsub d e)"

lemma jeq_str [simp]: "jeq x (JStr s) \<longleftrightarrow> x = JStr s"
  by (cases x) auto

lemma jeq_null [simp]: "jeq x JNull \<longleftrightarrow> x = JNull"
  by (cases x) auto

lemma jeq_int_int: "jeq (JInt i) (JInt j) \<longleftrightarrow> i = j"
  by auto

lemma jeq_opt_str: "jeq (JStr s) x \<longleftrightarrow> x = JStr s"
  by simp

section \<open>Dictionaries\<close>

definition dget :: "dict \<Rightarrow> string \<Rightarrow> json" where
  "dget d k = (case map_of d k of None \<Rightarrow> JNull | Some v \<Rightarrow> v)"

definition dget_or :: "dict \<Rightarrow> string \<Rightarrow> json \<Rightarrow> json" where
  "dget_or d k v = (case map_of d k of None \<Rightarrow> v | Some w \<Rightarrow> w)"

definition dhas :: "dict \<Rightarrow> string \<Rightarrow> bool" where
  "dhas d k \<longleftrightarrow> map_of d k \<noteq> None"

definition dset :: "string \<Rightarrow> json \<Rightarrow> dict \<Rightarrow> dict" where
  "dset k v d = AList.update k v d"

definition dpop :: "string \<Rightarrow> dict \<Rightarrow> dict" where
  "dpop k d = AList.delete k d"

fun dupd :: "dict \<Rightarrow> dict \<Rightarrow> dict" where
  "dupd d [] = d"
| "dupd d ((k, v) # kvs) = dupd (dset k v d) kvs"

definition dsetdefault :: "string \<Rightarrow> json \<Rightarrow> dict \<Rightarrow> dict" where
  "dsetdefault k v d = (if dhas d k then d else dset k v d)"

text \<open>The dictionary behind a value that is one, the empty one otherwise: the idiom
  \<open>x if isinstance(x, dict) else \<^bold>{\<^bold>}\<close>.\<close>

fun obj_of :: "json \<Rightarrow> dict" where
  "obj_of (JObj d) = d"
| "obj_of _ = []"

fun list_of :: "json \<Rightarrow> json list" where
  "list_of (JList xs) = xs"
| "list_of _ = []"

lemma dget_Nil [simp, dict_simps]: "dget [] k = JNull"
  by (simp add: dget_def)

lemma dget_Cons [dict_simps]: "dget ((k, v) # d) k' = (if k' = k then v else dget d k')"
  by (simp add: dget_def)

lemma dget_dset [simp, dict_simps]: "dget (dset k v d) k' = (if k' = k then v else dget d k')"
  by (simp add: dget_def dset_def update_conv')

lemma dget_dpop [simp, dict_simps]: "dget (dpop k d) k' = (if k' = k then JNull else dget d k')"
  by (simp add: dget_def dpop_def delete_conv')

lemma map_of_dset [simp, dict_simps]: "map_of (dset k v d) k' = (if k' = k then Some v else map_of d k')"
  by (simp add: dset_def update_conv')

lemma map_of_dpop [simp, dict_simps]: "map_of (dpop k d) k' = (if k' = k then None else map_of d k')"
  by (simp add: dpop_def delete_conv')

lemma dhas_dset [simp, dict_simps]: "dhas (dset k v d) k' \<longleftrightarrow> k' = k \<or> dhas d k'"
  by (simp add: dhas_def)

lemma dhas_dpop [simp, dict_simps]: "dhas (dpop k d) k' \<longleftrightarrow> k' \<noteq> k \<and> dhas d k'"
  by (simp add: dhas_def)

lemma dhas_dget: "dget d k \<noteq> JNull \<Longrightarrow> dhas d k"
  by (auto simp: dget_def dhas_def split: option.splits)

lemma dget_map_of: "dget d k = v \<Longrightarrow> v \<noteq> JNull \<Longrightarrow> map_of d k = Some v"
  by (auto simp: dget_def split: option.splits)

lemma dget_dupd_other: "k \<notin> fst ` set kvs \<Longrightarrow> dget (dupd d kvs) k = dget d k"
  by (induction d kvs rule: dupd.induct) auto

lemma map_of_dupd_other: "k \<notin> fst ` set kvs \<Longrightarrow> map_of (dupd d kvs) k = map_of d k"
  by (induction d kvs rule: dupd.induct) auto

lemma dget_dsetdefault [dict_simps]:
  "dget (dsetdefault k v d) k' = (if k' = k \<and> \<not> dhas d k then v else dget d k')"
  by (simp add: dsetdefault_def)

lemma dhas_dsetdefault [dict_simps]: "dhas (dsetdefault k v d) k' \<longleftrightarrow> k' = k \<or> dhas d k'"
  by (auto simp: dsetdefault_def)

lemma dsetdefault_id: "dhas d k \<Longrightarrow> dsetdefault k v d = d"
  by (simp add: dsetdefault_def)

lemma distinct_dset: "distinct (map fst d) \<Longrightarrow> distinct (map fst (dset k v d))"
  by (simp add: dset_def distinct_update)

lemma distinct_dupd: "distinct (map fst d) \<Longrightarrow> distinct (map fst (dupd d kvs))"
  by (induction d kvs rule: dupd.induct) (auto simp: distinct_dset)

section \<open>Exceptions\<close>

text \<open>
  \<open>AG code message details\<close> is \<open>AudiaGenticError\<close> (its \<open>kind\<close> is ``agents'' throughout
  the gateway).  The other constructors are the interpreter's own exceptions.
\<close>

datatype py_error =
    AG (err_code: string) (err_message: string) (err_details: dict)
  | KeyError string
  | TypeError
  | AttributeError
  | ValueError string
  | RuntimeError string
  | OSError string

type_synonym 'a res = "py_error + 'a"

definition rbind :: "'a res \<Rightarrow> ('a \<Rightarrow> 'b res) \<Rightarrow> 'b res" where
  "rbind m f = (case m of Inl e \<Rightarrow> Inl e | Inr x \<Rightarrow> f x)"

definition guard_r :: "bool \<Rightarrow> py_error \<Rightarrow> unit res" where
  "guard_r b e = (if b then Inr () else Inl e)"

lemma rbind_Inl [simp]: "rbind (Inl e) f = Inl e"
  by (simp add: rbind_def)

lemma rbind_Inr [simp]: "rbind (Inr x) f = f x"
  by (simp add: rbind_def)

lemma rbind_eq_Inr: "rbind m f = Inr y \<longleftrightarrow> (\<exists>x. m = Inr x \<and> f x = Inr y)"
  by (cases m) auto

lemma rbind_eq_Inl: "rbind m f = Inl e \<longleftrightarrow> m = Inl e \<or> (\<exists>x. m = Inr x \<and> f x = Inl e)"
  by (cases m) auto

lemma guard_r_eq_Inr: "guard_r b e = Inr u \<longleftrightarrow> b"
  by (simp add: guard_r_def)

lemma guard_r_eq_Inl: "guard_r b e = Inl e' \<longleftrightarrow> \<not> b \<and> e' = e"
  by (auto simp: guard_r_def)

lemma guard_r_True [simp]: "guard_r True e = Inr ()"
  by (simp add: guard_r_def)

lemma guard_r_False [simp]: "guard_r False e = Inl e"
  by (simp add: guard_r_def)

lemmas res_iffs = rbind_eq_Inr rbind_eq_Inl guard_r_eq_Inr guard_r_eq_Inl

text \<open>Subscription \<open>d[k]\<close> and the arithmetic use of a counter field.\<close>

definition ditem :: "dict \<Rightarrow> string \<Rightarrow> json res" where
  "ditem d k = (case map_of d k of None \<Rightarrow> Inl (KeyError k) | Some v \<Rightarrow> Inr v)"

fun as_num :: "json \<Rightarrow> int res" where
  "as_num (JInt i) = Inr i"
| "as_num (JBool b) = Inr (if b then 1 else 0)"
| "as_num _ = Inl TypeError"

definition dint :: "dict \<Rightarrow> string \<Rightarrow> int res" where
  "dint d k = rbind (ditem d k) as_num"

lemma ditem_eq_Inr: "ditem d k = Inr v \<longleftrightarrow> map_of d k = Some v"
  by (auto simp: ditem_def split: option.splits)

lemma ditem_Inr_dget: "ditem d k = Inr v \<Longrightarrow> dget d k = v"
  by (auto simp: ditem_def dget_def split: option.splits)

lemma ditem_dget: "dget d k \<noteq> JNull \<Longrightarrow> ditem d k = Inr (dget d k)"
  by (auto simp: ditem_def dget_def split: option.splits)

lemma dint_of_dget: "dget d k = JInt n \<Longrightarrow> dint d k = Inr n"
  by (simp add: dint_def ditem_dget)

lemma ditem_of_str: "dget d k = JStr s \<Longrightarrow> ditem d k = Inr (JStr s)"
  by (simp add: ditem_dget)

lemma ditem_of_bool: "dget d k = JBool b \<Longrightarrow> ditem d k = Inr (JBool b)"
  by (simp add: ditem_dget)

lemmas typed_reads = dint_of_dget ditem_of_str ditem_of_bool

section \<open>Strings and slices\<close>

definition lower_char :: "char \<Rightarrow> char" where
  "lower_char c = (if 65 \<le> (of_char c :: nat) \<and> (of_char c :: nat) \<le> 90
     then char_of ((of_char c :: nat) + 32) else c)"

definition lower :: "string \<Rightarrow> string" where
  "lower s = map lower_char s"

definition is_space :: "char \<Rightarrow> bool" where
  "is_space c \<longleftrightarrow> c \<in> {CHR '' '', CHR 0x09, CHR 0x0A, CHR 0x0B, CHR 0x0C, CHR 0x0D,
     CHR 0x1C, CHR 0x1D, CHR 0x1E, CHR 0x1F}"

definition strip :: "string \<Rightarrow> string" where
  "strip s = rev (dropWhile is_space (rev (dropWhile is_space s)))"

definition replace_char :: "char \<Rightarrow> char \<Rightarrow> string \<Rightarrow> string" where
  "replace_char a b s = map (\<lambda>c. if c = a then b else c) s"

definition remove_char :: "char \<Rightarrow> string \<Rightarrow> string" where
  "remove_char a s = filter (\<lambda>c. c \<noteq> a) s"

definition starts_with :: "string \<Rightarrow> string \<Rightarrow> bool" where
  "starts_with p s \<longleftrightarrow> take (length p) s = p"

text \<open>\<open>xs[-n:]\<close> for a positive \<open>n\<close>.\<close>

definition last_n :: "nat \<Rightarrow> 'a list \<Rightarrow> 'a list" where
  "last_n n xs = drop (length xs - n) xs"

lemma length_last_n [simp]: "length (last_n n xs) = min n (length xs)"
  by (simp add: last_n_def)

lemma last_n_snoc: "0 < n \<Longrightarrow> last_n n (xs @ [x]) = last_n (n - 1) xs @ [x]"
  by (simp add: last_n_def Suc_diff_le)

lemma length_replace_char [simp]: "length (replace_char a b s) = length s"
  by (simp add: replace_char_def)

lemma length_lower [simp]: "length (lower s) = length s"
  by (simp add: lower_def)

lemma length_remove_char_le: "length (remove_char a s) \<le> length s"
  by (simp add: remove_char_def)

section \<open>Decimal numerals\<close>

text \<open>\<open>str(n)\<close> on an integer, and \<open>int(s)\<close> on a string: optional sign and decimal
  digits between optional blanks (Python's digit-group underscores are not accepted).\<close>

definition digit_char :: "nat \<Rightarrow> char" where
  "digit_char n = char_of (48 + n)"

fun show_nat :: "nat \<Rightarrow> string" where
  "show_nat n = (if n < 10 then [digit_char n] else show_nat (n div 10) @ [digit_char (n mod 10)])"

declare show_nat.simps [simp del]

definition show_int :: "int \<Rightarrow> string" where
  "show_int i = (if i < 0 then CHR ''-'' # show_nat (nat (- i)) else show_nat (nat i))"

definition is_digit :: "char \<Rightarrow> bool" where
  "is_digit c \<longleftrightarrow> 48 \<le> (of_char c :: nat) \<and> (of_char c :: nat) \<le> 57"

definition digits_val :: "string \<Rightarrow> int" where
  "digits_val s = foldl (\<lambda>n c. 10 * n + (int (of_char c) - 48)) 0 s"

definition read_int :: "string \<Rightarrow> int res" where
  "read_int s =
     (let t = strip s;
          (sgn, ds) = (case t of [] \<Rightarrow> (1, []) | c # cs \<Rightarrow>
             if c = CHR ''-'' then (-1, cs) else if c = CHR ''+'' then (1, cs) else (1, t))
      in if ds \<noteq> [] \<and> list_all is_digit ds then Inr (sgn * digits_val ds)
         else Inl (ValueError ''invalid literal for int()''))"

text \<open>\<open>int(x or 0)\<close> on a field that holds a number or nothing.\<close>

fun int_or_0 :: "json \<Rightarrow> int res" where
  "int_or_0 (JInt i) = Inr i"
| "int_or_0 (JBool b) = Inr (if b then 1 else 0)"
| "int_or_0 (JFloat q) = Inr (if q < 0 then - \<lfloor>- q\<rfloor> else \<lfloor>q\<rfloor>)"
| "int_or_0 JNull = Inr 0"
| "int_or_0 (JStr s) = (if s = [] then Inr 0 else read_int s)"
| "int_or_0 (JList xs) = (if xs = [] then Inr 0 else Inl TypeError)"
| "int_or_0 (JObj d) = (if d = [] then Inr 0 else Inl TypeError)"

text \<open>\<open>int(x)\<close>, and \<open>x + n\<close> for a number \<open>n\<close>: Python adds a bool as 0 or 1 and keeps
  a float a float; adding a number to text, a list, a dictionary or \<open>None\<close> raises.\<close>

fun py_int :: "json \<Rightarrow> int res" where
  "py_int JNull = Inl TypeError"
| "py_int (JStr s) = read_int s"
| "py_int (JList xs) = Inl TypeError"
| "py_int (JObj d) = Inl TypeError"
| "py_int v = int_or_0 v"

fun jadd :: "json \<Rightarrow> int \<Rightarrow> json res" where
  "jadd (JInt i) n = Inr (JInt (i + n))"
| "jadd (JBool b) n = Inr (JInt ((if b then 1 else 0) + n))"
| "jadd (JFloat q) n = Inr (JFloat (q + of_int n))"
| "jadd _ n = Inl TypeError"

text \<open>The counter bump \<open>d[k] + 1\<close>.\<close>

definition bump :: "dict \<Rightarrow> string \<Rightarrow> json res" where
  "bump d k = rbind (ditem d k) (\<lambda>v. jadd v 1)"

lemma bump_eq_Inr: "dget d k = JInt n \<Longrightarrow> bump d k = Inr v \<longleftrightarrow> v = JInt (n + 1)"
  by (auto simp: bump_def ditem_dget)

text \<open>\<open>str(v)\<close> where the result is only compared with words of a closed vocabulary
  (lower-case words and hyphens): no float, list or dictionary prints as such a word, so
  these have no vocabulary text.\<close>

fun vocab_str :: "json \<Rightarrow> string option" where
  "vocab_str (JStr s) = Some s"
| "vocab_str JNull = Some ''None''"
| "vocab_str (JBool b) = Some (if b then ''True'' else ''False'')"
| "vocab_str (JInt i) = Some (show_int i)"
| "vocab_str _ = None"

text \<open>\<open>v.get(k)\<close> on a value that may be no dictionary.\<close>

fun jget :: "json \<Rightarrow> string \<Rightarrow> json res" where
  "jget (JObj d) k = Inr (dget d k)"
| "jget _ k = Inl AttributeError"

lemma jget_eq_Inr: "jget v k = Inr w \<longleftrightarrow> (\<exists>d. v = JObj d \<and> w = dget d k)"
  by (cases v) auto

end
