(* ===== verification/Workflow.thy ===== *)
theory Workflow
  imports Py_Prelude
begin

text \<open>
  The transition engine of \<open>foundation/workflow\<close> (\<open>transition_engine.py\<close>,
  \<open>transitions.py\<close>) and the request, session, operation and work lifecycles that
  \<open>components/agents/workflows.yaml\<close> declares for the agents component.  A frozen set of
  states is the list of its members; only membership is observed.
\<close>

section \<open>Transition engine\<close>

record transition_config =
  transitions :: "(string \<times> string list) list"
  terminal_states :: "string list"
  tvalues :: "string list option"

definition known_states :: "transition_config \<Rightarrow> string list" where
  "known_states c = (case tvalues c of
       Some vs \<Rightarrow> vs
     | None \<Rightarrow> map fst (transitions c) @ concat (map snd (transitions c)))"

definition engine_is_known_state :: "transition_config \<Rightarrow> string \<Rightarrow> bool" where
  "engine_is_known_state c s \<longleftrightarrow> s \<in> set (known_states c)"

datatype transition_failure = UnknownCurrent | UnknownTarget | IllegalTransition

definition engine_check :: "transition_config \<Rightarrow> string \<Rightarrow> string \<Rightarrow> transition_failure option" where
  "engine_check c cur new =
     (if \<not> engine_is_known_state c cur then Some UnknownCurrent
      else if \<not> engine_is_known_state c new then Some UnknownTarget
      else if new \<notin> set (case map_of (transitions c) cur of None \<Rightarrow> [] | Some ts \<Rightarrow> ts)
      then Some IllegalTransition
      else None)"

definition engine_is_legal :: "transition_config \<Rightarrow> string \<Rightarrow> string \<Rightarrow> bool" where
  "engine_is_legal c cur new \<longleftrightarrow> engine_check c cur new = None"

definition engine_is_terminal :: "transition_config \<Rightarrow> string \<Rightarrow> bool" where
  "engine_is_terminal c s \<longleftrightarrow> s \<in> set (terminal_states c)"

section \<open>Workflow documents\<close>

text \<open>\<open>load_workflow\<close> on the parsed YAML document.  \<open>next(iter(workflows), None)\<close> is the
  first key in document order.\<close>

definition load_workflow :: "json \<Rightarrow> string \<Rightarrow> string option \<Rightarrow> json res" where
  "load_workflow data kind nm =
     rbind (jget (por data (JObj [])) ''kinds'') (\<lambda>kinds.
     rbind (jget (por kinds (JObj [])) kind) (\<lambda>spec.
     if spec = JNull then
       Inl (AG ''VAL-WKFL-001'' ''workflow kind not defined'' [(''workflow-kind'', JStr kind)])
     else
     rbind (jget spec ''workflows'') (\<lambda>ws.
     rbind (jget spec ''default-workflow'') (\<lambda>dflt.
     let workflows = obj_of (por ws (JObj []));
         wf_name = (case nm of
             Some n \<Rightarrow> if n \<noteq> [] then JStr n else
               por dflt (case workflows of [] \<Rightarrow> JNull | kv # _ \<Rightarrow> JStr (fst kv))
           | None \<Rightarrow> por dflt (case workflows of [] \<Rightarrow> JNull | kv # _ \<Rightarrow> JStr (fst kv)));
         workflow = (case wf_name of JStr n \<Rightarrow> if n = [] then JNull else dget workflows n
                                   | _ \<Rightarrow> JNull)
     in if workflow = JNull then
          Inl (AG ''VAL-WKFL-002'' ''workflow not defined''
                 [(''workflow-kind'', JStr kind), (''workflow'', wf_name)])
        else Inr workflow))))"

fun str_list :: "json \<Rightarrow> string list" where
  "str_list (JList xs) = List.map_filter vocab_str xs"
| "str_list _ = []"

definition engine_for :: "dict \<Rightarrow> transition_config" where
  "engine_for workflow = \<lparr>
     transitions = map (\<lambda>(s, ts). (s, str_list ts))
       (obj_of (por (dget workflow ''transitions'') (JObj []))),
     terminal_states = [],
     tvalues = (if dget workflow ''values'' = JNull then None
                else Some (str_list (dget workflow ''values''))) \<rparr>"

definition wf_is_known_state :: "dict \<Rightarrow> string \<Rightarrow> bool" where
  "wf_is_known_state workflow s \<longleftrightarrow> engine_is_known_state (engine_for workflow) s"

definition transition_allowed :: "dict \<Rightarrow> string \<Rightarrow> string \<Rightarrow> bool" where
  "transition_allowed workflow old new \<longleftrightarrow> engine_is_legal (engine_for workflow) old new"

definition states_in_set :: "dict \<Rightarrow> string \<Rightarrow> string list" where
  "states_in_set workflow nm =
     str_list (dget_or (obj_of (por (dget workflow ''state-sets'') (JObj []))) nm (JList []))"

definition in_state_set :: "dict \<Rightarrow> string \<Rightarrow> string \<Rightarrow> bool" where
  "in_state_set workflow s nm \<longleftrightarrow> s \<in> set (states_in_set workflow nm)"

definition targets :: "transition_config \<Rightarrow> string \<Rightarrow> string list" where
  "targets c cur = (case map_of (transitions c) cur of None \<Rightarrow> [] | Some ts \<Rightarrow> ts)"

lemma engine_check_None:
  "engine_check c cur new = None \<longleftrightarrow>
     cur \<in> set (known_states c) \<and> new \<in> set (known_states c) \<and> new \<in> set (targets c cur)"
  by (simp add: engine_check_def engine_is_known_state_def targets_def)

lemma engine_is_legal_targets_known:
  "engine_is_legal c cur new \<Longrightarrow> engine_is_known_state c cur \<and> engine_is_known_state c new"
  by (simp add: engine_is_legal_def engine_check_None engine_is_known_state_def)

section \<open>The lifecycles of the agents component\<close>

definition strs :: "string list \<Rightarrow> json" where
  "strs xs = JList (map JStr xs)"

definition workflow_doc :: "string \<Rightarrow> string list \<Rightarrow> (string \<times> string list) list
    \<Rightarrow> (string \<times> string list) list \<Rightarrow> json" where
  "workflow_doc initial vals trs sets =
     JObj [(''default-workflow'', JStr ''standard''),
       (''workflows'', JObj [(''standard'', JObj
          [(''initial'', JStr initial), (''values'', strs vals),
           (''transitions'', JObj (map (\<lambda>(s, ts). (s, strs ts)) trs)),
           (''state-sets'', JObj (map (\<lambda>(s, ts). (s, strs ts)) sets))])])]"

definition agents_workflows_yaml :: json where
  "agents_workflows_yaml = JObj [(''kinds'', JObj
    [(''gateway-request'', workflow_doc ''queued''
        [''queued'', ''running'', ''completed'', ''failed'', ''cancelled'', ''rejected'', ''interrupted'']
        [(''queued'', [''running'', ''failed'', ''cancelled'', ''rejected'', ''interrupted'']),
         (''running'', [''completed'', ''failed'', ''cancelled'', ''interrupted'']),
         (''completed'', []), (''failed'', []), (''cancelled'', []), (''rejected'', []),
         (''interrupted'', [''completed''])]
        [(''terminal'', [''completed'', ''failed'', ''cancelled'', ''rejected'', ''interrupted''])]),
     (''gateway-session'', workflow_doc ''active''
        [''active'', ''closing'', ''closed'', ''expired'', ''failed'']
        [(''active'', [''closing'', ''closed'', ''expired'', ''failed'']),
         (''closing'', [''closed'', ''failed'']),
         (''closed'', []), (''expired'', []), (''failed'', [])]
        [(''terminal'', [''closed'', ''expired'', ''failed''])]),
     (''gateway-operation'', workflow_doc ''accepted''
        [''accepted'', ''running'', ''completed'', ''failed'']
        [(''accepted'', [''running'', ''failed'']),
         (''running'', [''accepted'', ''completed'', ''failed'']),
         (''completed'', []), (''failed'', [])]
        [(''dispatchable'', [''accepted'']), (''active'', [''accepted'', ''running'']),
         (''terminal'', [''completed'', ''failed''])]),
     (''agent-context'', workflow_doc ''open'' [''open'', ''closed'']
        [(''open'', [''closed'']), (''closed'', [])]
        [(''terminal'', [''closed'']), (''active'', [''open''])]),
     (''agent-work'', workflow_doc ''submitted''
        [''submitted'', ''active'', ''waiting'', ''completed'', ''failed'', ''cancelled'', ''rejected'']
        [(''submitted'', [''active'', ''rejected'', ''cancelled'', ''failed'']),
         (''waiting'', [''active'', ''failed'', ''cancelled'']),
         (''active'', [''waiting'', ''completed'', ''failed'', ''cancelled'']),
         (''completed'', []), (''failed'', []), (''cancelled'', []), (''rejected'', [])]
        [(''terminal'', [''completed'', ''failed'', ''cancelled'', ''rejected'']),
         (''non-terminal'', [''submitted'', ''active'', ''waiting'']),
         (''cancellable'', [''submitted'', ''active'', ''waiting''])])])]"

text \<open>A module-level \<open>load_workflow(...)\<close> that would raise stops the import; the loaded
  lifecycles below do load (\<open>request_workflow_loaded\<close> and its siblings).\<close>

definition request_workflow :: dict where
  "request_workflow = (case load_workflow agents_workflows_yaml ''gateway-request'' None of
     Inr (JObj w) \<Rightarrow> w | _ \<Rightarrow> [])"

definition TERMINAL_STATES :: "string list" where
  "TERMINAL_STATES = states_in_set request_workflow ''terminal''"

definition is_known_state_fn :: "string \<Rightarrow> bool" where
  "is_known_state_fn s \<longleftrightarrow> wf_is_known_state request_workflow s"

definition transition_allowed_fn :: "string \<Rightarrow> string \<Rightarrow> bool" where
  "transition_allowed_fn cur new \<longleftrightarrow> transition_allowed request_workflow cur new"

lemma request_workflow_loaded:
  "load_workflow agents_workflows_yaml ''gateway-request'' None = Inr (JObj request_workflow)"
  by (simp add: request_workflow_def load_workflow_def agents_workflows_yaml_def workflow_doc_def
      dget_Cons por_def)

lemma TERMINAL_STATES_eq:
  "TERMINAL_STATES = [''completed'', ''failed'', ''cancelled'', ''rejected'', ''interrupted'']"
  by (simp add: TERMINAL_STATES_def request_workflow_def load_workflow_def agents_workflows_yaml_def
      workflow_doc_def dget_Cons por_def states_in_set_def dget_or_def strs_def map_filter_simps)

lemma request_engine:
  "engine_for request_workflow = \<lparr>
     transitions =
       [(''queued'', [''running'', ''failed'', ''cancelled'', ''rejected'', ''interrupted'']),
         (''running'', [''completed'', ''failed'', ''cancelled'', ''interrupted'']),
         (''completed'', []), (''failed'', []), (''cancelled'', []), (''rejected'', []),
         (''interrupted'', [''completed''])],
     terminal_states = [],
     tvalues = Some [''queued'', ''running'', ''completed'', ''failed'', ''cancelled'', ''rejected'', ''interrupted''] \<rparr>"
  by (simp add: request_workflow_def load_workflow_def agents_workflows_yaml_def
      workflow_doc_def dget_Cons por_def engine_for_def strs_def map_filter_simps)

text \<open>The states a request may leave, and for where.\<close>

lemma transition_allowed_fn_iff:
  "transition_allowed_fn cur new \<longleftrightarrow>
     cur = ''queued'' \<and> new \<in> {''running'', ''failed'', ''cancelled'', ''rejected'', ''interrupted''} \<or>
     cur = ''running'' \<and> new \<in> {''completed'', ''failed'', ''cancelled'', ''interrupted''} \<or>
     cur = ''interrupted'' \<and> new = ''completed''"
proof -
  have known: "set (known_states (engine_for request_workflow)) =
      {''queued'', ''running'', ''completed'', ''failed'', ''cancelled'', ''rejected'', ''interrupted''}"
    by (simp add: request_engine known_states_def)
  have tgt: "targets (engine_for request_workflow) cur =
      (if cur = ''queued'' then [''running'', ''failed'', ''cancelled'', ''rejected'', ''interrupted'']
       else if cur = ''running'' then [''completed'', ''failed'', ''cancelled'', ''interrupted'']
       else if cur = ''interrupted'' then [''completed''] else [])"
    by (simp add: request_engine targets_def)
  have sub: "set (targets (engine_for request_workflow) cur) \<subseteq> set (known_states (engine_for request_workflow))"
    and src: "new \<in> set (targets (engine_for request_workflow) cur) \<Longrightarrow>
        cur \<in> set (known_states (engine_for request_workflow))"
    unfolding known tgt
    by (cases "cur = ''queued''"; cases "cur = ''running''"; cases "cur = ''interrupted''";
        simp)+
  have "transition_allowed_fn cur new \<longleftrightarrow> new \<in> set (targets (engine_for request_workflow) cur)"
    unfolding transition_allowed_fn_def transition_allowed_def engine_is_legal_def engine_check_None
    using sub src by (meson subsetD)
  then show ?thesis
    unfolding tgt
    by (cases "cur = ''queued''"; cases "cur = ''running''"; cases "cur = ''interrupted''") simp_all
qed

lemma is_known_state_fn_iff:
  "is_known_state_fn s \<longleftrightarrow> s \<in> {''queued'', ''running'', ''completed'', ''failed'', ''cancelled'',
     ''rejected'', ''interrupted''}"
  by (simp add: is_known_state_fn_def wf_is_known_state_def engine_is_known_state_def
      request_engine known_states_def)

section \<open>The request lifecycle as shipped\<close>

text \<open>The lifecycle that the loader and the engine make of the shipped configuration: a queued
  request may start or end, a running one may end, an interrupted one may still complete, and no other
  move is legal; the known states that are not terminal are queued and running.\<close>

theorem request_lifecycle_table:
  "(transition_allowed_fn cur new \<longleftrightarrow>
     cur = ''queued'' \<and> new \<in> {''running'', ''failed'', ''cancelled'', ''rejected'', ''interrupted''} \<or>
     cur = ''running'' \<and> new \<in> {''completed'', ''failed'', ''cancelled'', ''interrupted''} \<or>
     cur = ''interrupted'' \<and> new = ''completed'') \<and>
   (is_known_state_fn cur \<and> cur \<notin> set TERMINAL_STATES \<longleftrightarrow> cur \<in> {''queued'', ''running''})"
  unfolding transition_allowed_fn_iff is_known_state_fn_iff TERMINAL_STATES_eq by auto

end
