(* ===== verification/Errors.thy ===== *)
theory Errors
  imports Py_Prelude
begin

text \<open>
  The error contract of \<open>foundation/contracts/errors.py\<close>: the code format that the
  constructor of \<open>AudiaGenticError\<close> enforces, the redaction of secrets in the details, and
  the constructor itself.  Constructing an error with a malformed code raises
  \<open>ValueError\<close> instead, so \<open>raise AudiaGenticError(...)\<close> is modelled by
  \<open>ag_error\<close>, which computes which of the two is raised.  The registration check against
  the resolution catalogue (a process-wide flag set at start-up) is not part of the model.
\<close>

section \<open>Error codes\<close>

definition ERROR_CODE_PREFIXES :: "string list" where
  "ERROR_CODE_PREFIXES = [''VAL'', ''CON'', ''RES'', ''IO'', ''NET'', ''TO'', ''EXT'', ''CFG'',
     ''VER'', ''INT'', ''UNS'']"

definition is_upper :: "char \<Rightarrow> bool" where
  "is_upper c \<longleftrightarrow> 65 \<le> (of_char c :: nat) \<and> (of_char c :: nat) \<le> 90"

definition is_lower :: "char \<Rightarrow> bool" where
  "is_lower c \<longleftrightarrow> 97 \<le> (of_char c :: nat) \<and> (of_char c :: nat) \<le> 122"

fun split_on :: "char \<Rightarrow> string \<Rightarrow> string list" where
  "split_on a [] = [[]]"
| "split_on a (c # s) =
     (if c = a then [] # split_on a s
      else case split_on a s of [] \<Rightarrow> [[c]] | w # ws \<Rightarrow> (c # w) # ws)"

text \<open>A middle group \<open>[A-Z][A-Z0-9]*\<close>.\<close>

fun upper_ident :: "string \<Rightarrow> bool" where
  "upper_ident [] = False"
| "upper_ident (c # s) = (is_upper c \<and> list_all (\<lambda>x. is_upper x \<or> is_digit x) s)"

text \<open>\<open>ERROR_CODE_PATTERN\<close>: two or more capitals, one or more groups, three digits, joined
  by hyphens; the final \<open>$\<close> admits one trailing newline.\<close>

definition chomp :: "string \<Rightarrow> string" where
  "chomp s = (if s \<noteq> [] \<and> last s = CHR 0x0A then butlast s else s)"

definition code_pattern_match :: "string \<Rightarrow> bool" where
  "code_pattern_match s \<longleftrightarrow>
     (let ps = split_on CHR ''-'' (chomp s) in
      3 \<le> length ps \<and>
      (let p = hd ps in 2 \<le> length p \<and> list_all is_upper p) \<and>
      list_all upper_ident (butlast (tl ps)) \<and>
      (let n = last ps in length n = 3 \<and> list_all is_digit n))"

definition validate_code :: "string \<Rightarrow> unit res" where
  "validate_code code =
     (if code = [] \<or> \<not> code_pattern_match code
      then Inl (ValueError ''invalid error code format'')
      else if hd (split_on CHR ''-'' code) \<notin> set ERROR_CODE_PREFIXES
      then Inl (ValueError ''unknown error prefix'')
      else Inr ())"

section \<open>Redaction of details\<close>

text \<open>The character class \<open>[A-Za-z0-9\-._~+/]\<close> of the token patterns.\<close>

definition token_char :: "char \<Rightarrow> bool" where
  "token_char c \<longleftrightarrow> is_upper c \<or> is_lower c \<or> is_digit c \<or> c \<in> set ''-._~+/''"

text \<open>A match of \<open>bearer\s+[...]+=*\<close> starting at the head of the string.\<close>

definition bearer_here :: "string \<Rightarrow> bool" where
  "bearer_here s \<longleftrightarrow> lower (take 6 s) = ''bearer'' \<and>
     (let r = drop 6 s; t = dropWhile is_space r in
      r \<noteq> [] \<and> is_space (hd r) \<and> t \<noteq> [] \<and> token_char (hd t))"

definition key_here :: "string \<Rightarrow> bool" where
  "key_here s \<longleftrightarrow> (\<exists>p \<in> set [''sk-'', ''ghp_'', ''xoxb-''].
     lower (take (length p) s) = p \<and>
     10 \<le> length (takeWhile token_char (drop (length p) s)))"

fun secret_found :: "string \<Rightarrow> bool" where
  "secret_found [] = False"
| "secret_found (c # s) = (bearer_here (c # s) \<or> key_here (c # s) \<or> secret_found s)"

definition DETAILS_MAX_OUTPUT :: nat where
  "DETAILS_MAX_OUTPUT = 1024"

definition redact_str :: "string \<Rightarrow> string \<Rightarrow> string" where
  "redact_str key s =
     (if secret_found s then ''[REDACTED]''
      else if key \<in> {''stdout'', ''stderr''} \<and> DETAILS_MAX_OUTPUT < length s
      then take DETAILS_MAX_OUTPUT s @ ''... (truncated, '' @ show_nat (length s) @ '' total chars)''
      else s)"

fun redact_value :: "string \<Rightarrow> json \<Rightarrow> json"
  and redact_pairs :: "dict \<Rightarrow> dict"
  and redact_items :: "string \<Rightarrow> json list \<Rightarrow> json list" where
  "redact_value key (JStr s) = JStr (redact_str key s)"
| "redact_value key (JObj d) = JObj (redact_pairs d)"
| "redact_value key (JList xs) = JList (redact_items key xs)"
| "redact_value key v = v"
| "redact_pairs [] = []"
| "redact_pairs ((k, v) # d) = (k, redact_value k v) # redact_pairs d"
| "redact_items key [] = []"
| "redact_items key (x # xs) = redact_value key x # redact_items key xs"

definition redact_details :: "dict \<Rightarrow> dict" where
  "redact_details d = redact_pairs d"

section \<open>Raising\<close>

text \<open>\<open>raise AudiaGenticError(code, "agents", message, details)\<close>.\<close>

definition ag_error :: "string \<Rightarrow> string \<Rightarrow> dict \<Rightarrow> py_error" where
  "ag_error code msg details =
     (case validate_code code of
        Inl e \<Rightarrow> e
      | Inr _ \<Rightarrow> if msg = [] then ValueError ''error message must not be empty''
                 else AG code msg (redact_details details))"

fun code_of :: "py_error \<Rightarrow> string option" where
  "code_of (AG c m d) = Some c"
| "code_of _ = None"

text \<open>Redaction keeps the shape: keys, their order, list lengths and every non-string leaf.\<close>

lemma map_fst_redact_pairs [simp]: "map fst (redact_pairs d) = map fst d"
  by (induction d) auto

lemma length_redact_items [simp]: "length (redact_items k xs) = length xs"
  by (induction xs) auto

lemma redact_details_keys [simp]: "map fst (redact_details d) = map fst d"
  by (simp add: redact_details_def)

lemma redact_details_Nil [simp]: "redact_details [] = []"
  by (simp add: redact_details_def)

lemma map_of_redact_pairs: "map_of (redact_pairs d) k = map_option (redact_value k) (map_of d k)"
  by (induction d) auto

lemma validate_code_cases:
  "validate_code c = Inr () \<or> (\<exists>m. validate_code c = Inl (ValueError m))"
  by (auto simp: validate_code_def)

lemma code_of_ag_error: "validate_code c = Inr () \<Longrightarrow> m \<noteq> [] \<Longrightarrow> code_of (ag_error c m d) = Some c"
  by (simp add: ag_error_def)

lemma ag_error_AG: "validate_code c = Inr () \<Longrightarrow> m \<noteq> [] \<Longrightarrow>
    ag_error c m d = AG c m (redact_details d)"
  by (simp add: ag_error_def)

section \<open>No secret leaves through the details of an error\<close>

text \<open>The string leaves of a value, each with the dictionary key it stands under (list items keep
  the key of their list).\<close>

fun leaves :: "string \<Rightarrow> json \<Rightarrow> (string \<times> string) list"
  and leaves_pairs :: "dict \<Rightarrow> (string \<times> string) list"
  and leaves_items :: "string \<Rightarrow> json list \<Rightarrow> (string \<times> string) list" where
  "leaves key (JStr s) = [(key, s)]"
| "leaves key (JObj d) = leaves_pairs d"
| "leaves key (JList xs) = leaves_items key xs"
| "leaves key v = []"
| "leaves_pairs [] = []"
| "leaves_pairs ((k, v) # d) = leaves k v @ leaves_pairs d"
| "leaves_items key [] = []"
| "leaves_items key (x # xs) = leaves key x @ leaves_items key xs"

lemma leaves_redact:
  "leaves key (redact_value key v) = map (\<lambda>(k, s). (k, redact_str k s)) (leaves key v)"
  "leaves_pairs (redact_pairs d) = map (\<lambda>(k, s). (k, redact_str k s)) (leaves_pairs d)"
  "leaves_items key (redact_items key xs) = map (\<lambda>(k, s). (k, redact_str k s)) (leaves_items key xs)"
  by (induction key v and d and key xs rule: redact_value_redact_pairs_redact_items.induct) simp_all

lemma REDACTED_clean: "\<not> secret_found ''[REDACTED]''"
  by (simp add: bearer_here_def key_here_def lower_def lower_char_def is_space_def)

lemma redact_str_clean: "k \<notin> {''stdout'', ''stderr''} \<Longrightarrow> \<not> secret_found (redact_str k s)"
  using REDACTED_clean by (simp add: redact_str_def del: secret_found.simps)

text \<open>C37: Every string in the details of a raised error is the redaction of the string the caller gave
  under the same key, and outside the two process-output keys none of them matches a token pattern; the
  keys and their order are the caller's.\<close>

theorem error_details_redacted:
  assumes "ag_error code msg details = AG code' msg' d" "(k, s) \<in> set (leaves_pairs d)"
  shows "(\<exists>s'. (k, s') \<in> set (leaves_pairs details) \<and> s = redact_str k s') \<and>
    (k \<notin> {''stdout'', ''stderr''} \<longrightarrow> \<not> secret_found s) \<and> map fst d = map fst details"
proof -
  have d: "d = redact_pairs details"
    using assms(1) validate_code_cases [of code] by (auto simp: ag_error_def redact_details_def split: sum.splits if_split_asm)
  with assms(2) obtain s' where "(k, s') \<in> set (leaves_pairs details)" "s = redact_str k s'"
    by (auto simp: leaves_redact)
  then show ?thesis using redact_str_clean [of k s'] d by auto
qed

theorem error_details_redacted_witness:
  "redact_str ''url'' ''Bearer abc.def'' = ''[REDACTED]'' \<and> \<not> secret_found (redact_str ''url'' ''Bearer abc.def'')"
proof -
  have *: "ag_error ''VAL-AGW-001'' ''m'' [(''url'', JStr ''Bearer abc.def'')] = AG ''VAL-AGW-001'' ''m'' [(''url'', JStr ''[REDACTED]'')]"
    by code_simp
  have "redact_str ''url'' ''Bearer abc.def'' = ''[REDACTED]''" by code_simp
  with error_details_redacted [OF *, of "''url''" "''[REDACTED]''"] show ?thesis by (simp del: secret_found.simps)
qed

end
