(* ===== verification/Diagnostics.thy ===== *)
theory Diagnostics
  imports Errors
begin

text \<open>
  The provider-neutral diagnostics of \<open>components/agents/gateway/diagnostics.py\<close>: the closed
  vocabularies, the classification of an error into a bounded rollup, the merge of two
  rollups that may not lose side-effect certainty, activity labels and groups, and the
  evidence item of one accepted activity.  The main facts: a submission that was attempted
  and not proven is never classified as safe to retry, and merging never lowers the
  side-effect rank.
\<close>

section \<open>Vocabularies\<close>

datatype FailureClass = PROVIDER_REJECTED | PROVIDER_ERROR | BROWSER_ADAPTER_ERROR
  | GATEWAY_OWNERSHIP_QUEUE_ERROR | CANCELLED | TIMEOUT | STALE_PROGRESS
  | AMBIGUOUS_SIDE_EFFECT | GATEWAY_RESTART | UNKNOWN_FAILURE

fun fc_value :: "FailureClass \<Rightarrow> string" where
  "fc_value PROVIDER_REJECTED = ''provider-rejected''"
| "fc_value PROVIDER_ERROR = ''provider-error''"
| "fc_value BROWSER_ADAPTER_ERROR = ''browser-adapter-error''"
| "fc_value GATEWAY_OWNERSHIP_QUEUE_ERROR = ''gateway-ownership-queue-error''"
| "fc_value CANCELLED = ''cancelled''"
| "fc_value TIMEOUT = ''timeout''"
| "fc_value STALE_PROGRESS = ''stale-progress''"
| "fc_value AMBIGUOUS_SIDE_EFFECT = ''ambiguous-side-effect''"
| "fc_value GATEWAY_RESTART = ''gateway-restart''"
| "fc_value UNKNOWN_FAILURE = ''unknown''"

datatype ObservationPhase = ADMISSION | OWNERSHIP | CAPACITY_WAIT | PRE_SUBMIT | SUBMIT_INTENT
  | SUBMISSION_PROOF | IN_PROGRESS | TERMINAL_OBSERVATION | RECONCILIATION | CANCELLATION
  | FINALIZATION

fun op_value :: "ObservationPhase \<Rightarrow> string" where
  "op_value ADMISSION = ''admission''"
| "op_value OWNERSHIP = ''ownership''"
| "op_value CAPACITY_WAIT = ''capacity-wait''"
| "op_value PRE_SUBMIT = ''pre-submit''"
| "op_value SUBMIT_INTENT = ''submit-intent''"
| "op_value SUBMISSION_PROOF = ''submission-proof''"
| "op_value IN_PROGRESS = ''in-progress''"
| "op_value TERMINAL_OBSERVATION = ''terminal-observation''"
| "op_value RECONCILIATION = ''reconciliation''"
| "op_value CANCELLATION = ''cancellation''"
| "op_value FINALIZATION = ''finalization''"

definition all_phases :: "ObservationPhase list" where
  "all_phases = [ADMISSION, OWNERSHIP, CAPACITY_WAIT, PRE_SUBMIT, SUBMIT_INTENT, SUBMISSION_PROOF,
     IN_PROGRESS, TERMINAL_OBSERVATION, RECONCILIATION, CANCELLATION, FINALIZATION]"

datatype SideEffectState = NOT_STARTED | MAY_HAVE_STARTED | SUBMISSION_PROVEN | TERMINAL_EVIDENCE_SEEN

fun se_value :: "SideEffectState \<Rightarrow> string" where
  "se_value NOT_STARTED = ''not-started''"
| "se_value MAY_HAVE_STARTED = ''may-have-started''"
| "se_value SUBMISSION_PROVEN = ''submission-proven''"
| "se_value TERMINAL_EVIDENCE_SEEN = ''terminal-evidence-seen''"

definition all_side_effects :: "SideEffectState list" where
  "all_side_effects = [NOT_STARTED, MAY_HAVE_STARTED, SUBMISSION_PROVEN, TERMINAL_EVIDENCE_SEEN]"

datatype EvidenceCertainty = DEFINITIVE | STRONG | WEAK | UNKNOWN_CERTAINTY

fun ec_value :: "EvidenceCertainty \<Rightarrow> string" where
  "ec_value DEFINITIVE = ''definitive''"
| "ec_value STRONG = ''strong''"
| "ec_value WEAK = ''weak''"
| "ec_value UNKNOWN_CERTAINTY = ''unknown''"

datatype RecoveryDisposition = RETRY_SAFE | RECONCILE_REQUIRED | ADOPT_SAFE
  | OPERATOR_ADOPT_AVAILABLE | RETIRE_CONVERSATION_REQUIRED | BLOCKED | NO_RECOVERY

fun rd_value :: "RecoveryDisposition \<Rightarrow> string" where
  "rd_value RETRY_SAFE = ''retry-safe''"
| "rd_value RECONCILE_REQUIRED = ''reconcile-required''"
| "rd_value ADOPT_SAFE = ''adopt-safe''"
| "rd_value OPERATOR_ADOPT_AVAILABLE = ''operator-adopt-available''"
| "rd_value RETIRE_CONVERSATION_REQUIRED = ''retire-conversation-required''"
| "rd_value BLOCKED = ''blocked''"
| "rd_value NO_RECOVERY = ''none''"

definition MAX_ID :: nat where "MAX_ID = 128"
definition MAX_SIGNALS :: nat where "MAX_SIGNALS = 8"

text \<open>\<open>_SIDE_EFFECT_RANK.get(s, 0)\<close>.\<close>

definition side_effect_rank :: "string option \<Rightarrow> nat" where
  "side_effect_rank s =
     (if s = Some ''may-have-started'' then 1
      else if s = Some ''submission-proven'' then 2
      else if s = Some ''terminal-evidence-seen'' then 3 else 0)"

section \<open>Bounded text\<close>

fun text_bounded :: "nat \<Rightarrow> json \<Rightarrow> string option" where
  "text_bounded limit (JStr s) = (if s = [] then None else Some (take limit (remove_char (CHR 0x00) s)))"
| "text_bounded limit _ = None"

definition opt_json :: "string option \<Rightarrow> json" where
  "opt_json x = (case x of None \<Rightarrow> JNull | Some s \<Rightarrow> JStr s)"

definition phase_or :: "json \<Rightarrow> ObservationPhase \<Rightarrow> string" where
  "phase_or v dflt = (case vocab_str v of
     Some s \<Rightarrow> if s \<in> op_value ` set all_phases then s else op_value dflt
   | None \<Rightarrow> op_value dflt)"

definition side_effect_or :: "json \<Rightarrow> SideEffectState \<Rightarrow> string" where
  "side_effect_or v dflt = (case vocab_str v of
     Some s \<Rightarrow> if s \<in> se_value ` set all_side_effects then s else se_value dflt
   | None \<Rightarrow> se_value dflt)"

definition nonempty_str :: "json \<Rightarrow> string option" where
  "nonempty_str v = (case v of JStr s \<Rightarrow> if s = [] then None else Some s | _ \<Rightarrow> None)"

definition signals :: "dict \<Rightarrow> string list" where
  "signals details =
     (let raw = por (dget details ''dom-signals'') (dget details ''provider-signals'') in
      take MAX_SIGNALS (map (take MAX_ID) (List.map_filter nonempty_str (list_of raw))))"

section \<open>Activity labels\<close>

definition ACTIVITY_GROUPS :: "(string \<times> string) list" where
  "ACTIVITY_GROUPS =
    [(''thinking'', ''thinking''), (''thought'', ''thinking''), (''generating'', ''generation''),
     (''response-progress'', ''generation''), (''response-started'', ''generation''),
     (''assistant-message'', ''generation''), (''in-progress'', ''generation''),
     (''talked-to-app'', ''external-app''), (''read-resource'', ''resource-read''),
     (''searching-web'', ''web-search''), (''searching-the-web'', ''web-search''),
     (''called-tool'', ''tool''), (''tool-call'', ''tool''), (''tool-requested'', ''tool''),
     (''tool-result'', ''tool''), (''tool-finished'', ''tool''), (''tool-progress'', ''tool''),
     (''response-observed'', ''completion''), (''response-complete'', ''completion''),
     (''submission-proof'', ''submission'')]"

definition hyphenate :: "string \<Rightarrow> string" where
  "hyphenate s = replace_char (CHR '' '') (CHR ''-'') (replace_char (CHR ''_'') (CHR ''-'') (lower (strip s)))"

definition normalize_activity_label :: "json \<Rightarrow> string option" where
  "normalize_activity_label v = (case v of
     JStr s \<Rightarrow> if strip s = [] then None else Some (take MAX_ID (hyphenate s))
   | _ \<Rightarrow> None)"

definition activity_group :: "json \<Rightarrow> string option" where
  "activity_group v = (case normalize_activity_label v of
     None \<Rightarrow> None
   | Some l \<Rightarrow> if l = [] then None else map_of ACTIVITY_GROUPS l)"

section \<open>Classification\<close>

text \<open>An error as the gateway passes it around: nothing, a mapping, an \<open>AudiaGenticError\<close>
  (code, kind, message, details), or any other exception (class name, whether it is a
  \<open>ValueError\<close>, its text), which carries no \<open>code\<close> or \<open>details\<close> attribute.\<close>

datatype err_in =
    NoErr
  | ErrMap dict
  | ErrAG string string string "dict option"
  | ErrExc string bool string

fun err_code_json :: "err_in \<Rightarrow> json" where
  "err_code_json (ErrMap d) = dget d ''code''"
| "err_code_json (ErrAG c k m d) = JStr c"
| "err_code_json _ = JNull"

fun err_details_dict :: "err_in \<Rightarrow> dict" where
  "err_details_dict (ErrMap d) = obj_of (dget d ''details'')"
| "err_details_dict (ErrAG c k m (Some d)) = d"
| "err_details_dict _ = []"

definition proves_unsent :: "string option \<Rightarrow> dict \<Rightarrow> json \<Rightarrow> bool" where
  "proves_unsent code details side_effect_state \<longleftrightarrow>
     code \<in> {Some ''EXT-GPTAUTO-003'', Some ''EXT-GPTAUTO-004''} \<and>
     (code = Some ''EXT-GPTAUTO-003'' \<or>
      (dget details ''failure-stage'' = JStr ''readiness'' \<and>
       dget details ''previous-turn-unresolved'' = JBool False \<and>
       dget details ''turn-state'' \<in> {JNull, JStr ''not-started'', JStr ''pre-submit''} \<and>
       dget details ''side-effect-state'' \<in> {JNull, JStr ''not-started''} \<and>
       side_effect_state \<in> {JNull, JStr ''not-started''})) \<and>
     dget details ''submission-state'' = JStr ''not_started'' \<and>
     dget details ''submission-attempted'' = JBool False \<and>
     dget details ''submission-proven'' = JBool False \<and>
     dget details ''submission-ambiguous'' = JBool False \<and>
     \<not> truthy (dget details ''side-effect-attempted'') \<and>
     \<not> truthy (dget details ''send-intent-ever'') \<and>
     \<not> truthy (dget details ''send-button-clicked'') \<and>
     \<not> truthy (dget details ''enter-dispatched'')"

definition root_error :: "dict \<Rightarrow> dict" where
  "root_error details = obj_of (dget details ''root-recovery-error'')"

definition root_code :: "dict \<Rightarrow> string option" where
  "root_code details = text_bounded MAX_ID (dget (root_error details) ''code'')"

definition reason_of :: "string option \<Rightarrow> dict \<Rightarrow> string option" where
  "reason_of code details =
     (let reason = text_bounded MAX_ID (por (dget details ''failure-reason'') (dget details ''reason-code'')) in
      if code = Some ''CON-AGW-084'' \<and> reason = None
      then (case root_code details of
              Some r \<Rightarrow> if r = [] then Some ''service-restart'' else Some r
            | None \<Rightarrow> Some ''service-restart'')
      else reason)"

definition wrapped_unsent :: "string option \<Rightarrow> dict \<Rightarrow> json \<Rightarrow> bool" where
  "wrapped_unsent code details side_effect_state \<longleftrightarrow>
     code = Some ''CON-AGW-084'' \<and>
     root_code details = Some ''EXT-GPTAUTO-004'' \<and>
     dget details ''recovery-phase'' \<in> {JStr ''presubmit-retry'', JStr ''presubmit-reconcile''} \<and>
     dget details ''side-effect-state'' = JStr ''not-started'' \<and>
     dget details ''session-fence-state'' = JNull \<and>
     dget details ''turn-state'' \<in> {JNull, JStr ''not-started'', JStr ''pre-submit''} \<and>
     dget details ''submission-state'' \<in> {JNull, JStr ''not_started''} \<and>
     side_effect_state \<in> {JNull, JStr ''not-started''} \<and>
     \<not> list_ex (\<lambda>k. truthy (dget details k))
        [''submission-attempted'', ''submission-proven'', ''submission-ambiguous'',
         ''previous-turn-unresolved'', ''side-effect-attempted'', ''send-intent-ever'',
         ''send-button-clicked'', ''enter-dispatched''] \<and>
     is_dict (dget (root_error details) ''details'') \<and>
     proves_unsent (root_code details) (obj_of (dget (root_error details) ''details'')) side_effect_state"

definition turn_state_text :: "dict \<Rightarrow> string option" where
  "turn_state_text details = vocab_str (dget_or details ''turn-state'' (JStr []))"

definition attempted :: "string option \<Rightarrow> dict \<Rightarrow> json \<Rightarrow> bool" where
  "attempted code details se \<longleftrightarrow>
     truthy (dget details ''submission-attempted'') \<or> truthy (dget details ''side-effect-attempted'') \<or>
     (\<not> proves_unsent code details se \<and> turn_state_text details = Some ''side-effect-attempted'')"

definition proven :: "dict \<Rightarrow> bool" where
  "proven details \<longleftrightarrow> truthy (dget details ''submission-proven'')"

definition ambiguous :: "string option \<Rightarrow> dict \<Rightarrow> json \<Rightarrow> bool" where
  "ambiguous code details se \<longleftrightarrow>
     truthy (dget details ''submission-ambiguous'') \<or>
     (attempted code details se \<and> \<not> proven details) \<or>
     (\<not> proves_unsent code details se \<and>
      turn_state_text details \<in> {Some ''side-effect-attempted'', Some ''submission-ambiguous''})"

type_synonym axes = "FailureClass \<times> EvidenceCertainty \<times> RecoveryDisposition \<times> ObservationPhase \<times> SideEffectState"

definition LIMIT_SIGNALS :: "string set" where
  "LIMIT_SIGNALS = {''rate-limit-dialog'', ''rate-limit'', ''usage-limit''}"

definition classify_axes :: "string option \<Rightarrow> dict \<Rightarrow> json \<Rightarrow> axes" where
  "classify_axes code details se =
    (let reason = reason_of code details; amb = ambiguous code details se in
     if wrapped_unsent code details se then
       (BROWSER_ADAPTER_ERROR, STRONG, RETRY_SAFE, PRE_SUBMIT, NOT_STARTED)
     else if code = Some ''CON-AGW-084'' \<and>
         (case root_code details of Some r \<Rightarrow> starts_with ''EXT-'' r | None \<Rightarrow> False) then
       (PROVIDER_ERROR, STRONG, RECONCILE_REQUIRED, RECONCILIATION, MAY_HAVE_STARTED)
     else if code = Some ''CON-AGW-084'' \<and> reason = Some ''service-restart'' then
       (GATEWAY_RESTART, DEFINITIVE, RECONCILE_REQUIRED, RECONCILIATION, MAY_HAVE_STARTED)
     else if proves_unsent code details se \<and> code = Some ''EXT-GPTAUTO-004'' then
       (BROWSER_ADAPTER_ERROR, STRONG, RETRY_SAFE, PRE_SUBMIT, NOT_STARTED)
     else if amb \<or> code = Some ''EXT-GPTAUTO-004'' then
       (AMBIGUOUS_SIDE_EFFECT, STRONG, OPERATOR_ADOPT_AVAILABLE, RECONCILIATION, MAY_HAVE_STARTED)
     else if code = Some ''EXT-GPTAUTO-002'' \<and> reason = Some ''response-policy-timeout'' then
       (TIMEOUT, STRONG, RECONCILE_REQUIRED, TERMINAL_OBSERVATION, MAY_HAVE_STARTED)
     else if code = Some ''EXT-GPTAUTO-002'' \<and>
         ((case reason of Some r \<Rightarrow> r \<in> LIMIT_SIGNALS | None \<Rightarrow> False) \<or>
          list_ex (\<lambda>s. s \<in> LIMIT_SIGNALS) (signals details)) then
       (PROVIDER_REJECTED, STRONG, RETRY_SAFE, TERMINAL_OBSERVATION, NOT_STARTED)
     else if code = Some ''EXT-GPTAUTO-003'' then
       (BROWSER_ADAPTER_ERROR, (if \<not> amb then WEAK else STRONG),
        (if amb then RECONCILE_REQUIRED else RETRY_SAFE), SUBMISSION_PROOF,
        (if amb then MAY_HAVE_STARTED else NOT_STARTED))
     else if code \<in> {Some ''TO-AGW-076'', Some ''TO-AGW-077''} then
       (TIMEOUT, STRONG, RECONCILE_REQUIRED, IN_PROGRESS, MAY_HAVE_STARTED)
     else if code \<in> {Some ''CON-AGW-071'', Some ''CON-AGW-083'', Some ''CON-AGW-101'', Some ''VAL-AGW-025''} then
       (GATEWAY_OWNERSHIP_QUEUE_ERROR, DEFINITIVE, RETRY_SAFE, OWNERSHIP, NOT_STARTED)
     else if code \<in> {Some ''CON-AGW-CANCELLED'', Some ''CANCELLED''} then
       (CANCELLED, DEFINITIVE, NO_RECOVERY, CANCELLATION, MAY_HAVE_STARTED)
     else if (case code of Some c \<Rightarrow> c \<noteq> [] \<and> starts_with ''EXT-'' c | None \<Rightarrow> False) then
       (PROVIDER_ERROR, STRONG, RECONCILE_REQUIRED, IN_PROGRESS, MAY_HAVE_STARTED)
     else
       (UNKNOWN_FAILURE, UNKNOWN_CERTAINTY, BLOCKED, FINALIZATION, NOT_STARTED))"

fun allowed_actions :: "RecoveryDisposition \<Rightarrow> string list" where
  "allowed_actions RETRY_SAFE = [''clear-not-submitted'']"
| "allowed_actions RECONCILE_REQUIRED = [''reconcile'', ''abandon'']"
| "allowed_actions ADOPT_SAFE = []"
| "allowed_actions OPERATOR_ADOPT_AVAILABLE = [''reconcile'', ''abandon'']"
| "allowed_actions RETIRE_CONVERSATION_REQUIRED = [''abandon'']"
| "allowed_actions BLOCKED = []"
| "allowed_actions NO_RECOVERY = []"

definition recovery_obj :: "string \<Rightarrow> string list \<Rightarrow> json" where
  "recovery_obj disp acts = JObj [(''disposition'', JStr disp), (''allowed-actions'', JList (map JStr acts))]"

definition classify_error :: "err_in \<Rightarrow> json \<Rightarrow> json \<Rightarrow> dict" where
  "classify_error error phase se =
    (let code = text_bounded MAX_ID (err_code_json error);
         details = err_details_dict error;
         (cls, cert, rec, dphase, dse) = classify_axes code details se;
         result =
          [(''version'', JInt 1),
           (''classification'', JStr (fc_value cls)),
           (''certainty'', JStr (ec_value cert)),
           (''phase'', JStr (phase_or phase dphase)),
           (''side-effect-state'', JStr (side_effect_or se dse)),
           (''resolution-state'', JStr (if rec \<notin> {NO_RECOVERY, RETRY_SAFE} then ''unresolved'' else ''resolved'')),
           (''failure-code'', opt_json code),
           (''reason-code'', opt_json (reason_of code details)),
           (''provider-signals'', JList (map JStr (signals details))),
           (''evidence-count'', JInt 1),
           (''coalesced-observation-count'', JInt 0),
           (''recovery'', recovery_obj (rd_value rec) (allowed_actions rec))]
     in if attempted code details se \<and> \<not> proven details then
          dupd result
           [(''classification'', JStr (fc_value AMBIGUOUS_SIDE_EFFECT)),
            (''certainty'', JStr (ec_value STRONG)),
            (''side-effect-state'', JStr (se_value MAY_HAVE_STARTED)),
            (''resolution-state'', JStr ''unresolved''),
            (''recovery'', recovery_obj (rd_value RECONCILE_REQUIRED) [''reconcile'', ''abandon''])]
        else result)"

definition stale_progress_diagnostic :: "json \<Rightarrow> json \<Rightarrow> json \<Rightarrow> dict" where
  "stale_progress_diagnostic phase se reason =
     [(''version'', JInt 1),
      (''classification'', JStr (fc_value STALE_PROGRESS)),
      (''certainty'', JStr (ec_value WEAK)),
      (''phase'', JStr (phase_or phase RECONCILIATION)),
      (''side-effect-state'', JStr (side_effect_or se MAY_HAVE_STARTED)),
      (''resolution-state'', JStr ''unresolved''),
      (''failure-code'', JNull),
      (''reason-code'', opt_json (text_bounded MAX_ID reason)),
      (''provider-signals'', JList []),
      (''evidence-count'', JInt 1),
      (''coalesced-observation-count'', JInt 0),
      (''recovery'', recovery_obj (rd_value RECONCILE_REQUIRED) (allowed_actions RECONCILE_REQUIRED))]"

section \<open>Merging rollups\<close>

definition se_text :: "dict \<Rightarrow> string option" where
  "se_text d = vocab_str (dget_or d ''side-effect-state'' (JStr (se_value NOT_STARTED)))"

definition merge_regress :: "dict \<Rightarrow> dict \<Rightarrow> dict" where
  "merge_regress previous merged =
     (if side_effect_rank (se_text merged) < side_effect_rank (se_text previous) then
        dupd merged
          [(''side-effect-state'', JStr (the (se_text previous))),
           (''classification'', dget_or previous ''classification'' (dget merged ''classification'')),
           (''certainty'', dget_or previous ''certainty'' (dget merged ''certainty'')),
           (''resolution-state'', JStr ''unresolved''),
           (''recovery'', recovery_obj (rd_value RECONCILE_REQUIRED) [''reconcile'', ''abandon''])]
      else merged)"

definition merge_ambiguous :: "dict \<Rightarrow> dict \<Rightarrow> dict \<Rightarrow> dict" where
  "merge_ambiguous previous candidate merged =
     (if dget previous ''classification'' = JStr (fc_value AMBIGUOUS_SIDE_EFFECT) \<and>
         side_effect_rank (se_text candidate) \<le> side_effect_rank (se_text previous)
      then (let m = dset ''classification'' (dget previous ''classification'') merged in
            if dget m ''resolution-state'' \<notin> {JStr ''abandon-requested'', JStr ''reconciliation-requested''}
            then dset ''resolution-state'' (JStr ''unresolved'') m else m)
      else merged)"

definition max_counter :: "string \<Rightarrow> dict \<Rightarrow> dict \<Rightarrow> int res" where
  "max_counter k previous merged =
     rbind (int_or_0 (dget_or previous k (JInt 0))) (\<lambda>p.
     rbind (int_or_0 (dget_or merged k (JInt 0))) (\<lambda>m. Inr (max p m)))"

definition merge_diagnostics :: "json \<Rightarrow> dict \<Rightarrow> dict res" where
  "merge_diagnostics previous candidate = (case previous of
     JObj prev \<Rightarrow>
       (let m1 = merge_regress prev candidate; m2 = merge_ambiguous prev candidate m1 in
        rbind (max_counter ''evidence-count'' prev m2) (\<lambda>ev.
        rbind (max_counter ''coalesced-observation-count'' prev (dset ''evidence-count'' (JInt ev) m2)) (\<lambda>co.
        Inr (dset ''coalesced-observation-count'' (JInt co) (dset ''evidence-count'' (JInt ev) m2)))))
   | _ \<Rightarrow> Inr candidate)"

section \<open>Evidence of one accepted activity\<close>

definition evidence_from_activity ::
    "json \<Rightarrow> json \<Rightarrow> int \<Rightarrow> json \<Rightarrow> json \<Rightarrow> json \<Rightarrow> int \<Rightarrow> json \<Rightarrow> dict" where
  "evidence_from_activity request_id session_id attempt_epoch phase source source_sequence
     activity_sequence se =
     (let label = normalize_activity_label phase;
          base =
           [(''evidence-id'', JStr (''ev_'' @ show_int activity_sequence)),
            (''sequence'', JInt activity_sequence),
            (''request-id'', opt_json (text_bounded MAX_ID request_id)),
            (''session-id'', opt_json (text_bounded MAX_ID session_id)),
            (''attempt-epoch'', JInt attempt_epoch),
            (''phase'', JStr (phase_or phase IN_PROGRESS)),
            (''kind'', JStr ''activity''),
            (''certainty'', JStr (ec_value STRONG)),
            (''side-effect-state'', JStr (side_effect_or se MAY_HAVE_STARTED)),
            (''source'', opt_json (text_bounded MAX_ID source)),
            (''source-sequence'', source_sequence)];
          e1 = (if truthy (opt_json label) then dset ''activity-label'' (opt_json label) base else base);
          g = activity_group (opt_json label)
      in if truthy (opt_json g) then dset ''activity-group'' (opt_json g) e1 else e1)"

section \<open>What a rollup may promise\<close>

lemma recovery_obj_inject [simp]: "recovery_obj a x = recovery_obj b y \<longleftrightarrow> a = b \<and> map JStr x = map JStr y"
  by (simp add: recovery_obj_def)

lemma rd_value_retry_safe: "rd_value r = ''retry-safe'' \<longleftrightarrow> r = RETRY_SAFE"
  by (cases r) simp_all

lemma wrapped_unsent_code: "wrapped_unsent code details se \<Longrightarrow> code = Some ''CON-AGW-084''"
  by (simp add: wrapped_unsent_def)

lemma classify_axes_retry_safe:
  assumes "classify_axes code details se = (cl, ce, RETRY_SAFE, p, s)"
  shows "(code = Some ''EXT-GPTAUTO-004'' \<longrightarrow> proves_unsent code details se) \<and>
    (code = Some ''CON-AGW-084'' \<longrightarrow> wrapped_unsent code details se) \<and>
    (code = Some ''EXT-GPTAUTO-003'' \<longrightarrow> \<not> ambiguous code details se)"
  using assms unfolding classify_axes_def Let_def
  by (auto split: if_split_asm dest: wrapped_unsent_code)



lemma merge_diagnostics_JObj:
  assumes "merge_diagnostics (JObj prev) cand = Inr m"
  obtains ev co where "m = dset ''coalesced-observation-count'' (JInt co) (dset ''evidence-count'' (JInt ev)
      (merge_ambiguous prev cand (merge_regress prev cand)))"
  using assms by (auto simp: merge_diagnostics_def Let_def rbind_eq_Inr)

lemma dget_merge_ambiguous:
  "k \<notin> {''classification'', ''resolution-state''} \<Longrightarrow> dget (merge_ambiguous p c m) k = dget m k"
  by (simp add: merge_ambiguous_def Let_def)

lemma side_effect_rank_None [simp]: "side_effect_rank None = 0"
  by (simp add: side_effect_rank_def)

lemma dget_or_dset: "dget_or (dset k v d) k' x = (if k' = k then v else dget_or d k' x)"
  by (simp add: dget_or_def dset_def update_conv)


lemma se_text_merge_regress:
  "side_effect_rank (se_text (merge_regress p c)) = max (side_effect_rank (se_text p)) (side_effect_rank (se_text c))"
proof (cases "se_text p")
  case (Some s)
  then show ?thesis by (simp add: merge_regress_def se_text_def dget_or_dset max_def)
qed (simp add: merge_regress_def)

lemma se_text_merge_ambiguous [simp]: "se_text (merge_ambiguous p c m) = se_text m"
  by (simp add: merge_ambiguous_def Let_def se_text_def dget_or_dset)

lemma se_text_dset: "k \<noteq> ''side-effect-state'' \<Longrightarrow> se_text (dset k v d) = se_text d"
  by (simp add: se_text_def dget_or_dset)

text \<open>C28: Merging a new rollup never lowers the side-effect certainty of the record: it takes the larger
  rank; when the new rollup claims less, reconciliation is required and the rollup is unresolved; and an
  ambiguous classification stays, unresolved, until a stronger observation arrives.\<close>

theorem merge_never_regresses:
  assumes "merge_diagnostics (JObj prev) cand = Inr m"
  shows "side_effect_rank (se_text m) = max (side_effect_rank (se_text prev)) (side_effect_rank (se_text cand)) \<and>
    (side_effect_rank (se_text cand) < side_effect_rank (se_text prev) \<longrightarrow>
       dget m ''recovery'' = recovery_obj ''reconcile-required'' [''reconcile'', ''abandon''] \<and>
       dget m ''resolution-state'' = JStr ''unresolved'') \<and>
    (dget prev ''classification'' = JStr ''ambiguous-side-effect'' \<and>
       side_effect_rank (se_text cand) \<le> side_effect_rank (se_text prev) \<longrightarrow>
       dget m ''classification'' = JStr ''ambiguous-side-effect'' \<and> dget m ''resolution-state'' \<noteq> JStr ''resolved'')"
proof -
  from assms obtain ev co where m: "m = dset ''coalesced-observation-count'' (JInt co) (dset ''evidence-count'' (JInt ev)
      (merge_ambiguous prev cand (merge_regress prev cand)))" by (rule merge_diagnostics_JObj)
  have "side_effect_rank (se_text m) = max (side_effect_rank (se_text prev)) (side_effect_rank (se_text cand))"
    by (simp add: m se_text_dset se_text_merge_regress)
  moreover have "side_effect_rank (se_text cand) < side_effect_rank (se_text prev) \<Longrightarrow>
       dget m ''recovery'' = recovery_obj ''reconcile-required'' [''reconcile'', ''abandon''] \<and>
       dget m ''resolution-state'' = JStr ''unresolved''"
    by (simp add: m merge_ambiguous_def merge_regress_def Let_def)
  moreover have "dget prev ''classification'' = JStr ''ambiguous-side-effect'' \<Longrightarrow>
       side_effect_rank (se_text cand) \<le> side_effect_rank (se_text prev) \<Longrightarrow>
       dget m ''classification'' = JStr ''ambiguous-side-effect'' \<and> dget m ''resolution-state'' \<noteq> JStr ''resolved''"
    by (auto simp: m merge_ambiguous_def Let_def)
  ultimately show ?thesis by blast
qed

theorem merge_never_regresses_witness:
  "\<exists>m. merge_diagnostics (JObj [(''side-effect-state'', JStr ''submission-proven'')])
      [(''side-effect-state'', JStr ''not-started'')] = Inr m \<and>
    side_effect_rank (se_text m) = 2 \<and> dget m ''resolution-state'' = JStr ''unresolved''"
proof -
  let ?p = "[(''side-effect-state'', JStr ''submission-proven'')]" and ?c = "[(''side-effect-state'', JStr ''not-started'')]"
  have "\<not> isl (merge_diagnostics (JObj ?p) ?c)" by code_simp
  then obtain m where m: "merge_diagnostics (JObj ?p) ?c = Inr m" by (cases "merge_diagnostics (JObj ?p) ?c") auto
  moreover have "side_effect_rank (se_text ?p) = 2" "side_effect_rank (se_text ?c) = 0" by code_simp+
  ultimately show ?thesis using merge_never_regresses [OF m] by simp
qed

end
