(* ===== verification/Error_Projection.thy ===== *)
theory Error_Projection
  imports Diagnostics
begin

text \<open>
  What of an error reaches a durable request record (\<open>gateway/store/_records.py\<close> and
  \<open>extract_worker_evidence\<close> of \<open>_shared.py\<close>): the public summary \<open>code/message/kind\<close>, the
  allow-listed projections of provider details, and the flat, truncated root-error summary
  that the recovery trail keeps.  The facts show that nothing but these fields survives
  and that the summary is bounded.
\<close>

section \<open>Bounded recovery error\<close>

definition RECOVERY_ERROR_MAX_CODE :: nat where "RECOVERY_ERROR_MAX_CODE = 128"
definition RECOVERY_ERROR_MAX_KIND :: nat where "RECOVERY_ERROR_MAX_KIND = 64"
definition RECOVERY_ERROR_MAX_DETAIL_KEYS :: nat where "RECOVERY_ERROR_MAX_DETAIL_KEYS = 16"
definition RECOVERY_ERROR_MAX_DETAIL_STR :: nat where "RECOVERY_ERROR_MAX_DETAIL_STR = 256"
definition RECOVERY_ERROR_MAX_DETAIL_ITEMS :: nat where "RECOVERY_ERROR_MAX_DETAIL_ITEMS = 8"

fun bounded_item :: "json \<Rightarrow> json option" where
  "bounded_item (JStr s) = Some (JStr (take 128 (remove_char (CHR 0x00) s)))"
| "bounded_item (JList _) = None"
| "bounded_item (JObj _) = None"
| "bounded_item v = Some v"

fun bounded_recovery_error_scalar :: "json \<Rightarrow> json" where
  "bounded_recovery_error_scalar (JStr s) =
     (let t = take RECOVERY_ERROR_MAX_DETAIL_STR (remove_char (CHR 0x00) s) in
      if t = [] then JNull else JStr t)"
| "bounded_recovery_error_scalar (JList xs) =
     (let items = List.map_filter bounded_item (take RECOVERY_ERROR_MAX_DETAIL_ITEMS xs) in
      if items = [] then JNull else JList items)"
| "bounded_recovery_error_scalar (JObj _) = JNull"
| "bounded_recovery_error_scalar v = v"

text \<open>The loop over the detail items: stop at the key limit, truncate keys, drop what has no
  bounded value.\<close>

fun bounded_details :: "dict \<Rightarrow> dict \<Rightarrow> dict" where
  "bounded_details acc [] = acc"
| "bounded_details acc ((k, v) # d) =
     (if RECOVERY_ERROR_MAX_DETAIL_KEYS \<le> length acc then acc
      else let b = bounded_recovery_error_scalar v in
        bounded_details (if b = JNull then acc else dset (take RECOVERY_ERROR_MAX_KIND k) b acc) d)"

fun clip :: "nat \<Rightarrow> json \<Rightarrow> json" where
  "clip n (JStr s) = JStr (take n s)"
| "clip n _ = JNull"

definition bounded_projection :: "json \<Rightarrow> json \<Rightarrow> json \<Rightarrow> json \<Rightarrow> dict" where
  "bounded_projection code type_name kind details =
     (let base = [(''code'', clip RECOVERY_ERROR_MAX_CODE code),
                  (''type'', clip RECOVERY_ERROR_MAX_CODE type_name),
                  (''kind'', clip RECOVERY_ERROR_MAX_KIND kind)];
          bd = bounded_details [] (obj_of details)
      in if bd = [] then base else dset ''details'' (JObj (redact_details bd)) base)"

fun bounded_recovery_error :: "err_in \<Rightarrow> dict option" where
  "bounded_recovery_error NoErr = None"
| "bounded_recovery_error (ErrAG c k m d) =
     Some (bounded_projection (JStr c) (JStr ''AudiaGenticError'') (JStr k)
             (case d of None \<Rightarrow> JNull | Some e \<Rightarrow> JObj e))"
| "bounded_recovery_error (ErrMap d) =
     Some (bounded_projection (dget d ''code'') (por (dget d ''type'') (JStr ''dict'')) (dget d ''kind'')
             (dget d ''details''))"
| "bounded_recovery_error (ErrExc nm b txt) =
     Some (bounded_projection JNull (JStr nm) JNull JNull)"

section \<open>Public projections of details\<close>

definition BOUNDED_RECOVERY_ERROR_SCALAR_KEYS :: "string list" where
  "BOUNDED_RECOVERY_ERROR_SCALAR_KEYS = [''recovery-attempt'', ''recovery-max-attempts'',
     ''recovery-phase'', ''side-effect-state'', ''session-fence-state'']"

fun recovery_scalar :: "json \<Rightarrow> json option" where
  "recovery_scalar JNull = Some JNull"
| "recovery_scalar (JBool b) = Some (JBool b)"
| "recovery_scalar (JInt i) = Some (JInt i)"
| "recovery_scalar (JStr s) = Some (JStr (take RECOVERY_ERROR_MAX_KIND s))"
| "recovery_scalar _ = None"

fun project_scalars :: "dict \<Rightarrow> string list \<Rightarrow> dict" where
  "project_scalars details [] = []"
| "project_scalars details (k # ks) =
     (case recovery_scalar (dget details k) of
        Some v \<Rightarrow> (k, v) # project_scalars details ks
      | None \<Rightarrow> project_scalars details ks)"

definition project_root_error :: "dict \<Rightarrow> dict" where
  "project_root_error rt =
     (let keep = (\<lambda>k. case dget rt k of JStr s \<Rightarrow> [(k, JStr (take RECOVERY_ERROR_MAX_CODE s))] | _ \<Rightarrow> []);
          base = keep ''code'' @ keep ''type'' @ keep ''kind'';
          bd = bounded_details [] (obj_of (dget rt ''details''))
      in if bd = [] then base else base @ [(''details'', JObj (redact_details bd))])"

definition project_bounded_recovery_error_details :: "dict \<Rightarrow> dict" where
  "project_bounded_recovery_error_details details =
     (let p = project_scalars details BOUNDED_RECOVERY_ERROR_SCALAR_KEYS;
          p1 = (if dget details ''submission-proven'' \<noteq> JNull
                then p @ [(''submission-proven'', JBool (truthy (dget details ''submission-proven'')))] else p);
          rt = project_root_error (obj_of (dget details ''root-recovery-error''))
      in if rt = [] then p1 else p1 @ [(''root-recovery-error'', JObj rt)])"

definition GPT_AUTO_DETAIL_KEYS :: "string list" where
  "GPT_AUTO_DETAIL_KEYS = [''turn-id'', ''phase'', ''turn-state'', ''chat-state'', ''failure-reason'',
     ''recovery-reason'', ''recovery-details'', ''suggestion'', ''prompt-id-available'',
     ''prompt-text-digest-available'', ''prompt-text-digest'', ''expected-prompt-id'',
     ''observed-latest-user-id'', ''observed-user-id'', ''observed-assistant-id'',
     ''expected-assistant-id'', ''assistant-before-id'', ''assistant-before-message-id'',
     ''provider-session-id'', ''target-id'', ''page-handle'', ''observed-url'', ''observation-state'',
     ''observed-user-count'', ''observed-assistant-count'', ''observed-user-text-length'',
     ''assistant-text-length'', ''composer-present'', ''composer-editable'', ''user-text-present'',
     ''generating'', ''error-present'', ''dom-signals'', ''observation-markers'',
     ''expected-prompt-length'', ''prompt-text-match'', ''matched-user-count'', ''matching-user-count'',
     ''required-signal'', ''observed-dom-signals'', ''timeout-policy'', ''submission-confirmed'',
     ''submission-ambiguous'', ''submission-attempted'', ''submission-proven'', ''submission-state'',
     ''failure-stage'', ''retryable-same-session'', ''previous-turn-unresolved'', ''send-intent-ever'',
     ''submission-stage'', ''action-complete'', ''send-button-clicked'', ''enter-dispatched'',
     ''typed-text-length'', ''typed-text-match'', ''cause-type'', ''failure-response-available'',
     ''failure-response-message-id'', ''failure-response-source'', ''failure-response-truncated'']"

fun project_gpt_auto_error_details :: "dict \<Rightarrow> dict" where
  "project_gpt_auto_error_details [] = []"
| "project_gpt_auto_error_details ((k, v) # d) =
     (if k \<notin> set GPT_AUTO_DETAIL_KEYS then project_gpt_auto_error_details d
      else case v of
        JObj e \<Rightarrow> (let n = project_gpt_auto_error_details e in
                   if n = [] then project_gpt_auto_error_details d
                   else (k, JObj n) # project_gpt_auto_error_details d)
      | JStr s \<Rightarrow> if k = ''recovery-details'' then project_gpt_auto_error_details d
                  else (k, JStr (if 256 < length s then take 256 s @ ''...'' else s))
                       # project_gpt_auto_error_details d
      | JList xs \<Rightarrow> if k = ''recovery-details'' then project_gpt_auto_error_details d
                  else (k, JList (take 32 xs)) # project_gpt_auto_error_details d
      | w \<Rightarrow> if k = ''recovery-details'' then project_gpt_auto_error_details d
                  else (k, w) # project_gpt_auto_error_details d)"

definition ACP_DETAIL_KEYS :: "string list" where
  "ACP_DETAIL_KEYS = [''stop-reason'', ''reason-code'', ''failed-tool-call-count'',
     ''failed-tool-call-ids'', ''assistant-output-available'']"

fun acp_value :: "json \<Rightarrow> json option" where
  "acp_value (JList xs) = Some (JList (take 8 xs))"
| "acp_value (JObj _) = None"
| "acp_value v = Some v"

fun project_acp_error_details :: "dict \<Rightarrow> dict" where
  "project_acp_error_details [] = []"
| "project_acp_error_details ((k, v) # d) =
     (if k \<notin> set ACP_DETAIL_KEYS then project_acp_error_details d
      else case acp_value v of Some w \<Rightarrow> (k, w) # project_acp_error_details d
                             | None \<Rightarrow> project_acp_error_details d)"

definition SESSION_DETAIL_KEYS :: "string list" where
  "SESSION_DETAIL_KEYS = [''session-id'', ''state'', ''close-reason'', ''suggestion'', ''created-at'',
     ''last-activity-at'', ''updated-at'', ''closed-at'', ''provider-provider-session-id'',
     ''provider-chat-url'', ''provider-unresolved-turn-pending'', ''failure-reason'', ''runtime-state'',
     ''prompt-submission'', ''recovery-action'', ''durable-session-state'', ''durable-session-retained'',
     ''provider-binding-retained'', ''auto-resume-attempted'', ''auto-resume-refusal-code'']"

fun session_value :: "json \<Rightarrow> json option" where
  "session_value (JStr s) = Some (JStr (take 512 s))"
| "session_value (JList _) = None"
| "session_value (JObj _) = None"
| "session_value v = Some v"

fun project_session_error_details :: "dict \<Rightarrow> dict" where
  "project_session_error_details [] = []"
| "project_session_error_details ((k, v) # d) =
     (if k \<notin> set SESSION_DETAIL_KEYS then project_session_error_details d
      else case session_value v of Some w \<Rightarrow> (k, w) # project_session_error_details d
                                 | None \<Rightarrow> project_session_error_details d)"

definition project_internal_error_details :: "dict \<Rightarrow> dict" where
  "project_internal_error_details details = (case dget details ''original-type'' of
     JStr s \<Rightarrow> if s = [] then [] else [(''original-type'', JStr (take 128 s))]
   | _ \<Rightarrow> [])"

section \<open>Redacted error summary\<close>

definition REDACTED_ERROR_KEYS :: "string list" where
  "REDACTED_ERROR_KEYS = [''code'', ''message'', ''kind'']"

definition with_details :: "dict \<Rightarrow> dict \<Rightarrow> dict" where
  "with_details projected details =
     (if details = [] then projected else dset ''details'' (JObj details) projected)"

definition redact_error :: "err_in \<Rightarrow> json" where
  "redact_error error = (case error of
     NoErr \<Rightarrow> JNull
   | ErrAG code kind msg details \<Rightarrow>
       (let p = [(''code'', JStr code), (''message'', JStr msg), (''kind'', JStr kind)] in
        JObj (case details of None \<Rightarrow> p | Some d \<Rightarrow>
          if starts_with ''EXT-GPTAUTO-'' code then with_details p (project_gpt_auto_error_details d)
          else if starts_with ''EXT-ACP-'' code then with_details p (project_acp_error_details d)
          else if code = ''RES-AGW-003'' then with_details p (project_session_error_details d)
          else if code = ''CON-AGW-084'' then with_details p (project_bounded_recovery_error_details d)
          else if code = ''INT-AGW-098'' then with_details p (project_internal_error_details d)
          else p))
   | ErrExc nm is_value_error txt \<Rightarrow>
       if is_value_error \<and> txt \<noteq> []
       then JObj [(''code'', JStr ''VAL-AGW-999''), (''message'', JStr txt), (''kind'', JStr nm)]
       else JObj [(''code'', JStr ''UNKNOWN''), (''message'', JStr ''unexpected error (see server logs)''),
                  (''kind'', JStr nm)]
   | ErrMap e \<Rightarrow>
       (let p = filter (\<lambda>(k, v). k \<in> set REDACTED_ERROR_KEYS) e;
            code = dget e ''code'' in
        JObj (case dget e ''details'' of
          JObj d \<Rightarrow>
            if (case code of JStr c \<Rightarrow> starts_with ''EXT-GPTAUTO-'' c | _ \<Rightarrow> False)
            then with_details p (project_gpt_auto_error_details d)
            else if code = JStr ''CON-AGW-084'' then with_details p (project_bounded_recovery_error_details d)
            else if code = JStr ''INT-AGW-098'' then with_details p (project_internal_error_details d)
            else p
        | _ \<Rightarrow> p)))"

text \<open>\<open>extract_worker_evidence\<close>: only an \<open>INT-AGW-076\<close> error carries one.\<close>

definition MAX_WORKER_EVIDENCE :: nat where
  "MAX_WORKER_EVIDENCE = 2 * 1024"

definition extract_worker_evidence :: "err_in \<Rightarrow> json option" where
  "extract_worker_evidence error = (case error of
     ErrAG code kind msg (Some d) \<Rightarrow>
       if code \<noteq> ''INT-AGW-076'' then None
       else (case dget d ''worker-diagnostic'' of
          JStr diag \<Rightarrow>
            if diag = [] then None
            else Some (JObj [(''error-type'', JStr ''_Error''),
              (''worker-diagnostic'', JStr (if MAX_WORKER_EVIDENCE < length diag
                 then take MAX_WORKER_EVIDENCE diag @ [CHR 0x0A] @ ''<truncated>'' else diag))])
        | _ \<Rightarrow> None)
   | _ \<Rightarrow> None)"

section \<open>What survives, and how much\<close>

lemma with_details_keys:
  "fst ` set (with_details p d) \<subseteq> insert ''details'' (fst ` set p)"
  by (auto simp: with_details_def dset_def update_keys dom_def
      simp flip: set_map split: if_splits)

lemma redact_error_keys:
  assumes "redact_error e = JObj d"
  shows "fst ` set d \<subseteq> set (''details'' # REDACTED_ERROR_KEYS)"
  using assms
  by (auto simp: redact_error_def REDACTED_ERROR_KEYS_def Let_def
      split: err_in.splits option.splits if_splits json.splits dest!: with_details_keys[THEN subsetD])

section \<open>The recovery trail is bounded\<close>

definition small_entry :: "string \<times> json \<Rightarrow> bool" where
  "small_entry e \<longleftrightarrow> length (fst e) \<le> RECOVERY_ERROR_MAX_KIND \<and>
     (\<forall>(k, s) \<in> set (leaves (fst e) (snd e)). k = fst e \<and> length s \<le> RECOVERY_ERROR_MAX_DETAIL_STR)"

lemma leaves_items_concat: "leaves_items k xs = concat (map (leaves k) xs)"
  by (induction xs) auto

lemma leaves_bounded_item:
  "bounded_item v = Some w \<Longrightarrow> (k', s) \<in> set (leaves k w) \<Longrightarrow> k' = k \<and> length s \<le> 128"
  by (cases v) auto

lemma leaves_bounded_scalar:
  assumes "(k', s) \<in> set (leaves k (bounded_recovery_error_scalar v))"
  shows "k' = k \<and> length s \<le> RECOVERY_ERROR_MAX_DETAIL_STR"
proof (cases v)
  case (JList xs)
  with assms obtain x w where "bounded_item x = Some w" "(k', s) \<in> set (leaves k w)"
    by (auto simp: Let_def leaves_items_concat List.map_filter_def split: if_split_asm)
  from leaves_bounded_item [OF this] show ?thesis by (simp add: RECOVERY_ERROR_MAX_DETAIL_STR_def)
qed (use assms in \<open>auto simp: Let_def split: if_split_asm\<close>)

lemma small_entry_scalar: "small_entry (take RECOVERY_ERROR_MAX_KIND k, bounded_recovery_error_scalar v)"
  by (auto simp: small_entry_def dest: leaves_bounded_scalar)

lemma set_dset: "x \<in> set (dset k v d) \<Longrightarrow> x = (k, v) \<or> x \<in> set d"
  by (induction d) (auto simp: dset_def split: if_split_asm)

lemma length_dset: "length (dset k v d) \<le> Suc (length d)"
  by (induction d) (auto simp: dset_def)

lemma bounded_details_small:
  assumes "length acc \<le> RECOVERY_ERROR_MAX_DETAIL_KEYS" "\<forall>e \<in> set acc. small_entry e"
  shows "length (bounded_details acc d) \<le> RECOVERY_ERROR_MAX_DETAIL_KEYS \<and> (\<forall>e \<in> set (bounded_details acc d). small_entry e)"
  using assms
proof (induction d arbitrary: acc)
  case (Cons kv d)
  obtain k v where kv: "kv = (k, v)" by fastforce
  define b where "b = bounded_recovery_error_scalar v"
  define acc' where "acc' = (if b = JNull then acc else dset (take RECOVERY_ERROR_MAX_KIND k) b acc)"
  show ?case
  proof (cases "RECOVERY_ERROR_MAX_DETAIL_KEYS \<le> length acc")
    case True
    with Cons.prems show ?thesis by (simp add: kv)
  next
    case False
    then have "length acc' \<le> RECOVERY_ERROR_MAX_DETAIL_KEYS"
      using length_dset [of "take RECOVERY_ERROR_MAX_KIND k" b acc] by (simp add: acc'_def)
    moreover have "\<forall>e \<in> set acc'. small_entry e"
      using Cons.prems(2) small_entry_scalar [of k v] by (auto simp: acc'_def b_def dest: set_dset split: if_split_asm)
    ultimately have "length (bounded_details acc' d) \<le> RECOVERY_ERROR_MAX_DETAIL_KEYS \<and> (\<forall>e \<in> set (bounded_details acc' d). small_entry e)"
      by (rule Cons.IH)
    moreover have "bounded_details acc (kv # d) = bounded_details acc' d"
      using False by (simp add: kv Let_def b_def acc'_def)
    ultimately show ?thesis by simp
  qed
qed simp

lemma length_redact_str: "length (redact_str k s) \<le> max 10 (length s) \<or> DETAILS_MAX_OUTPUT < length s"
  by (auto simp: redact_str_def)

lemma small_redact:
  assumes "small_entry (k, v)" shows "small_entry (k, redact_value k v)"
proof -
  have "length (redact_str k s) \<le> RECOVERY_ERROR_MAX_DETAIL_STR" if "length s \<le> RECOVERY_ERROR_MAX_DETAIL_STR" for s
    using length_redact_str [of k s] that by (simp add: RECOVERY_ERROR_MAX_DETAIL_STR_def DETAILS_MAX_OUTPUT_def)
  with assms show ?thesis by (auto simp: small_entry_def leaves_redact)
qed

lemma redact_pairs_map: "redact_pairs d = map (\<lambda>(k, v). (k, redact_value k v)) d"
  by (induction d) auto

lemma bounded_projection_details:
  "obj_of (dget (bounded_projection c t k d) ''details'') = redact_details (bounded_details [] (obj_of d))"
  by (simp add: bounded_projection_def Let_def dget_Cons redact_details_def)

lemma clip_small: "clip n v = JStr s \<Longrightarrow> length s \<le> n"
  by (cases v) auto

lemma bounded_projection_keys:
  "map fst (bounded_projection c t k d) \<in> {[''code'', ''type'', ''kind''], [''code'', ''type'', ''kind'', ''details'']}"
  by (simp add: bounded_projection_def Let_def dset_def)

lemma bounded_projection_clip:
  "dget (bounded_projection c t k d) ''code'' = clip 128 c" "dget (bounded_projection c t k d) ''type'' = clip 128 t"
  "dget (bounded_projection c t k d) ''kind'' = clip 64 k"
  by (simp_all add: bounded_projection_def Let_def dget_Cons RECOVERY_ERROR_MAX_KIND_def RECOVERY_ERROR_MAX_CODE_def)

lemma bounded_projection_fields:
  assumes "f \<in> {''code'', ''type'', ''kind''}" "dget (bounded_projection c t k d) f = JStr s"
  shows "length s \<le> 128"
proof -
  from assms consider "clip 128 c = JStr s" | "clip 128 t = JStr s" | "clip 64 k = JStr s"
    by (elim insertE emptyE) (simp_all add: bounded_projection_clip)
  then show ?thesis by cases (drule clip_small, simp)+
qed

lemma bounded_recovery_error_Some:
  "bounded_recovery_error e = Some d \<Longrightarrow> \<exists>c t k ds. d = bounded_projection c t k ds"
  by (cases e) auto

text \<open>The error summary the recovery trail keeps is flat and bounded, whatever the error: four
  fields, at most 16 details, keys of at most 64 and strings of at most 256 characters.\<close>

theorem recovery_error_bounded:
  assumes "bounded_recovery_error e = Some d"
  shows "set (map fst d) \<subseteq> {''code'', ''type'', ''kind'', ''details''} \<and>
    (\<forall>f s. f \<in> {''code'', ''type'', ''kind''} \<and> dget d f = JStr s \<longrightarrow> length s \<le> 128) \<and>
    length (obj_of (dget d ''details'')) \<le> 16 \<and>
    (\<forall>(k, v) \<in> set (obj_of (dget d ''details'')). length k \<le> 64 \<and> (\<forall>(k', s) \<in> set (leaves k v). k' = k \<and> length s \<le> 256))"
proof -
  from bounded_recovery_error_Some [OF assms] obtain c t k ds where d: "d = bounded_projection c t k ds" by blast
  let ?bd = "bounded_details [] (obj_of ds)"
  have "length ?bd \<le> 16" "\<forall>e \<in> set ?bd. small_entry e"
    using bounded_details_small [of "[]" "obj_of ds"] by (auto simp: RECOVERY_ERROR_MAX_DETAIL_KEYS_def)
  then have "length (obj_of (dget d ''details'')) \<le> 16" "\<forall>e \<in> set (obj_of (dget d ''details'')). small_entry e"
    by (auto simp: d bounded_projection_details redact_details_def redact_pairs_map small_redact)
  moreover have "set (map fst d) \<subseteq> {''code'', ''type'', ''kind'', ''details''}"
    using bounded_projection_keys [of c t k ds] unfolding d by (elim insertE emptyE) (simp_all only: list.set, blast+)
  moreover have "\<forall>f s. f \<in> {''code'', ''type'', ''kind''} \<and> dget d f = JStr s \<longrightarrow> length s \<le> 128"
    unfolding d by (intro allI impI) (elim conjE, rule bounded_projection_fields)
  ultimately show ?thesis
    by (simp add: small_entry_def RECOVERY_ERROR_MAX_KIND_def RECOVERY_ERROR_MAX_DETAIL_STR_def split_beta)
qed

end
