(* ===== verification/Node_Contracts.thy ===== *)
theory Node_Contracts
  imports Errors
begin

text \<open>
  The frozen node contracts of \<open>gateway/node/contracts.py\<close>, \<open>preparation.py\<close> and
  \<open>admission_contract.py\<close>: bounded identifiers and integers, the command identity, the
  preparation attestation, the admission descriptor and the validation of a final command.
  Every \<open>from_mapping\<close> accepts exactly the declared field set.  SHA-256 and the canonical
  JSON text are parameters (\<open>hashlib\<close> and \<open>json.dumps\<close>); \<open>_freeze\<close>, which decides
  what may be serialised at all, is modelled.
\<close>

record crypto =
  sha256_hex :: "string \<Rightarrow> string"
  canonical_text :: "json \<Rightarrow> string"

abbreviation invalid :: "string \<Rightarrow> py_error" where
  "invalid msg \<equiv> AG ''VAL-AGND-001'' msg []"

abbreviation conflict :: "string \<Rightarrow> py_error" where
  "conflict msg \<equiv> AG ''CON-AGND-001'' msg []"

section \<open>Identifiers, integers, digests\<close>

definition alnum :: "char \<Rightarrow> bool" where
  "alnum c \<longleftrightarrow> is_upper c \<or> is_lower c \<or> is_digit c"

definition identifier_match :: "string \<Rightarrow> bool" where
  "identifier_match s \<longleftrightarrow> (case s of [] \<Rightarrow> False | c # cs \<Rightarrow>
     alnum c \<and> length cs \<le> 199 \<and> list_all (\<lambda>x. alnum x \<or> x \<in> set ''_.:-'') cs)"

fun node_identifier :: "json \<Rightarrow> string res" where
  "node_identifier (JStr s) = (if identifier_match s then Inr s else Inl (invalid ''Invalid node contract identifier''))"
| "node_identifier _ = Inl (invalid ''Invalid node contract identifier'')"

fun integer_min :: "int \<Rightarrow> json \<Rightarrow> int res" where
  "integer_min lo (JInt i) = (if lo \<le> i \<and> i \<le> 2 ^ 63 - 1 then Inr i else Inl (invalid ''Invalid node contract integer''))"
| "integer_min lo _ = Inl (invalid ''Invalid node contract integer'')"

definition hex_char :: "char \<Rightarrow> bool" where
  "hex_char c \<longleftrightarrow> is_digit c \<or> (97 \<le> (of_char c :: nat) \<and> (of_char c :: nat) \<le> 102)"

fun is_sha256_hex :: "json \<Rightarrow> bool" where
  "is_sha256_hex (JStr s) = (length s = 64 \<and> list_all hex_char s)"
| "is_sha256_hex _ = False"

definition sha_or :: "string \<Rightarrow> json \<Rightarrow> string res" where
  "sha_or msg v = (case v of JStr s \<Rightarrow> if is_sha256_hex v then Inr s else Inl (invalid msg)
     | _ \<Rightarrow> Inl (invalid msg))"

definition sha_field :: "json \<Rightarrow> string res" where
  "sha_field v = sha_or ''Preparation fingerprint must be lowercase SHA256'' v"

definition exact_fields :: "string list \<Rightarrow> string \<Rightarrow> json \<Rightarrow> dict res" where
  "exact_fields names msg v = (case v of
     JObj d \<Rightarrow> if set (map fst d) = set names then Inr d else Inl (invalid msg)
   | _ \<Rightarrow> Inl (invalid msg))"

section \<open>Canonical JSON\<close>

definition PRIVATE_KEYS :: "string list" where
  "PRIVATE_KEYS = [''native-ref'', ''native-reference'', ''native-locator'', ''native_ref'',
     ''native_reference'', ''native_locator'', ''native-correlation'', ''native_correlation'']"

fun freezable :: "nat \<Rightarrow> json \<Rightarrow> bool"
  and freezable_pairs :: "nat \<Rightarrow> dict \<Rightarrow> bool"
  and freezable_items :: "nat \<Rightarrow> json list \<Rightarrow> bool" where
  "freezable depth (JObj d) = (depth \<le> 64 \<and> \<not> list_ex (\<lambda>k. k \<in> set PRIVATE_KEYS) (map fst d)
      \<and> freezable_pairs (Suc depth) d)"
| "freezable depth (JList xs) = (depth \<le> 64 \<and> freezable_items (Suc depth) xs)"
| "freezable depth v = (depth \<le> 64)"
| "freezable_pairs depth [] = True"
| "freezable_pairs depth ((k, v) # d) = (freezable depth v \<and> freezable_pairs depth d)"
| "freezable_items depth [] = True"
| "freezable_items depth (x # xs) = (freezable depth x \<and> freezable_items depth xs)"

definition canonical_json :: "crypto \<Rightarrow> json \<Rightarrow> string res" where
  "canonical_json C v = (if freezable 0 v then Inr (canonical_text C v)
     else Inl (invalid ''Invalid or private node payload field''))"

definition canonical_digest :: "crypto \<Rightarrow> json \<Rightarrow> string res" where
  "canonical_digest C v = rbind (canonical_json C v) (\<lambda>t. Inr (sha256_hex C t))"

section \<open>Command identity\<close>

record CommandIdentity =
  ci_command_id :: string
  ci_request_id :: string
  ci_node_id :: string
  ci_node_epoch :: string
  ci_gateway_owner_epoch :: string
  ci_connection_generation :: int
  ci_workspace_id :: string
  ci_grant_revision :: int
  ci_binding_generation :: int
  ci_payload_sha256 :: string
  ci_execution_profile_id :: string

definition identity_to_mapping :: "CommandIdentity \<Rightarrow> dict" where
  "identity_to_mapping c =
     [(''command-id'', JStr (ci_command_id c)), (''request-id'', JStr (ci_request_id c)),
      (''node-id'', JStr (ci_node_id c)), (''node-epoch'', JStr (ci_node_epoch c)),
      (''gateway-owner-epoch'', JStr (ci_gateway_owner_epoch c)),
      (''connection-generation'', JInt (ci_connection_generation c)),
      (''workspace-id'', JStr (ci_workspace_id c)), (''grant-revision'', JInt (ci_grant_revision c)),
      (''binding-generation'', JInt (ci_binding_generation c)),
      (''payload-sha256'', JStr (ci_payload_sha256 c)),
      (''execution-profile-id'', JStr (ci_execution_profile_id c))]"

definition identity_names :: "string list" where
  "identity_names = [''command-id'', ''request-id'', ''node-id'', ''node-epoch'', ''gateway-owner-epoch'',
     ''connection-generation'', ''workspace-id'', ''grant-revision'', ''binding-generation'',
     ''payload-sha256'', ''execution-profile-id'']"

definition identity_from_mapping :: "json \<Rightarrow> CommandIdentity res" where
  "identity_from_mapping v =
     rbind (exact_fields identity_names ''Invalid command identity fields'' v) (\<lambda>d.
     rbind (node_identifier (dget d ''command-id'')) (\<lambda>c.
     rbind (node_identifier (dget d ''request-id'')) (\<lambda>r.
     rbind (node_identifier (dget d ''node-id'')) (\<lambda>n.
     rbind (node_identifier (dget d ''node-epoch'')) (\<lambda>ne.
     rbind (node_identifier (dget d ''gateway-owner-epoch'')) (\<lambda>oe.
     rbind (integer_min 1 (dget d ''connection-generation'')) (\<lambda>cg.
     rbind (node_identifier (dget d ''workspace-id'')) (\<lambda>w.
     rbind (integer_min 1 (dget d ''grant-revision'')) (\<lambda>gr.
     rbind (integer_min 1 (dget d ''binding-generation'')) (\<lambda>bg.
     rbind (sha_or ''Invalid command payload digest'' (dget d ''payload-sha256'')) (\<lambda>ps.
     rbind (node_identifier (dget d ''execution-profile-id'')) (\<lambda>ep.
     Inr \<lparr>ci_command_id = c, ci_request_id = r, ci_node_id = n, ci_node_epoch = ne, ci_gateway_owner_epoch = oe,
          ci_connection_generation = cg, ci_workspace_id = w, ci_grant_revision = gr,
          ci_binding_generation = bg, ci_payload_sha256 = ps, ci_execution_profile_id = ep\<rparr>))))))))))))"

definition wf_identity :: "CommandIdentity \<Rightarrow> bool" where
  "wf_identity c \<longleftrightarrow>
     list_all identifier_match [ci_command_id c, ci_request_id c, ci_node_id c, ci_node_epoch c,
       ci_gateway_owner_epoch c, ci_workspace_id c, ci_execution_profile_id c] \<and>
     list_all (\<lambda>i. 1 \<le> i \<and> i \<le> 2 ^ 63 - 1) [ci_connection_generation c, ci_grant_revision c, ci_binding_generation c] \<and>
     is_sha256_hex (JStr (ci_payload_sha256 c))"

section \<open>Preparation contracts\<close>

record PromptSemanticIdentity =
  sem_composition :: string
  sem_prompt_definition :: string
  sem_prompt_id :: string
  sem_execution_profile_id :: string
  sem_expanded_prompt :: string
  sem_raw_prompt :: string

definition semantic_names :: "string list" where
  "semantic_names = [''composition-fingerprint'', ''prompt-definition-fingerprint'', ''prompt-id'',
     ''execution-profile-id'', ''expanded-prompt-version'', ''expanded-prompt-sha256'', ''raw-prompt-sha256'']"

text \<open>The version field is always the integer 1 in a constructed identity.\<close>

definition semantic_to_mapping :: "PromptSemanticIdentity \<Rightarrow> dict" where
  "semantic_to_mapping s =
     [(''composition-fingerprint'', JStr (sem_composition s)),
      (''prompt-definition-fingerprint'', JStr (sem_prompt_definition s)),
      (''prompt-id'', JStr (sem_prompt_id s)), (''execution-profile-id'', JStr (sem_execution_profile_id s)),
      (''expanded-prompt-version'', JInt 1), (''expanded-prompt-sha256'', JStr (sem_expanded_prompt s)),
      (''raw-prompt-sha256'', JStr (sem_raw_prompt s))]"

definition semantic_from_mapping :: "json \<Rightarrow> PromptSemanticIdentity res" where
  "semantic_from_mapping v =
     rbind (exact_fields semantic_names ''Preparation contract fields must match exactly'' v) (\<lambda>d.
     rbind (sha_field (dget d ''composition-fingerprint'')) (\<lambda>c.
     rbind (sha_field (dget d ''prompt-definition-fingerprint'')) (\<lambda>pd.
     rbind (sha_field (dget d ''expanded-prompt-sha256'')) (\<lambda>ex.
     rbind (sha_field (dget d ''raw-prompt-sha256'')) (\<lambda>raw.
     rbind (node_identifier (dget d ''prompt-id'')) (\<lambda>p.
     rbind (node_identifier (dget d ''execution-profile-id'')) (\<lambda>ep.
     rbind (guard_r (dget d ''expanded-prompt-version'' = JInt 1)
             (invalid ''Preparation expanded-prompt-version must be integer 1'')) (\<lambda>_.
     Inr \<lparr>sem_composition = c, sem_prompt_definition = pd, sem_prompt_id = p,
          sem_execution_profile_id = ep, sem_expanded_prompt = ex, sem_raw_prompt = raw\<rparr>))))))))"

record PreparationBinding =
  b_command_id :: string
  b_request_id :: string
  b_node_id :: string
  b_node_epoch :: string
  b_gateway_owner_epoch :: string
  b_connection_generation :: int
  b_workspace_id :: string
  b_grant_revision :: int
  b_binding_generation :: int
  b_preparation_challenge :: string
  b_preparation_request_id :: string

definition binding_names :: "string list" where
  "binding_names = [''command-id'', ''request-id'', ''node-id'', ''node-epoch'', ''gateway-owner-epoch'',
     ''connection-generation'', ''workspace-id'', ''grant-revision'', ''binding-generation'',
     ''preparation-challenge'', ''preparation-request-id'']"

definition binding_to_mapping :: "PreparationBinding \<Rightarrow> dict" where
  "binding_to_mapping b =
     [(''command-id'', JStr (b_command_id b)), (''request-id'', JStr (b_request_id b)),
      (''node-id'', JStr (b_node_id b)), (''node-epoch'', JStr (b_node_epoch b)),
      (''gateway-owner-epoch'', JStr (b_gateway_owner_epoch b)),
      (''connection-generation'', JInt (b_connection_generation b)),
      (''workspace-id'', JStr (b_workspace_id b)), (''grant-revision'', JInt (b_grant_revision b)),
      (''binding-generation'', JInt (b_binding_generation b)),
      (''preparation-challenge'', JStr (b_preparation_challenge b)),
      (''preparation-request-id'', JStr (b_preparation_request_id b))]"

definition binding_from_mapping :: "json \<Rightarrow> PreparationBinding res" where
  "binding_from_mapping v =
     rbind (exact_fields binding_names ''Preparation contract fields must match exactly'' v) (\<lambda>d.
     rbind (node_identifier (dget d ''command-id'')) (\<lambda>c.
     rbind (node_identifier (dget d ''request-id'')) (\<lambda>r.
     rbind (node_identifier (dget d ''node-id'')) (\<lambda>n.
     rbind (node_identifier (dget d ''node-epoch'')) (\<lambda>ne.
     rbind (node_identifier (dget d ''gateway-owner-epoch'')) (\<lambda>oe.
     rbind (integer_min 1 (dget d ''connection-generation'')) (\<lambda>cg.
     rbind (node_identifier (dget d ''workspace-id'')) (\<lambda>w.
     rbind (integer_min 1 (dget d ''grant-revision'')) (\<lambda>gr.
     rbind (integer_min 1 (dget d ''binding-generation'')) (\<lambda>bg.
     rbind (node_identifier (dget d ''preparation-challenge'')) (\<lambda>pc.
     rbind (node_identifier (dget d ''preparation-request-id'')) (\<lambda>pr.
     Inr \<lparr>b_command_id = c, b_request_id = r, b_node_id = n, b_node_epoch = ne,
          b_gateway_owner_epoch = oe, b_connection_generation = cg, b_workspace_id = w,
          b_grant_revision = gr, b_binding_generation = bg, b_preparation_challenge = pc,
          b_preparation_request_id = pr\<rparr>))))))))))))"

record PreparationAttestation =
  att_binding :: PreparationBinding
  att_semantic :: PromptSemanticIdentity
  att_rendered_prompt_sha256 :: string
  att_manifest_id :: string
  att_provider_manifest_sha256 :: string
  att_context_fingerprint :: string
  att_runtime_digest :: string
  att_worker_id :: string
  att_attempt_epoch :: int
  att_provider_id :: string
  att_model_id :: "string option"
  att_model_alias :: "string option"

definition opt_str :: "string option \<Rightarrow> json" where
  "opt_str x = (case x of None \<Rightarrow> JNull | Some s \<Rightarrow> JStr s)"

definition attestation_names :: "string list" where
  "attestation_names = [''binding'', ''semantic'', ''rendered-prompt-sha256'', ''manifest-id'',
     ''provider-manifest-sha256'', ''context-fingerprint'', ''runtime-digest'', ''worker-id'',
     ''attempt-epoch'', ''provider-id'', ''model-id'', ''model-alias'']"

definition attestation_to_mapping :: "PreparationAttestation \<Rightarrow> dict" where
  "attestation_to_mapping a =
     [(''binding'', JObj (binding_to_mapping (att_binding a))), (''semantic'', JObj (semantic_to_mapping (att_semantic a))),
      (''rendered-prompt-sha256'', JStr (att_rendered_prompt_sha256 a)), (''manifest-id'', JStr (att_manifest_id a)),
      (''provider-manifest-sha256'', JStr (att_provider_manifest_sha256 a)),
      (''context-fingerprint'', JStr (att_context_fingerprint a)), (''runtime-digest'', JStr (att_runtime_digest a)),
      (''worker-id'', JStr (att_worker_id a)), (''attempt-epoch'', JInt (att_attempt_epoch a)),
      (''provider-id'', JStr (att_provider_id a)), (''model-id'', opt_str (att_model_id a)),
      (''model-alias'', opt_str (att_model_alias a))]"

fun model_field :: "json \<Rightarrow> string option res" where
  "model_field JNull = Inr None"
| "model_field (JStr s) =
     (if s = [] \<or> s \<noteq> strip s \<or> 512 < length s \<or>
         list_ex (\<lambda>c. (of_char c :: nat) < 32 \<or> (of_char c :: nat) = 127) s
      then Inl (invalid ''Preparation model identity must be non-empty bounded text or null'')
      else Inr (Some s))"
| "model_field _ = Inl (invalid ''Preparation model identity must be non-empty bounded text or null'')"

definition attestation_from_mapping :: "json \<Rightarrow> PreparationAttestation res" where
  "attestation_from_mapping v =
     rbind (exact_fields attestation_names ''Preparation contract fields must match exactly'' v) (\<lambda>d.
     rbind (binding_from_mapping (dget d ''binding'')) (\<lambda>b.
     rbind (semantic_from_mapping (dget d ''semantic'')) (\<lambda>s.
     rbind (sha_field (dget d ''rendered-prompt-sha256'')) (\<lambda>rp.
     rbind (sha_field (dget d ''provider-manifest-sha256'')) (\<lambda>pm.
     rbind (sha_field (dget d ''context-fingerprint'')) (\<lambda>cf.
     rbind (sha_field (dget d ''runtime-digest'')) (\<lambda>rd.
     rbind (node_identifier (dget d ''manifest-id'')) (\<lambda>mf.
     rbind (node_identifier (dget d ''worker-id'')) (\<lambda>w.
     rbind (integer_min 1 (dget d ''attempt-epoch'')) (\<lambda>ae.
     rbind (node_identifier (dget d ''provider-id'')) (\<lambda>p.
     rbind (guard_r (\<not> (dget d ''model-id'' = JNull \<and> dget d ''model-alias'' = JNull))
              (invalid ''Preparation requires model-id or model-alias'')) (\<lambda>_.
     rbind (model_field (dget d ''model-id'')) (\<lambda>mi.
     rbind (model_field (dget d ''model-alias'')) (\<lambda>ma.
     Inr \<lparr>att_binding = b, att_semantic = s, att_rendered_prompt_sha256 = rp, att_manifest_id = mf,
          att_provider_manifest_sha256 = pm, att_context_fingerprint = cf, att_runtime_digest = rd,
          att_worker_id = w, att_attempt_epoch = ae, att_provider_id = p, att_model_id = mi, att_model_alias = ma\<rparr>))))))))))))))"

definition attestation_digest :: "crypto \<Rightarrow> PreparationAttestation \<Rightarrow> string res" where
  "attestation_digest C a = canonical_digest C (JObj (attestation_to_mapping a))"

section \<open>Final command\<close>

definition final_command_names :: "string list" where
  "final_command_names = [''semantic'', ''attestation'', ''raw-prompt'', ''preparation-challenge'',
     ''preparation-request-id'']"

definition identity_matches_binding :: "CommandIdentity \<Rightarrow> PreparationBinding \<Rightarrow> bool" where
  "identity_matches_binding i b \<longleftrightarrow>
     ci_command_id i = b_command_id b \<and> ci_request_id i = b_request_id b \<and> ci_node_id i = b_node_id b \<and>
     ci_node_epoch i = b_node_epoch b \<and> ci_gateway_owner_epoch i = b_gateway_owner_epoch b \<and>
     ci_connection_generation i = b_connection_generation b \<and> ci_workspace_id i = b_workspace_id b \<and>
     ci_grant_revision i = b_grant_revision b \<and> ci_binding_generation i = b_binding_generation b"

fun text_digest :: "crypto \<Rightarrow> json \<Rightarrow> string res" where
  "text_digest C (JStr s) = Inr (sha256_hex C s)"
| "text_digest C _ = Inl (invalid ''Preparation prompt must be text'')"

definition validate_final_command_payload ::
    "crypto \<Rightarrow> json \<Rightarrow> CommandIdentity \<Rightarrow> PreparationAttestation \<Rightarrow> PreparationAttestation res" where
  "validate_final_command_payload C payload identity accepted =
     rbind (exact_fields final_command_names ''Final prepared command fields must match exactly'' payload) (\<lambda>d.
     rbind (semantic_from_mapping (dget d ''semantic'')) (\<lambda>sem.
     rbind (attestation_from_mapping (dget d ''attestation'')) (\<lambda>att.
     let b = att_binding accepted; bad = conflict ''Final command does not match accepted preparation attestation'' in
     if att \<noteq> accepted \<or> sem \<noteq> att_semantic att then Inl bad
     else rbind (text_digest C (dget d ''raw-prompt'')) (\<lambda>raw.
       if raw \<noteq> sem_raw_prompt sem \<or>
          dget d ''preparation-challenge'' \<noteq> JStr (b_preparation_challenge b) \<or>
          dget d ''preparation-request-id'' \<noteq> JStr (b_preparation_request_id b) \<or>
          ci_execution_profile_id identity \<noteq> sem_execution_profile_id sem then Inl bad
       else rbind (canonical_digest C payload) (\<lambda>dg.
         if ci_payload_sha256 identity \<noteq> dg \<or> \<not> identity_matches_binding identity b then Inl bad
         else Inr att)))))"

section \<open>Node admission descriptor\<close>

definition ADMISSION_LIMIT :: int where
  "ADMISSION_LIMIT = 2 ^ 31 - 1"

definition admission_limit_ok :: "json \<Rightarrow> bool" where
  "admission_limit_ok v \<longleftrightarrow> (case v of JNull \<Rightarrow> True
     | JInt i \<Rightarrow> 1 \<le> i \<and> i \<le> ADMISSION_LIMIT | _ \<Rightarrow> False)"

definition policy_names :: "string list" where
  "policy_names = [''profile-id'', ''generation'', ''config-digest'', ''pending-capacity'',
     ''global-capacity'', ''project-capacity'']"

definition policy_mapping :: "json \<Rightarrow> dict res" where
  "policy_mapping v =
     rbind (exact_fields policy_names ''Node admission fields must match exactly'' v) (\<lambda>d.
     rbind (node_identifier (dget d ''profile-id'')) (\<lambda>p.
     rbind (node_identifier (dget d ''generation'')) (\<lambda>g.
     rbind (node_identifier (dget d ''config-digest'')) (\<lambda>c.
     rbind (guard_r (list_all (\<lambda>k. admission_limit_ok (dget d k))
               [''pending-capacity'', ''global-capacity'', ''project-capacity''])
              (invalid ''Node admission policy limits must be bounded positive integers'')) (\<lambda>_.
     rbind (guard_r (dget d ''pending-capacity'' \<noteq> JNull)
              (invalid ''Node admission pending capacity is required'')) (\<lambda>_.
     Inr [(''profile-id'', JStr p), (''generation'', JStr g), (''config-digest'', JStr c),
          (''pending-capacity'', dget d ''pending-capacity''), (''global-capacity'', dget d ''global-capacity''),
          (''project-capacity'', dget d ''project-capacity'')]))))))"

definition source_workspace_names :: "string list" where
  "source_workspace_names = [''version'', ''source-node-id'', ''workspace-id'', ''access-mode'', ''binding-sha256'']"

definition source_workspace_mapping :: "json \<Rightarrow> dict res" where
  "source_workspace_mapping v =
     rbind (exact_fields source_workspace_names ''Node admission fields must match exactly'' v) (\<lambda>d.
     rbind (guard_r (dget d ''version'' = JInt 1) (invalid ''Source workspace version must be integer 1'')) (\<lambda>_.
     rbind (node_identifier (dget d ''source-node-id'')) (\<lambda>n.
     rbind (node_identifier (dget d ''workspace-id'')) (\<lambda>w.
     rbind (guard_r (dget d ''access-mode'' \<in> {JStr ''read-write'', JStr ''read-only''})
              (invalid ''Source workspace access mode is unsupported'')) (\<lambda>_.
     rbind (guard_r (is_sha256_hex (dget d ''binding-sha256''))
              (invalid ''Source workspace binding requires lowercase SHA256'')) (\<lambda>_.
     Inr [(''version'', JInt 1), (''source-node-id'', JStr n), (''workspace-id'', JStr w),
          (''access-mode'', dget d ''access-mode''), (''binding-sha256'', dget d ''binding-sha256'')]))))))"

definition descriptor_names :: "string list" where
  "descriptor_names = [''version'', ''server-id'', ''semantic'', ''policy'', ''snapshot-sha256'']"

text \<open>\<open>NodeAdmissionDescriptor.from_mapping\<close>, returning the canonical mapping it stands for.\<close>

definition node_admission_from_mapping :: "crypto \<Rightarrow> json \<Rightarrow> dict res" where
  "node_admission_from_mapping C v = (case v of
     JObj value \<Rightarrow>
       rbind (guard_r (\<not> (dhas value ''source-workspace'' \<and> dget value ''source-workspace'' = JNull))
               (invalid ''Explicit source workspace must be typed identity, not null'')) (\<lambda>_.
       rbind (exact_fields descriptor_names ''Node admission fields must match exactly''
               (JObj (dpop ''source-workspace'' value))) (\<lambda>d.
       rbind (semantic_from_mapping (dget d ''semantic'')) (\<lambda>sem.
       rbind (policy_mapping (dget d ''policy'')) (\<lambda>pol.
       rbind (if dhas value ''source-workspace''
              then rbind (source_workspace_mapping (dget value ''source-workspace'')) (\<lambda>w. Inr (Some w))
              else Inr None) (\<lambda>sw.
       rbind (guard_r (dget d ''version'' = JInt 1) (invalid ''Node admission version must be integer 1'')) (\<lambda>_.
       rbind (node_identifier (dget d ''server-id'')) (\<lambda>sid.
       rbind (guard_r (JStr (sem_execution_profile_id sem) = dget pol ''profile-id'')
               (invalid ''Node semantic profile must match admission policy'')) (\<lambda>_.
       rbind (guard_r (is_sha256_hex (dget d ''snapshot-sha256''))
               (invalid ''Node admission snapshot digest must be lowercase SHA256'')) (\<lambda>_.
       let m = [(''version'', JInt 1), (''server-id'', JStr sid), (''semantic'', JObj (semantic_to_mapping sem)),
                (''policy'', JObj pol), (''snapshot-sha256'', dget d ''snapshot-sha256'')]
               @ (case sw of None \<Rightarrow> [] | Some w \<Rightarrow> [(''source-workspace'', JObj w)])
       in rbind (canonical_json C (JObj m)) (\<lambda>t.
          if 4096 < length t then Inl (invalid ''Node admission descriptor exceeds the supported bound'')
          else Inr m))))))))))
   | _ \<Rightarrow> Inl (invalid ''Node admission requires a mapping''))"

section \<open>Round trips\<close>

lemma node_identifier_eq_Inr: "node_identifier v = Inr s \<longleftrightarrow> v = JStr s \<and> identifier_match s"
  by (cases v) auto

lemma integer_min_eq_Inr: "integer_min lo v = Inr i \<longleftrightarrow> v = JInt i \<and> lo \<le> i \<and> i \<le> 2 ^ 63 - 1"
  by (cases v) auto

lemma sha_or_eq_Inr: "sha_or msg v = Inr s \<longleftrightarrow> v = JStr s \<and> length s = 64 \<and> list_all hex_char s"
  by (cases v) (auto simp: sha_or_def)

lemma sha_field_eq_Inr: "sha_field v = Inr s \<longleftrightarrow> v = JStr s \<and> length s = 64 \<and> list_all hex_char s"
  by (simp add: sha_field_def sha_or_eq_Inr)

lemma exact_fields_eq_Inr: "exact_fields ns msg v = Inr d \<longleftrightarrow> v = JObj d \<and> set (map fst d) = set ns"
  by (cases v) (auto simp: exact_fields_def)

lemmas contract_iffs = node_identifier_eq_Inr integer_min_eq_Inr sha_or_eq_Inr sha_field_eq_Inr
  exact_fields_eq_Inr

lemma identity_from_to:
  assumes "wf_identity c"
  shows "identity_from_mapping (JObj (identity_to_mapping c)) = Inr c"
  using assms
  by (simp add: identity_from_mapping_def identity_to_mapping_def exact_fields_def identity_names_def
      dget_Cons wf_identity_def sha_or_def)

lemma identity_from_mapping_fields:
  assumes "identity_from_mapping (JObj d) = Inr c"
  shows "wf_identity c" and "set (map fst d) = set identity_names"
    and "list_all (\<lambda>(k, v). dget d k = v) (identity_to_mapping c)"
  using assms unfolding identity_from_mapping_def rbind_eq_Inr contract_iffs
  by (clarsimp simp: wf_identity_def identity_to_mapping_def)+

lemma identity_to_from:
  assumes "identity_from_mapping (JObj d) = Inr c"
  shows "wf_identity c \<and> (\<forall>k \<in> set (map fst d). dget (identity_to_mapping c) k = dget d k)"
proof -
  note f = identity_from_mapping_fields [OF assms]
  have "\<forall>k \<in> set identity_names. dget (identity_to_mapping c) k = dget d k"
    using f(3) by (simp add: identity_names_def identity_to_mapping_def dget_Cons)
  with f(1,2) show ?thesis by simp
qed

section \<open>Admission descriptors are canonical\<close>

text \<open>Parsing the mapping of a parsed descriptor gives it back.\<close>

lemma semantic_round_trip:
  "semantic_from_mapping v = Inr sem \<Longrightarrow> semantic_from_mapping (JObj (semantic_to_mapping sem)) = Inr sem"
  by (auto simp: semantic_from_mapping_def rbind_eq_Inr contract_iffs guard_r_eq_Inr semantic_to_mapping_def
    exact_fields_def semantic_names_def dget_Cons)

lemma policy_round_trip:
  assumes "policy_mapping v = Inr pol"
  shows "policy_mapping (JObj pol) = Inr pol"
proof -
  have ex: "exact_fields policy_names m (JObj [(''profile-id'', p), (''generation'', g), (''config-digest'', c),
       (''pending-capacity'', a), (''global-capacity'', b), (''project-capacity'', e)]) =
     Inr [(''profile-id'', p), (''generation'', g), (''config-digest'', c),
       (''pending-capacity'', a), (''global-capacity'', b), (''project-capacity'', e)]" for m p g c a b e
    by (simp add: exact_fields_def policy_names_def)
  from assms obtain d where d: "exact_fields policy_names ''Node admission fields must match exactly'' v = Inr d"
    by (auto simp: policy_mapping_def rbind_eq_Inr)
  with assms show ?thesis
    unfolding policy_mapping_def d rbind_Inr rbind_eq_Inr [of "node_identifier _"] node_identifier_eq_Inr
    by (clarsimp simp: ex dget_Cons rbind_eq_Inr guard_r_eq_Inr)
qed

lemma source_workspace_mappingE:
  assumes "source_workspace_mapping v = Inr m"
  obtains n w am b where "identifier_match n" "identifier_match w" "am \<in> {JStr ''read-write'', JStr ''read-only''}"
    "is_sha256_hex b"
    "m = [(''version'', JInt 1), (''source-node-id'', JStr n), (''workspace-id'', JStr w), (''access-mode'', am),
       (''binding-sha256'', b)]"
  using assms unfolding source_workspace_mapping_def rbind_eq_Inr node_identifier_eq_Inr guard_r_eq_Inr
  by (elim exE conjE) (simp add: that)

lemma source_workspace_round_trip:
  assumes "source_workspace_mapping v = Inr w"
  shows "source_workspace_mapping (JObj w) = Inr w"
  using assms by (rule source_workspace_mappingE)
    (simp add: source_workspace_mapping_def exact_fields_def source_workspace_names_def dget_Cons guard_r_def)

lemma node_admission_canonical:
  assumes "node_admission_from_mapping C v = Inr m"
  shows "node_admission_from_mapping C (JObj m) = Inr m"
proof -
  from assms obtain dv where v: "v = JObj dv" by (cases v) (auto simp: node_admission_from_mapping_def)
  from assms obtain d sem pol sw sid t where
    d: "semantic_from_mapping (dget d ''semantic'') = Inr sem" "policy_mapping (dget d ''policy'') = Inr pol"
      "(if dhas dv ''source-workspace''
        then rbind (source_workspace_mapping (dget dv ''source-workspace'')) (\<lambda>w. Inr (Some w)) else Inr None) = Inr sw"
      "node_identifier (dget d ''server-id'') = Inr sid" "JStr (sem_execution_profile_id sem) = dget pol ''profile-id''"
      "is_sha256_hex (dget d ''snapshot-sha256'')"
    and m: "m = [(''version'', JInt 1), (''server-id'', JStr sid), (''semantic'', JObj (semantic_to_mapping sem)),
                (''policy'', JObj pol), (''snapshot-sha256'', dget d ''snapshot-sha256'')]
               @ (case sw of None \<Rightarrow> [] | Some w \<Rightarrow> [(''source-workspace'', JObj w)])"
    and t: "canonical_json C (JObj m) = Inr t" "length t \<le> 4096"
    unfolding v node_admission_from_mapping_def json.case rbind_eq_Inr guard_r_eq_Inr Let_def
    by (elim exE conjE) (simp add: that rbind_eq_Inr split: if_split_asm)
  have sw: "source_workspace_mapping (JObj w) = Inr w" if "sw = Some w" for w
    using d(3) that by (auto simp: rbind_eq_Inr intro: source_workspace_round_trip split: if_split_asm)
  show ?thesis
    using t d(5,6) semantic_round_trip [OF d(1)] policy_round_trip [OF d(2)] d(4)
    unfolding m
    by (cases sw)
      (simp_all add: node_admission_from_mapping_def dhas_def dpop_def dget_Cons exact_fields_def descriptor_names_def
        node_identifier_eq_Inr sw guard_r_def insert_commute)
qed
section \<open>Command identities round trip\<close>

text \<open>A well-formed command identity survives the trip through its mapping, and every mapping the
  parser accepts is, key by key, the mapping of the identity it returns, which is well formed.\<close>

theorem command_identity_round_trip:
  "(wf_identity c \<longrightarrow> identity_from_mapping (JObj (identity_to_mapping c)) = Inr c) \<and>
   (identity_from_mapping (JObj d) = Inr c \<longrightarrow>
      wf_identity c \<and> (\<forall>k \<in> set (map fst d). dget (identity_to_mapping c) k = dget d k))"
  using identity_from_to identity_to_from by blast

end
