(* ===== verification/Work_Index.thy ===== *)
theory Work_Index
  imports Errors "HOL-Library.List_Lexorder" "HOL-Library.Char_ord"
begin

text \<open>
  The active/admitted work index of \<open>gateway/queue/work_index.py\<close>.  One service root has an
  index directory: a file per request (\<open>ix_files\<close>, keyed by the file stem) and a quarantine
  subdirectory (\<open>ix_quarantine\<close>, keyed by the stem of the moved file).  A file holds a JSON
  document or bytes that do not parse.  Every operation returns its result or the raised
  exception together with the new directory.  The digest of a resolved project root
  (\<open>hashlib\<close> over \<open>Path.resolve\<close>) and the clock readings are parameters; file moves and
  writes succeed.
\<close>

datatype doc = Garbage | Doc json

record index_dir =
  ix_files :: "(string \<times> doc) list"
  ix_quarantine :: "(string \<times> doc) list"

record WorkIndexEntry =
  we_request_id :: string
  we_project_root :: string
  we_project_root_digest :: string
  we_phase :: string
  we_owner_epoch :: json
  we_lane_key :: json
  we_admitted_at :: json
  we_claimed_at :: json
  we_schema_version :: json

text \<open>\<open>validate_work_index_entry\<close> returns an entry or an \<open>InvalidEntry\<close> with its reason.\<close>

datatype validated = Valid WorkIndexEntry | InvalidEntry string

definition PHASE_LEGAL_TRANSITIONS :: "(string \<times> string list) list" where
  "PHASE_LEGAL_TRANSITIONS =
     [(''admitted'', [''claimed'', ''terminal-cleanup'']),
      (''claimed'', [''running'', ''terminal-cleanup'']),
      (''running'', [''terminal-cleanup''])]"

definition SCHEMA_VERSION :: string where
  "SCHEMA_VERSION = ''v1''"

definition legal_phases :: "string \<Rightarrow> string list" where
  "legal_phases p = (case map_of PHASE_LEGAL_TRANSITIONS p of None \<Rightarrow> [] | Some ps \<Rightarrow> ps)"

section \<open>Operations\<close>

definition quarantine_work_index_entry :: "string \<Rightarrow> string \<Rightarrow> index_dir \<Rightarrow> index_dir" where
  "quarantine_work_index_entry stem reason ix = (case map_of (ix_files ix) stem of
     None \<Rightarrow> ix
   | Some f \<Rightarrow> ix\<lparr>ix_files := AList.delete stem (ix_files ix),
                  ix_quarantine := AList.update (stem @ ''_'' @ reason) f (ix_quarantine ix)\<rparr>)"

definition nonempty_str_field :: "dict \<Rightarrow> string \<Rightarrow> bool" where
  "nonempty_str_field d k \<longleftrightarrow> is_str (dget d k) \<and> truthy (dget d k)"

definition read_raw_entry :: "string \<Rightarrow> index_dir \<Rightarrow> dict option \<times> index_dir" where
  "read_raw_entry stem ix = (case map_of (ix_files ix) stem of
     Some (Doc (JObj d)) \<Rightarrow>
       if list_all (nonempty_str_field d) [''request-id'', ''project-root'', ''phase'']
       then (Some d, ix)
       else (None, quarantine_work_index_entry stem ''missing-fields'' ix)
   | Some (Doc v) \<Rightarrow> (None, quarantine_work_index_entry stem ''not-object'' ix)
   | _ \<Rightarrow> (None, quarantine_work_index_entry stem ''unreadable'' ix))"

text \<open>The check on an already parsed payload.  Membership of an unhashable phase in the
  transition table raises \<open>TypeError\<close>.\<close>

definition validate_payload :: "(string \<Rightarrow> string) \<Rightarrow> dict \<Rightarrow> validated res" where
  "validate_payload root_digest raw =
    (case dget raw ''request-id'' of
      JStr rid \<Rightarrow> if rid = [] then Inr (InvalidEntry ''missing-request-id'') else
       (case dget raw ''project-root'' of
         JStr pr \<Rightarrow> if pr = [] then Inr (InvalidEntry ''missing-project-root'') else
          (case dget raw ''phase'' of
             JStr p \<Rightarrow>
               if p \<notin> set (map fst PHASE_LEGAL_TRANSITIONS) then Inr (InvalidEntry ''invalid-phase'')
               else if truthy (dget raw ''project-root-digest'')
                       \<and> dget raw ''project-root-digest'' \<noteq> JStr (root_digest pr)
               then Inr (InvalidEntry ''digest-mismatch'')
               else Inr (Valid \<lparr>we_request_id = rid, we_project_root = pr,
                      we_project_root_digest = root_digest pr, we_phase = p,
                      we_owner_epoch = dget raw ''owner-epoch'', we_lane_key = dget raw ''lane-key'',
                      we_admitted_at = dget raw ''admitted-at'', we_claimed_at = dget raw ''claimed-at'',
                      we_schema_version = dget_or raw ''schema-version'' (JStr SCHEMA_VERSION)\<rparr>)
           | JList _ \<Rightarrow> Inl TypeError
           | JObj _ \<Rightarrow> Inl TypeError
           | _ \<Rightarrow> Inr (InvalidEntry ''invalid-phase''))
       | _ \<Rightarrow> Inr (InvalidEntry ''missing-project-root''))
    | _ \<Rightarrow> Inr (InvalidEntry ''missing-request-id''))"

text \<open>\<open>validate_work_index_entry(path)\<close>: reads the file and compares its stem with the body.\<close>

definition validate_work_index_path ::
    "(string \<Rightarrow> string) \<Rightarrow> string \<Rightarrow> index_dir \<Rightarrow> validated res \<times> index_dir" where
  "validate_work_index_path root_digest stem ix = (case read_raw_entry stem ix of
     (None, ix') \<Rightarrow> (Inr (InvalidEntry ''already-quarantined''), ix')
   | (Some raw, ix') \<Rightarrow>
       if dget raw ''request-id'' \<noteq> JStr stem then (Inr (InvalidEntry ''filename-mismatch''), ix')
       else (validate_payload root_digest raw, ix'))"

definition write_work_index_entry ::
    "(string \<Rightarrow> string) \<Rightarrow> string \<Rightarrow> string \<Rightarrow> string \<Rightarrow> string \<Rightarrow> json \<Rightarrow> json \<Rightarrow> index_dir \<Rightarrow> index_dir" where
  "write_work_index_entry root_digest now project_root rid phase owner_epoch lane_key ix =
     ix\<lparr>ix_files := AList.update rid (Doc (JObj
       [(''schema-version'', JStr SCHEMA_VERSION), (''request-id'', JStr rid),
        (''project-root'', JStr project_root), (''project-root-digest'', JStr (root_digest project_root)),
        (''phase'', JStr phase), (''owner-epoch'', owner_epoch), (''lane-key'', lane_key),
        (''admitted-at'', JStr now), (''claimed-at'', JNull)])) (ix_files ix)\<rparr>"

text \<open>Reading and validating the file of a request, quarantining it when it is malformed: the
  common head of the mutating operations.  \<open>None\<close> is ``no usable entry''.\<close>

definition load_entry :: "(string \<Rightarrow> string) \<Rightarrow> string \<Rightarrow> index_dir
    \<Rightarrow> (dict \<times> WorkIndexEntry) option res \<times> index_dir" where
  "load_entry root_digest rid ix =
     (if map_of (ix_files ix) rid = None then (Inr None, ix)
      else case read_raw_entry rid ix of
        (None, ix') \<Rightarrow> (Inr None, ix')
      | (Some raw, ix') \<Rightarrow> (case validate_payload root_digest raw of
            Inl e \<Rightarrow> (Inl e, ix')
          | Inr (InvalidEntry reason) \<Rightarrow> (Inr None, quarantine_work_index_entry rid reason ix')
          | Inr (Valid entry) \<Rightarrow> (Inr (Some (raw, entry)), ix')))"

definition phase_update_error :: "string \<Rightarrow> WorkIndexEntry \<Rightarrow> string \<Rightarrow> string \<Rightarrow> json \<Rightarrow> py_error option" where
  "phase_update_error rid entry from_phase to_phase owner_epoch =
     (if we_phase entry \<noteq> from_phase then
        Some (ag_error ''CON-AGW-104'' ''work-index phase mismatch on update''
          [(''request-id'', JStr rid), (''expected-from-phase'', JStr from_phase),
           (''actual-phase'', JStr (we_phase entry))])
      else if from_phase \<in> {''claimed'', ''running''} \<and> truthy (we_owner_epoch entry) \<and>
              truthy owner_epoch \<and> \<not> jeq (we_owner_epoch entry) owner_epoch then
        Some (ag_error ''CON-AGW-106'' ''work-index owner-epoch mismatch on phase transition''
          [(''request-id'', JStr rid), (''stored-owner-epoch'', we_owner_epoch entry),
           (''caller-owner-epoch'', owner_epoch)])
      else if to_phase \<notin> set (legal_phases from_phase) then
        Some (ag_error ''CON-AGW-105'' ''illegal work-index phase transition''
          [(''request-id'', JStr rid), (''from-phase'', JStr from_phase), (''to-phase'', JStr to_phase),
           (''legal-targets'', JList (map JStr (sort (legal_phases from_phase))))])
      else None)"

definition update_work_index_phase ::
    "(string \<Rightarrow> string) \<Rightarrow> string \<Rightarrow> string \<Rightarrow> string \<Rightarrow> string \<Rightarrow> json \<Rightarrow> index_dir \<Rightarrow> bool res \<times> index_dir" where
  "update_work_index_phase root_digest now rid from_phase to_phase owner_epoch ix =
     (case load_entry root_digest rid ix of
        (Inl e, ix') \<Rightarrow> (Inl e, ix')
      | (Inr None, ix') \<Rightarrow> (Inr False, ix')
      | (Inr (Some (raw, entry)), ix') \<Rightarrow>
         (case phase_update_error rid entry from_phase to_phase owner_epoch of
            Some e \<Rightarrow> (Inl e, ix')
          | None \<Rightarrow>
             (let upd = dset ''phase'' (JStr to_phase) raw;
                  upd' = (if to_phase = ''claimed'' \<and> truthy owner_epoch
                          then dset ''claimed-at'' (JStr now) (dset ''owner-epoch'' owner_epoch upd) else upd)
              in (Inr True, ix'\<lparr>ix_files := AList.update rid (Doc (JObj upd')) (ix_files ix')\<rparr>))))"

definition takeover_owner ::
    "(string \<Rightarrow> string) \<Rightarrow> string \<Rightarrow> json \<Rightarrow> string \<Rightarrow> index_dir \<Rightarrow> bool res \<times> index_dir" where
  "takeover_owner root_digest rid expected_owner_epoch new_owner_epoch ix =
     (case load_entry root_digest rid ix of
        (Inl e, ix') \<Rightarrow> (Inl e, ix')
      | (Inr None, ix') \<Rightarrow> (Inr False, ix')
      | (Inr (Some (raw, entry)), ix') \<Rightarrow>
          if expected_owner_epoch \<noteq> JNull \<and> \<not> jeq (we_owner_epoch entry) expected_owner_epoch
          then (Inl (ag_error ''CON-AGW-106'' ''work-index owner-epoch changed during takeover''
                  [(''request-id'', JStr rid)]), ix')
          else (Inr True, ix'\<lparr>ix_files := AList.update rid
                  (Doc (JObj (dset ''owner-epoch'' (JStr new_owner_epoch) raw))) (ix_files ix')\<rparr>))"

definition clear_work_index_entry :: "string \<Rightarrow> index_dir \<Rightarrow> bool \<times> index_dir" where
  "clear_work_index_entry rid ix =
     (if map_of (ix_files ix) rid = None then (False, ix)
      else (True, ix\<lparr>ix_files := AList.delete rid (ix_files ix)\<rparr>))"

fun recover_loop :: "(string \<Rightarrow> string) \<Rightarrow> string list \<Rightarrow> index_dir
    \<Rightarrow> (WorkIndexEntry list \<times> nat) res \<times> index_dir" where
  "recover_loop root_digest [] ix = (Inr ([], 0), ix)"
| "recover_loop root_digest (stem # stems) ix =
     (case read_raw_entry stem ix of
        (None, ix') \<Rightarrow> (case recover_loop root_digest stems ix' of
            (Inr (vs, q), ix2) \<Rightarrow> (Inr (vs, Suc q), ix2) | (Inl e, ix2) \<Rightarrow> (Inl e, ix2))
      | (Some raw, ix') \<Rightarrow> (case validate_payload root_digest raw of
            Inl e \<Rightarrow> (Inl e, ix')
          | Inr (InvalidEntry reason) \<Rightarrow>
              (case recover_loop root_digest stems (quarantine_work_index_entry stem reason ix') of
                 (Inr (vs, q), ix2) \<Rightarrow> (Inr (vs, Suc q), ix2) | (Inl e, ix2) \<Rightarrow> (Inl e, ix2))
          | Inr (Valid entry) \<Rightarrow>
              (case recover_loop root_digest stems ix' of
                 (Inr (vs, q), ix2) \<Rightarrow> (Inr (entry # vs, q), ix2) | (Inl e, ix2) \<Rightarrow> (Inl e, ix2))))"

text \<open>\<open>sorted(idx_dir.glob("req_*.json"))\<close>: the matching stems in name order.\<close>

definition request_stems :: "index_dir \<Rightarrow> string list" where
  "request_stems ix = sort (filter (starts_with ''req_'') (map fst (ix_files ix)))"

definition recover_work_index_entries ::
    "(string \<Rightarrow> string) \<Rightarrow> index_dir \<Rightarrow> (WorkIndexEntry list \<times> nat) res \<times> index_dir" where
  "recover_work_index_entries root_digest ix = recover_loop root_digest (request_stems ix) ix"

definition clear_stale_terminal_index :: "(string \<Rightarrow> string) \<Rightarrow> string \<Rightarrow> index_dir \<Rightarrow> unit res \<times> index_dir" where
  "clear_stale_terminal_index root_digest rid ix =
     (case load_entry root_digest rid ix of
        (Inl e, ix') \<Rightarrow> (Inl e, ix')
      | (Inr None, ix') \<Rightarrow> (Inr (), ix')
      | (Inr (Some _), ix') \<Rightarrow> (Inr (), ix'\<lparr>ix_files := AList.delete rid (ix_files ix')\<rparr>))"

text \<open>\<open>clear_expired_quarantine_entries\<close> with the modification time of each quarantined file.\<close>

definition clear_expired_quarantine_entries ::
    "(string \<Rightarrow> rat) \<Rightarrow> rat \<Rightarrow> rat \<Rightarrow> index_dir \<Rightarrow> nat \<times> index_dir" where
  "clear_expired_quarantine_entries mtime now_epoch max_age ix =
     (let old = filter (\<lambda>(n, f). now_epoch - mtime n > max_age) (ix_quarantine ix) in
      (length old, ix\<lparr>ix_quarantine := filter (\<lambda>(n, f). \<not> now_epoch - mtime n > max_age) (ix_quarantine ix)\<rparr>))"

section \<open>Reading\<close>

lemma codes_104_106:
  "validate_code ''CON-AGW-104'' = Inr ()" "validate_code ''CON-AGW-105'' = Inr ()"
  "validate_code ''CON-AGW-106'' = Inr ()"
  by code_simp+

lemma read_raw_entry_Some:
  assumes "read_raw_entry stem ix = (Some d, ix')"
  shows "ix' = ix" and "map_of (ix_files ix) stem = Some (Doc (JObj d))"
    and "list_all (nonempty_str_field d) [''request-id'', ''project-root'', ''phase'']"
  using assms by (auto simp: read_raw_entry_def split: option.splits doc.splits json.splits if_splits)

lemma nonempty_str_fieldE:
  assumes "nonempty_str_field d k" obtains s where "dget d k = JStr s" "s \<noteq> []"
  using assms by (cases "dget d k") (auto simp: nonempty_str_field_def)

lemma validate_payload_total:
  assumes "list_all (nonempty_str_field d) [''request-id'', ''project-root'', ''phase'']"
  shows "\<exists>v. validate_payload dg d = Inr v"
  using assms by (auto simp: validate_payload_def elim!: nonempty_str_fieldE split: if_splits)

lemma validate_payload_ValidE:
  assumes "validate_payload dg raw = Inr (Valid e)"
  obtains rid pr p where "dget raw ''request-id'' = JStr rid" "rid \<noteq> []" "dget raw ''project-root'' = JStr pr" "pr \<noteq> []"
    "dget raw ''phase'' = JStr p" "p \<in> set (map fst PHASE_LEGAL_TRANSITIONS)"
    "truthy (dget raw ''project-root-digest'') \<longrightarrow> dget raw ''project-root-digest'' = JStr (dg pr)"
    "e = \<lparr>we_request_id = rid, we_project_root = pr, we_project_root_digest = dg pr, we_phase = p,
        we_owner_epoch = dget raw ''owner-epoch'', we_lane_key = dget raw ''lane-key'',
        we_admitted_at = dget raw ''admitted-at'', we_claimed_at = dget raw ''claimed-at'',
        we_schema_version = dget_or raw ''schema-version'' (JStr SCHEMA_VERSION)\<rparr>"
  using assms unfolding validate_payload_def by (auto split: json.splits if_splits)

lemma validate_payload_Valid:
  assumes "validate_payload dg raw = Inr (Valid e)"
  shows "dget raw ''request-id'' = JStr (we_request_id e)"
    and "dget raw ''project-root'' = JStr (we_project_root e)"
    and "dget raw ''phase'' = JStr (we_phase e)"
    and "we_phase e \<in> {''admitted'', ''claimed'', ''running''}"
    and "we_owner_epoch e = dget raw ''owner-epoch''"
    and "we_request_id e \<noteq> []" and "we_project_root e \<noteq> []"
    and "we_project_root_digest e = dg (we_project_root e)"
    and "truthy (dget raw ''project-root-digest'') \<longrightarrow>
           dget raw ''project-root-digest'' = JStr (dg (we_project_root e))"
    and "we_lane_key e = dget raw ''lane-key''" and "we_admitted_at e = dget raw ''admitted-at''"
    and "we_claimed_at e = dget raw ''claimed-at''"
    and "we_schema_version e = dget_or raw ''schema-version'' (JStr SCHEMA_VERSION)"
  by (cases rule: validate_payload_ValidE [OF assms]; simp add: PHASE_LEGAL_TRANSITIONS_def)+

lemma map_of_alist_update: "map_of (AList.update k v d) k' = (if k' = k then Some v else map_of d k')"
  by (simp add: update_conv')

lemma map_of_alist_delete: "map_of (AList.delete k d) k' = (if k' = k then None else map_of d k')"
  by (simp add: delete_conv')

lemmas alist_reads = map_of_alist_update map_of_alist_delete

text \<open>Where \<open>load_entry\<close> finds a usable entry it leaves the directory alone; where it finds
  none, the file is gone from the directory.\<close>

lemma load_entry_Some:
  assumes "load_entry dg rid ix = (Inr (Some (raw, e)), ix')"
  shows "ix' = ix" and "map_of (ix_files ix) rid = Some (Doc (JObj raw))"
    and "validate_payload dg raw = Inr (Valid e)"
  using assms read_raw_entry_Some
  by (auto simp: load_entry_def split: if_splits option.splits prod.splits sum.splits validated.splits)

lemma load_entry_total: "\<exists>x. fst (load_entry dg rid ix) = Inr x"
proof -
  have "\<exists>v. validate_payload dg raw = Inr v" if "read_raw_entry rid ix = (Some raw, ix')" for raw ix'
    using read_raw_entry_Some(3) [OF that] by (rule validate_payload_total)
  then show ?thesis
    by (fastforce simp: load_entry_def split: option.splits prod.splits sum.splits validated.splits)
qed

lemma quarantine_gone: "map_of (ix_files (quarantine_work_index_entry rid reason ix)) rid = None"
  by (auto simp: quarantine_work_index_entry_def alist_reads split: option.splits)

lemma quarantine_other: "rid' \<noteq> rid \<Longrightarrow>
    map_of (ix_files (quarantine_work_index_entry rid reason ix)) rid' = map_of (ix_files ix) rid'"
  by (auto simp: quarantine_work_index_entry_def alist_reads split: option.splits)

lemma read_raw_entry_None_gone:
  "read_raw_entry rid ix = (None, ix') \<Longrightarrow> map_of (ix_files ix') rid = None"
  by (auto simp: read_raw_entry_def quarantine_gone split: option.splits doc.splits json.splits if_splits)

lemma load_entry_None_gone:
  "load_entry dg rid ix = (Inr None, ix') \<Longrightarrow> map_of (ix_files ix') rid = None"
  by (auto simp: load_entry_def quarantine_gone dest: read_raw_entry_None_gone
      split: if_splits option.splits prod.splits sum.splits validated.splits)

section \<open>Phase updates\<close>

lemma legal_phases_iff:
  "to \<in> set (legal_phases from) \<longleftrightarrow>
     from = ''admitted'' \<and> to \<in> {''claimed'', ''terminal-cleanup''} \<or>
     from = ''claimed'' \<and> to \<in> {''running'', ''terminal-cleanup''} \<or>
     from = ''running'' \<and> to = ''terminal-cleanup''"
  by (simp add: legal_phases_def PHASE_LEGAL_TRANSITIONS_def)

lemma update_work_index_phase_True:
  assumes "update_work_index_phase dg now rid from to owner ix = (Inr True, ix')"
  obtains raw e raw' where
    "map_of (ix_files ix) rid = Some (Doc (JObj raw))" "validate_payload dg raw = Inr (Valid e)"
    "we_phase e = from" "to \<in> set (legal_phases from)"
    "map_of (ix_files ix') rid = Some (Doc (JObj raw'))" "dget raw' ''phase'' = JStr to"
    "\<And>k. k \<notin> {''phase'', ''owner-epoch'', ''claimed-at''} \<Longrightarrow> dget raw' k = dget raw k"
    "dget raw' ''owner-epoch'' = (if to = ''claimed'' \<and> truthy owner then owner else dget raw ''owner-epoch'')"
    "ix_quarantine ix' = ix_quarantine ix"
proof -
  from assms obtain raw e ix1 where ld: "load_entry dg rid ix = (Inr (Some (raw, e)), ix1)"
    and ok: "phase_update_error rid e from to owner = None"
    by (auto simp: update_work_index_phase_def split: prod.splits sum.splits option.splits)
  let ?upd = "dset ''phase'' (JStr to) raw"
  let ?raw' = "if to = ''claimed'' \<and> truthy owner
     then dset ''claimed-at'' (JStr now) (dset ''owner-epoch'' owner ?upd) else ?upd"
  from assms ld ok have ix': "ix' = ix1\<lparr>ix_files := AList.update rid (Doc (JObj ?raw')) (ix_files ix1)\<rparr>"
    by (simp add: update_work_index_phase_def Let_def)
  note l = load_entry_Some [OF ld]
  show thesis
  proof (rule that)
    show "map_of (ix_files ix) rid = Some (Doc (JObj raw))" "validate_payload dg raw = Inr (Valid e)"
      by (fact l)+
    show "we_phase e = from" "to \<in> set (legal_phases from)"
      using ok by (simp_all add: phase_update_error_def split: if_splits)
    show "map_of (ix_files ix') rid = Some (Doc (JObj ?raw'))"
      by (simp add: ix' alist_reads)
    show "ix_quarantine ix' = ix_quarantine ix" using l(1) by (simp add: ix')
  qed (auto split: if_splits)
qed

text \<open>An owner that is not the recorded one can neither move nor alter a claimed or running
  entry.\<close>

lemma update_work_index_phase_fenced:
  assumes "map_of (ix_files ix) rid = Some (Doc (JObj raw))"
    and "validate_payload dg raw = Inr (Valid e)"
    and "we_phase e \<in> {''claimed'', ''running''}"
    and "we_owner_epoch e = JStr stored" and "stored \<noteq> []" and "caller \<noteq> []" and "caller \<noteq> stored"
  shows "\<exists>err. update_work_index_phase dg now rid from to (JStr caller) ix = (Inl err, ix) \<and>
           code_of err \<in> {Some ''CON-AGW-104'', Some ''CON-AGW-106''}"
proof -
  have fields: "list_all (nonempty_str_field raw) [''request-id'', ''project-root'', ''phase'']"
    using validate_payload_Valid(1,2,3,4,6,7) [OF assms(2)] by (auto simp: nonempty_str_field_def)
  then have rd: "read_raw_entry rid ix = (Some raw, ix)"
    using assms(1) by (simp add: read_raw_entry_def)
  then have ld: "load_entry dg rid ix = (Inr (Some (raw, e)), ix)"
    using assms(1,2) by (simp add: load_entry_def)
  have "\<exists>err. phase_update_error rid e from to (JStr caller) = Some err \<and>
      code_of err \<in> {Some ''CON-AGW-104'', Some ''CON-AGW-106''}"
    using assms(3-7)
    by (cases "we_phase e = from") (auto simp: phase_update_error_def code_of_ag_error codes_104_106)
  then show ?thesis using ld by (auto simp: update_work_index_phase_def)
qed

section \<open>Round trip of a written entry\<close>

lemma write_then_load:
  assumes "rid \<noteq> []" and "project_root \<noteq> []" and "phase \<in> {''admitted'', ''claimed'', ''running''}"
  shows "\<exists>raw e. load_entry dg rid (write_work_index_entry dg now project_root rid phase owner lane ix)
           = (Inr (Some (raw, e)), write_work_index_entry dg now project_root rid phase owner lane ix)
         \<and> e = \<lparr>we_request_id = rid, we_project_root = project_root,
                we_project_root_digest = dg project_root, we_phase = phase, we_owner_epoch = owner,
                we_lane_key = lane, we_admitted_at = JStr now, we_claimed_at = JNull,
                we_schema_version = JStr SCHEMA_VERSION\<rparr>"
proof -
  let ?raw = "[(''schema-version'', JStr SCHEMA_VERSION), (''request-id'', JStr rid),
        (''project-root'', JStr project_root), (''project-root-digest'', JStr (dg project_root)),
        (''phase'', JStr phase), (''owner-epoch'', owner), (''lane-key'', lane),
        (''admitted-at'', JStr now), (''claimed-at'', JNull)]"
  let ?ix = "write_work_index_entry dg now project_root rid phase owner lane ix"
  let ?e = "\<lparr>we_request_id = rid, we_project_root = project_root,
                we_project_root_digest = dg project_root, we_phase = phase, we_owner_epoch = owner,
                we_lane_key = lane, we_admitted_at = JStr now, we_claimed_at = JNull,
                we_schema_version = JStr SCHEMA_VERSION\<rparr>"
  have mo: "map_of (ix_files ?ix) rid = Some (Doc (JObj ?raw))"
    by (simp add: write_work_index_entry_def alist_reads)
  have "phase \<noteq> []" using assms(3) by auto
  then have rd: "read_raw_entry rid ?ix = (Some ?raw, ?ix)"
    using assms(1,2) mo by (simp add: read_raw_entry_def nonempty_str_field_def dget_Cons)
  have "phase \<in> set (map fst PHASE_LEGAL_TRANSITIONS)"
    using assms(3) by (simp add: PHASE_LEGAL_TRANSITIONS_def)
  then have vd: "validate_payload dg ?raw = Inr (Valid ?e)"
    using assms(1,2) by (simp add: validate_payload_def dget_Cons dget_or_def)
  show ?thesis using mo rd vd by (simp add: load_entry_def)
qed

section \<open>Entries in the cleanup phase\<close>

text \<open>\<open>terminal-cleanup\<close> is a legal target of every phase, but it is no key of the transition
  table, and the validation takes the keys as the known phases.\<close>

lemma terminal_cleanup_invalid:
  assumes "dget raw ''request-id'' = JStr rid" "rid \<noteq> []" "dget raw ''project-root'' = JStr pr" "pr \<noteq> []"
    and "dget raw ''phase'' = JStr ''terminal-cleanup''"
  shows "validate_payload dg raw = Inr (InvalidEntry ''invalid-phase'')"
  using assms by (simp add: validate_payload_def PHASE_LEGAL_TRANSITIONS_def)

section \<open>Recovery scan\<close>

definition usable :: "(string \<Rightarrow> string) \<Rightarrow> doc \<Rightarrow> WorkIndexEntry option" where
  "usable dg f = (case f of
     Doc (JObj d) \<Rightarrow>
       if list_all (nonempty_str_field d) [''request-id'', ''project-root'', ''phase'']
       then (case validate_payload dg d of Inr (Valid e) \<Rightarrow> Some e | _ \<Rightarrow> None) else None
   | _ \<Rightarrow> None)"

text \<open>One step of the scan, whatever the file holds: a usable file yields its entry and stays; any
  other file leaves the directory for the quarantine.\<close>

lemma recover_step_usable:
  assumes "map_of (ix_files ix) stem = Some f" and "usable dg f = Some e"
  shows "recover_loop dg (stem # stems) ix =
    (case recover_loop dg stems ix of (Inr (vs, q), ix2) \<Rightarrow> (Inr (e # vs, q), ix2) | (Inl x, ix2) \<Rightarrow> (Inl x, ix2))"
  using assms
  by (auto simp: usable_def read_raw_entry_def split: doc.splits json.splits if_splits sum.splits validated.splits)

lemma recover_step_unusable:
  assumes "map_of (ix_files ix) stem = Some f" and "usable dg f = None"
  shows "\<exists>reason. recover_loop dg (stem # stems) ix =
    (case recover_loop dg stems (quarantine_work_index_entry stem reason ix) of
       (Inr (vs, q), ix2) \<Rightarrow> (Inr (vs, Suc q), ix2) | (Inl x, ix2) \<Rightarrow> (Inl x, ix2))"
proof (cases "read_raw_entry stem ix")
  case (Pair o1 ix1)
  show ?thesis
  proof (cases o1)
    case None
    then have "\<exists>reason. ix1 = quarantine_work_index_entry stem reason ix"
      using Pair assms(1)
      by (auto simp: read_raw_entry_def split: doc.splits json.splits if_splits)
    then show ?thesis using Pair None by auto
  next
    case (Some raw)
    note r = read_raw_entry_Some [OF Pair [unfolded Some]]
    have "\<exists>reason. validate_payload dg raw = Inr (InvalidEntry reason)"
      using validate_payload_total [OF r(3), of dg] assms r(2,3)
      by (auto simp: usable_def split: validated.splits)
    then show ?thesis using Pair Some r(1) by auto
  qed
qed

lemma recover_loop_result:
  assumes "distinct stems" and "\<forall>s \<in> set stems. map_of (ix_files ix) s \<noteq> None"
  shows "\<exists>ix'. recover_loop dg stems ix =
      (Inr (List.map_filter (\<lambda>s. usable dg (the (map_of (ix_files ix) s))) stems,
            length (filter (\<lambda>s. usable dg (the (map_of (ix_files ix) s)) = None) stems)), ix')
    \<and> (\<forall>s. map_of (ix_files ix') s =
          (if s \<in> set stems \<and> usable dg (the (map_of (ix_files ix) s)) = None then None
           else map_of (ix_files ix) s))"
  using assms
proof (induction stems arbitrary: ix)
  case Nil
  then show ?case by (simp add: map_filter_simps)
next
  case (Cons s ss)
  from Cons.prems obtain f where f: "map_of (ix_files ix) s = Some f" by auto
  show ?case
  proof (cases "usable dg f")
    case (Some e)
    from Cons.prems have "distinct ss" "\<forall>s \<in> set ss. map_of (ix_files ix) s \<noteq> None" by auto
    from Cons.IH [OF this] show ?thesis
      using recover_step_usable [OF f Some, of ss] f Some
      by (auto simp: map_filter_simps)
  next
    case None
    from recover_step_unusable [OF f None, of ss] obtain reason where
      step: "recover_loop dg (s # ss) ix =
        (case recover_loop dg ss (quarantine_work_index_entry s reason ix) of
           (Inr (vs, q), ix2) \<Rightarrow> (Inr (vs, Suc q), ix2) | (Inl x, ix2) \<Rightarrow> (Inl x, ix2))" by blast
    let ?q = "quarantine_work_index_entry s reason ix"
    have same: "map_of (ix_files ?q) s' = map_of (ix_files ix) s'" if "s' \<in> set ss" for s'
      using that Cons.prems(1) by (intro quarantine_other) auto
    have "distinct ss" "\<forall>s' \<in> set ss. map_of (ix_files ?q) s' \<noteq> None"
      using Cons.prems same by auto
    from Cons.IH [OF this] obtain ix' where ih: "recover_loop dg ss ?q =
      (Inr (List.map_filter (\<lambda>s. usable dg (the (map_of (ix_files ?q) s))) ss,
            length (filter (\<lambda>s. usable dg (the (map_of (ix_files ?q) s)) = None) ss)), ix')"
      and files: "\<And>s'. map_of (ix_files ix') s' =
          (if s' \<in> set ss \<and> usable dg (the (map_of (ix_files ?q) s')) = None then None
           else map_of (ix_files ?q) s')" by blast
    have mf: "List.map_filter (\<lambda>s. usable dg (the (map_of (ix_files ?q) s))) ss =
          List.map_filter (\<lambda>s. usable dg (the (map_of (ix_files ix) s))) ss"
      and fl: "filter (\<lambda>s. usable dg (the (map_of (ix_files ?q) s)) = None) ss =
          filter (\<lambda>s. usable dg (the (map_of (ix_files ix) s)) = None) ss"
      using same by (auto simp: List.map_filter_def cong: filter_cong map_cong)
    have "map_of (ix_files ix') s' =
          (if s' \<in> set (s # ss) \<and> usable dg (the (map_of (ix_files ix) s')) = None then None
           else map_of (ix_files ix) s')" for s'
      using files [of s'] same [of s'] quarantine_gone [of s reason ix]
        quarantine_other [of s' s reason ix] None f Cons.prems(1)
      by (cases "s' = s") auto
    then show ?thesis
      using step ih f None by (auto simp: mf fl map_filter_simps)
  qed
qed

section \<open>Properties of the directory\<close>

text \<open>A written entry reads back as written, and no other file of the directory changes.\<close>

theorem work_index_round_trip:
  assumes "rid \<noteq> []" "project_root \<noteq> []" "phase \<in> {''admitted'', ''claimed'', ''running''}"
  shows "\<exists>raw e. load_entry dg rid (write_work_index_entry dg now project_root rid phase owner lane ix)
           = (Inr (Some (raw, e)), write_work_index_entry dg now project_root rid phase owner lane ix) \<and>
    we_request_id e = rid \<and> we_project_root e = project_root \<and> we_phase e = phase \<and> we_owner_epoch e = owner \<and>
    we_lane_key e = lane \<and> we_admitted_at e = JStr now \<and>
    (\<forall>rid'. rid' \<noteq> rid \<longrightarrow> map_of (ix_files (write_work_index_entry dg now project_root rid phase owner lane ix)) rid'
       = map_of (ix_files ix) rid')"
  using write_then_load [OF assms, of dg now owner lane ix]
  by (auto simp: write_work_index_entry_def alist_reads)

text \<open>A claimed or running entry rejects every phase update of another owner epoch, whatever the phases
  it names, and the directory is unchanged.\<close>

theorem work_index_fenced:
  assumes "map_of (ix_files ix) rid = Some (Doc (JObj raw))" "validate_payload dg raw = Inr (Valid e)"
    "we_phase e \<in> {''claimed'', ''running''}" "we_owner_epoch e = JStr stored" "stored \<noteq> []" "caller \<noteq> []" "caller \<noteq> stored"
  shows "\<exists>err. update_work_index_phase dg now rid from to (JStr caller) ix = (Inl err, ix) \<and>
           code_of err \<in> {Some ''CON-AGW-104'', Some ''CON-AGW-106''}"
  by (rule update_work_index_phase_fenced [OF assms])

lemma length_map_filter_None:
  "length (List.map_filter f xs) + length (filter (\<lambda>x. f x = None) xs) = length xs"
  by (induction xs) (auto simp: List.map_filter_def)



text \<open>An entry moved to its last legal phase is no longer usable: the validation does not know the
  phase \<open>terminal-cleanup\<close>, so the next scan quarantines the entry.\<close>

theorem cleanup_phase_quarantined:
  assumes "update_work_index_phase dg now rid from ''terminal-cleanup'' owner ix = (Inr True, ix')"
  shows "\<exists>raw. map_of (ix_files ix') rid = Some (Doc (JObj raw)) \<and> usable dg (Doc (JObj raw)) = None"
proof -
  obtain raw e raw' where u: "validate_payload dg raw = Inr (Valid e)"
    "map_of (ix_files ix') rid = Some (Doc (JObj raw'))" "dget raw' ''phase'' = JStr ''terminal-cleanup''"
    "\<And>k. k \<notin> {''phase'', ''owner-epoch'', ''claimed-at''} \<Longrightarrow> dget raw' k = dget raw k"
    using assms by (rule update_work_index_phase_True) blast
  note v = validate_payload_Valid [OF u(1)]
  have "validate_payload dg raw' = Inr (InvalidEntry ''invalid-phase'')"
    by (rule terminal_cleanup_invalid [of _ "we_request_id e" "we_project_root e"]) (use u v in auto)
  with u(2) show ?thesis by (auto simp: usable_def)
qed

end
