(* ===== verification/Request_Records.thy ===== *)
theory Request_Records
  imports Workflow Error_Projection Node_Contracts Work_Index
begin

text \<open>
  Request records of the gateway store (\<open>gateway/store/_records.py\<close>, constants of
  \<open>_shared.py\<close>): construction, validation, persistence with redaction, reading with
  migration of older contract versions, and the public status projection.  The JSON-schema
  check of a record is a parameter (the \<open>jsonschema\<close> package); reading and writing one file
  is atomic.  The state of the gateway is one record: the request files, the timeline, the
  work-index directory of each service root and the active-work files.
\<close>

record genv = crypto +
  schema_issues :: "dict \<Rightarrow> string list"
  add_seconds :: "string \<Rightarrow> rat \<Rightarrow> string"
  root_digest :: "string \<Rightarrow> string"
  parse_utc :: "string \<Rightarrow> rat option"
  parse_float :: "string \<Rightarrow> rat option"
  dict_text :: "dict \<Rightarrow> string"

record tl_event =
  tl_request :: string
  tl_name :: string
  tl_state :: json
  tl_attributes :: dict

record gw =
  requests :: "(string \<times> doc) list"
  timeline :: "tl_event list"
  windex :: "string \<Rightarrow> index_dir"
  active_work :: "(string \<times> string) \<rightharpoonup> dict"

definition put_request :: "string \<Rightarrow> doc \<Rightarrow> gw \<Rightarrow> gw" where
  "put_request rid f s = s\<lparr>requests := AList.update rid f (requests s)\<rparr>"

definition record_gateway_timeline :: "string \<Rightarrow> string \<Rightarrow> json \<Rightarrow> dict \<Rightarrow> gw \<Rightarrow> gw" where
  "record_gateway_timeline rid event st attrs s =
     s\<lparr>timeline := timeline s @ [\<lparr>tl_request = rid, tl_name = event, tl_state = st, tl_attributes = attrs\<rparr>]\<rparr>"

section \<open>Constants\<close>

definition CONTRACT_VERSION :: string where
  "CONTRACT_VERSION = ''v11''"

definition MUTABLE_RESULT_FIELDS :: "string list" where
  "MUTABLE_RESULT_FIELDS = [''provider-id'', ''model-id'', ''output'', ''response-artifact'',
     ''failure-response-artifact'', ''failure-response-preview'', ''failure-response-truncated'',
     ''output-preview'', ''output-truncated'', ''completion'', ''usage'', ''error'', ''worker-evidence'',
     ''started-at'', ''finished-at'', ''session-id'', ''cancel-provenance'', ''provider-metadata'',
     ''recovery'', ''replay-required'', ''replay-reason'', ''replayed-by-request-id'',
     ''terminal-classification'', ''terminal-finalization'', ''diagnostics'', ''diagnostic-evidence'',
     ''recovery-required'', ''watchdog-state'', ''watchdog-reason'']"

definition default_provider_activity :: dict where
  "default_provider_activity =
     [(''capability'', JStr ''unknown''), (''first-at'', JNull), (''last-at'', JNull),
      (''lease-expires-at'', JNull), (''source'', JNull), (''source-instance'', JNull),
      (''source-sequence'', JInt 0), (''phase'', JNull), (''activity-label'', JNull), (''activity-group'', JNull)]"

definition default_owner_activity :: dict where
  "default_owner_activity =
     [(''last-at'', JNull), (''lease-expires-at'', JNull), (''source'', JNull),
      (''source-instance'', JNull), (''source-sequence'', JInt 0)]"

definition default_activity :: dict where
  "default_activity =
     [(''sequence'', JInt 0), (''last-at'', JNull), (''last-source'', JNull),
      (''provider'', JObj default_provider_activity), (''owner'', JObj default_owner_activity)]"

section \<open>Validation and persistence\<close>

definition validate_record :: "('a genv_scheme) \<Rightarrow> string \<Rightarrow> dict \<Rightarrow> dict res" where
  "validate_record E code payload =
     rbind (if dget payload ''node-admission'' \<noteq> JNull then
              rbind (node_admission_from_mapping (crypto.truncate E) (dget payload ''node-admission'')) (\<lambda>m.
                if \<not> jeq (dget (obj_of (dget m ''policy'')) ''profile-id'') (dget payload ''execution-profile-id'')
                   \<or> dget payload ''node-placement'' = JNull
                then Inl (ag_error code ''Node admission requires matching placement and profile'' [])
                else Inr (dset ''node-admission'' (JObj m) payload))
            else Inr payload) (\<lambda>p.
     if schema_issues E p \<noteq> [] then
       Inl (ag_error code ''gateway request record failed schema validation''
              [(''issues'', JList (map JStr (schema_issues E p)))])
     else Inr p)"

definition redact_for_persistence :: "dict \<Rightarrow> dict" where
  "redact_for_persistence payload =
     (let r = dset ''prompt-body'' JNull payload in
      if dget r ''response-artifact'' \<noteq> JNull then dset ''output'' JNull r else r)"

definition read_record_payload :: "string \<Rightarrow> gw \<Rightarrow> dict res" where
  "read_record_payload rid s = (case map_of (requests s) rid of
     None \<Rightarrow> Inl (ag_error ''RES-AGW-001'' ''gateway request not found'' [(''request-id'', JStr rid)])
   | Some Garbage \<Rightarrow> Inl (ag_error ''IO-AGW-001'' ''failed to read gateway request record'' [(''request-id'', JStr rid)])
   | Some (Doc (JObj d)) \<Rightarrow> Inr d
   | Some (Doc _) \<Rightarrow> Inl (ag_error ''VAL-AGW-005'' ''gateway request record failed schema validation''
        [(''issues'', JList [JStr ''record must be an object''])]))"

text \<open>The record identifier is used as a file name; a record whose identifier is not text has
  none (the schema admits text only).\<close>

definition write_record :: "('a genv_scheme) \<Rightarrow> dict \<Rightarrow> gw \<Rightarrow> unit res \<times> gw" where
  "write_record E payload s =
     (if \<not> truthy (dget payload ''request-id'') then
        (Inl (ag_error ''VAL-AGW-003'' ''gateway request record missing request-id'' []), s)
      else case validate_record E ''VAL-AGW-004'' payload of
        Inl e \<Rightarrow> (Inl e, s)
      | Inr p \<Rightarrow> (case dget p ''request-id'' of
          JStr rid \<Rightarrow>
           (if map_of (requests s) rid = None then (Inr (), put_request rid (Doc (JObj (redact_for_persistence p))) s)
            else case read_record_payload rid s of
              Inl e \<Rightarrow> (Inl e, s)
            | Inr previous \<Rightarrow>
                if \<not> jeq (dget previous ''node-admission'') (dget p ''node-admission'') then
                  (Inl (ag_error ''VAL-AGW-098'' ''Node admission descriptor is immutable after record creation'' []), s)
                else (Inr (), put_request rid (Doc (JObj (redact_for_persistence p))) s))
        | _ \<Rightarrow> (Inl TypeError, s)))"

section \<open>Migration\<close>

definition set_defaults :: "dict \<Rightarrow> dict \<Rightarrow> dict" where
  "set_defaults kvs d = foldl (\<lambda>acc (k, v). dsetdefault k v acc) d kvs"

definition migrate_activity :: "dict \<Rightarrow> dict res" where
  "migrate_activity migrated =
     (let act = (case dget migrated ''activity'' of
          JObj a \<Rightarrow>
            (let prov = (case dget a ''provider'' of JObj p \<Rightarrow> dupd default_provider_activity p
                          | _ \<Rightarrow> default_provider_activity);
                 own = (case dget a ''owner'' of JObj p \<Rightarrow> dupd default_owner_activity p
                          | _ \<Rightarrow> default_owner_activity);
                 base = dset ''owner'' (JObj own) (dset ''provider'' (JObj prov) default_activity)
             in dupd base (filter (\<lambda>(k, v). k \<in> {''sequence'', ''last-at'', ''last-source''})
                   (map (\<lambda>k. (k, dget a k)) (filter (dhas a) [''sequence'', ''last-at'', ''last-source'']))))
        | _ \<Rightarrow> default_activity)
      in if jeq (dget act ''sequence'') (JInt 0) \<and> truthy (dget migrated ''activity-sequence'') then
           rbind (int_or_0 (dget migrated ''activity-sequence'')) (\<lambda>n.
             Inr (dupd act
               [(''sequence'', JInt n), (''last-at'', dget migrated ''last-activity-at''),
                (''last-source'', dget migrated ''activity-source''),
                (''owner'', JObj (dupd (obj_of (dget act ''owner''))
                   [(''last-at'', dget migrated ''last-activity-at''),
                    (''lease-expires-at'', dget migrated ''activity-lease-expires-at''),
                    (''source'', dget migrated ''activity-source''), (''source-sequence'', JInt n)]))]))
         else Inr act)"

definition FENCE_FIELDS :: "string list" where
  "FENCE_FIELDS = [''dispatch-owner-epoch'', ''dispatch-claimed-at'', ''recovery'', ''replay-required'',
     ''replay-reason'', ''replayed-by-request-id'', ''resumed-from-request-id'']"

definition nulls :: "string list \<Rightarrow> dict" where
  "nulls ks = map (\<lambda>k. (k, JNull)) ks"

text \<open>The part of \<open>_migrate_v1_payload\<close> after the early returns for v8, v9 and v10.\<close>

definition migrate_tail :: "json \<Rightarrow> dict \<Rightarrow> dict res" where
  "migrate_tail version migrated =
     (let modern = (version \<in> {JStr ''v8'', JStr ''v9'', JStr CONTRACT_VERSION});
          v' = (if version \<in> {JStr ''v6'', JStr ''v8'', JStr ''v9'', JStr CONTRACT_VERSION} then CONTRACT_VERSION
                else if version = JStr ''v7'' then ''v7'' else ''v5'');
          m1 = dset ''contract-version'' (JStr v') migrated;
          m2 = (if v' = CONTRACT_VERSION then set_defaults (nulls [''node-dispatch'', ''node-placement'']) m1 else m1);
          m3 = dsetdefault ''provider-transport-kind''
                 (JStr (if truthy (dget m2 ''session-id'') then ''provider-session'' else ''worker'')) m2;
          m4 = dsetdefault ''continuation-session-id'' (dget m3 ''session-id'') m3;
          m5 = (if \<not> modern then dupd m4 (nulls FENCE_FIELDS) else set_defaults (nulls FENCE_FIELDS) m4);
          m6 = set_defaults
                (nulls [''resolved-source-id'', ''resolved-model-selector'', ''resolved-capacity-generation'',
                        ''last-activity-at''] @ [(''activity-sequence'', JInt 0)]
                 @ nulls [''activity-source'', ''activity-lease-expires-at''] @ [(''recovery-required'', JBool False)]) m5
      in rbind (migrate_activity m6) (\<lambda>act.
         let m7 = dset ''activity'' (JObj act) m6;
             m8 = set_defaults ([(''watchdog-state'', JStr ''not-started'')]
                   @ nulls [''watchdog-reason'', ''watchdog-policy'', ''terminal-classification'', ''diagnostics'']) m7
         in Inr (dset ''diagnostic-evidence''
                  (if is_list (dget m8 ''diagnostic-evidence'') then dget m8 ''diagnostic-evidence'' else JList []) m8)))"

text \<open>The retired keys and the defaults every remaining version gets.\<close>

definition migrate_head :: "dict \<Rightarrow> dict" where
  "migrate_head m1 =
     (let m2 = dpop ''admission-policy-digest'' (dpop ''resolved-queue-limits''
                 (dpop ''gateway-execution-lane-key'' m1));
          m3 = set_defaults (nulls [''cancel-acknowledged-at'', ''cancel-acknowledged-by'',
                 ''cancel-provenance'', ''dispatch-service-root'', ''response-artifact'']) m2
      in dsetdefault ''output-truncated'' (JBool False)
           (dsetdefault ''output-preview'' (dget m3 ''output'') m3))"

definition migrate_v1_payload :: "('a genv_scheme) \<Rightarrow> dict \<Rightarrow> dict res" where
  "migrate_v1_payload E payload =
     (let version = dget payload ''contract-version'';
          m0 = dsetdefault ''node-admission'' JNull (dpop ''timeout-seconds'' payload) in
      if version = JStr ''v10'' then
        validate_record E ''VAL-AGW-005'' (dset ''contract-version'' (JStr CONTRACT_VERSION) m0)
      else if version \<in> {JStr ''v8'', JStr ''v9''} then
        (let m = set_defaults (nulls [''node-dispatch'', ''node-placement''])
                   (dset ''contract-version'' (JStr CONTRACT_VERSION) m0) in
         validate_record E ''VAL-AGW-005''
           (case dget m ''node-dispatch'' of
              JObj d \<Rightarrow> dset ''node-dispatch'' (JObj (dset ''attestation-sha256'' JNull d)) m
            | _ \<Rightarrow> m))
      else
        (let m1 = (if version = JStr CONTRACT_VERSION
                   then set_defaults (nulls [''node-dispatch'', ''node-placement'']) m0 else m0);
             m4 = migrate_head m1
         in if version \<notin> JStr ` set [''v1'', ''v2'', ''v3'', ''v4'', ''v5'', ''v6'', ''v7'', ''v8'', ''v9'', CONTRACT_VERSION]
            then validate_record E ''VAL-AGW-005'' m4
            else rbind (migrate_tail version m4) (validate_record E ''VAL-AGW-005'')))"

definition read_record_locked :: "('a genv_scheme) \<Rightarrow> string \<Rightarrow> gw \<Rightarrow> dict res \<times> gw" where
  "read_record_locked E rid s = (case read_record_payload rid s of
     Inl e \<Rightarrow> (Inl e, s)
   | Inr payload \<Rightarrow> (case migrate_v1_payload E payload of
        Inl e \<Rightarrow> (Inl e, s)
      | Inr migrated \<Rightarrow>
          if \<not> jeq (JObj migrated) (JObj payload) then
            (case ditem migrated ''state'' of
               Inl e \<Rightarrow> (Inl e, put_request rid (Doc (JObj (redact_for_persistence migrated))) s)
             | Inr st \<Rightarrow> (Inr migrated,
                 record_gateway_timeline rid ''record.migrated'' st
                   [(''from-contract-version'', dget payload ''contract-version''),
                    (''to-contract-version'', JStr CONTRACT_VERSION)]
                   (put_request rid (Doc (JObj (redact_for_persistence migrated))) s)))
          else (Inr migrated, s)))"

section \<open>What migration keeps\<close>

lemma dget_dsetdefault_null [simp]: "dget (dsetdefault k JNull d) k' = dget d k'"
  by (metis dget_dsetdefault dhas_dget)

lemma dget_dsetdefault_other [simp]: "k \<noteq> k' \<Longrightarrow> dget (dsetdefault k' v d) k = dget d k"
  by (simp add: dget_dsetdefault)

lemma set_defaults_simps [simp]:
  "set_defaults [] d = d"
  "set_defaults ((k, v) # kvs) d = set_defaults kvs (dsetdefault k v d)"
  "set_defaults (xs @ ys) d = set_defaults ys (set_defaults xs d)"
  by (simp_all add: set_defaults_def)

lemma dget_set_default_nulls [simp]: "dget (set_defaults (nulls ks) d) k = dget d k"
  by (induction ks arbitrary: d) (simp_all add: nulls_def)

definition MIGRATED_KEYS :: "string list" where
  "MIGRATED_KEYS = [''timeout-seconds'', ''node-admission'', ''gateway-execution-lane-key'',
     ''resolved-queue-limits'', ''admission-policy-digest'', ''output-preview'', ''output-truncated'',
     ''contract-version'', ''provider-transport-kind'', ''continuation-session-id'', ''activity-sequence'',
     ''recovery-required'', ''activity'', ''watchdog-state'', ''diagnostic-evidence'']"

lemma validate_record_keeps:
  assumes "validate_record E c p = Inr q" "k \<noteq> ''node-admission''"
  shows "dget q k = dget p k"
  using assms unfolding validate_record_def rbind_eq_Inr
  by (cases "dget p ''node-admission'' = JNull") (auto simp: rbind_eq_Inr split: if_split_asm)

lemma validate_record_schema: "validate_record E c p = Inr q \<Longrightarrow> schema_issues E q = []"
  unfolding validate_record_def rbind_eq_Inr by (auto split: if_split_asm)

lemma migrate_tail_keeps:
  assumes "migrate_tail (JStr CONTRACT_VERSION) p = Inr q" "k \<notin> set MIGRATED_KEYS"
  shows "dget q k = dget p k"
  using assms unfolding migrate_tail_def Let_def rbind_eq_Inr
  by (clarsimp simp: MIGRATED_KEYS_def)

lemma migrate_head_keeps: "k \<notin> set MIGRATED_KEYS \<Longrightarrow> dget (migrate_head p) k = dget p k"
  by (simp add: migrate_head_def Let_def MIGRATED_KEYS_def)

lemma migrate_current:
  assumes "migrate_v1_payload E p = Inr q" "dget p ''contract-version'' = JStr CONTRACT_VERSION"
  obtains m where "migrate_tail (JStr CONTRACT_VERSION) (migrate_head (set_defaults (nulls [''node-dispatch'', ''node-placement''])
      (dsetdefault ''node-admission'' JNull (dpop ''timeout-seconds'' p)))) = Inr m"
    "validate_record E ''VAL-AGW-005'' m = Inr q"
  using assms by (auto simp: migrate_v1_payload_def Let_def rbind_eq_Inr CONTRACT_VERSION_def)

lemma migrate_keeps:
  assumes "migrate_v1_payload E p = Inr q" "dget p ''contract-version'' = JStr CONTRACT_VERSION"
    "k \<notin> set MIGRATED_KEYS"
  shows "dget q k = dget p k"
proof -
  from migrate_current [OF assms(1,2)] obtain m where
    m: "migrate_tail (JStr CONTRACT_VERSION) (migrate_head (set_defaults (nulls [''node-dispatch'', ''node-placement''])
      (dsetdefault ''node-admission'' JNull (dpop ''timeout-seconds'' p)))) = Inr m"
    and q: "validate_record E ''VAL-AGW-005'' m = Inr q" .
  from assms(3) have "k \<noteq> ''node-admission''" "k \<noteq> ''timeout-seconds''" by (simp_all add: MIGRATED_KEYS_def)
  with validate_record_keeps [OF q] migrate_tail_keeps [OF m assms(3)] migrate_head_keeps [OF assms(3)]
  show ?thesis by simp
qed

lemma migrate_version:
  assumes "migrate_v1_payload E p = Inr q" "dget p ''contract-version'' = JStr CONTRACT_VERSION"
  shows "dget q ''contract-version'' = JStr CONTRACT_VERSION"
proof -
  from migrate_current [OF assms] obtain m where
    m: "migrate_tail (JStr CONTRACT_VERSION) (migrate_head (set_defaults (nulls [''node-dispatch'', ''node-placement''])
      (dsetdefault ''node-admission'' JNull (dpop ''timeout-seconds'' p)))) = Inr m"
    and q: "validate_record E ''VAL-AGW-005'' m = Inr q" .
  from m have "dget m ''contract-version'' = JStr CONTRACT_VERSION"
    unfolding migrate_tail_def Let_def rbind_eq_Inr by clarsimp
  with validate_record_keeps [OF q, of "''contract-version''"] show ?thesis by simp
qed

end
