(* ===== verification/Lifecycle.thy ===== *)
theory Lifecycle
  imports Workflow
begin

text \<open>
  The contract of the request store, without the records: what one durable mutation may do
  to the lifecycle state, the revision, the owner and worker fences, the attempt epoch and
  the cancellation flags of a request.  The store operations are proved to be steps of this
  relation; the safety properties of a request history are proved here once, by rule
  induction.  An absent owner, worker or acknowledgement is \<open>None\<close>.
\<close>

record lifecycle =
  lc_state :: string
  lc_revision :: int
  lc_owner :: "string option"
  lc_worker :: "string option"
  lc_attempt :: int
  lc_cancel :: bool
  lc_ack :: "string option"

text \<open>The states an operator may capture a result from.\<close>

definition OPERATOR_STATES :: "string list" where
  "OPERATOR_STATES = [''queued'', ''running'', ''interrupted'', ''failed'', ''cancelled'', ''timed-out'',
     ''expired'', ''abandoned'']"

definition CANCEL_ACK_ACTORS :: "string list" where
  "CANCEL_ACK_ACTORS = [''queue-worker'', ''session-runtime'', ''dispatch'', ''recovery'']"

definition bumped :: "lifecycle \<Rightarrow> lifecycle" where
  "bumped a = a\<lparr>lc_revision := lc_revision a + 1\<rparr>"

inductive lc_step :: "lifecycle \<Rightarrow> lifecycle \<Rightarrow> bool" where
  annotate: "lc_step a (bumped a)"
| transition: "transition_allowed_fn (lc_state a) st \<Longrightarrow> lc_step a (bumped (a\<lparr>lc_state := st\<rparr>))"
| recover: "transition_allowed_fn (lc_state a) st \<Longrightarrow> st \<in> set TERMINAL_STATES \<Longrightarrow>
    ack = (if lc_cancel a \<and> lc_ack a = None then Some ''recovery'' else lc_ack a) \<Longrightarrow>
    lc_step a (bumped (a\<lparr>lc_state := st, lc_ack := ack\<rparr>))"
| claim: "lc_state a = ''queued'' \<Longrightarrow> lc_owner a \<in> {None, Some w} \<Longrightarrow> w \<noteq> [] \<Longrightarrow>
    lc_step a (bumped (a\<lparr>lc_owner := Some w\<rparr>))"
| release: "lc_state a = ''queued'' \<Longrightarrow> lc_owner a \<noteq> None \<Longrightarrow>
    lc_step a (bumped (a\<lparr>lc_owner := None\<rparr>))"
| takeover: "lc_state a \<in> {''queued'', ''running''} \<Longrightarrow> w \<noteq> [] \<Longrightarrow> lc_owner a \<noteq> Some w \<Longrightarrow>
    worker = lc_worker a \<or> worker \<noteq> None \<Longrightarrow>
    lc_step a (bumped (a\<lparr>lc_owner := Some w, lc_worker := worker\<rparr>))"
| prepare: "lc_state a = ''queued'' \<Longrightarrow> \<not> lc_cancel a \<Longrightarrow> lc_owner a \<noteq> None \<Longrightarrow>
    lc_step a (bumped (a\<lparr>lc_worker := Some wk, lc_attempt := lc_attempt a + 1\<rparr>))"
| start: "transition_allowed_fn (lc_state a) ''running'' \<Longrightarrow>
    lc_step a (bumped (a\<lparr>lc_state := ''running'', lc_worker := Some wk, lc_attempt := lc_attempt a + 1\<rparr>))"
| start_session: "lc_state a = ''queued'' \<Longrightarrow> \<not> lc_cancel a \<Longrightarrow> lc_owner a \<noteq> None \<Longrightarrow> lc_worker a \<noteq> None \<Longrightarrow>
    lc_step a (bumped (a\<lparr>lc_state := ''running''\<rparr>))"
| cancel: "\<not> lc_cancel a \<Longrightarrow> lc_step a (bumped (a\<lparr>lc_cancel := True\<rparr>))"
| cancel_queued: "lc_state a = ''queued'' \<Longrightarrow>
    lc_step a (bumped (a\<lparr>lc_state := ''cancelled'', lc_cancel := True, lc_ack := Some ''queue-worker''\<rparr>))"
| acknowledge: "lc_cancel a \<Longrightarrow> lc_ack a = None \<Longrightarrow> by \<in> set CANCEL_ACK_ACTORS \<Longrightarrow>
    lc_step a (bumped (a\<lparr>lc_ack := Some by\<rparr>))"
| capture: "lc_state a \<in> set OPERATOR_STATES \<Longrightarrow>
    lc_step a (bumped (a\<lparr>lc_state := ''completed'', lc_owner := None, lc_worker := None\<rparr>))"

inductive_cases lc_stepE: "lc_step a b"

section \<open>What every history keeps\<close>

lemma bumped_simps [simp]:
  "lc_state (bumped a) = lc_state a" "lc_revision (bumped a) = lc_revision a + 1"
  "lc_owner (bumped a) = lc_owner a" "lc_worker (bumped a) = lc_worker a"
  "lc_attempt (bumped a) = lc_attempt a" "lc_cancel (bumped a) = lc_cancel a" "lc_ack (bumped a) = lc_ack a"
  by (simp_all add: bumped_def)

lemma lc_step_revision: "lc_step a b \<Longrightarrow> lc_revision b = lc_revision a + 1"
  by (erule lc_stepE) simp_all

lemma lc_step_attempt: "lc_step a b \<Longrightarrow> lc_attempt b = lc_attempt a \<or> lc_attempt b = lc_attempt a + 1"
  by (erule lc_stepE) simp_all

lemma lc_step_cancel: "lc_step a b \<Longrightarrow> lc_cancel a \<Longrightarrow> lc_cancel b"
  by (erule lc_stepE) simp_all

lemma lc_step_ack: "lc_step a b \<Longrightarrow> lc_ack a \<noteq> None \<Longrightarrow> lc_ack b = lc_ack a \<or> lc_state b = ''cancelled'' \<and> lc_state a = ''queued''"
  by (erule lc_stepE) auto

text \<open>A running request can only change state by the workflow or by an operator capture; the
  states that no transition leaves are final for every step except a capture.\<close>

lemma lc_step_state:
  "lc_step a b \<Longrightarrow> lc_state b = lc_state a \<or> transition_allowed_fn (lc_state a) (lc_state b)
     \<or> (lc_state a \<in> set OPERATOR_STATES \<and> lc_state b = ''completed'')"
  by (erule lc_stepE) (simp_all add: transition_allowed_fn_iff)

definition closed_states :: "string set" where
  "closed_states = {''completed'', ''rejected''}"

lemma lc_step_closed: "lc_step a b \<Longrightarrow> lc_state a \<in> closed_states \<Longrightarrow> lc_state b = lc_state a"
  by (drule lc_step_state) (auto simp: closed_states_def transition_allowed_fn_iff OPERATOR_STATES_def)

text \<open>After a capture nobody owns the request, and nobody can own it again.\<close>

lemma lc_step_closed_owner:
  "lc_step a b \<Longrightarrow> lc_state a \<in> closed_states \<Longrightarrow> lc_owner b = lc_owner a \<and> lc_worker b = lc_worker a"
  by (erule lc_stepE) (auto simp: closed_states_def transition_allowed_fn_iff OPERATOR_STATES_def)

lemma lc_steps_revision: "lc_step\<^sup>*\<^sup>* a b \<Longrightarrow> a = b \<or> lc_revision a < lc_revision b"
  by (induction rule: rtranclp_induct) (auto dest: lc_step_revision)

lemma lc_steps_attempt: "lc_step\<^sup>*\<^sup>* a b \<Longrightarrow> lc_attempt a \<le> lc_attempt b"
  by (induction rule: rtranclp_induct) (auto dest!: lc_step_attempt)

lemma lc_steps_cancel: "lc_step\<^sup>*\<^sup>* a b \<Longrightarrow> lc_cancel a \<Longrightarrow> lc_cancel b"
  by (induction rule: rtranclp_induct) (auto dest: lc_step_cancel)

lemma lc_steps_closed:
  "lc_step\<^sup>*\<^sup>* a b \<Longrightarrow> lc_state a \<in> closed_states \<Longrightarrow>
     lc_state b = lc_state a \<and> lc_owner b = lc_owner a \<and> lc_worker b = lc_worker a"
proof (induction rule: rtranclp_induct)
  case (step y z)
  then show ?case using lc_step_closed [of y z] lc_step_closed_owner [of y z] by metis
qed simp

text \<open>Two histories that pass through the same revision are at the same state there: an exact
  revision identifies one point of a request's history.\<close>

lemma lc_steps_same_revision: "lc_step\<^sup>*\<^sup>* a b \<Longrightarrow> lc_revision a = lc_revision b \<Longrightarrow> a = b"
  using lc_steps_revision by fastforce

end
