(* ===== verification/Request_Store.thy ===== *)
theory Request_Store
  imports Request_Records Lifecycle
begin

text \<open>
  What every mutation of \<open>gateway/store/_transitions.py\<close> shares.  An operation takes the lock
  of one request, reads (and migrates) the record, decides, writes one successor and appends a
  timeline event.  The decision is a pure function on the record, its \<^emph>\<open>body\<close>; \<open>locked_update\<close> is
  the rest.  The abstraction \<open>lc_of\<close> reads the lifecycle out of a record; a body that refines
  the lifecycle contract on records refines it on the durable store (locale \<open>lifecycle_op\<close>).
\<close>

type_synonym clock = "nat \<Rightarrow> string"
type_synonym event = "string \<times> json \<times> dict"

text \<open>The result of a body: the record (or a view of it) is returned and nothing is written, or a
  successor is written and then the timeline event, whose arguments are evaluated after the
  write, is recorded.\<close>

datatype outcome = Keep dict | Commit dict "event option res"

definition locked_update :: "('a genv_scheme) \<Rightarrow> string \<Rightarrow> (dict \<Rightarrow> outcome res) \<Rightarrow> gw \<Rightarrow> dict res \<times> gw" where
  "locked_update E rid body s = (case read_record_locked E rid s of
     (Inl e, s1) \<Rightarrow> (Inl e, s1)
   | (Inr rec, s1) \<Rightarrow> (case body rec of
        Inl e \<Rightarrow> (Inl e, s1)
      | Inr (Keep d) \<Rightarrow> (Inr d, s1)
      | Inr (Commit upd ev) \<Rightarrow> (case write_record E upd s1 of
           (Inl e, s2) \<Rightarrow> (Inl e, s2)
         | (Inr u, s2) \<Rightarrow> (case ev of
              Inl e \<Rightarrow> (Inl e, s2)
            | Inr None \<Rightarrow> (Inr upd, s2)
            | Inr (Some (name, st, attrs)) \<Rightarrow> (Inr upd, record_gateway_timeline rid name st attrs s2)))))"

definition emit :: "string \<Rightarrow> json \<Rightarrow> dict \<Rightarrow> event option res" where
  "emit name st attrs = Inr (Some (name, st, attrs))"

section \<open>Guards\<close>

text \<open>A state that is no text is unknown; looking up an unhashable one raises \<open>TypeError\<close>.\<close>

fun ensure_transition :: "json \<Rightarrow> string \<Rightarrow> unit res" where
  "ensure_transition (JStr cur) new =
     (if \<not> is_known_state_fn cur then
        Inl (ag_error ''VAL-AGW-006'' ''unknown gateway request state'' [(''state'', JStr cur)])
      else if \<not> transition_allowed_fn cur new then
        Inl (ag_error ''CON-AGW-001'' ''illegal gateway request state transition''
               [(''from'', JStr cur), (''to'', JStr new)])
      else Inr ())"
| "ensure_transition (JList xs) new = Inl TypeError"
| "ensure_transition (JObj d) new = Inl TypeError"
| "ensure_transition v new =
     Inl (ag_error ''VAL-AGW-006'' ''unknown gateway request state'' [(''state'', v)])"

definition require_owned_identity :: "string option \<Rightarrow> string option \<Rightarrow> int \<Rightarrow> unit res" where
  "require_owned_identity owner_epoch worker_id attempt_epoch =
     guard_r (owner_epoch \<notin> {None, Some []} \<and> worker_id \<notin> {None, Some []} \<and> 1 \<le> attempt_epoch)
       (ag_error ''VAL-AGW-085'' ''owned mutation requires dispatch owner, worker, and attempt identity'' [])"

definition check_expected_identity ::
    "dict \<Rightarrow> int option \<Rightarrow> string option \<Rightarrow> string option \<Rightarrow> int option \<Rightarrow> unit res" where
  "check_expected_identity rec exp_rev exp_owner exp_worker exp_attempt =
     rbind (case exp_rev of None \<Rightarrow> Inr () | Some n \<Rightarrow>
        rbind (ditem rec ''revision'') (\<lambda>v.
          guard_r (jeq v (JInt n)) (ag_error ''CON-AGW-071'' ''gateway request revision changed''
             [(''expected'', JInt n), (''actual'', v)]))) (\<lambda>_.
     rbind (case exp_owner of None \<Rightarrow> Inr () | Some w \<Rightarrow>
        guard_r (dget rec ''dispatch-owner-epoch'' = JStr w)
          (ag_error ''CON-AGW-083'' ''gateway request dispatch ownership changed'' [])) (\<lambda>_.
     rbind (case exp_worker of None \<Rightarrow> Inr () | Some w \<Rightarrow>
        rbind (ditem rec ''worker-id'') (\<lambda>v.
          guard_r (v = JStr w) (ag_error ''CON-AGW-072'' ''gateway request worker ownership changed'' []))) (\<lambda>_.
     case exp_attempt of None \<Rightarrow> Inr () | Some n \<Rightarrow>
        rbind (ditem rec ''attempt-epoch'') (\<lambda>v.
          guard_r (jeq v (JInt n)) (ag_error ''CON-AGW-073'' ''gateway request attempt epoch changed''
             [(''expected'', JInt n), (''actual'', v)])))))"

section \<open>The lifecycle of a record\<close>

fun opt_of :: "json \<Rightarrow> string option" where
  "opt_of (JStr s) = Some s"
| "opt_of _ = None"

fun str_of :: "json \<Rightarrow> string" where
  "str_of (JStr s) = s"
| "str_of _ = []"

fun int_of :: "json \<Rightarrow> int" where
  "int_of (JInt i) = i"
| "int_of _ = 0"

definition lc_of :: "dict \<Rightarrow> lifecycle" where
  "lc_of d = \<lparr>lc_state = str_of (dget d ''state''), lc_revision = int_of (dget d ''revision''),
     lc_owner = opt_of (dget d ''dispatch-owner-epoch''), lc_worker = opt_of (dget d ''worker-id''),
     lc_attempt = int_of (dget d ''attempt-epoch''), lc_cancel = truthy (dget d ''cancel-requested''),
     lc_ack = opt_of (dget d ''cancel-acknowledged-by'')\<rparr>"

text \<open>A record of the current contract with fields of the types the schema asks for; an
  acknowledgement is absent or a non-empty name.\<close>

definition nullable_str :: "json \<Rightarrow> bool" where
  "nullable_str v \<longleftrightarrow> v = JNull \<or> is_str v"

definition wf_rec :: "dict \<Rightarrow> bool" where
  "wf_rec d \<longleftrightarrow> dget d ''contract-version'' = JStr CONTRACT_VERSION \<and>
     is_str (dget d ''state'') \<and> is_int_strict (dget d ''revision'') \<and>
     is_int_strict (dget d ''attempt-epoch'') \<and>
     nullable_str (dget d ''dispatch-owner-epoch'') \<and> nullable_str (dget d ''worker-id'') \<and>
     nullable_str (dget d ''cancel-acknowledged-by'') \<and> dget d ''cancel-acknowledged-by'' \<noteq> JStr []"

text \<open>The admission identity: no mutation changes it.\<close>

definition FROZEN_FIELDS :: "string list" where
  "FROZEN_FIELDS = [''contract-version'', ''request-id'', ''agent-id'', ''execution-profile-id'',
     ''prompt-profile-id'', ''prompt-digest'', ''manifest-id'', ''context-fingerprint'', ''idempotency-key'',
     ''correlation-id'', ''node-placement'', ''mode'', ''created-at'']"

definition frozen :: "dict \<Rightarrow> dict \<Rightarrow> bool" where
  "frozen d d' \<longleftrightarrow> list_all (\<lambda>k. dget d' k = dget d k) FROZEN_FIELDS"

definition LC_FIELDS :: "string list" where
  "LC_FIELDS = [''state'', ''revision'', ''dispatch-owner-epoch'', ''worker-id'', ''attempt-epoch'',
     ''cancel-requested'', ''cancel-acknowledged-by'']"

definition rec_step :: "dict \<Rightarrow> dict \<Rightarrow> bool" where
  "rec_step d d' \<longleftrightarrow> wf_rec d' \<and> frozen d d' \<and> lc_step (lc_of d) (lc_of d')"

lemma wf_recE:
  assumes "wf_rec d"
  obtains st r ep where "dget d ''state'' = JStr st" "dget d ''revision'' = JInt r"
    "dget d ''attempt-epoch'' = JInt ep" "dget d ''contract-version'' = JStr CONTRACT_VERSION"
proof -
  from assms obtain st r ep where "dget d ''state'' = JStr st" "dget d ''revision'' = JInt r"
    "dget d ''attempt-epoch'' = JInt ep"
    by (auto simp: wf_rec_def elim!: is_str.elims is_int_strict.elims)
  with assms show thesis by (intro that) (auto simp: wf_rec_def)
qed

lemma opt_of_eq_Some [simp]: "opt_of v = Some s \<longleftrightarrow> v = JStr s"
  by (cases v) auto

lemma opt_of_eq_None: "nullable_str v \<Longrightarrow> opt_of v = None \<longleftrightarrow> v = JNull"
  by (cases v) (auto simp: nullable_str_def)

lemma nullable_str_simps [simp]: "nullable_str JNull" "nullable_str (JStr s)"
  by (simp_all add: nullable_str_def)

lemma frozen_trans: "frozen a b \<Longrightarrow> frozen b c \<Longrightarrow> frozen a c"
  by (simp add: frozen_def list_all_iff)

lemma frozen_refl [simp]: "frozen d d"
  by (simp add: frozen_def list_all_iff)

lemma check_expected_identity_eq_Inr:
  assumes "wf_rec d"
  shows "check_expected_identity d er eo ew ea = Inr u \<longleftrightarrow>
    (\<forall>n. er = Some n \<longrightarrow> lc_revision (lc_of d) = n) \<and> (\<forall>w. eo = Some w \<longrightarrow> lc_owner (lc_of d) = Some w) \<and>
    (\<forall>w. ew = Some w \<longrightarrow> lc_worker (lc_of d) = Some w) \<and> (\<forall>n. ea = Some n \<longrightarrow> lc_attempt (lc_of d) = n)"
proof -
  obtain st r ep where d: "dget d ''state'' = JStr st" "dget d ''revision'' = JInt r" "dget d ''attempt-epoch'' = JInt ep"
    using wf_recE [OF assms] by metis
  have w: "ditem d ''worker-id'' = Inr v \<Longrightarrow> v = dget d ''worker-id''" for v
    by (simp add: ditem_Inr_dget)
  have w': "dget d ''worker-id'' = JStr s \<Longrightarrow> ditem d ''worker-id'' = Inr (JStr s)" for s
    by (rule ditem_of_str)
  show ?thesis
    using d(2,3) ditem_dget [of d "''revision''"] ditem_dget [of d "''attempt-epoch''"]
    by (cases er; cases eo; cases ew; cases ea)
       (auto simp: check_expected_identity_def lc_of_def rbind_eq_Inr guard_r_eq_Inr dest!: w dest: w')
qed

lemma ensure_transition_eq_Inr: "ensure_transition v new = Inr u \<longleftrightarrow> (\<exists>cur. v = JStr cur \<and> transition_allowed_fn cur new)"
proof (cases v)
  case (JStr s)
  have "transition_allowed_fn s new \<Longrightarrow> is_known_state_fn s"
    unfolding transition_allowed_fn_iff is_known_state_fn_iff by auto
  with JStr show ?thesis by auto
qed auto

section \<open>The durable store refines the lifecycle\<close>

definition rec_of :: "gw \<Rightarrow> string \<Rightarrow> dict option" where
  "rec_of s rid = (case map_of (requests s) rid of Some (Doc (JObj d)) \<Rightarrow> Some d | _ \<Rightarrow> None)"

text \<open>A sound store: each file is a well-formed record of its own request and holds no prompt.\<close>

definition store_ok :: "gw \<Rightarrow> bool" where
  "store_ok s \<longleftrightarrow> (\<forall>rid d. rec_of s rid = Some d \<longrightarrow>
     wf_rec d \<and> dget d ''request-id'' = JStr rid \<and> dget d ''prompt-body'' = JNull)"

text \<open>Every record that was there is there still, its admission identity unchanged, and has moved
  along lifecycle steps.\<close>

definition rec_path :: "dict \<Rightarrow> dict \<Rightarrow> bool" where
  "rec_path d d' \<longleftrightarrow> frozen d d' \<and> lc_step\<^sup>*\<^sup>* (lc_of d) (lc_of d')"

definition store_path :: "gw \<Rightarrow> gw \<Rightarrow> bool" where
  "store_path s s' \<longleftrightarrow> (\<forall>rid d. rec_of s rid = Some d \<longrightarrow> (\<exists>d'. rec_of s' rid = Some d' \<and> rec_path d d'))"

lemma rec_path_refl [simp]: "rec_path d d"
  by (simp add: rec_path_def)

lemma rec_path_trans: "rec_path a b \<Longrightarrow> rec_path b c \<Longrightarrow> rec_path a c"
  by (auto simp: rec_path_def intro: frozen_trans)

lemma store_path_refl [simp]: "store_path s s"
  by (simp add: store_path_def)

lemma store_path_trans: "store_path a b \<Longrightarrow> store_path b c \<Longrightarrow> store_path a c"
  unfolding store_path_def by (meson rec_path_trans)

lemma rec_of_put [simp]:
  "rec_of (put_request rid (Doc (JObj d)) s) rid' = (if rid' = rid then Some d else rec_of s rid')"
  by (simp add: rec_of_def put_request_def map_of_alist_update)

lemma rec_of_timeline [simp]: "rec_of (record_gateway_timeline rid n st a s) rid' = rec_of s rid'"
  by (simp add: rec_of_def record_gateway_timeline_def)

text \<open>Fields redaction does not touch.\<close>

lemma redact_prompt [simp]: "dget (redact_for_persistence d) ''prompt-body'' = JNull"
  by (simp add: redact_for_persistence_def Let_def)

lemma redact_keeps: "k \<notin> {''prompt-body'', ''output''} \<Longrightarrow> dget (redact_for_persistence d) k = dget d k"
  by (simp add: redact_for_persistence_def Let_def)

lemma same_lifecycle:
  assumes "\<And>k. k \<in> set (LC_FIELDS @ FROZEN_FIELDS) \<Longrightarrow> dget d' k = dget d k"
  shows "lc_of d' = lc_of d" and "frozen d d'" and "wf_rec d' \<longleftrightarrow> wf_rec d"
proof -
  have "dget d' ''state'' = dget d ''state''" "dget d' ''revision'' = dget d ''revision''"
    "dget d' ''dispatch-owner-epoch'' = dget d ''dispatch-owner-epoch''"
    "dget d' ''worker-id'' = dget d ''worker-id''" "dget d' ''attempt-epoch'' = dget d ''attempt-epoch''"
    "dget d' ''cancel-requested'' = dget d ''cancel-requested''"
    "dget d' ''cancel-acknowledged-by'' = dget d ''cancel-acknowledged-by''"
    "dget d' ''contract-version'' = dget d ''contract-version''"
    by (rule assms; simp add: LC_FIELDS_def FROZEN_FIELDS_def)+
  then show "lc_of d' = lc_of d" and "wf_rec d' \<longleftrightarrow> wf_rec d" by (simp_all add: lc_of_def wf_rec_def)
  show "frozen d d'" using assms by (simp add: frozen_def list_all_iff)
qed

lemma redact_same:
  "lc_of (redact_for_persistence d) = lc_of d" "frozen d (redact_for_persistence d)"
  "wf_rec (redact_for_persistence d) \<longleftrightarrow> wf_rec d"
proof -
  have "dget (redact_for_persistence d) k = dget d k" if "k \<in> set (LC_FIELDS @ FROZEN_FIELDS)" for k
    by (rule redact_keeps) (use that in \<open>auto simp: LC_FIELDS_def FROZEN_FIELDS_def\<close>)
  from same_lifecycle [OF this] show "lc_of (redact_for_persistence d) = lc_of d"
    "frozen d (redact_for_persistence d)" "wf_rec (redact_for_persistence d) \<longleftrightarrow> wf_rec d" by blast+
qed

lemma migrate_same:
  assumes "migrate_v1_payload E d = Inr d'" "wf_rec d"
  shows "lc_of d' = lc_of d" "frozen d d'" "wf_rec d'"
proof -
  have v: "dget d ''contract-version'' = JStr CONTRACT_VERSION" using assms(2) by (simp add: wf_rec_def)
  have "dget d' k = dget d k" if "k \<in> set (LC_FIELDS @ FROZEN_FIELDS)" for k
  proof (cases "k = ''contract-version''")
    case True
    then show ?thesis using migrate_version [OF assms(1) v] v by simp
  next
    case False
    with that have "k \<notin> set MIGRATED_KEYS" by (auto simp: LC_FIELDS_def FROZEN_FIELDS_def MIGRATED_KEYS_def)
    then show ?thesis by (rule migrate_keeps [OF assms(1) v])
  qed
  from same_lifecycle [OF this] assms(2) show "lc_of d' = lc_of d" "frozen d d'" "wf_rec d'" by blast+
qed

lemma rec_of_payload: "read_record_payload rid s = Inr d \<longleftrightarrow> rec_of s rid = Some d"
  by (auto simp: read_record_payload_def rec_of_def split: option.splits doc.splits json.splits)

lemma frozen_id: "frozen d d' \<Longrightarrow> dget d' ''request-id'' = dget d ''request-id''"
  by (simp add: frozen_def FROZEN_FIELDS_def)

lemma store_put:
  assumes "store_ok s" "rec_of s rid = Some d" "frozen d d'" "wf_rec d'" "dget d' ''prompt-body'' = JNull"
    "lc_step\<^sup>*\<^sup>* (lc_of d) (lc_of d')"
  shows "store_ok (put_request rid (Doc (JObj d')) s)" and "store_path s (put_request rid (Doc (JObj d')) s)"
  using assms frozen_id [OF assms(3)]
  by (auto simp: store_ok_def store_path_def rec_path_def)

lemma store_ok_timeline [simp]: "store_ok (record_gateway_timeline rid n st a s) = store_ok s"
  by (simp add: store_ok_def)

lemma store_path_timeline [simp]: "store_path s (record_gateway_timeline rid n st a s') = store_path s s'"
  by (simp add: store_path_def)

lemma read_record_locked_cases:
  assumes "read_record_locked E rid s = (r, s1)"
  obtains d d' where "r = Inr d'" "rec_of s rid = Some d" "migrate_v1_payload E d = Inr d'" "s1 = s"
  | d d' where "rec_of s rid = Some d" "migrate_v1_payload E d = Inr d'" "\<forall>x. r = Inr x \<longrightarrow> x = d'"
      "\<exists>n st a. s1 = put_request rid (Doc (JObj (redact_for_persistence d'))) s \<or>
        s1 = record_gateway_timeline rid n st a (put_request rid (Doc (JObj (redact_for_persistence d'))) s)"
  | e where "r = Inl e" "s1 = s"
proof (cases "read_record_payload rid s")
  case (Inl e)
  with assms show thesis by (intro that(3) [of e]) (auto simp: read_record_locked_def)
next
  case (Inr d)
  show thesis
  proof (cases "migrate_v1_payload E d")
    case (Inl e)
    with assms Inr show thesis by (intro that(3) [of e]) (auto simp: read_record_locked_def)
  next
    case m: (Inr d')
    from Inr have d: "rec_of s rid = Some d" by (simp add: rec_of_payload)
    show thesis
    proof (cases "jeq (JObj d') (JObj d)")
      case True
      with assms Inr m d show thesis by (intro that(1) [of d' d]) (auto simp: read_record_locked_def)
    next
      case False
      with assms Inr m d show thesis
        by (intro that(2) [OF d m])
          (auto simp: read_record_locked_def simp del: jeq.simps split: sum.splits)
    qed
  qed
qed

lemma read_record_locked_ok:
  assumes "store_ok s" "read_record_locked E rid s = (r, s1)"
  shows "store_ok s1" and "store_path s s1"
    and "r = Inr d \<Longrightarrow> wf_rec d \<and> dget d ''request-id'' = JStr rid \<and>
      (\<exists>d1. rec_of s1 rid = Some d1 \<and> lc_of d1 = lc_of d \<and> frozen d1 d)"
proof -
  have "store_ok s1 \<and> store_path s s1 \<and> (\<forall>d. r = Inr d \<longrightarrow> wf_rec d \<and> dget d ''request-id'' = JStr rid \<and>
      (\<exists>d1. rec_of s1 rid = Some d1 \<and> lc_of d1 = lc_of d \<and> frozen d1 d))"
    using assms(2)
  proof (cases rule: read_record_locked_cases)
    case (1 d d')
    then have wf: "wf_rec d" "dget d ''request-id'' = JStr rid" using assms(1) by (auto simp: store_ok_def)
    from migrate_same [OF 1(3) wf(1)] 1 wf assms(1) frozen_id [of d d'] show ?thesis by (intro conjI) auto
  next
    case (2 d d')
    then have wf: "wf_rec d" "dget d ''request-id'' = JStr rid" using assms(1) by (auto simp: store_ok_def)
    note m = migrate_same [OF 2(2) wf(1)] and rs = redact_same [of d']
    let ?s = "put_request rid (Doc (JObj (redact_for_persistence d'))) s"
    have p: "store_ok ?s" "store_path s ?s"
      by (rule store_put [OF assms(1) 2(1)]; use m rs in \<open>auto intro: frozen_trans\<close>)+
    have "frozen (redact_for_persistence d') d'" using rs(2) by (simp add: frozen_def list_all_iff)
    with 2(3,4) p m rs frozen_id [OF m(2)] wf(2) show ?thesis by auto
  next
    case 3
    then show ?thesis using assms(1) by auto
  qed
  then show "store_ok s1" and "store_path s s1"
    and "r = Inr d \<Longrightarrow> wf_rec d \<and> dget d ''request-id'' = JStr rid \<and>
      (\<exists>d1. rec_of s1 rid = Some d1 \<and> lc_of d1 = lc_of d \<and> frozen d1 d)" by blast+
qed

lemma write_record_cases:
  assumes "write_record E upd s = (r, s')"
  obtains (fail) e where "r = Inl e" "s' = s"
  | (ok) p rid where "r = Inr ()" "dget upd ''request-id'' = JStr rid" "validate_record E ''VAL-AGW-004'' upd = Inr p"
      "s' = put_request rid (Doc (JObj (redact_for_persistence p))) s" "schema_issues E p = []"
proof (cases "validate_record E ''VAL-AGW-004'' upd")
  case (Inl e)
  with assms show thesis by (auto simp: write_record_def split: if_split_asm intro: fail)
next
  case (Inr p)
  note id = validate_record_keeps [OF Inr, of "''request-id''"]
  from assms Inr id show thesis
    by (cases "dget upd ''request-id''")
       (auto simp: write_record_def validate_record_schema [OF Inr] split: if_split_asm sum.splits intro: fail ok)
qed

lemma validate_same:
  assumes "validate_record E c d = Inr p"
  shows "lc_of p = lc_of d" "frozen d p" "wf_rec p \<longleftrightarrow> wf_rec d"
proof -
  have "dget p k = dget d k" if "k \<in> set (LC_FIELDS @ FROZEN_FIELDS)" for k
    by (rule validate_record_keeps [OF assms]) (use that in \<open>auto simp: LC_FIELDS_def FROZEN_FIELDS_def\<close>)
  from same_lifecycle [OF this] show "lc_of p = lc_of d" "frozen d p" "wf_rec p \<longleftrightarrow> wf_rec d" by blast+
qed

lemma write_record_ok:
  assumes "store_ok s" "rec_of s rid = Some d1" "lc_of d1 = lc_of d" "frozen d1 d" "dget d ''request-id'' = JStr rid"
    "rec_step d upd" "write_record E upd s = (r, s')"
  shows "store_ok s' \<and> store_path s s'"
  using assms(7)
proof (cases rule: write_record_cases)
  case fail
  then show ?thesis using assms(1) by simp
next
  case (ok p rid')
  from assms(6) have st: "wf_rec upd" "frozen d upd" "lc_step (lc_of d) (lc_of upd)" by (auto simp: rec_step_def)
  from frozen_id [OF st(2)] ok(2) assms(5) have rid: "rid' = rid" by simp
  note v = validate_same [OF ok(3)] and rd = redact_same [of p]
  have "frozen d1 (redact_for_persistence p)" using assms(4) st(2) v(2) rd(2) by (blast intro: frozen_trans)
  then show ?thesis
    using store_put [OF assms(1,2), of "redact_for_persistence p"] v rd st assms(3) rid ok(4) by auto
qed

text \<open>The interface between the store and its operations: a body whose commits are lifecycle steps
  of well-formed records gives a store operation that refines the lifecycle on every record.\<close>

locale lifecycle_op =
  fixes body :: "dict \<Rightarrow> outcome res"
  assumes commit: "wf_rec d \<Longrightarrow> body d = Inr (Commit d' ev) \<Longrightarrow> rec_step d d'"
begin

lemma refines:
  assumes "store_ok s" "locked_update E rid body s = (r, s')"
  shows "store_ok s' \<and> store_path s s'"
proof -
  obtain r1 s1 where rd: "read_record_locked E rid s = (r1, s1)" by fastforce
  note ok = read_record_locked_ok [OF assms(1) rd]
  show ?thesis
  proof (cases r1)
    case (Inl e)
    with assms(2) rd ok show ?thesis by (simp add: locked_update_def)
  next
    case (Inr d)
    from ok(3) [OF Inr] obtain d1 where d: "wf_rec d" "dget d ''request-id'' = JStr rid"
      "rec_of s1 rid = Some d1" "lc_of d1 = lc_of d" "frozen d1 d" by blast
    show ?thesis
    proof (cases "\<exists>upd ev. body d = Inr (Commit upd ev)")
      case True
      then obtain upd ev where b: "body d = Inr (Commit upd ev)" by blast
      obtain r2 s2 where w: "write_record E upd s1 = (r2, s2)" by fastforce
      from write_record_ok [OF ok(1) d(3,4,5,2) commit [OF d(1) b] w]
      have "store_ok s2" "store_path s s2" using store_path_trans [OF ok(2)] by auto
      with assms(2) rd Inr b w show ?thesis
        by (auto simp: locked_update_def split: sum.splits option.splits)
    next
      case False
      with assms(2) rd Inr ok show ?thesis
        by (auto simp: locked_update_def split: sum.splits outcome.splits)
    qed
  qed
qed

lemma keeps_store: "store_ok s \<Longrightarrow> store_ok (snd (locked_update E rid body s))"
  using refines [of s E rid "fst (locked_update E rid body s)"] by simp

lemma moves_store: "store_ok s \<Longrightarrow> store_path s (snd (locked_update E rid body s))"
  using refines [of s E rid "fst (locked_update E rid body s)"] by simp

end

section \<open>Steps of records\<close>

lemma bump_wf: "wf_rec d \<Longrightarrow> bump d ''revision'' = Inr v \<Longrightarrow> v = JInt (lc_revision (lc_of d) + 1)"
  by (erule wf_recE) (auto simp: bump_eq_Inr lc_of_def)

text \<open>A successor that changes no lifecycle field but the bumped revision.\<close>

lemma annotate_step:
  assumes "wf_rec d" "bump d ''revision'' = Inr v" "dget d' ''revision'' = v"
    "list_all (\<lambda>k. dget d' k = dget d k) (removeAll ''revision'' LC_FIELDS @ FROZEN_FIELDS)"
  shows "rec_step d d'"
proof -
  have v: "dget d' ''revision'' = JInt (lc_revision (lc_of d) + 1)" using bump_wf [OF assms(1,2)] assms(3) by simp
  have "lc_of d' = bumped (lc_of d)" "wf_rec d'" "frozen d d'"
    using assms(1,4) v
    by (simp_all add: lc_of_def bumped_def LC_FIELDS_def FROZEN_FIELDS_def wf_rec_def frozen_def)
  then show ?thesis using lc_step.annotate by (simp add: rec_step_def)
qed

lemmas annotate_simps = LC_FIELDS_def FROZEN_FIELDS_def

lemmas rec_simps = lc_of_def bumped_def wf_rec_def frozen_def FROZEN_FIELDS_def

text \<open>A step whose abstract target is known.\<close>

lemma rec_stepI:
  assumes "lc_step (lc_of d) b" "lc_of d' = b" "wf_rec d'" "frozen d d'"
  shows "rec_step d d'"
  using assms by (simp add: rec_step_def)

text \<open>Operations seen as state transformers that keep the contract.\<close>

definition keeps_contract :: "(gw \<Rightarrow> 'r \<times> gw) \<Rightarrow> bool" where
  "keeps_contract f \<longleftrightarrow> (\<forall>s. store_ok s \<longrightarrow> store_ok (snd (f s)) \<and> store_path s (snd (f s)))"

lemma keeps_contractI: "lifecycle_op body \<Longrightarrow> keeps_contract (locked_update E rid body)"
  by (simp add: keeps_contract_def lifecycle_op.keeps_store lifecycle_op.moves_store)

lemma keeps_contract_const [simp]: "keeps_contract (Pair x)"
  by (simp add: keeps_contract_def)

lemma keeps_contract_cong: "(\<And>s. f s = g s) \<Longrightarrow> keeps_contract f = keeps_contract g"
  by (simp add: keeps_contract_def)

text \<open>Effects outside the request records.\<close>

lemma keeps_contract_frame:
  assumes "keeps_contract f" "\<And>s. snd (g s) = h s (snd (f s))" "\<And>s s'. requests (h s s') = requests s'"
  shows "keeps_contract g"
proof -
  have r: "rec_of (h s s') = rec_of s'" for s s' by (rule ext) (simp add: rec_of_def assms(3))
  show ?thesis
    unfolding keeps_contract_def
  proof (intro allI impI)
    fix s
    assume "store_ok s"
    with assms(1) have "store_ok (snd (f s))" "store_path s (snd (f s))" by (auto simp: keeps_contract_def)
    then show "store_ok (snd (g s)) \<and> store_path s (snd (g s))"
      unfolding assms(2) store_ok_def store_path_def r by blast
  qed
qed

lemma keeps_contract_same_requests:
  assumes "keeps_contract f" "\<And>s. requests (snd (g s)) = requests (snd (f s))"
  shows "keeps_contract g"
  by (rule keeps_contract_frame [OF assms(1), where h = "\<lambda>s s'. (snd (g s))\<lparr>requests := requests s'\<rparr>"])
     (simp_all add: assms(2) [symmetric])

end
