(* ===== verification/Request_Transitions.thy ===== *)
theory Request_Transitions
  imports Request_Store
begin

text \<open>
  The state-change operations of \<open>gateway/store/_transitions.py\<close> that need no dispatch claim:
  workflow transitions, diagnostic updates, cancellation and its acknowledgement, attempt
  evidence, recovery terminalization, replay links, and the terminal transitions of an owner and of
  an operator.  \<open>t n\<close> is the \<open>n\<close>-th reading of the clock in the operation.
\<close>

section \<open>Workflow transitions\<close>

text \<open>The \<open>updates\<close> dictionary: entries in order; the value of \<open>error\<close> may be an exception.\<close>

datatype upd = UField string json | UError err_in

fun upd_key :: "upd \<Rightarrow> string" where
  "upd_key (UField k v) = k"
| "upd_key (UError e) = ''error''"

text \<open>An \<open>error\<close> that is neither \<open>None\<close> nor a mapping has no \<open>items\<close>, and the redaction of
  the loop raises (\<open>upd_typed\<close>).\<close>

fun upd_typed :: "upd \<Rightarrow> bool" where
  "upd_typed (UField k v) \<longleftrightarrow> (k = ''error'' \<longrightarrow> v = JNull \<or> is_dict v)"
| "upd_typed (UError e) \<longleftrightarrow> True"

fun err_of_json :: "json \<Rightarrow> err_in" where
  "err_of_json (JObj d) = ErrMap d"
| "err_of_json _ = NoErr"

fun upd_error :: "upd \<Rightarrow> err_in option" where
  "upd_error (UError e) = Some e"
| "upd_error (UField k v) = (if k = ''error'' then Some (err_of_json v) else None)"

definition hyphen :: "string \<Rightarrow> string" where
  "hyphen k = replace_char (CHR ''_'') (CHR ''-'') k"

definition set_error :: "err_in \<Rightarrow> dict \<Rightarrow> dict" where
  "set_error e d = dset ''error'' (redact_error e)
     (case extract_worker_evidence e of None \<Rightarrow> d | Some ev \<Rightarrow> dset ''worker-evidence'' ev d)"

fun apply_upd :: "upd \<Rightarrow> dict \<Rightarrow> dict" where
  "apply_upd (UError e) d = set_error e d"
| "apply_upd (UField k v) d =
     (if k = ''error'' then set_error (err_of_json v) d else dset (hyphen k) v d)"

definition find_error :: "upd list \<Rightarrow> err_in" where
  "find_error us = (case List.map_filter upd_error us of [] \<Rightarrow> NoErr | e # _ \<Rightarrow> e)"

fun find_field :: "string \<Rightarrow> upd list \<Rightarrow> json option" where
  "find_field k [] = None"
| "find_field k (UField k' v # us) = (if k' = k then Some v else find_field k us)"
| "find_field k (UError e # us) = find_field k us"

definition illegal_fields :: "upd list \<Rightarrow> string list" where
  "illegal_fields us = filter (\<lambda>k. k \<notin> set MUTABLE_RESULT_FIELDS) (map (hyphen \<circ> upd_key) us)"

definition transition_body ::
    "string \<Rightarrow> upd list \<Rightarrow> int option \<Rightarrow> string option \<Rightarrow> string option \<Rightarrow> int option \<Rightarrow> clock \<Rightarrow> dict \<Rightarrow> outcome res" where
  "transition_body new_state updates er eo ew ea t rec =
     rbind (check_expected_identity rec er eo ew ea) (\<lambda>_.
     rbind (ditem rec ''state'') (\<lambda>st.
     rbind (ensure_transition st new_state) (\<lambda>_.
     rbind (bump rec ''revision'') (\<lambda>rev.
     rbind (guard_r (list_all upd_typed updates) AttributeError) (\<lambda>_.
     let u1 = dset ''revision'' rev (dset ''updated-at'' (JStr (t 0)) (dset ''state'' (JStr new_state) rec));
         u2 = fold apply_upd updates u1 in
     rbind (if find_error updates \<noteq> NoErr then
              rbind (merge_diagnostics (dget rec ''diagnostics'') (classify_error (find_error updates) JNull JNull))
                (\<lambda>m. Inr (dset ''diagnostics'' (JObj m) u2))
            else Inr u2) (\<lambda>u3.
     let u4 = (case find_field ''diagnostics'' updates of None \<Rightarrow> u3 | Some v \<Rightarrow> dset ''diagnostics'' v u3);
         u5 = (if new_state \<in> set TERMINAL_STATES then dset ''recovery-required'' (JBool False) u4 else u4)
     in Inr (Commit u5 (emit ''state.changed'' (JStr new_state)
          [(''from'', st), (''to'', JStr new_state),
           (''updated-keys'', JList (map JStr (sort (map upd_key updates))))]))))))))"

text \<open>\<open>_finalize_worker_session_if_terminal\<close> runs after the lock is released, never raises, and
  only writes the session record, which is not part of this state.\<close>

definition transition_record ::
    "('a genv_scheme) \<Rightarrow> string \<Rightarrow> string \<Rightarrow> upd list \<Rightarrow> int option \<Rightarrow> string option \<Rightarrow> string option \<Rightarrow> int option
      \<Rightarrow> clock \<Rightarrow> gw \<Rightarrow> dict res \<times> gw" where
  "transition_record E rid new_state updates er eo ew ea t s =
     (if illegal_fields updates \<noteq> [] then
        (Inl (ag_error ''VAL-AGW-098'' ''request transition may not modify immutable admission/ownership fields''
           [(''request-id'', JStr rid),
            (''rejected-fields'', JList (map JStr (sort (remdups (illegal_fields updates)))))]), s)
      else locked_update E rid (transition_body new_state updates er eo ew ea t) s)"

section \<open>Diagnostics\<close>

definition append_evidence :: "dict \<Rightarrow> dict \<Rightarrow> json res" where
  "append_evidence rec e = (case por (dget rec ''diagnostic-evidence'') (JList []) of
     JList xs \<Rightarrow> Inr (JList (last_n 8 (xs @ [JObj e])))
   | JStr xs \<Rightarrow> Inr (JList (last_n 8 (map (\<lambda>c. JStr [c]) xs @ [JObj e])))
   | JObj d \<Rightarrow> Inr (JList (last_n 8 (map (JStr \<circ> fst) d @ [JObj e])))
   | _ \<Rightarrow> Inl TypeError)"

definition stale_revision :: "string \<Rightarrow> string \<Rightarrow> py_error" where
  "stale_revision msg rid = ag_error ''CON-AGW-143'' msg [(''request-id'', JStr rid)]"

definition check_revision :: "string \<Rightarrow> string \<Rightarrow> int option \<Rightarrow> dict \<Rightarrow> unit res" where
  "check_revision msg rid er rec = (case er of None \<Rightarrow> Inr ()
     | Some n \<Rightarrow> guard_r (jeq (dget rec ''revision'') (JInt n)) (stale_revision msg rid))"

definition update_diagnostics_body ::
    "string \<Rightarrow> dict \<Rightarrow> dict option \<Rightarrow> int option \<Rightarrow> clock \<Rightarrow> dict \<Rightarrow> outcome res" where
  "update_diagnostics_body rid diagnostics evidence er t rec =
     rbind (check_revision ''diagnostic recovery revision is stale'' rid er rec) (\<lambda>_.
     rbind (merge_diagnostics (dget rec ''diagnostics'') diagnostics) (\<lambda>m.
     let u1 = dset ''diagnostics'' (JObj m) rec in
     rbind (case evidence of None \<Rightarrow> Inr u1
            | Some e \<Rightarrow> rbind (append_evidence rec e) (\<lambda>v. Inr (dset ''diagnostic-evidence'' v u1))) (\<lambda>u2.
     rbind (bump rec ''revision'') (\<lambda>rev.
     Inr (Commit (dset ''revision'' rev (dset ''updated-at'' (JStr (t 0)) u2))
       (emit ''diagnostics.updated'' (dget rec ''state'')
          [(''classification'', dget diagnostics ''classification''), (''phase'', dget diagnostics ''phase'')]))))))"

definition update_diagnostics ::
    "('a genv_scheme) \<Rightarrow> string \<Rightarrow> dict \<Rightarrow> dict option \<Rightarrow> int option \<Rightarrow> clock \<Rightarrow> gw \<Rightarrow> dict res \<times> gw" where
  "update_diagnostics E rid diagnostics evidence er t s =
     locked_update E rid (update_diagnostics_body rid diagnostics evidence er t) s"

section \<open>Cancellation\<close>

definition cancel_diagnostics :: "dict \<Rightarrow> dict" where
  "cancel_diagnostics rec = classify_error (ErrMap [(''code'', JStr ''CON-AGW-CANCELLED'')]) (JStr ''cancellation'')
     (case dget rec ''diagnostics'' of JObj d \<Rightarrow> dget d ''side-effect-state'' | _ \<Rightarrow> JNull)"

definition CANCEL_SOURCES :: "string list" where
  "CANCEL_SOURCES = [''api'', ''operator'', ''watchdog'', ''worker-shutdown'', ''system'', ''unknown-legacy'']"

definition CANCEL_ACTOR_TYPES :: "string list" where
  "CANCEL_ACTOR_TYPES = [''client'', ''operator'', ''worker'', ''system'', ''unknown'']"

definition cancel_provenance :: "string \<Rightarrow> string \<Rightarrow> string option \<Rightarrow> string option \<Rightarrow> string \<Rightarrow> json" where
  "cancel_provenance source actor_type actor_id reason now = JObj
     [(''source'', JStr (if source \<in> set CANCEL_SOURCES then source else ''unknown-legacy'')),
      (''actor-type'', JStr (if actor_type \<in> set CANCEL_ACTOR_TYPES then actor_type else ''unknown'')),
      (''actor-id'', opt_json (map_option (take 128) actor_id)),
      (''reason'', opt_json (map_option (take 256) reason)),
      (''requested-at'', JStr now)]"

text \<open>The three successors cancellation writes: the intent flag on a record that goes on, the
  diagnostics alone, and the cancelled queued record.\<close>

definition commit_cancel_mark ::
    "string \<Rightarrow> string \<Rightarrow> string option \<Rightarrow> string option \<Rightarrow> dict \<Rightarrow> clock \<Rightarrow> dict \<Rightarrow> outcome res" where
  "commit_cancel_mark source actor_type actor_id reason m t rec =
     rbind (bump rec ''revision'') (\<lambda>rev.
     let u = dupd rec [(''cancel-requested'', JBool True), (''diagnostics'', JObj m),
               (''cancel-provenance'', cancel_provenance source actor_type actor_id reason (t 0)),
               (''updated-at'', JStr (t 1)), (''revision'', rev)]
     in Inr (Commit u (rbind (ditem u ''state'') (\<lambda>st. emit ''cancel.requested'' st []))))"

definition commit_diagnostics :: "dict \<Rightarrow> clock \<Rightarrow> dict \<Rightarrow> outcome res" where
  "commit_diagnostics m t rec =
     rbind (bump rec ''revision'') (\<lambda>rev.
     Inr (Commit (dupd rec [(''diagnostics'', JObj m), (''updated-at'', JStr (t 0)), (''revision'', rev)]) (Inr None)))"

definition commit_cancel_queued ::
    "string \<Rightarrow> string \<Rightarrow> string option \<Rightarrow> string option \<Rightarrow> dict \<Rightarrow> clock \<Rightarrow> dict \<Rightarrow> outcome res" where
  "commit_cancel_queued source actor_type actor_id reason m t rec =
     rbind (bump rec ''revision'') (\<lambda>rev.
     Inr (Commit (dupd rec
         [(''state'', JStr ''cancelled''), (''cancel-requested'', JBool True), (''diagnostics'', JObj m),
          (''cancel-provenance'', cancel_provenance source actor_type actor_id reason (t 0)),
          (''cancel-acknowledged-at'', JStr (t 1)), (''cancel-acknowledged-by'', JStr ''queue-worker''),
          (''updated-at'', JStr (t 2)), (''finished-at'', JStr (t 3)), (''revision'', rev)])
       (emit ''state.changed'' (JStr ''cancelled'')
          [(''from'', JStr ''queued''), (''to'', JStr ''cancelled''), (''updated-keys'', JList [])])))"

definition mark_cancel_body ::
    "string \<Rightarrow> string \<Rightarrow> string option \<Rightarrow> string option \<Rightarrow> clock \<Rightarrow> dict \<Rightarrow> outcome res" where
  "mark_cancel_body source actor_type actor_id reason t rec =
     rbind (ditem rec ''cancel-requested'') (\<lambda>c.
     if truthy c then Inr (Keep rec) else
     rbind (merge_diagnostics (dget rec ''diagnostics'') (cancel_diagnostics rec)) (\<lambda>m.
     commit_cancel_mark source actor_type actor_id reason m t rec))"

definition mark_cancel_requested ::
    "('a genv_scheme) \<Rightarrow> string \<Rightarrow> string \<Rightarrow> string \<Rightarrow> string option \<Rightarrow> string option \<Rightarrow> clock \<Rightarrow> gw \<Rightarrow> dict res \<times> gw" where
  "mark_cancel_requested E rid source actor_type actor_id reason t s =
     locked_update E rid (mark_cancel_body source actor_type actor_id reason t) s"

definition acknowledge_body :: "string \<Rightarrow> string \<Rightarrow> clock \<Rightarrow> dict \<Rightarrow> outcome res" where
  "acknowledge_body rid actor t rec =
     (if \<not> truthy (dget rec ''cancel-requested'') then
        rbind (ditem rec ''state'') (\<lambda>st.
          Inl (ag_error ''CON-AGW-086'' ''cannot acknowledge a cancellation that was never requested''
             [(''request-id'', JStr rid), (''state'', st)]))
      else if truthy (dget rec ''cancel-acknowledged-by'') then Inr (Keep rec)
      else rbind (bump rec ''revision'') (\<lambda>rev.
        let u = dupd rec [(''cancel-acknowledged-at'', JStr (t 0)), (''cancel-acknowledged-by'', JStr actor),
                  (''updated-at'', JStr (t 1)), (''revision'', rev)]
        in Inr (Commit u (rbind (ditem u ''state'') (\<lambda>st. emit ''cancel.acknowledged'' st [(''by'', JStr actor)])))))"

definition acknowledge_cancel ::
    "('a genv_scheme) \<Rightarrow> string \<Rightarrow> string \<Rightarrow> clock \<Rightarrow> gw \<Rightarrow> dict res \<times> gw" where
  "acknowledge_cancel E rid actor t s =
     (if actor \<notin> set CANCEL_ACK_ACTORS then
        (Inl (ag_error ''VAL-AGW-086'' ''cancel acknowledgement actor is required and must be a known component''
           [(''by'', JStr actor), (''allowed'', JList (map JStr (sort CANCEL_ACK_ACTORS)))]), s)
      else locked_update E rid (acknowledge_body rid actor t) s)"

definition cancel_queued_body ::
    "string \<Rightarrow> string \<Rightarrow> string \<Rightarrow> string option \<Rightarrow> string option \<Rightarrow> dict option \<Rightarrow> int option \<Rightarrow> clock
      \<Rightarrow> dict \<Rightarrow> outcome res" where
  "cancel_queued_body rid source actor_type actor_id reason diagnostics er t rec =
     rbind (check_revision ''diagnostic recovery revision is stale'' rid er rec) (\<lambda>_.
     rbind (merge_diagnostics (dget rec ''diagnostics'')
              (case diagnostics of Some d \<Rightarrow> d | None \<Rightarrow> cancel_diagnostics rec)) (\<lambda>m.
     rbind (ditem rec ''state'') (\<lambda>st.
     if st \<noteq> JStr ''queued'' then
       rbind (if st = JStr ''running'' then ditem rec ''cancel-requested'' else Inr (JBool True)) (\<lambda>c.
       if \<not> truthy c then commit_cancel_mark source actor_type actor_id reason m t rec
       else if diagnostics \<noteq> None then commit_diagnostics m t rec
       else Inr (Keep rec))
     else commit_cancel_queued source actor_type actor_id reason m t rec)))"

definition cancel_queued_or_mark_requested ::
    "('a genv_scheme) \<Rightarrow> string \<Rightarrow> string \<Rightarrow> string \<Rightarrow> string option \<Rightarrow> string option \<Rightarrow> dict option \<Rightarrow> int option
      \<Rightarrow> clock \<Rightarrow> gw \<Rightarrow> dict res \<times> gw" where
  "cancel_queued_or_mark_requested E rid source actor_type actor_id reason diagnostics er t s =
     locked_update E rid (cancel_queued_body rid source actor_type actor_id reason diagnostics er t) s"

section \<open>Attempt evidence, replay links\<close>

text \<open>\<open>list(record.get("attempts") or [])\<close>.\<close>

fun py_list :: "json \<Rightarrow> json list res" where
  "py_list (JList xs) = Inr xs"
| "py_list (JStr s) = Inr (map (\<lambda>c. JStr [c]) s)"
| "py_list (JObj d) = Inr (map (JStr \<circ> fst) d)"
| "py_list _ = Inl TypeError"

definition append_attempt_body ::
    "string \<Rightarrow> json \<Rightarrow> json \<Rightarrow> string \<Rightarrow> err_in \<Rightarrow> json \<Rightarrow> json \<Rightarrow> string option \<Rightarrow> string option \<Rightarrow> int option
      \<Rightarrow> clock \<Rightarrow> dict \<Rightarrow> outcome res" where
  "append_attempt_body profile provider_id model_id st error started_at finished_at eo ew ea t rec =
     rbind (check_expected_identity rec None eo ew ea) (\<lambda>_.
     rbind (py_list (por (dget rec ''attempts'') (JList []))) (\<lambda>attempts.
     rbind (ditem rec ''worker-id'') (\<lambda>w.
     rbind (ditem rec ''attempt-epoch'') (\<lambda>ep.
     let attempts' = attempts @ [JObj
           [(''execution-profile-id'', JStr profile), (''provider-id'', provider_id), (''model-id'', model_id),
            (''state'', JStr st), (''error'', redact_error error),
            (''started-at'', por started_at (JStr (t 0))), (''finished-at'', finished_at),
            (''worker-id'', w), (''attempt-epoch'', ep)]];
         now = t (if truthy started_at then 0 else 1) in
     rbind (bump rec ''revision'') (\<lambda>rev.
     Inr (Commit (dupd rec [(''attempts'', JList attempts'), (''updated-at'', JStr now), (''revision'', rev)])
       (rbind (ditem rec ''state'') (\<lambda>rst. emit ''attempt.recorded'' rst
          [(''execution-profile-id'', JStr profile), (''provider-id'', provider_id), (''model-id'', model_id),
           (''attempt-state'', JStr st), (''attempt-count'', JInt (int (length attempts'))),
           (''error'', redact_error error)]))))))))"

definition append_attempt ::
    "('a genv_scheme) \<Rightarrow> string \<Rightarrow> string \<Rightarrow> json \<Rightarrow> json \<Rightarrow> string \<Rightarrow> err_in \<Rightarrow> json \<Rightarrow> json
      \<Rightarrow> string option \<Rightarrow> string option \<Rightarrow> int option \<Rightarrow> clock \<Rightarrow> gw \<Rightarrow> dict res \<times> gw" where
  "append_attempt E rid profile provider_id model_id st error started_at finished_at eo ew ea t s =
     locked_update E rid (append_attempt_body profile provider_id model_id st error started_at finished_at eo ew ea t) s"

definition append_owned_attempt ::
    "('a genv_scheme) \<Rightarrow> string \<Rightarrow> string \<Rightarrow> string \<Rightarrow> int \<Rightarrow> string \<Rightarrow> json \<Rightarrow> json \<Rightarrow> string \<Rightarrow> err_in \<Rightarrow> json \<Rightarrow> json
      \<Rightarrow> clock \<Rightarrow> gw \<Rightarrow> dict res \<times> gw" where
  "append_owned_attempt E rid owner worker epoch profile provider_id model_id st error started_at finished_at t s =
     (case require_owned_identity (Some owner) (Some worker) epoch of
        Inl e \<Rightarrow> (Inl e, s)
      | Inr _ \<Rightarrow> append_attempt E rid profile provider_id model_id st error started_at finished_at
                  (Some owner) (Some worker) (Some epoch) t s)"

definition link_replay_body :: "string \<Rightarrow> string \<Rightarrow> clock \<Rightarrow> dict \<Rightarrow> outcome res" where
  "link_replay_body old_rid new_rid t rec =
     rbind (ditem rec ''state'') (\<lambda>st.
     if st \<noteq> JStr ''interrupted'' \<or> \<not> truthy (dget rec ''replay-required'') then
       Inl (ag_error ''CON-AGW-103'' ''can only link replay to an interrupted request requiring replay''
              [(''request-id'', JStr old_rid), (''state'', st)])
     else rbind (bump rec ''revision'') (\<lambda>rev.
       Inr (Commit (dupd rec [(''replayed-by-request-id'', JStr new_rid), (''updated-at'', JStr (t 0)),
              (''revision'', rev)])
         (emit ''replay.linked'' st [(''new-request-id'', JStr new_rid)]))))"

definition link_replay :: "('a genv_scheme) \<Rightarrow> string \<Rightarrow> string \<Rightarrow> clock \<Rightarrow> gw \<Rightarrow> dict res \<times> gw" where
  "link_replay E old_rid new_rid t s = locked_update E old_rid (link_replay_body old_rid new_rid t) s"

section \<open>Terminal transitions\<close>

definition opt_set :: "string \<Rightarrow> json option \<Rightarrow> dict \<Rightarrow> dict" where
  "opt_set k v d = (case v of None \<Rightarrow> d | Some x \<Rightarrow> dset k x d)"

definition recovered_fields :: "string \<Rightarrow> err_in \<Rightarrow> bool option \<Rightarrow> string \<Rightarrow> json \<Rightarrow> dict" where
  "recovered_fields new_state error replay_required now rv =
     [(''state'', JStr new_state), (''error'', redact_error error), (''finished-at'', JStr now),
      (''dispatch-service-root'', JNull), (''updated-at'', JStr now), (''revision'', rv),
      (''recovery'', JObj [(''reason'', JStr ''service-restart''),
         (''outcome'', JStr (if replay_required = Some True then ''replay-required'' else ''resubmit-required''))]),
      (''watchdog-state'', JStr ''not-started''), (''watchdog-reason'', JNull)]"

definition recovered_diagnostics :: "string \<Rightarrow> err_in \<Rightarrow> dict \<Rightarrow> dict \<Rightarrow> dict res" where
  "recovered_diagnostics new_state error rec u =
     (if new_state = ''interrupted'' \<and> err_code_json error = JStr ''CON-AGW-084'' then
        rbind (merge_diagnostics (dget rec ''diagnostics'')
                 (classify_error error (JStr ''reconciliation'') (JStr ''may-have-started'')))
          (\<lambda>m. Inr (dset ''diagnostics'' (JObj m) u))
      else Inr u)"

definition recovered_evidence :: "err_in \<Rightarrow> bool option \<Rightarrow> string option \<Rightarrow> dict \<Rightarrow> dict" where
  "recovered_evidence error replay_required replay_reason u =
     opt_set ''replay-reason'' (map_option JStr replay_reason)
       (opt_set ''replay-required'' (map_option JBool replay_required)
         (opt_set ''worker-evidence'' (extract_worker_evidence error) u))"

definition ack_by_recovery :: "string \<Rightarrow> dict \<Rightarrow> dict" where
  "ack_by_recovery now u =
     (if truthy (dget u ''cancel-requested'') \<and> \<not> truthy (dget u ''cancel-acknowledged-by'')
      then dupd u [(''cancel-acknowledged-at'', JStr now), (''cancel-acknowledged-by'', JStr ''recovery'')]
      else u)"

definition recovered_body ::
    "string \<Rightarrow> string \<Rightarrow> err_in \<Rightarrow> string option \<Rightarrow> int option \<Rightarrow> bool option \<Rightarrow> string option \<Rightarrow> clock
      \<Rightarrow> dict \<Rightarrow> outcome res" where
  "recovered_body rid new_state error stale_epoch er replay_required replay_reason t rec =
     rbind (check_revision ''gateway request revision changed during recovery'' rid er rec) (\<lambda>_.
     rbind (case stale_epoch of None \<Rightarrow> Inr () | Some w \<Rightarrow>
        guard_r (dget rec ''dispatch-owner-epoch'' = JStr w)
          (ag_error ''CON-AGW-083'' ''gateway request dispatch ownership changed'' [])) (\<lambda>_.
     rbind (ditem rec ''state'') (\<lambda>st.
     rbind (ensure_transition st new_state) (\<lambda>_.
     rbind (bump rec ''revision'') (\<lambda>rev.
     rbind (recovered_diagnostics new_state error rec
              (dupd rec (recovered_fields new_state error replay_required (t 0) rev))) (\<lambda>u.
     Inr (Commit (ack_by_recovery (t 0) (recovered_evidence error replay_required replay_reason u))
            (emit ''recovery.terminalized'' (JStr new_state) [(''stale-owner-epoch'', opt_json stale_epoch)]))))))))"

definition transition_recovered_terminal ::
    "('a genv_scheme) \<Rightarrow> string \<Rightarrow> string \<Rightarrow> err_in \<Rightarrow> string option \<Rightarrow> int option \<Rightarrow> bool option \<Rightarrow> string option
      \<Rightarrow> clock \<Rightarrow> gw \<Rightarrow> dict res \<times> gw" where
  "transition_recovered_terminal E rid new_state error stale_epoch er replay_required replay_reason t s =
     (if new_state \<notin> set TERMINAL_STATES then
        (Inl (ag_error ''VAL-AGW-084'' ''recovered transition must be terminal'' []), s)
      else locked_update E rid (recovered_body rid new_state error stale_epoch er replay_required replay_reason t) s)"

definition record_active_work :: "string option \<Rightarrow> string \<Rightarrow> string \<Rightarrow> string \<Rightarrow> string \<Rightarrow> gw \<Rightarrow> gw" where
  "record_active_work service_root project_root rid owner_epoch now s = (case service_root of None \<Rightarrow> s
     | Some r \<Rightarrow> s\<lparr>active_work := (active_work s)((r, rid) \<mapsto>
         [(''contract-version'', JStr ''v1''), (''request-id'', JStr rid), (''project-root'', JStr project_root),
          (''owner-epoch'', JStr owner_epoch), (''recorded-at'', JStr now)])\<rparr>)"

definition clear_active_work :: "string option \<Rightarrow> string \<Rightarrow> gw \<Rightarrow> gw" where
  "clear_active_work service_root rid s = (case service_root of None \<Rightarrow> s
     | Some r \<Rightarrow> s\<lparr>active_work := (active_work s)((r, rid) := None)\<rparr>)"

text \<open>Best-effort cleanup: whatever it raises is logged and dropped.\<close>

definition terminal_index_cleanup :: "('a genv_scheme) \<Rightarrow> string option \<Rightarrow> string \<Rightarrow> gw \<Rightarrow> gw" where
  "terminal_index_cleanup E service_root rid s = (case service_root of None \<Rightarrow> s
     | Some r \<Rightarrow> s\<lparr>windex := (windex s)(r := snd (clear_stale_terminal_index (root_digest E) rid (windex s r)))\<rparr>)"

definition stored_root :: "dict \<Rightarrow> string option" where
  "stored_root rec = (case dget rec ''dispatch-service-root'' of JStr r \<Rightarrow> if r = [] then None else Some r | _ \<Rightarrow> None)"

definition watchdog_classification :: "upd list \<Rightarrow> string option" where
  "watchdog_classification updates = (case find_error updates of
     ErrMap d \<Rightarrow> (case dget (obj_of (dget d ''details'')) ''watchdog-classification'' of
        JStr c \<Rightarrow> if c = [] then None else Some c | _ \<Rightarrow> None)
   | _ \<Rightarrow> None)"

text \<open>Item assignment on the \<open>updates\<close> dictionary.\<close>

fun upd_assign :: "string \<Rightarrow> json \<Rightarrow> upd list \<Rightarrow> upd list" where
  "upd_assign k v [] = [UField k v]"
| "upd_assign k v (u # us) = (if upd_key u = k then UField k v # us else u # upd_assign k v us)"

definition terminal_updates :: "upd list \<Rightarrow> upd list" where
  "terminal_updates updates =
     (let u1 = (case watchdog_classification updates of None \<Rightarrow> updates
                | Some c \<Rightarrow> upd_assign ''terminal-classification'' (JStr c) updates)
      in upd_assign ''recovery-required'' (JBool False)
           (upd_assign ''watchdog-reason'' JNull (upd_assign ''watchdog-state'' (JStr ''not-started'') u1)))"

definition transition_owned_terminal ::
    "('a genv_scheme) \<Rightarrow> string \<Rightarrow> string \<Rightarrow> string \<Rightarrow> string \<Rightarrow> int \<Rightarrow> upd list \<Rightarrow> int option \<Rightarrow> string option
      \<Rightarrow> clock \<Rightarrow> gw \<Rightarrow> dict res \<times> gw" where
  "transition_owned_terminal E rid new_state owner worker epoch updates er service_root t s =
     (if new_state \<notin> set TERMINAL_STATES then
        (Inl (ag_error ''VAL-AGW-084'' ''owned transition must be terminal'' []), s)
      else case require_owned_identity (Some owner) (Some worker) epoch of
        Inl e \<Rightarrow> (Inl e, s)
      | Inr _ \<Rightarrow>
         (case transition_record E rid new_state (terminal_updates updates) er (Some owner) (Some worker) (Some epoch) t s of
            (Inl e, s1) \<Rightarrow> (Inl e, s1)
          | (Inr updated, s1) \<Rightarrow>
              (let sr = (case service_root of Some r \<Rightarrow> Some r | None \<Rightarrow> stored_root updated)
               in (Inr updated, clear_active_work sr rid (terminal_index_cleanup E sr rid s1)))))"

section \<open>Every commit is a lifecycle step\<close>

lemma update_diagnostics_commit:
  assumes "wf_rec d" "update_diagnostics_body rid dg ev er t d = Inr (Commit d' e)"
  shows "rec_step d d'"
  using assms unfolding update_diagnostics_body_def rbind_eq_Inr Let_def
  by (cases ev) (clarsimp simp: rbind_eq_Inr, rule annotate_step; simp add: annotate_simps)+

lemma append_attempt_commit:
  assumes "wf_rec d" "append_attempt_body p pr m st er sa fa eo ew ea t d = Inr (Commit d' e)"
  shows "rec_step d d'"
  using assms unfolding append_attempt_body_def rbind_eq_Inr Let_def
  by - (clarsimp split del: if_split, rule annotate_step; simp add: annotate_simps)

lemma link_replay_commit:
  assumes "wf_rec d" "link_replay_body o_rid n t d = Inr (Commit d' e)"
  shows "rec_step d d'"
  using assms unfolding link_replay_body_def rbind_eq_Inr
  by (clarsimp split: if_split_asm simp: rbind_eq_Inr) (rule annotate_step; simp add: annotate_simps)


text \<open>The lifecycle fields are out of reach of the \<open>updates\<close> of a transition.\<close>

lemma hyphen_id: "hyphen ''error'' = ''error''" "hyphen ''diagnostics'' = ''diagnostics''"
  by (simp_all add: hyphen_def replace_char_def)

lemma set_error_other: "k \<notin> {''error'', ''worker-evidence''} \<Longrightarrow> dget (set_error e d) k = dget d k"
  by (simp add: set_error_def split: option.splits)

lemma fold_apply_upd_other:
  assumes "illegal_fields us = []" "k \<notin> set MUTABLE_RESULT_FIELDS"
  shows "dget (fold apply_upd us d) k = dget d k"
  using assms(1)
proof (induction us arbitrary: d)
  case (Cons u us)
  have k: "k \<notin> {''error'', ''worker-evidence''}" using assms(2) by (auto simp: MUTABLE_RESULT_FIELDS_def)
  have us: "illegal_fields us = []" "hyphen (upd_key u) \<in> set MUTABLE_RESULT_FIELDS"
    using Cons.prems by (auto simp: illegal_fields_def split: if_split_asm)
  with assms(2) have "k \<noteq> hyphen (upd_key u)" by metis
  then have "dget (apply_upd u d) k = dget d k"
    using set_error_other [OF k] by (cases u) auto
  with Cons.IH [OF us(1)] show ?case by simp
qed simp

text \<open>What a transition writes outside the result fields.\<close>

lemma transition_body_commit_fields:
  assumes "transition_body st us er eo ew ea t d = Inr (Commit d' e)" "illegal_fields us = []"
  obtains cur v where "check_expected_identity d er eo ew ea = Inr ()" "dget d ''state'' = JStr cur"
    "transition_allowed_fn cur st" "bump d ''revision'' = Inr v"
    "dget d' ''state'' = JStr st" "dget d' ''revision'' = v"
    "\<forall>k. k \<notin> set (''state'' # ''revision'' # ''updated-at'' # MUTABLE_RESULT_FIELDS) \<longrightarrow> dget d' k = dget d k"
proof -
  from assms(1) obtain cur v u3 where g: "check_expected_identity d er eo ew ea = Inr ()"
    "ditem d ''state'' = Inr cur" "ensure_transition cur st = Inr ()" "bump d ''revision'' = Inr v"
    and u3: "(if find_error us \<noteq> NoErr then
              rbind (merge_diagnostics (dget d ''diagnostics'') (classify_error (find_error us) JNull JNull))
                (\<lambda>m. Inr (dset ''diagnostics'' (JObj m) (fold apply_upd us (dset ''revision'' v (dset ''updated-at'' (JStr (t 0)) (dset ''state'' (JStr st) d))))))
            else Inr (fold apply_upd us (dset ''revision'' v (dset ''updated-at'' (JStr (t 0)) (dset ''state'' (JStr st) d))))) = Inr u3"
    and d': "d' = (let u4 = (case find_field ''diagnostics'' us of None \<Rightarrow> u3 | Some v \<Rightarrow> dset ''diagnostics'' v u3)
       in if st \<in> set TERMINAL_STATES then dset ''recovery-required'' (JBool False) u4 else u4)"
    unfolding transition_body_def rbind_eq_Inr Let_def by auto
  let ?u1 = "dset ''revision'' v (dset ''updated-at'' (JStr (t 0)) (dset ''state'' (JStr st) d))"
  have u3k: "dget u3 k = dget (fold apply_upd us ?u1) k" if "k \<noteq> ''diagnostics''" for k
    using u3 that by (cases "find_error us = NoErr") (auto simp: rbind_eq_Inr)
  have k: "dget d' k = dget ?u1 k" if "k \<notin> set MUTABLE_RESULT_FIELDS" for k
  proof -
    have "k \<noteq> ''diagnostics''" "k \<noteq> ''recovery-required''" using that by (auto simp: MUTABLE_RESULT_FIELDS_def)
    then have "dget d' k = dget u3 k" using d' by (simp add: Let_def split: option.splits)
    also have "\<dots> = dget (fold apply_upd us ?u1) k" by (rule u3k) fact
    also have "\<dots> = dget ?u1 k" by (rule fold_apply_upd_other [OF assms(2) that])
    finally show ?thesis .
  qed
  from g(2,3) obtain c where c: "dget d ''state'' = JStr c" "transition_allowed_fn c st"
    by (auto simp: ensure_transition_eq_Inr dest!: ditem_Inr_dget)
  show thesis
  proof (rule that [OF g(1) c g(4)])
    show "dget d' ''state'' = JStr st" "dget d' ''revision'' = v"
      by (subst k; simp add: MUTABLE_RESULT_FIELDS_def)+
  qed (simp add: k)
qed

lemma transition_commit:
  assumes "wf_rec d" "transition_body st us er eo ew ea t d = Inr (Commit d' e)" "illegal_fields us = []"
  shows "rec_step d d'"
proof -
  obtain cur v where "check_expected_identity d er eo ew ea = Inr ()" and g: "dget d ''state'' = JStr cur"
    "transition_allowed_fn cur st" "bump d ''revision'' = Inr v" "dget d' ''state'' = JStr st" "dget d' ''revision'' = v"
    and k: "\<forall>k. k \<notin> set (''state'' # ''revision'' # ''updated-at'' # MUTABLE_RESULT_FIELDS) \<longrightarrow> dget d' k = dget d k"
    by (rule transition_body_commit_fields [OF assms(2,3)])
  have v: "v = JInt (lc_revision (lc_of d) + 1)" by (rule bump_wf [OF assms(1) g(3)])
  have l: "list_all (\<lambda>k. dget d' k = dget d k) (removeAll ''state'' (removeAll ''revision'' LC_FIELDS) @ FROZEN_FIELDS)"
    using k by (simp add: LC_FIELDS_def FROZEN_FIELDS_def MUTABLE_RESULT_FIELDS_def)
  have "lc_of d' = bumped ((lc_of d)\<lparr>lc_state := st\<rparr>)" "wf_rec d'" "frozen d d'"
    using l assms(1) g(4,5) v by (simp_all add: lc_of_def bumped_def LC_FIELDS_def FROZEN_FIELDS_def wf_rec_def frozen_def)
  moreover have "lc_step (lc_of d) (bumped ((lc_of d)\<lparr>lc_state := st\<rparr>))"
    by (rule lc_step.transition) (use g(1,2) in \<open>simp add: lc_of_def\<close>)
  ultimately show ?thesis by (simp add: rec_step_def)
qed


lemma commit_cancel_mark_step:
  assumes "wf_rec d" "\<not> truthy (dget d ''cancel-requested'')" "commit_cancel_mark so ty aid re m t d = Inr (Commit d' e)"
  shows "rec_step d d'"
proof -
  from assms(3) obtain v where g: "bump d ''revision'' = Inr v"
    "d' = dupd d [(''cancel-requested'', JBool True), (''diagnostics'', JObj m),
               (''cancel-provenance'', cancel_provenance so ty aid re (t 0)),
               (''updated-at'', JStr (t 1)), (''revision'', v)]"
    unfolding commit_cancel_mark_def rbind_eq_Inr Let_def by auto
  have "lc_step (lc_of d) (bumped ((lc_of d)\<lparr>lc_cancel := True\<rparr>))"
    using assms(2) by (intro lc_step.cancel) (simp add: lc_of_def)
  then show ?thesis
    by (rule rec_stepI) (use assms(1) in \<open>simp_all add: g(2) bump_wf [OF assms(1) g(1)] rec_simps\<close>)
qed

lemma commit_diagnostics_step:
  assumes "wf_rec d" "commit_diagnostics m t d = Inr (Commit d' e)"
  shows "rec_step d d'"
  using assms unfolding commit_diagnostics_def rbind_eq_Inr
  by - (clarsimp, rule annotate_step; simp add: annotate_simps)

lemma commit_cancel_queued_step:
  assumes "wf_rec d" "dget d ''state'' = JStr ''queued''" "commit_cancel_queued so ty aid re m t d = Inr (Commit d' e)"
  shows "rec_step d d'"
proof -
  from assms(3) obtain v where g: "bump d ''revision'' = Inr v" "d' = dupd d
         [(''state'', JStr ''cancelled''), (''cancel-requested'', JBool True), (''diagnostics'', JObj m),
          (''cancel-provenance'', cancel_provenance so ty aid re (t 0)),
          (''cancel-acknowledged-at'', JStr (t 1)), (''cancel-acknowledged-by'', JStr ''queue-worker''),
          (''updated-at'', JStr (t 2)), (''finished-at'', JStr (t 3)), (''revision'', v)]"
    unfolding commit_cancel_queued_def rbind_eq_Inr by auto
  from assms(2) have "lc_state (lc_of d) = ''queued''" by (simp add: lc_of_def)
  from lc_step.cancel_queued [OF this] show ?thesis
    by (rule rec_stepI) (use assms(1) in \<open>simp_all add: g(2) bump_wf [OF assms(1) g(1)] rec_simps\<close>)
qed

lemma mark_cancel_commit:
  assumes "wf_rec d" "mark_cancel_body so ty aid re t d = Inr (Commit d' e)"
  shows "rec_step d d'"
  using assms commit_cancel_mark_step [OF assms(1)] unfolding mark_cancel_body_def rbind_eq_Inr
  by (auto simp: rbind_eq_Inr split: if_split_asm dest: ditem_Inr_dget)

lemma acknowledge_commit:
  assumes "wf_rec d" "acknowledge_body rid actor t d = Inr (Commit d' e)" "actor \<in> set CANCEL_ACK_ACTORS"
  shows "rec_step d d'"
proof -
  from assms(2) obtain v where g: "truthy (dget d ''cancel-requested'')" "\<not> truthy (dget d ''cancel-acknowledged-by'')"
    "bump d ''revision'' = Inr v" "d' = dupd d [(''cancel-acknowledged-at'', JStr (t 0)), (''cancel-acknowledged-by'', JStr actor),
                  (''updated-at'', JStr (t 1)), (''revision'', v)]"
    unfolding acknowledge_body_def rbind_eq_Inr Let_def
    by (auto split: if_split_asm simp: rbind_eq_Inr)
  note v = bump_wf [OF assms(1) g(3)]
  have "lc_step (lc_of d) (bumped ((lc_of d)\<lparr>lc_ack := Some actor\<rparr>))"
    using g(1,2) assms(1,3)
    by (intro lc_step.acknowledge) (auto simp: lc_of_def wf_rec_def opt_of_eq_None nullable_str_def elim!: is_str.elims)
  moreover have "actor \<noteq> []" using assms(3) by (auto simp: CANCEL_ACK_ACTORS_def)
  ultimately show ?thesis
    using assms(1) by - (rule rec_stepI, assumption, simp_all add: g(4) v rec_simps)
qed

lemma cancel_queued_commit:
  assumes "wf_rec d" "cancel_queued_body rid so ty aid re dg er t d = Inr (Commit d' e)"
  shows "rec_step d d'"
proof -
  from assms(2) obtain m st where st: "ditem d ''state'' = Inr st" and br:
    "(if st \<noteq> JStr ''queued'' then
       rbind (if st = JStr ''running'' then ditem d ''cancel-requested'' else Inr (JBool True)) (\<lambda>c.
       if \<not> truthy c then commit_cancel_mark so ty aid re m t d
       else if dg \<noteq> None then commit_diagnostics m t d
       else Inr (Keep d))
     else commit_cancel_queued so ty aid re m t d) = Inr (Commit d' e)"
    unfolding cancel_queued_body_def rbind_eq_Inr by (elim exE conjE) (rule that)
  show ?thesis
  proof (cases "st = JStr ''queued''")
    case True
    with br st show ?thesis by (intro commit_cancel_queued_step [OF assms(1)]) (simp_all add: ditem_Inr_dget)
  next
    case False
    with br obtain c where c: "(if st = JStr ''running'' then ditem d ''cancel-requested'' else Inr (JBool True)) = Inr c"
      and k: "(if \<not> truthy c then commit_cancel_mark so ty aid re m t d
       else if dg \<noteq> None then commit_diagnostics m t d else Inr (Keep d)) = Inr (Commit d' e)"
      by (simp only: rbind_eq_Inr if_True if_False not_False_eq_True) blast
    show ?thesis
    proof (cases "truthy c")
      case True
      with k show ?thesis by (intro commit_diagnostics_step [OF assms(1)]) (simp split: if_split_asm)
    next
      case False
      with c have "dget d ''cancel-requested'' = c" by (cases "st = JStr ''running''") (auto dest: ditem_Inr_dget)
      with False k show ?thesis by (intro commit_cancel_mark_step [OF assms(1)]) simp_all
    qed
  qed
qed


lemma opt_set_other [simp]: "k \<noteq> k' \<Longrightarrow> dget (opt_set k' v d) k = dget d k"
  by (simp add: opt_set_def split: option.splits)

lemma recovered_diagnostics_other:
  "recovered_diagnostics st er d u = Inr u' \<Longrightarrow> k \<noteq> ''diagnostics'' \<Longrightarrow> dget u' k = dget u k"
  by (auto simp: recovered_diagnostics_def rbind_eq_Inr split: if_split_asm)

lemma recovered_commit:
  assumes "wf_rec d" "recovered_body rid st er se rv rr rs t d = Inr (Commit d' e)" "st \<in> set TERMINAL_STATES"
  shows "rec_step d d'"
proof -
  from assms(2) obtain cur v u where g: "ditem d ''state'' = Inr cur" "ensure_transition cur st = Inr ()"
    "bump d ''revision'' = Inr v"
    and u: "recovered_diagnostics st er d (dupd d (recovered_fields st er rr (t 0) v)) = Inr u"
    and d': "d' = ack_by_recovery (t 0) (recovered_evidence er rr rs u)"
    unfolding recovered_body_def rbind_eq_Inr by (elim exE conjE) (simp add: that)
  from g(1,2) obtain c where c: "dget d ''state'' = JStr c" "transition_allowed_fn c st"
    by (auto simp: ensure_transition_eq_Inr dest!: ditem_Inr_dget)
  note v = bump_wf [OF assms(1) g(3)] and k = recovered_diagnostics_other [OF u]
  have a: "truthy (dget d ''cancel-acknowledged-by'') \<longleftrightarrow> dget d ''cancel-acknowledged-by'' \<noteq> JNull"
    "opt_of (dget d ''cancel-acknowledged-by'') = None \<longleftrightarrow> dget d ''cancel-acknowledged-by'' = JNull"
    using assms(1) by (auto simp: wf_rec_def nullable_str_def elim!: is_str.elims)
  let ?ack = "if lc_cancel (lc_of d) \<and> lc_ack (lc_of d) = None then Some ''recovery'' else lc_ack (lc_of d)"
  have "lc_step (lc_of d) (bumped ((lc_of d)\<lparr>lc_state := st, lc_ack := ?ack\<rparr>))"
    by (rule lc_step.recover) (use c assms(3) in \<open>simp_all add: lc_of_def\<close>)
  then show ?thesis
    by (rule rec_stepI)
       (use assms(1) in \<open>simp_all add: d' ack_by_recovery_def recovered_evidence_def k recovered_fields_def v a rec_simps\<close>)
qed

section \<open>Refinement\<close>

text \<open>Each body keeps the lifecycle contract, so each operation keeps it on the store.\<close>

interpretation ud: lifecycle_op "update_diagnostics_body rid dg ev er t" for rid dg ev er t
  by unfold_locales (rule update_diagnostics_commit)

interpretation mc: lifecycle_op "mark_cancel_body so ty aid re t" for so ty aid re t
  by unfold_locales (rule mark_cancel_commit)

interpretation cq: lifecycle_op "cancel_queued_body rid so ty aid re dg er t" for rid so ty aid re dg er t
  by unfold_locales (rule cancel_queued_commit)

interpretation aa: lifecycle_op "append_attempt_body p pr m st er sa fa eo ew ea t" for p pr m st er sa fa eo ew ea t
  by unfold_locales (rule append_attempt_commit)

interpretation lr: lifecycle_op "link_replay_body a_rid b_rid t" for a_rid b_rid t
  by unfold_locales (rule link_replay_commit)

lemma acknowledge_op: "actor \<in> set CANCEL_ACK_ACTORS \<Longrightarrow> lifecycle_op (acknowledge_body rid actor t)"
  by unfold_locales (rule acknowledge_commit)

lemma transition_op: "illegal_fields us = [] \<Longrightarrow> lifecycle_op (transition_body st us er eo ew ea t)"
  by unfold_locales (rule transition_commit)

lemma recovered_op: "st \<in> set TERMINAL_STATES \<Longrightarrow> lifecycle_op (recovered_body rid st er se rv rr rs t)"
  by unfold_locales (rule recovered_commit)

lemma transition_record_contract: "keeps_contract (transition_record E rid st us er eo ew ea t)"
  using keeps_contractI [OF transition_op [of us st er eo ew ea t], of E rid]
  by (simp add: keeps_contract_def transition_record_def)

lemma acknowledge_contract: "keeps_contract (acknowledge_cancel E rid actor t)"
  using keeps_contractI [OF acknowledge_op [of actor rid t], of E rid]
  by (simp add: keeps_contract_def acknowledge_cancel_def)

lemma recovered_contract: "keeps_contract (transition_recovered_terminal E rid st er se rv rr rs t)"
  using keeps_contractI [OF recovered_op [of st rid er se rv rr rs t], of E rid]
  by (simp add: keeps_contract_def transition_recovered_terminal_def)

lemma owned_attempt_contract:
  "keeps_contract (append_owned_attempt E rid ow w ep p pr m st er sa fa t)"
  using keeps_contractI [OF aa.lifecycle_op_axioms, of E rid]
  by (simp add: keeps_contract_def append_owned_attempt_def append_attempt_def split: sum.splits)

lemma requests_cleanup [simp]:
  "requests (clear_active_work sr rid s) = requests s" "requests (terminal_index_cleanup E sr rid s) = requests s"
  "requests (record_active_work sr pr rid ow now s) = requests s"
  by (simp_all add: clear_active_work_def terminal_index_cleanup_def record_active_work_def split: option.splits)

lemma owned_terminal_contract:
  "keeps_contract (transition_owned_terminal E rid st ow w ep us er sr t)"
proof -
  let ?f = "transition_record E rid st (terminal_updates us) er (Some ow) (Some w) (Some ep) t"
  let ?h = "\<lambda>s s'. case fst (?f s) of Inl e \<Rightarrow> s' | Inr u \<Rightarrow>
        (let r = (case sr of Some r \<Rightarrow> Some r | None \<Rightarrow> stored_root u)
         in clear_active_work r rid (terminal_index_cleanup E r rid s'))"
  show ?thesis
  proof (cases "st \<in> set TERMINAL_STATES \<and> require_owned_identity (Some ow) (Some w) ep = Inr ()")
    case True
    then show ?thesis
      by (intro keeps_contract_frame [where f = ?f and h = ?h, OF transition_record_contract])
         (auto simp: transition_owned_terminal_def Let_def split: sum.splits prod.splits)
  next
    case False
    then have "snd (transition_owned_terminal E rid st ow w ep us er sr t s) = s" for s
      by (auto simp: transition_owned_terminal_def split: sum.splits)
    then show ?thesis by (simp add: keeps_contract_def)
  qed
qed

end
