(* ===== verification/Request_Ownership.thy ===== *)
theory Request_Ownership
  imports Request_Transitions
begin

text \<open>
  The ownership operations of \<open>gateway/store/_transitions.py\<close>: claiming a queued request for one
  service owner, releasing a stale claim, taking a request over after a restart, assigning and
  starting attempts, and the owned annotations (recovery deferral, live session data).  A claim
  and a start also move the work-index entry of the service root; an exception of that move
  other than an \<open>OSError\<close> reaches the caller after the record was written.
\<close>

section \<open>Claims\<close>

definition release_stale_body :: "string \<Rightarrow> clock \<Rightarrow> dict \<Rightarrow> outcome res" where
  "release_stale_body stale_epoch t rec =
     rbind (guard_r (dget rec ''dispatch-owner-epoch'' = JStr stale_epoch)
              (ag_error ''CON-AGW-083'' ''gateway request dispatch ownership changed'' [])) (\<lambda>_.
     rbind (ditem rec ''state'') (\<lambda>st.
     rbind (guard_r (st = JStr ''queued'')
              (ag_error ''CON-AGW-083'' ''gateway request is not a stale queued claim'' [(''state'', st)])) (\<lambda>_.
     rbind (bump rec ''revision'') (\<lambda>rv.
     Inr (Commit (dupd rec
         [(''dispatch-owner-epoch'', JNull), (''dispatch-claimed-at'', JNull), (''dispatch-service-root'', JNull),
          (''updated-at'', JStr (t 0)), (''revision'', rv),
          (''recovery'', JObj [(''reason'', JStr ''service-restart''), (''outcome'', JStr ''resubmit-required'')])])
       (emit ''dispatch.claim.released'' (JStr ''queued'') [(''stale-owner-epoch'', JStr stale_epoch)]))))))"

definition release_stale_claim :: "('a genv_scheme) \<Rightarrow> string \<Rightarrow> string \<Rightarrow> clock \<Rightarrow> gw \<Rightarrow> dict res \<times> gw" where
  "release_stale_claim E rid stale_epoch t s = locked_update E rid (release_stale_body stale_epoch t) s"

definition takeover_recovery :: "dict \<Rightarrow> json \<Rightarrow> string option \<Rightarrow> dict res" where
  "takeover_recovery previous current_owner handoff_id =
     rbind (py_int (dget_or previous ''attempt'' (JInt 0))) (\<lambda>n.
     Inr (dupd previous
       [(''reason'', if handoff_id \<notin> {None, Some []} then JStr ''gateway-restart''
                     else por (dget previous ''reason'') (JStr ''owner-loss'')),
        (''outcome'', JStr ''in-place''), (''from-owner-epoch'', current_owner),
        (''handoff-id'', por (opt_json handoff_id) (dget previous ''handoff-id'')),
        (''attempt'', JInt n)]))"

definition takeover_body ::
    "string option \<Rightarrow> string \<Rightarrow> string option \<Rightarrow> string option \<Rightarrow> clock \<Rightarrow> dict \<Rightarrow> outcome res" where
  "takeover_body expected_owner new_owner new_worker handoff_id t rec =
     rbind (ditem rec ''state'') (\<lambda>st.
     if st \<notin> {JStr ''queued'', JStr ''running''} then Inr (Keep rec) else
     let owner = dget rec ''dispatch-owner-epoch'' in
     rbind (guard_r (\<forall>w \<in> set_option expected_owner. owner = JStr w)
              (ag_error ''CON-AGW-083'' ''gateway request dispatch ownership changed'' [])) (\<lambda>_.
     if owner = JStr new_owner then Inr (Keep rec) else
     rbind (takeover_recovery (obj_of (dget rec ''recovery'')) owner handoff_id) (\<lambda>recovery.
     rbind (bump rec ''revision'') (\<lambda>rv.
     let u = opt_set ''worker-id'' (map_option JStr new_worker)
               (dupd rec [(''dispatch-owner-epoch'', JStr new_owner),
                 (''dispatch-claimed-at'', dget rec ''dispatch-claimed-at''), (''updated-at'', JStr (t 0)),
                 (''recovery'', JObj recovery), (''recovery-required'', JBool (st = JStr ''running'')),
                 (''revision'', rv)])
     in Inr (Commit u (emit ''recovery.owner-taken-over'' st
          [(''from-owner-epoch'', owner), (''owner-epoch'', JStr new_owner), (''handoff-id'', opt_json handoff_id),
           (''recovery-required'', JBool (st = JStr ''running''))]))))))"

definition takeover_nonterminal_owner ::
    "('a genv_scheme) \<Rightarrow> string \<Rightarrow> string option \<Rightarrow> string \<Rightarrow> string option \<Rightarrow> string option \<Rightarrow> clock
      \<Rightarrow> gw \<Rightarrow> dict res \<times> gw" where
  "takeover_nonterminal_owner E rid expected_owner new_owner new_worker handoff_id t s =
     (if new_owner = [] then (Inl (ag_error ''VAL-AGW-087'' ''new gateway owner epoch is required'' []), s)
      else locked_update E rid (takeover_body expected_owner new_owner new_worker handoff_id t) s)"

text \<open>\<open>claim_dispatch\<close> decides between an error, returning the record with only the active-work file
  written, and a claim; the claim writes the record, the active-work file, the work index and the
  timeline in that order.\<close>

datatype claim = Reclaim dict | Claim dict

definition claim_body ::
    "string \<Rightarrow> int \<Rightarrow> string option \<Rightarrow> clock \<Rightarrow> dict \<Rightarrow> claim res" where
  "claim_body owner expected_revision service_root t rec =
     rbind (if dget rec ''node-placement'' \<noteq> JNull then
              rbind (ditem rec ''revision'') (\<lambda>v. guard_r (jeq v (JInt expected_revision))
                (ag_error ''CON-AGW-071'' ''gateway request revision changed'' []))
            else Inr ()) (\<lambda>_.
     rbind (ditem rec ''state'') (\<lambda>st.
     if st = JStr ''running'' \<and> dget rec ''recovery-required'' = JBool True \<and>
        dget rec ''dispatch-owner-epoch'' = JStr owner
     then Inr (Reclaim (dset ''_recovered-dispatch'' (JBool True) rec))
     else
     rbind (ditem rec ''revision'') (\<lambda>v.
     rbind (guard_r (jeq v (JInt expected_revision)) (ag_error ''CON-AGW-071'' ''gateway request revision changed''
              [(''expected'', JInt expected_revision), (''actual'', v)])) (\<lambda>_.
     rbind (guard_r (st = JStr ''queued'')
              (ag_error ''CON-AGW-083'' ''gateway request is not available for dispatch claim'' [])) (\<lambda>_.
     let current = dget rec ''dispatch-owner-epoch'' in
     rbind (guard_r (current \<in> {JNull, JStr owner})
              (ag_error ''CON-AGW-083'' ''gateway request dispatch ownership changed'' [])) (\<lambda>_.
     if current = JStr owner \<and> (service_root = None \<or> truthy (dget rec ''dispatch-service-root''))
     then Inr (Reclaim rec)
     else rbind (bump rec ''revision'') (\<lambda>rv.
       Inr (Claim (dupd rec
         [(''dispatch-owner-epoch'', JStr owner), (''dispatch-claimed-at'', JStr (t 0)),
          (''dispatch-service-root'', opt_json service_root), (''updated-at'', JStr (t 1)),
          (''revision'', rv)])))))))))"

definition claim_index ::
    "('a genv_scheme) \<Rightarrow> string option \<Rightarrow> string \<Rightarrow> string \<Rightarrow> string \<Rightarrow> json \<Rightarrow> clock \<Rightarrow> gw \<Rightarrow> unit res \<times> gw" where
  "claim_index E service_root project_root rid owner lane_key t s = (case service_root of None \<Rightarrow> (Inr (), s)
     | Some r \<Rightarrow>
        (case update_work_index_phase (root_digest E) (t 3) rid ''admitted'' ''claimed'' (JStr owner) (windex s r) of
           (Inl e, ix) \<Rightarrow> (Inl e, s\<lparr>windex := (windex s)(r := ix)\<rparr>)
         | (Inr did, ix) \<Rightarrow>
            (let ix' = (if did then ix else write_work_index_entry (root_digest E) (t 3) project_root rid ''claimed''
                          (JStr owner) (por lane_key JNull) ix)
             in (Inr (), s\<lparr>windex := (windex s)(r := ix')\<rparr>))))"

definition claim_dispatch ::
    "('a genv_scheme) \<Rightarrow> string \<Rightarrow> string \<Rightarrow> string \<Rightarrow> int \<Rightarrow> string option \<Rightarrow> clock \<Rightarrow> gw \<Rightarrow> dict res \<times> gw" where
  "claim_dispatch E project_root rid owner expected_revision service_root t s =
     (if owner = [] then (Inl (ag_error ''VAL-AGW-083'' ''dispatch owner epoch is required'' []), s)
      else case read_record_locked E rid s of
        (Inl e, s1) \<Rightarrow> (Inl e, s1)
      | (Inr rec, s1) \<Rightarrow> (case claim_body owner expected_revision service_root t rec of
           Inl e \<Rightarrow> (Inl e, s1)
         | Inr (Reclaim d) \<Rightarrow> (Inr d, record_active_work service_root project_root rid owner (t 0) s1)
         | Inr (Claim updated) \<Rightarrow> (case write_record E updated s1 of
              (Inl e, s2) \<Rightarrow> (Inl e, s2)
            | (Inr u, s2) \<Rightarrow>
               (case claim_index E service_root project_root rid owner (dget rec ''gateway-execution-lane-key'') t
                       (record_active_work service_root project_root rid owner (t 2) s2) of
                  (Inl e, s3) \<Rightarrow> (Inl e, s3)
                | (Inr _, s3) \<Rightarrow> (Inr updated, record_gateway_timeline rid ''dispatch.claimed'' (JStr ''queued'')
                    [(''dispatch-owner-epoch'', JStr owner)] s3)))))"

section \<open>Attempts\<close>

definition start_attempt_body :: "string \<Rightarrow> clock \<Rightarrow> dict \<Rightarrow> outcome res" where
  "start_attempt_body worker t rec =
     rbind (ditem rec ''state'') (\<lambda>st.
     rbind (ensure_transition st ''running'') (\<lambda>_.
     rbind (bump rec ''attempt-epoch'') (\<lambda>ep.
     rbind (bump rec ''revision'') (\<lambda>rv.
     Inr (Commit (dupd rec
         [(''state'', JStr ''running''), (''worker-id'', JStr worker), (''attempt-epoch'', ep),
          (''started-at'', JStr (t 0)), (''updated-at'', JStr (t 1)), (''revision'', rv)])
       (emit ''attempt.started'' (JStr ''running'')
          [(''worker-id'', JStr worker), (''attempt-epoch'', ep),
           (''context-fingerprint'', dget rec ''context-fingerprint'')]))))))"

definition start_attempt :: "('a genv_scheme) \<Rightarrow> string \<Rightarrow> string \<Rightarrow> clock \<Rightarrow> gw \<Rightarrow> dict res \<times> gw" where
  "start_attempt E rid worker t s =
     (if worker = [] then (Inl (ag_error ''VAL-AGW-070'' ''worker_id is required'' []), s)
      else locked_update E rid (start_attempt_body worker t) s)"

text \<open>The two starts that move the work-index entry between the record write and the timeline
  event.\<close>

definition running_index :: "('a genv_scheme) \<Rightarrow> dict \<Rightarrow> string \<Rightarrow> string \<Rightarrow> string \<Rightarrow> gw \<Rightarrow> unit res \<times> gw" where
  "running_index E rec rid owner now s = (case stored_root rec of None \<Rightarrow> (Inr (), s)
     | Some r \<Rightarrow>
        (case update_work_index_phase (root_digest E) now rid ''claimed'' ''running'' (JStr owner) (windex s r) of
           (Inl e, ix) \<Rightarrow> (Inl e, s\<lparr>windex := (windex s)(r := ix)\<rparr>)
         | (Inr _, ix) \<Rightarrow> (Inr (), s\<lparr>windex := (windex s)(r := ix)\<rparr>)))"

definition locked_start ::
    "('a genv_scheme) \<Rightarrow> string \<Rightarrow> string \<Rightarrow> (dict \<Rightarrow> outcome res) \<Rightarrow> clock \<Rightarrow> gw \<Rightarrow> dict res \<times> gw" where
  "locked_start E rid owner body t s = (case read_record_locked E rid s of
     (Inl e, s1) \<Rightarrow> (Inl e, s1)
   | (Inr rec, s1) \<Rightarrow> (case body rec of
        Inl e \<Rightarrow> (Inl e, s1)
      | Inr (Keep d) \<Rightarrow> (Inr d, s1)
      | Inr (Commit upd ev) \<Rightarrow> (case write_record E upd s1 of
           (Inl e, s2) \<Rightarrow> (Inl e, s2)
         | (Inr u, s2) \<Rightarrow> (case running_index E rec rid owner (t 1) s2 of
              (Inl e, s3) \<Rightarrow> (Inl e, s3)
            | (Inr _, s3) \<Rightarrow> (case ev of
                 Inl e \<Rightarrow> (Inl e, s3)
               | Inr None \<Rightarrow> (Inr upd, s3)
               | Inr (Some (name, st, attrs)) \<Rightarrow> (Inr upd, record_gateway_timeline rid name st attrs s3))))))"

definition start_owned_body :: "string \<Rightarrow> string \<Rightarrow> int \<Rightarrow> clock \<Rightarrow> dict \<Rightarrow> outcome res" where
  "start_owned_body owner worker expected_revision t rec =
     rbind (check_expected_identity rec (Some expected_revision) (Some owner) None None) (\<lambda>_.
     rbind (ditem rec ''state'') (\<lambda>st.
     rbind (ensure_transition st ''running'') (\<lambda>_.
     rbind (bump rec ''attempt-epoch'') (\<lambda>ep.
     rbind (bump rec ''revision'') (\<lambda>rv.
     Inr (Commit (dupd rec
         [(''state'', JStr ''running''), (''worker-id'', JStr worker), (''attempt-epoch'', ep),
          (''started-at'', JStr (t 0)), (''updated-at'', JStr (t 0)), (''revision'', rv)])
       (emit ''attempt.started'' (JStr ''running'')
          [(''dispatch-owner-epoch'', JStr owner), (''worker-id'', JStr worker), (''attempt-epoch'', ep),
           (''context-fingerprint'', dget rec ''context-fingerprint'')])))))))"

definition start_owned_attempt ::
    "('a genv_scheme) \<Rightarrow> string \<Rightarrow> string \<Rightarrow> string \<Rightarrow> int \<Rightarrow> clock \<Rightarrow> gw \<Rightarrow> dict res \<times> gw" where
  "start_owned_attempt E rid owner worker expected_revision t s =
     (if owner = [] \<or> worker = [] then
        (Inl (ag_error ''VAL-AGW-070'' ''owner epoch and worker_id are required'' []), s)
      else locked_start E rid owner (start_owned_body owner worker expected_revision t) t s)"

definition prepare_session_body ::
    "string \<Rightarrow> string \<Rightarrow> int \<Rightarrow> string option \<Rightarrow> string option \<Rightarrow> string option \<Rightarrow> string option \<Rightarrow> clock
      \<Rightarrow> dict \<Rightarrow> outcome res" where
  "prepare_session_body owner worker expected_revision source model selector generation t rec =
     rbind (check_expected_identity rec (Some expected_revision) (Some owner) None None) (\<lambda>_.
     rbind (ditem rec ''state'') (\<lambda>st.
     rbind (guard_r (st = JStr ''queued'')
              (ag_error ''CON-AGW-087'' ''gateway session request is no longer queued'' [])) (\<lambda>_.
     rbind (guard_r (\<not> truthy (dget rec ''cancel-requested''))
              (ag_error ''CON-AGW-CANCELLED'' ''gateway session request was cancelled'' [])) (\<lambda>_.
     rbind (bump rec ''attempt-epoch'') (\<lambda>ep.
     rbind (bump rec ''revision'') (\<lambda>rv.
     let u = dupd rec [(''worker-id'', JStr worker), (''attempt-epoch'', ep), (''updated-at'', JStr (t 0)),
               (''revision'', rv)]
     in Inr (Commit
          (opt_set ''resolved-capacity-generation'' (map_option JStr generation)
            (opt_set ''resolved-model-selector'' (map_option JStr selector)
              (opt_set ''resolved-model-id'' (map_option JStr model)
                (opt_set ''resolved-source-id'' (map_option JStr source) u))))
          (emit ''session-attempt.prepared'' (JStr ''queued'')
            [(''dispatch-owner-epoch'', JStr owner), (''worker-id'', JStr worker), (''attempt-epoch'', ep)]))))))))"

definition prepare_owned_session_attempt ::
    "('a genv_scheme) \<Rightarrow> string \<Rightarrow> string \<Rightarrow> string \<Rightarrow> int \<Rightarrow> string option \<Rightarrow> string option \<Rightarrow> string option \<Rightarrow> string option
      \<Rightarrow> clock \<Rightarrow> gw \<Rightarrow> dict res \<times> gw" where
  "prepare_owned_session_attempt E rid owner worker expected_revision source model selector generation t s =
     (if owner = [] \<or> worker = [] then
        (Inl (ag_error ''VAL-AGW-070'' ''owner epoch and worker_id are required'' []), s)
      else locked_update E rid
             (prepare_session_body owner worker expected_revision source model selector generation t) s)"

definition start_session_body :: "string \<Rightarrow> string \<Rightarrow> int \<Rightarrow> clock \<Rightarrow> dict \<Rightarrow> outcome res" where
  "start_session_body owner worker epoch t rec =
     rbind (check_expected_identity rec None (Some owner) (Some worker) (Some epoch)) (\<lambda>_.
     rbind (ditem rec ''state'') (\<lambda>st.
     if st = JStr ''running'' then Inr (Keep rec) else
     rbind (guard_r (st = JStr ''queued'')
              (ag_error ''CON-AGW-087'' ''gateway session request is not dispatchable'' [])) (\<lambda>_.
     rbind (guard_r (\<not> truthy (dget rec ''cancel-requested''))
              (ag_error ''CON-AGW-CANCELLED'' ''gateway session request was cancelled'' [])) (\<lambda>_.
     rbind (bump rec ''revision'') (\<lambda>rv.
     Inr (Commit (dupd rec
         [(''state'', JStr ''running''), (''started-at'', JStr (t 0)), (''updated-at'', JStr (t 0)),
          (''watchdog-state'', JStr ''active''), (''watchdog-reason'', JStr ''awaiting-verified-activity''),
          (''revision'', rv)])
       (emit ''session-attempt.started'' (JStr ''running'')
          [(''dispatch-owner-epoch'', JStr owner), (''worker-id'', JStr worker), (''attempt-epoch'', JInt epoch)])))))))"

definition start_owned_session_attempt ::
    "('a genv_scheme) \<Rightarrow> string \<Rightarrow> string \<Rightarrow> string \<Rightarrow> int \<Rightarrow> clock \<Rightarrow> gw \<Rightarrow> dict res \<times> gw" where
  "start_owned_session_attempt E rid owner worker epoch t s =
     (case require_owned_identity (Some owner) (Some worker) epoch of
        Inl e \<Rightarrow> (Inl e, s)
      | Inr _ \<Rightarrow> locked_start E rid owner (start_session_body owner worker epoch t) t s)"

definition bind_start_body ::
    "string \<Rightarrow> string \<Rightarrow> int \<Rightarrow> string \<Rightarrow> string \<Rightarrow> string option \<Rightarrow> string option \<Rightarrow> clock \<Rightarrow> dict \<Rightarrow> outcome res" where
  "bind_start_body owner worker expected_revision source model selector generation t rec =
     rbind (check_expected_identity rec (Some expected_revision) (Some owner) None None) (\<lambda>_.
     rbind (ditem rec ''state'') (\<lambda>st.
     rbind (ensure_transition st ''running'') (\<lambda>_.
     rbind (bump rec ''attempt-epoch'') (\<lambda>ep.
     rbind (bump rec ''revision'') (\<lambda>rv.
     Inr (Commit (dupd rec
         [(''state'', JStr ''running''), (''worker-id'', JStr worker), (''attempt-epoch'', ep),
          (''resolved-source-id'', JStr source), (''resolved-model-id'', JStr model),
          (''resolved-model-selector'', opt_json selector), (''resolved-capacity-generation'', opt_json generation),
          (''watchdog-state'', JStr ''active''), (''watchdog-reason'', JStr ''awaiting-verified-activity''),
          (''started-at'', JStr (t 0)), (''updated-at'', JStr (t 0)), (''revision'', rv)])
       (emit ''dispatch.bound-and-started'' (JStr ''running'')
          [(''dispatch-owner-epoch'', JStr owner), (''worker-id'', JStr worker), (''attempt-epoch'', ep),
           (''resolved-source-id'', JStr source), (''resolved-model-id'', JStr model),
           (''resolved-model-selector'', opt_json selector),
           (''resolved-capacity-generation'', opt_json generation)])))))))"

definition bind_and_start_owned_attempt ::
    "('a genv_scheme) \<Rightarrow> string \<Rightarrow> string \<Rightarrow> string \<Rightarrow> int \<Rightarrow> string \<Rightarrow> string \<Rightarrow> string option \<Rightarrow> string option
      \<Rightarrow> clock \<Rightarrow> gw \<Rightarrow> dict res \<times> gw" where
  "bind_and_start_owned_attempt E rid owner worker expected_revision source model selector generation t s =
     (if owner = [] \<or> worker = [] then
        (Inl (ag_error ''VAL-AGW-070'' ''owner epoch and worker_id are required'' []), s)
      else if source = [] \<or> model = [] then
        (Inl (ag_error ''VAL-AGW-086'' ''resolved source id and model id are required before dispatch'' []), s)
      else locked_update E rid (bind_start_body owner worker expected_revision source model selector generation t) s)"

section \<open>Recovery deferral\<close>

fun error_message :: "('a genv_scheme) \<Rightarrow> err_in \<Rightarrow> string" where
  "error_message E NoErr = ''recovery retry deferred''"
| "error_message E (ErrAG c k m d) = m"
| "error_message E (ErrExc nm v txt) = txt"
| "error_message E (ErrMap d) = (case dget d ''message'' of JStr m \<Rightarrow> m | _ \<Rightarrow> dict_text E d)"

definition deferral_recovery ::
    "('a genv_scheme) \<Rightarrow> dict \<Rightarrow> int \<Rightarrow> int \<Rightarrow> err_in \<Rightarrow> string \<Rightarrow> string \<Rightarrow> json \<Rightarrow> rat option \<Rightarrow> dict option \<Rightarrow> dict" where
  "deferral_recovery E previous attempt followup error phase se retry_at delay continuation =
     (let b = (case bounded_recovery_error error of None \<Rightarrow> [] | Some x \<Rightarrow> x);
          r = [(''reason'', por (dget previous ''reason'') (JStr ''gateway-restart'')), (''outcome'', JStr ''in-place''),
               (''from-owner-epoch'', dget previous ''from-owner-epoch''), (''handoff-id'', dget previous ''handoff-id''),
               (''attempt'', JInt attempt), (''followup-attempt'', JInt followup),
               (''last-error'', JStr (take 256 (error_message E error))),
               (''last-error-code'', dget b ''code''), (''last-error-type'', dget b ''type''),
               (''last-error-kind'', dget b ''kind''), (''last-error-details'', dget b ''details''),
               (''phase'', JStr phase), (''side-effect-state'', JStr se), (''next-retry-at'', retry_at),
               (''retry-delay-seconds'', (case delay of None \<Rightarrow> JInt 0 | Some q \<Rightarrow> JFloat q))]
      in (case continuation of Some c \<Rightarrow> dset ''continuation'' (JObj c) r
          | None \<Rightarrow> (case dget previous ''continuation'' of JObj c \<Rightarrow> dset ''continuation'' (JObj c) r | _ \<Rightarrow> r)))"

definition unclaimed_node :: "bool \<Rightarrow> string option \<Rightarrow> int \<Rightarrow> bool" where
  "unclaimed_node allow_queued worker epoch \<longleftrightarrow> allow_queued \<and> worker = None \<and> epoch = 0"

definition defer_body ::
    "('a genv_scheme) \<Rightarrow> string \<Rightarrow> string option \<Rightarrow> int \<Rightarrow> err_in \<Rightarrow> string \<Rightarrow> string \<Rightarrow> rat option \<Rightarrow> dict option \<Rightarrow> bool
      \<Rightarrow> int option \<Rightarrow> clock \<Rightarrow> dict \<Rightarrow> outcome res" where
  "defer_body E owner worker epoch error phase se delay continuation allow_queued er t rec =
     rbind (guard_r (\<not> (delay = None \<and> dget rec ''node-placement'' = JNull))
              (ag_error ''VAL-AGW-085'' ''Unscheduled deferral requires node placement'' [])) (\<lambda>_.
     rbind (if \<not> unclaimed_node allow_queued worker epoch then Inr ()
            else if dget rec ''node-placement'' = JNull then
              Inl (ag_error ''VAL-AGW-085'' ''Unclaimed deferral requires a queued node request'' [])
            else rbind (ditem rec ''state'') (\<lambda>st.
              guard_r (st = JStr ''queued'' \<and> dget rec ''worker-id'' = JNull \<and> jeq (dget rec ''attempt-epoch'') (JInt 0))
                (ag_error ''VAL-AGW-085'' ''Unclaimed deferral requires a queued node request'' []))) (\<lambda>_.
     rbind (check_expected_identity rec er (Some owner) worker (Some epoch)) (\<lambda>_.
     rbind (ditem rec ''state'') (\<lambda>st.
     rbind (guard_r (st = JStr ''running'' \<or> (allow_queued \<and> st = JStr ''queued''))
              (ag_error ''CON-AGW-088'' ''gateway request is not running'' [])) (\<lambda>_.
     let previous = obj_of (dget rec ''recovery'') in
     rbind (int_or_0 (dget previous ''attempt'')) (\<lambda>n.
     rbind (int_or_0 (dget previous ''followup-attempt'')) (\<lambda>f.
     let followup = (if phase = ''followup-reconcile'' then f + 1 else f);
         retry_at = (case delay of None \<Rightarrow> JNull | Some q \<Rightarrow> JStr (add_seconds E (t 0) q));
         queued = (st = JStr ''queued'');
         u1 = (if \<not> is_dict (dget rec ''diagnostics'') \<and> se \<noteq> ''not-started''
               then dset ''diagnostics'' (JObj (stale_progress_diagnostic (JStr ''reconciliation'') (JStr se) (JStr phase))) rec
               else rec) in
     rbind (bump rec ''revision'') (\<lambda>rv.
     Inr (Commit (dupd u1
         [(''recovery'', JObj (deferral_recovery E previous (n + 1) followup error phase se retry_at delay continuation)),
          (''recovery-required'', JBool (\<not> queued)),
          (''watchdog-state'', JStr (if queued then ''not-started'' else if delay = None then ''intervention'' else ''active'')),
          (''watchdog-reason'', JStr (if delay = None then phase
              else if queued then ''queued-recovery-retry'' else ''recovery-retry-scheduled'')),
          (''updated-at'', JStr (t 0)), (''revision'', rv)])
       (emit (if delay = None then ''recovery.deferred'' else ''recovery.retry-scheduled'') st
          [(''phase'', JStr phase), (''attempt'', JInt (n + 1)), (''followup-attempt'', JInt followup),
           (''next-retry-at'', retry_at), (''retry-delay-seconds'', (case delay of None \<Rightarrow> JNull | Some q \<Rightarrow> JFloat q)),
           (''side-effect-state'', JStr se), (''request-revision'', rv),
           (''correlation-id'', dget rec ''correlation-id'')]))))))))))"

definition defer_owned_recovery ::
    "('a genv_scheme) \<Rightarrow> string \<Rightarrow> string \<Rightarrow> string option \<Rightarrow> int \<Rightarrow> err_in \<Rightarrow> string \<Rightarrow> string \<Rightarrow> rat option \<Rightarrow> dict option
      \<Rightarrow> bool \<Rightarrow> int option \<Rightarrow> clock \<Rightarrow> gw \<Rightarrow> dict res \<times> gw" where
  "defer_owned_recovery E rid owner worker epoch error phase se delay continuation allow_queued er t s =
     (case (if unclaimed_node allow_queued worker epoch then
              guard_r (owner \<noteq> [] \<and> (case er of None \<Rightarrow> False | Some n \<Rightarrow> 0 \<le> n))
                (ag_error ''VAL-AGW-085'' ''Unclaimed node deferral requires owner and revision'' [])
            else require_owned_identity (Some owner) worker epoch) of
        Inl e \<Rightarrow> (Inl e, s)
      | Inr _ \<Rightarrow>
         if phase = [] \<or> (case delay of None \<Rightarrow> False | Some q \<Rightarrow> q < 0) then
           (Inl (ag_error ''VAL-AGW-087'' ''recovery retry metadata is invalid'' []), s)
         else locked_update E rid
                (defer_body E owner worker epoch error phase se delay continuation allow_queued er t) s)"

definition defer_owned_queued_recovery ::
    "('a genv_scheme) \<Rightarrow> string \<Rightarrow> string \<Rightarrow> string option \<Rightarrow> int \<Rightarrow> err_in \<Rightarrow> string \<Rightarrow> string \<Rightarrow> rat option \<Rightarrow> dict option
      \<Rightarrow> int option \<Rightarrow> clock \<Rightarrow> gw \<Rightarrow> dict res \<times> gw" where
  "defer_owned_queued_recovery E rid owner worker epoch error phase se delay continuation er t s =
     defer_owned_recovery E rid owner worker epoch error phase se delay continuation True er t s"

section \<open>Live session data\<close>

text \<open>\<open>result_updates\<close> applied in order; a field outside the mutable result fields raises.\<close>

fun apply_results :: "dict \<Rightarrow> dict \<Rightarrow> dict res" where
  "apply_results [] u = Inr u"
| "apply_results ((k, v) # kvs) u =
     (if k \<notin> set MUTABLE_RESULT_FIELDS then
        Inl (ag_error ''VAL-AGW-088'' ''invalid running result update'' [(''field'', JStr k)])
      else apply_results kvs (dset k v u))"

definition session_unchanged ::
    "string \<Rightarrow> dict option \<Rightarrow> json list option \<Rightarrow> string option \<Rightarrow> dict \<Rightarrow> dict \<Rightarrow> bool" where
  "session_unchanged session_id metadata warnings chat_url results rec \<longleftrightarrow>
     dget rec ''session-id'' = JStr session_id \<and>
     (case metadata of None \<Rightarrow> True | Some m \<Rightarrow> jeq (JObj m) (JObj (obj_of (dget rec ''provider-metadata'')))) \<and>
     (case warnings of None \<Rightarrow> True | Some w \<Rightarrow> jeqs (last_n 3 w) (list_of (dget rec ''warnings''))) \<and>
     (case chat_url of None \<Rightarrow> True
      | Some url \<Rightarrow> dget (obj_of (dget rec ''metadata'')) ''provider-chat-url'' = JStr url) \<and>
     list_all (\<lambda>(k, v). jeq (dget rec k) v) results"

text \<open>\<open>dict(updated.get("metadata") or \<^bold>{\<^bold>})\<close>, with a value that is no dictionary raising.\<close>

fun py_dict :: "json \<Rightarrow> dict res" where
  "py_dict (JObj d) = Inr d"
| "py_dict JNull = Inr []"
| "py_dict v = (if truthy v then Inl (ValueError ''dictionary update sequence'') else Inr [])"

definition session_metadata :: "json list option \<Rightarrow> string option \<Rightarrow> dict \<Rightarrow> dict res" where
  "session_metadata warnings chat_url u =
     (if warnings = None \<and> chat_url \<in> {None, Some []} then Inr u else
      rbind (py_dict (dget u ''metadata'')) (\<lambda>md.
      let md1 = dpop ''provider-chat-url'' md;
          md2 = (case chat_url of Some url \<Rightarrow> if url = [] then md1 else dset ''provider-chat-url'' (JStr url) md1
                 | None \<Rightarrow> md1)
      in Inr (dset ''metadata'' (JObj md2) (opt_set ''warnings'' (map_option (\<lambda>w. JList (last_n 3 w)) warnings) u))))"

definition session_update_body ::
    "string \<Rightarrow> string \<Rightarrow> string \<Rightarrow> int \<Rightarrow> string \<Rightarrow> dict option \<Rightarrow> json list option \<Rightarrow> string option \<Rightarrow> dict \<Rightarrow> clock
      \<Rightarrow> dict \<Rightarrow> outcome res" where
  "session_update_body rid owner worker epoch session_id metadata warnings chat_url results t rec =
     rbind (check_expected_identity rec None (Some owner) (Some worker) (Some epoch)) (\<lambda>_.
     rbind (ditem rec ''state'') (\<lambda>st.
     rbind (guard_r (st \<in> {JStr ''queued'', JStr ''running''})
              (ag_error ''CON-AGW-087'' ''gateway request is not an active session attempt''
                 [(''request-id'', JStr rid), (''state'', st)])) (\<lambda>_.
     if session_unchanged session_id metadata warnings chat_url results rec then Inr (Keep rec) else
     rbind (session_metadata warnings chat_url (dset ''session-id'' (JStr session_id) rec)) (\<lambda>u1.
     rbind (apply_results results (opt_set ''provider-metadata'' (map_option JObj metadata) u1)) (\<lambda>u2.
     rbind (bump rec ''revision'') (\<lambda>rv.
     Inr (Commit (dupd u2 [(''updated-at'', JStr (t 0)), (''revision'', rv)])
       (emit ''session.attached'' st [(''session-id'', JStr session_id)]))))))))"

definition update_owned_running_session ::
    "('a genv_scheme) \<Rightarrow> string \<Rightarrow> string \<Rightarrow> string \<Rightarrow> int \<Rightarrow> string \<Rightarrow> dict option \<Rightarrow> json list option \<Rightarrow> string option \<Rightarrow> dict
      \<Rightarrow> clock \<Rightarrow> gw \<Rightarrow> dict res \<times> gw" where
  "update_owned_running_session E rid owner worker epoch session_id metadata warnings chat_url results t s =
     (case require_owned_identity (Some owner) (Some worker) epoch of
        Inl e \<Rightarrow> (Inl e, s)
      | Inr _ \<Rightarrow>
         if session_id = [] then
           (Inl (ag_error ''VAL-AGW-087'' ''session_id is required for a running session update'' []), s)
         else locked_update E rid
                (session_update_body rid owner worker epoch session_id metadata warnings chat_url results t) s)"

section \<open>Every commit is a lifecycle step\<close>

lemma bump_attempt: "wf_rec d \<Longrightarrow> bump d ''attempt-epoch'' = Inr v \<Longrightarrow> v = JInt (lc_attempt (lc_of d) + 1)"
  by (erule wf_recE) (auto simp: bump_eq_Inr lc_of_def)

lemma release_commit:
  assumes "wf_rec d" "release_stale_body ep t d = Inr (Commit d' e)"
  shows "rec_step d d'"
proof -
  from assms(2) obtain v where g: "dget d ''dispatch-owner-epoch'' = JStr ep" "ditem d ''state'' = Inr (JStr ''queued'')"
    "bump d ''revision'' = Inr v"
    and d': "d' = dupd d [(''dispatch-owner-epoch'', JNull), (''dispatch-claimed-at'', JNull), (''dispatch-service-root'', JNull),
          (''updated-at'', JStr (t 0)), (''revision'', v),
          (''recovery'', JObj [(''reason'', JStr ''service-restart''), (''outcome'', JStr ''resubmit-required'')])]"
    unfolding release_stale_body_def rbind_eq_Inr guard_r_eq_Inr by clarsimp
  have "lc_step (lc_of d) (bumped ((lc_of d)\<lparr>lc_owner := None\<rparr>))"
    using g by (intro lc_step.release) (simp_all add: lc_of_def ditem_Inr_dget [OF g(2)])
  then show ?thesis
    by (rule rec_stepI) (use assms(1) in \<open>simp_all add: d' bump_wf [OF assms(1) g(3)] rec_simps\<close>)
qed

lemma takeover_commit:
  assumes "wf_rec d" "takeover_body eo w nw h t d = Inr (Commit d' e)" "w \<noteq> []"
  shows "rec_step d d'"
proof -
  from assms(2) obtain st v rc where g: "ditem d ''state'' = Inr st" "st \<in> {JStr ''queued'', JStr ''running''}"
    "dget d ''dispatch-owner-epoch'' \<noteq> JStr w" "bump d ''revision'' = Inr v"
    and d': "d' = opt_set ''worker-id'' (map_option JStr nw)
               (dupd d [(''dispatch-owner-epoch'', JStr w),
                 (''dispatch-claimed-at'', dget d ''dispatch-claimed-at''), (''updated-at'', JStr (t 0)),
                 (''recovery'', JObj rc), (''recovery-required'', JBool (st = JStr ''running'')),
                 (''revision'', v)])"
    unfolding takeover_body_def rbind_eq_Inr guard_r_eq_Inr Let_def
    by (auto simp: rbind_eq_Inr split: if_split_asm)
  let ?wk = "case nw of None \<Rightarrow> lc_worker (lc_of d) | Some x \<Rightarrow> Some x"
  have st: "lc_state (lc_of d) = str_of st" by (simp add: lc_of_def ditem_Inr_dget [OF g(1)])
  have "lc_step (lc_of d) (bumped ((lc_of d)\<lparr>lc_owner := Some w, lc_worker := ?wk\<rparr>))"
    by (rule lc_step.takeover) (use g(2,3) assms(3) st in \<open>auto simp: lc_of_def split: option.splits\<close>)
  then show ?thesis
    by (rule rec_stepI)
       (use assms(1) in \<open>cases nw; simp add: d' opt_set_def bump_wf [OF assms(1) g(4)] rec_simps\<close>)+
qed

lemma claim_commit:
  assumes "wf_rec d" "claim_body w er sr t d = Inr (Claim d')" "w \<noteq> []"
  shows "rec_step d d'"
proof -
  from assms(2) obtain v where g: "ditem d ''state'' = Inr (JStr ''queued'')"
    "dget d ''dispatch-owner-epoch'' \<in> {JNull, JStr w}" "bump d ''revision'' = Inr v"
    and d': "d' = dupd d [(''dispatch-owner-epoch'', JStr w), (''dispatch-claimed-at'', JStr (t 0)),
          (''dispatch-service-root'', opt_json sr), (''updated-at'', JStr (t 1)), (''revision'', v)]"
    unfolding claim_body_def rbind_eq_Inr
    by (auto simp: rbind_eq_Inr guard_r_eq_Inr Let_def split: if_split_asm)
  have "lc_step (lc_of d) (bumped ((lc_of d)\<lparr>lc_owner := Some w\<rparr>))"
    by (rule lc_step.claim) (use g(2) assms(3) in \<open>auto simp: lc_of_def ditem_Inr_dget [OF g(1)]\<close>)
  then show ?thesis
    by (rule rec_stepI) (use assms(1) in \<open>simp_all add: d' bump_wf [OF assms(1) g(3)] rec_simps\<close>)
qed

text \<open>The three starts write the same lifecycle fields.\<close>

lemma start_step:
  assumes "wf_rec d" "ditem d ''state'' = Inr st" "ensure_transition st ''running'' = Inr ()"
    "bump d ''attempt-epoch'' = Inr ep" "bump d ''revision'' = Inr v"
    "dget d' ''state'' = JStr ''running''" "dget d' ''worker-id'' = JStr wk" "dget d' ''attempt-epoch'' = ep" "dget d' ''revision'' = v"
    "list_all (\<lambda>k. dget d' k = dget d k) ([''dispatch-owner-epoch'', ''cancel-requested'', ''cancel-acknowledged-by''] @ FROZEN_FIELDS)"
  shows "rec_step d d'"
proof -
  from assms(2,3) obtain c where c: "dget d ''state'' = JStr c" "transition_allowed_fn c ''running''"
    by (auto simp: ensure_transition_eq_Inr dest!: ditem_Inr_dget)
  have "lc_step (lc_of d) (bumped ((lc_of d)\<lparr>lc_state := ''running'', lc_worker := Some wk, lc_attempt := lc_attempt (lc_of d) + 1\<rparr>))"
    by (rule lc_step.start) (use c in \<open>simp add: lc_of_def\<close>)
  then show ?thesis
    by (rule rec_stepI)
       (use assms(1,6-10) bump_wf [OF assms(1,5)] bump_attempt [OF assms(1,4)] in \<open>simp_all add: rec_simps\<close>)
qed

lemma start_attempt_commit:
  assumes "wf_rec d" "start_attempt_body wk t d = Inr (Commit d' e)"
  shows "rec_step d d'"
  using assms unfolding start_attempt_body_def rbind_eq_Inr
  by - (clarsimp, rule start_step; simp add: FROZEN_FIELDS_def)

lemma start_owned_commit:
  assumes "wf_rec d" "start_owned_body ow wk er t d = Inr (Commit d' e)"
  shows "rec_step d d'"
  using assms unfolding start_owned_body_def rbind_eq_Inr
  by - (clarsimp, rule start_step; simp add: FROZEN_FIELDS_def)

lemma bind_start_commit:
  assumes "wf_rec d" "bind_start_body ow wk er so mo se ge t d = Inr (Commit d' e)"
  shows "rec_step d d'"
  using assms unfolding bind_start_body_def rbind_eq_Inr
  by - (clarsimp, rule start_step; simp add: FROZEN_FIELDS_def)

lemma prepare_session_commit:
  assumes "wf_rec d" "prepare_session_body ow wk er so mo se ge t d = Inr (Commit d' e)"
  shows "rec_step d d'"
proof -
  from assms(2) obtain v ep where g: "check_expected_identity d (Some er) (Some ow) None None = Inr ()"
    "ditem d ''state'' = Inr (JStr ''queued'')" "\<not> truthy (dget d ''cancel-requested'')"
    "bump d ''attempt-epoch'' = Inr ep" "bump d ''revision'' = Inr v"
    and d': "d' = opt_set ''resolved-capacity-generation'' (map_option JStr ge)
            (opt_set ''resolved-model-selector'' (map_option JStr se)
              (opt_set ''resolved-model-id'' (map_option JStr mo)
                (opt_set ''resolved-source-id'' (map_option JStr so)
      (dupd d [(''worker-id'', JStr wk), (''attempt-epoch'', ep), (''updated-at'', JStr (t 0)), (''revision'', v)]))))"
    unfolding prepare_session_body_def rbind_eq_Inr guard_r_eq_Inr Let_def by clarsimp
  have "lc_step (lc_of d) (bumped ((lc_of d)\<lparr>lc_worker := Some wk, lc_attempt := lc_attempt (lc_of d) + 1\<rparr>))"
    by (rule lc_step.prepare)
       (use g(1,3) check_expected_identity_eq_Inr [OF assms(1)] in \<open>auto simp: lc_of_def ditem_Inr_dget [OF g(2)]\<close>)
  then show ?thesis
    by (rule rec_stepI)
       (use assms(1) in \<open>simp_all add: d' bump_wf [OF assms(1) g(5)] bump_attempt [OF assms(1) g(4)] rec_simps\<close>)
qed

lemma start_session_commit:
  assumes "wf_rec d" "start_session_body ow wk ep t d = Inr (Commit d' e)"
  shows "rec_step d d'"
proof -
  from assms(2) obtain v where g: "check_expected_identity d None (Some ow) (Some wk) (Some ep) = Inr ()"
    "ditem d ''state'' = Inr (JStr ''queued'')" "\<not> truthy (dget d ''cancel-requested'')" "bump d ''revision'' = Inr v"
    and d': "d' = dupd d [(''state'', JStr ''running''), (''started-at'', JStr (t 0)), (''updated-at'', JStr (t 0)),
          (''watchdog-state'', JStr ''active''), (''watchdog-reason'', JStr ''awaiting-verified-activity''),
          (''revision'', v)]"
    unfolding start_session_body_def rbind_eq_Inr
    by (auto simp: rbind_eq_Inr guard_r_eq_Inr split: if_split_asm)
  have "lc_step (lc_of d) (bumped ((lc_of d)\<lparr>lc_state := ''running''\<rparr>))"
    by (rule lc_step.start_session)
       (use g(1,3) check_expected_identity_eq_Inr [OF assms(1)] in \<open>auto simp: lc_of_def ditem_Inr_dget [OF g(2)]\<close>)
  then show ?thesis
    by (rule rec_stepI) (use assms(1) in \<open>simp_all add: d' bump_wf [OF assms(1) g(4)] rec_simps\<close>)
qed

lemma defer_commit:
  assumes "wf_rec d" "defer_body E ow wk ep er ph se dl co aq rv t d = Inr (Commit d' e)"
  shows "rec_step d d'"
  using assms(2) unfolding defer_body_def rbind_eq_Inr Let_def
  by - (elim exE conjE, clarsimp split del: if_split simp del: guard_r_eq_Inr,
      rule annotate_step [OF assms(1)], assumption; simp add: annotate_simps)

lemma apply_results_other:
  "apply_results kvs u = Inr u' \<Longrightarrow> k \<notin> set MUTABLE_RESULT_FIELDS \<Longrightarrow> dget u' k = dget u k"
  by (induction kvs u rule: apply_results.induct) (auto split: if_split_asm)

lemma session_metadata_other:
  "session_metadata w c u = Inr u' \<Longrightarrow> k \<notin> {''metadata'', ''warnings''} \<Longrightarrow> dget u' k = dget u k"
  unfolding session_metadata_def by (auto simp: rbind_eq_Inr Let_def split: if_split_asm)

lemma session_update_commit:
  assumes "wf_rec d" "session_update_body rid ow wk ep sid md w c rs t d = Inr (Commit d' e)"
  shows "rec_step d d'"
proof -
  from assms(2) obtain u1 u2 v where u1: "session_metadata w c (dset ''session-id'' (JStr sid) d) = Inr u1"
    and u2: "apply_results rs (opt_set ''provider-metadata'' (map_option JObj md) u1) = Inr u2"
    and v: "bump d ''revision'' = Inr v" and d': "d' = dupd u2 [(''updated-at'', JStr (t 0)), (''revision'', v)]"
    unfolding session_update_body_def rbind_eq_Inr
    by (auto simp: rbind_eq_Inr split: if_split_asm)
  show ?thesis
    by (rule annotate_step [OF assms(1) v];
        simp add: d' annotate_simps apply_results_other [OF u2] MUTABLE_RESULT_FIELDS_def session_metadata_other [OF u1])
qed

section \<open>Refinement\<close>

interpretation rel: lifecycle_op "release_stale_body ep t" for ep t
  by unfold_locales (rule release_commit)

interpretation sta: lifecycle_op "start_attempt_body wk t" for wk t
  by unfold_locales (rule start_attempt_commit)

interpretation sto: lifecycle_op "start_owned_body ow wk er t" for ow wk er t
  by unfold_locales (rule start_owned_commit)

interpretation bst: lifecycle_op "bind_start_body ow wk er so mo se ge t" for ow wk er so mo se ge t
  by unfold_locales (rule bind_start_commit)

interpretation prs: lifecycle_op "prepare_session_body ow wk er so mo se ge t" for ow wk er so mo se ge t
  by unfold_locales (rule prepare_session_commit)

interpretation sts: lifecycle_op "start_session_body ow wk ep t" for ow wk ep t
  by unfold_locales (rule start_session_commit)

interpretation dfr: lifecycle_op "defer_body E ow wk ep er ph se dl co aq rv t" for E ow wk ep er ph se dl co aq rv t
  by unfold_locales (rule defer_commit)

interpretation sup: lifecycle_op "session_update_body rid ow wk ep sid md w c rs t" for rid ow wk ep sid md w c rs t
  by unfold_locales (rule session_update_commit)

lemma takeover_op: "w \<noteq> [] \<Longrightarrow> lifecycle_op (takeover_body eo w nw h t)"
  by unfold_locales (rule takeover_commit)

text \<open>Operations that write the work index between the record and the timeline.\<close>

lemma requests_running_index [simp]: "requests (snd (running_index E rc rid ow now s)) = requests s"
  by (auto simp: running_index_def split: option.splits prod.splits sum.splits)

lemma requests_claim_index [simp]: "requests (snd (claim_index E sr pr rid ow lk t s)) = requests s"
  by (auto simp: claim_index_def Let_def split: option.splits prod.splits sum.splits)

lemma locked_start_contract:
  assumes "lifecycle_op body"
  shows "keeps_contract (locked_start E rid ow body t)"
proof (rule keeps_contract_same_requests [OF keeps_contractI [OF assms, of E rid]])
  show "requests (snd (locked_start E rid ow body t s)) = requests (snd (locked_update E rid body s))" for s
    by (auto simp: locked_start_def locked_update_def record_gateway_timeline_def
        split: prod.splits sum.splits outcome.splits option.splits)
       (metis requests_running_index snd_conv)+
qed

text \<open>A claim writes the record like any locked operation.\<close>

definition claim_outcome :: "string \<Rightarrow> int \<Rightarrow> string option \<Rightarrow> clock \<Rightarrow> dict \<Rightarrow> outcome res" where
  "claim_outcome w er sr t d = (case claim_body w er sr t d of Inl e \<Rightarrow> Inl e
     | Inr (Reclaim x) \<Rightarrow> Inr (Keep x) | Inr (Claim u) \<Rightarrow> Inr (Commit u (Inr None)))"

lemma claim_op: "w \<noteq> [] \<Longrightarrow> lifecycle_op (claim_outcome w er sr t)"
  by unfold_locales (auto simp: claim_outcome_def split: sum.splits claim.splits intro: claim_commit)

lemma claim_dispatch_contract: "keeps_contract (claim_dispatch E pr rid w er sr t)"
proof (cases "w = []")
  case True
  then show ?thesis by (simp add: keeps_contract_def claim_dispatch_def)
next
  case False
  show ?thesis
  proof (rule keeps_contract_same_requests [OF keeps_contractI [OF claim_op [OF False, of er sr t], of E rid]])
    show "requests (snd (claim_dispatch E pr rid w er sr t s)) = requests (snd (locked_update E rid (claim_outcome w er sr t) s))" for s
      using False
      by (auto simp: claim_dispatch_def locked_update_def claim_outcome_def record_gateway_timeline_def
          split: prod.splits sum.splits outcome.splits option.splits claim.splits)
         (metis requests_claim_index requests_cleanup(3) snd_conv)+
  qed
qed

lemma takeover_contract: "keeps_contract (takeover_nonterminal_owner E rid eo w nw h t)"
  using keeps_contractI [OF takeover_op [of w eo nw h t], of E rid]
  by (simp add: keeps_contract_def takeover_nonterminal_owner_def)

lemma start_attempt_contract: "keeps_contract (start_attempt E rid wk t)"
  using keeps_contractI [OF sta.lifecycle_op_axioms [of wk t], of E rid]
  by (simp add: keeps_contract_def start_attempt_def)

lemma start_owned_contract: "keeps_contract (start_owned_attempt E rid ow wk er t)"
  using locked_start_contract [OF sto.lifecycle_op_axioms [of ow wk er t], of E rid ow t]
  by (simp add: keeps_contract_def start_owned_attempt_def)

lemma prepare_session_contract: "keeps_contract (prepare_owned_session_attempt E rid ow wk er so mo se ge t)"
  using keeps_contractI [OF prs.lifecycle_op_axioms [of ow wk er so mo se ge t], of E rid]
  by (simp add: keeps_contract_def prepare_owned_session_attempt_def)

lemma start_session_contract: "keeps_contract (start_owned_session_attempt E rid ow wk ep t)"
  using locked_start_contract [OF sts.lifecycle_op_axioms [of ow wk ep t], of E rid ow t]
  by (simp add: keeps_contract_def start_owned_session_attempt_def split: sum.splits)

lemma bind_start_contract: "keeps_contract (bind_and_start_owned_attempt E rid ow wk er so mo se ge t)"
  using keeps_contractI [OF bst.lifecycle_op_axioms [of ow wk er so mo se ge t], of E rid]
  by (simp add: keeps_contract_def bind_and_start_owned_attempt_def)

lemma defer_contract: "keeps_contract (defer_owned_recovery E rid ow wk ep er ph se dl co aq rv t)"
  using keeps_contractI [OF dfr.lifecycle_op_axioms [of E ow wk ep er ph se dl co aq rv t], of E rid]
  by (simp add: keeps_contract_def defer_owned_recovery_def split: sum.splits)

lemma session_update_contract: "keeps_contract (update_owned_running_session E rid ow wk ep sid md w c rs t)"
  using keeps_contractI [OF sup.lifecycle_op_axioms [of rid ow wk ep sid md w c rs t], of E rid]
  by (simp add: keeps_contract_def update_owned_running_session_def split: sum.splits)

end
