(* ===== verification/Request_Activity.thy ===== *)
theory Request_Activity
  imports Request_Ownership
begin

text \<open>
  Liveness of a running attempt: the activity vocabulary of
  \<open>foundation/transports/agent_session.py\<close>, and the operations of \<open>store/_transitions.py\<close> that
  accept activity (\<open>renew_owned_activity\<close>, \<open>record_owned_activity\<close>) and that mark an expired
  activity lease (\<open>mark_watchdog_intervention_if_expired\<close>).
\<close>

section \<open>Meaningful activity\<close>

definition NON_WORK_ACTIVITY_LABELS :: "string list" where
  "NON_WORK_ACTIVITY_LABELS = [''heartbeat'', ''owner-heartbeat'', ''worker-heartbeat'', ''process-heartbeat'',
     ''provider-turn-pending'', ''preflight-inspected'', ''preflight-evaluated'', ''response-observing'',
     ''delivery-timeout-retry'', ''transport-unknown'', ''recovery-observing'']"

definition WORK_ACTIVITY_LABELS :: "string list" where
  "WORK_ACTIVITY_LABELS = [''inspected'', ''fetching'', ''analyzing'', ''evaluated'', ''dom-status'', ''dom-progress'',
     ''dom-tool-result'', ''dom-connector'', ''dom-citation'', ''dom-table'', ''dom-materialization'', ''dom-activity'',
     ''thinking'', ''generating'', ''searching-web'', ''searching-the-web'', ''read-resource'', ''talked-to-app'',
     ''called-tool'', ''tool-call'', ''tool-requested'', ''tool-result'', ''tool-finished'', ''response-progress'',
     ''response-started'', ''assistant-message'', ''thought'', ''in-progress'', ''tool-progress'', ''provider-progress'',
     ''acp-progress'', ''mcp-a2a-progress'']"

text \<open>\<open>value.strip().lower().replace("_", "-").replace(" ", "-")\<close>.\<close>

definition normalized :: "string \<Rightarrow> string" where
  "normalized v = replace_char (CHR '' '') (CHR ''-'') (replace_char (CHR ''_'') (CHR ''-'') (lower (strip v)))"

definition is_meaningful_activity_label :: "json \<Rightarrow> bool" where
  "is_meaningful_activity_label v = (case v of JStr s \<Rightarrow>
       strip s \<noteq> [] \<and> normalized s \<notin> set NON_WORK_ACTIVITY_LABELS \<and> normalized s \<in> set WORK_ACTIVITY_LABELS
     | _ \<Rightarrow> False)"

definition is_meaningful_activity :: "json \<Rightarrow> json \<Rightarrow> bool" where
  "is_meaningful_activity source phase = (case phase of
       JStr p \<Rightarrow> if strip p \<noteq> [] then is_meaningful_activity_label phase else is_meaningful_activity_label source
     | _ \<Rightarrow> is_meaningful_activity_label source)"

section \<open>Accepting activity\<close>

definition ACTIVITY_KINDS :: "string list" where
  "ACTIVITY_KINDS = [''provider'', ''owner-heartbeat'', ''client-liveness'']"

definition activity_bucket :: "string \<Rightarrow> string" where
  "activity_bucket kind = (if kind = ''provider'' then ''provider'' else ''owner'')"

text \<open>The bucket after one accepted observation.\<close>

definition bucket_renewed ::
    "('a genv_scheme) \<Rightarrow> string \<Rightarrow> json \<Rightarrow> int option \<Rightarrow> rat \<Rightarrow> string \<Rightarrow> dict \<Rightarrow> dict res" where
  "bucket_renewed E source instance_id seq lease now bucket =
     rbind (case seq of Some n \<Rightarrow> Inr n
            | None \<Rightarrow> rbind (int_or_0 (dget bucket ''source-sequence'')) (\<lambda>n. Inr (n + 1))) (\<lambda>n.
     Inr (dupd bucket [(''last-at'', JStr now), (''lease-expires-at'', JStr (add_seconds E now lease)),
            (''source'', JStr source), (''source-instance'', instance_id), (''source-sequence'', JInt n)]))"

definition activity_duplicate :: "json \<Rightarrow> int option \<Rightarrow> dict \<Rightarrow> bool res" where
  "activity_duplicate instance_id seq bucket = (case seq of None \<Rightarrow> Inr False
     | Some n \<Rightarrow> if jeq (dget bucket ''source-instance'') instance_id
                then rbind (int_or_0 (dget bucket ''source-sequence'')) (\<lambda>m. Inr (n \<le> m))
                else Inr False)"

definition aggregate_sequence :: "int option \<Rightarrow> dict \<Rightarrow> dict \<Rightarrow> int res" where
  "aggregate_sequence agg activity rec = (case agg of Some n \<Rightarrow> Inr n
     | None \<Rightarrow> rbind (int_or_0 (por (dget activity ''sequence'') (dget rec ''activity-sequence''))) (\<lambda>n. Inr (n + 1)))"

definition commit_owner_heartbeat :: "string \<Rightarrow> string \<Rightarrow> dict \<Rightarrow> dict \<Rightarrow> dict \<Rightarrow> outcome res" where
  "commit_owner_heartbeat source now activity bucket rec =
     rbind (bump rec ''revision'') (\<lambda>rv.
     Inr (Commit (dupd rec [(''activity'', JObj (dset ''owner'' (JObj bucket) activity)),
            (''updated-at'', JStr now), (''revision'', rv)])
       (emit ''activity.owner-heartbeat'' (JStr ''running'')
          [(''activity-source'', JStr source), (''activity-kind'', JStr ''owner-heartbeat'')])))"

definition commit_client_liveness ::
    "string \<Rightarrow> json \<Rightarrow> int \<Rightarrow> string \<Rightarrow> dict \<Rightarrow> dict \<Rightarrow> dict \<Rightarrow> outcome res" where
  "commit_client_liveness source phase agg now activity bucket rec =
     rbind (bump rec ''revision'') (\<lambda>rv.
     let act = dupd (dset ''owner'' (JObj bucket) activity)
                 [(''sequence'', JInt agg), (''last-at'', JStr now), (''last-source'', JStr source)]
     in Inr (Commit (dupd rec [(''last-activity-at'', JStr now), (''activity-sequence'', JInt agg),
            (''activity-source'', JStr source), (''activity'', JObj act), (''updated-at'', JStr now), (''revision'', rv)])
       (emit ''activity.client-liveness'' (JStr ''running'')
          [(''activity-sequence'', JInt agg), (''activity-source'', JStr source),
           (''activity-kind'', JStr ''client-liveness''),
           (''activity-label'', por (opt_json (normalize_activity_label phase)) phase)])))"

definition provider_bucket :: "json \<Rightarrow> json \<Rightarrow> string \<Rightarrow> dict \<Rightarrow> dict" where
  "provider_bucket phase capability now bucket =
     (let label = opt_json (normalize_activity_label phase);
          b = dupd bucket [(''first-at'', por (dget bucket ''first-at'') (JStr now)), (''phase'', por label phase),
                (''activity-label'', label), (''activity-group'', opt_json (activity_group label))]
      in if capability \<in> {JStr ''unsupported'', JStr ''supported'', JStr ''unknown''}
         then dset ''capability'' capability b else b)"

text \<open>The diagnostic rollup after accepted provider work: an observation is counted and a stale
  progress finding is resolved.\<close>

definition activity_diagnostics :: "dict \<Rightarrow> dict res" where
  "activity_diagnostics d =
     rbind (int_or_0 (dget d ''coalesced-observation-count'')) (\<lambda>c.
     rbind (int_or_0 (dget d ''evidence-count'')) (\<lambda>n.
     let d1 = dupd d [(''coalesced-observation-count'', JInt (c + 1)), (''evidence-count'', JInt (n + 1))]
     in Inr (if dget d1 ''classification'' = JStr ''stale-progress''
             then dupd d1 [(''resolution-state'', JStr ''resolved''), (''reason-code'', JStr ''activity-resumed''),
                    (''recovery'', recovery_obj ''none'' [])]
             else d1)))"

definition commit_provider_activity ::
    "('a genv_scheme) \<Rightarrow> string \<Rightarrow> int \<Rightarrow> string \<Rightarrow> int option \<Rightarrow> json \<Rightarrow> json \<Rightarrow> rat \<Rightarrow> int \<Rightarrow> string \<Rightarrow> dict \<Rightarrow> dict \<Rightarrow> dict
      \<Rightarrow> outcome res" where
  "commit_provider_activity E rid epoch source seq phase capability lease agg now activity bucket rec =
     (let b = provider_bucket phase capability now bucket;
          label = normalize_activity_label phase;
          act = dupd activity [(''sequence'', JInt agg), (''last-at'', JStr now), (''last-source'', JStr source),
                  (''provider'', JObj b)] in
     rbind (append_evidence rec (evidence_from_activity (JStr rid) (dget rec ''session-id'') epoch phase (JStr source)
              (case seq of None \<Rightarrow> JNull | Some n \<Rightarrow> JInt n) agg (JStr ''may-have-started''))) (\<lambda>ev.
     let u1 = dset ''diagnostic-evidence'' ev rec in
     rbind (case dget rec ''diagnostics'' of
              JObj d \<Rightarrow> rbind (activity_diagnostics d) (\<lambda>m. Inr (dset ''diagnostics'' (JObj m) u1))
            | _ \<Rightarrow> Inr u1) (\<lambda>u2.
     rbind (bump rec ''revision'') (\<lambda>rv.
     Inr (Commit (dupd u2
         [(''last-activity-at'', JStr now), (''activity-sequence'', JInt agg), (''activity-source'', JStr source),
          (''activity-lease-expires-at'', JStr (add_seconds E now lease)), (''activity'', JObj act),
          (''watchdog-state'', JStr ''active''), (''watchdog-reason'', JStr ''verified-activity-renewed''),
          (''updated-at'', JStr now), (''revision'', rv)])
       (emit ''activity.renewed'' (JStr ''running'')
          ([(''activity-sequence'', JInt agg), (''activity-source'', JStr source), (''activity-kind'', JStr ''provider'')]
           @ (if truthy (opt_json label)
              then [(''activity-label'', opt_json label), (''activity-group'', opt_json (activity_group (opt_json label)))]
              else []))))))))"

definition activity_body ::
    "('a genv_scheme) \<Rightarrow> string \<Rightarrow> string \<Rightarrow> string \<Rightarrow> int \<Rightarrow> string \<Rightarrow> string \<Rightarrow> json \<Rightarrow> int option \<Rightarrow> json \<Rightarrow> json \<Rightarrow> rat
      \<Rightarrow> int option \<Rightarrow> clock \<Rightarrow> dict \<Rightarrow> outcome res" where
  "activity_body E rid owner worker epoch kind source instance_id seq phase capability lease agg t rec =
     rbind (check_expected_identity rec None (Some owner) (Some worker) (Some epoch)) (\<lambda>_.
     rbind (ditem rec ''state'') (\<lambda>st.
     rbind (guard_r (st = JStr ''running'') (ag_error ''CON-AGW-088'' ''gateway request is not running'' [])) (\<lambda>_.
     let activity = (case dget rec ''activity'' of JObj a \<Rightarrow> a | _ \<Rightarrow> default_activity) in
     rbind (py_dict (dget activity (activity_bucket kind))) (\<lambda>bucket.
     rbind (activity_duplicate instance_id seq bucket) (\<lambda>dup.
     if dup then Inr (Keep rec) else
     rbind (aggregate_sequence agg activity rec) (\<lambda>n.
     rbind (bucket_renewed E source instance_id seq lease (t 0) bucket) (\<lambda>b.
     if kind = ''owner-heartbeat'' then commit_owner_heartbeat source (t 0) activity b rec
     else if kind = ''client-liveness'' then commit_client_liveness source phase n (t 0) activity b rec
     else commit_provider_activity E rid epoch source seq phase capability lease n (t 0) activity b rec)))))))"

definition record_owned_activity ::
    "('a genv_scheme) \<Rightarrow> string \<Rightarrow> string \<Rightarrow> string \<Rightarrow> int \<Rightarrow> string \<Rightarrow> string \<Rightarrow> json \<Rightarrow> int option \<Rightarrow> json \<Rightarrow> json \<Rightarrow> rat
      \<Rightarrow> int option \<Rightarrow> clock \<Rightarrow> gw \<Rightarrow> dict res \<times> gw" where
  "record_owned_activity E rid owner worker epoch kind source instance_id seq phase capability lease agg t s =
     (case require_owned_identity (Some owner) (Some worker) epoch of
        Inl e \<Rightarrow> (Inl e, s)
      | Inr _ \<Rightarrow>
         if kind \<notin> set ACTIVITY_KINDS then
           (Inl (ag_error ''VAL-AGW-088'' ''unknown activity kind'' [(''kind'', JStr kind)]), s)
         else if source = [] then (Inl (ag_error ''VAL-AGW-088'' ''activity source is required'' []), s)
         else if (case seq of None \<Rightarrow> False | Some n \<Rightarrow> n < 0) then
           (Inl (ag_error ''VAL-AGW-088'' ''source activity sequence is invalid'' []), s)
         else if lease \<le> 0 then (Inl (ag_error ''VAL-AGW-088'' ''activity lease seconds must be positive'' []), s)
         else locked_update E rid
                (activity_body E rid owner worker epoch kind source instance_id seq phase capability lease agg t) s)"

definition renewal_kind :: "string \<Rightarrow> string" where
  "renewal_kind source =
     (if normalized source \<in> {''soft-liveness'', ''delivery-timeout-retry''} then ''client-liveness''
      else if is_meaningful_activity (JStr source) (JStr source) then ''provider''
      else ''owner-heartbeat'')"

definition renew_owned_activity ::
    "('a genv_scheme) \<Rightarrow> string \<Rightarrow> string \<Rightarrow> string \<Rightarrow> int \<Rightarrow> int \<Rightarrow> string \<Rightarrow> rat \<Rightarrow> clock \<Rightarrow> gw \<Rightarrow> dict res \<times> gw" where
  "renew_owned_activity E rid owner worker epoch seq source lease t s =
     (case require_owned_identity (Some owner) (Some worker) epoch of
        Inl e \<Rightarrow> (Inl e, s)
      | Inr _ \<Rightarrow>
         if seq \<le> 0 then (Inl (ag_error ''VAL-AGW-088'' ''activity sequence must be positive'' []), s)
         else if source = [] then (Inl (ag_error ''VAL-AGW-088'' ''activity source is required'' []), s)
         else if lease \<le> 0 then (Inl (ag_error ''VAL-AGW-088'' ''activity lease seconds must be positive'' []), s)
         else record_owned_activity E rid owner worker epoch (renewal_kind source) source (JStr worker) (Some seq)
                JNull JNull lease (Some seq) t s)"

section \<open>Expired leases\<close>

text \<open>\<open>parse_utc\<close> is \<open>datetime.fromisoformat\<close> on the text with \<open>Z\<close> replaced, in UTC seconds,
  \<open>None\<close> where it raises; \<open>parse_float\<close> is \<open>float\<close> on text.  \<open>wall\<close> is the wall clock.\<close>

fun to_float :: "('a genv_scheme) \<Rightarrow> json \<Rightarrow> rat option" where
  "to_float E (JStr s) = parse_float E s"
| "to_float E v = num_of v"

definition initial_grace :: "('a genv_scheme) \<Rightarrow> json \<Rightarrow> rat" where
  "initial_grace E policy = (case policy of
     JObj p \<Rightarrow> (case to_float E (dget_or p ''initial-activity-grace-seconds'' (JFloat 30)) of
        Some c \<Rightarrow> if 0 < c then c else 30 | None \<Rightarrow> 30)
   | _ \<Rightarrow> 30)"

definition provider_real :: "dict \<Rightarrow> bool" where
  "provider_real provider \<longleftrightarrow>
     (dget provider ''phase'' = JNull \<and> \<not> truthy (dget provider ''source'')) \<or>
     is_meaningful_activity (dget provider ''source'') (dget provider ''phase'')"

definition first_activity :: "dict \<Rightarrow> json" where
  "first_activity provider = (if provider_real provider
     then por (dget provider ''first-at'') (dget provider ''last-at'') else JNull)"

definition initial_expired :: "('a genv_scheme) \<Rightarrow> rat \<Rightarrow> dict \<Rightarrow> dict \<Rightarrow> bool" where
  "initial_expired E wall rec provider \<longleftrightarrow> \<not> truthy (first_activity provider) \<and>
     (case vocab_str (dget rec ''started-at'') of None \<Rightarrow> False
      | Some txt \<Rightarrow> (case parse_utc E txt of None \<Rightarrow> False
           | Some started \<Rightarrow> started + initial_grace E (dget rec ''watchdog-policy'') \<le> wall))"

definition lease_expiry :: "dict \<Rightarrow> dict \<Rightarrow> json" where
  "lease_expiry rec provider =
     (if provider_real provider \<and> dget provider ''capability'' = JStr ''supported'' \<and> truthy (dget provider ''last-at'')
      then dget provider ''lease-expires-at''
      else if dget rec ''provider-transport-kind'' = JStr ''provider-session'' then JNull
      else dget rec ''activity-lease-expires-at'')"

definition lease_expired :: "('a genv_scheme) \<Rightarrow> rat \<Rightarrow> json \<Rightarrow> bool" where
  "lease_expired E wall expiry = (case expiry of
     JStr x \<Rightarrow> strip x = [] \<or> (case parse_utc E x of None \<Rightarrow> True | Some ends \<Rightarrow> ends \<le> wall)
   | _ \<Rightarrow> True)"

definition watchdog_due :: "('a genv_scheme) \<Rightarrow> rat \<Rightarrow> dict \<Rightarrow> dict \<Rightarrow> bool" where
  "watchdog_due E wall rec provider \<longleftrightarrow>
     (let init = initial_expired E wall rec provider in
      \<not> (dget rec ''provider-transport-kind'' = JStr ''provider-session'' \<and> \<not> truthy (first_activity provider) \<and> \<not> init) \<and>
      \<not> (dget provider ''capability'' = JStr ''unsupported'' \<and> \<not> init) \<and>
      (init \<or> lease_expired E wall (lease_expiry rec provider)) \<and>
      dget rec ''watchdog-state'' \<noteq> JStr ''intervention'')"

definition watchdog_diagnostics :: "bool \<Rightarrow> json \<Rightarrow> dict res" where
  "watchdog_diagnostics init prior =
     (let d = stale_progress_diagnostic (JStr ''reconciliation'') (JStr ''may-have-started'')
                (JStr (if init then ''initial-activity-observation-expired'' else ''activity-lease-expired'')) in
      case prior of
        JObj p \<Rightarrow> rbind (int_or_0 (dget p ''evidence-count'')) (\<lambda>n.
                  rbind (int_or_0 (dget p ''coalesced-observation-count'')) (\<lambda>c.
                  Inr (dupd d [(''evidence-count'', JInt (n + 1)), (''coalesced-observation-count'', JInt c)])))
      | _ \<Rightarrow> Inr d)"

definition watchdog_body ::
    "('a genv_scheme) \<Rightarrow> string \<Rightarrow> string \<Rightarrow> string \<Rightarrow> int \<Rightarrow> rat \<Rightarrow> clock \<Rightarrow> dict \<Rightarrow> outcome res" where
  "watchdog_body E rid owner worker epoch wall t rec =
     rbind (check_expected_identity rec None (Some owner) (Some worker) (Some epoch)) (\<lambda>_.
     rbind (ditem rec ''state'') (\<lambda>st.
     let provider = obj_of (dget (obj_of (dget rec ''activity'')) ''provider'');
         init = initial_expired E wall rec provider in
     if st \<noteq> JStr ''running'' \<or> \<not> watchdog_due E wall rec provider then Inr (Keep rec) else
     rbind (watchdog_diagnostics init (dget rec ''diagnostics'')) (\<lambda>d.
     rbind (int_or_0 (dget rec ''activity-sequence'')) (\<lambda>sq.
     rbind (append_evidence rec
       [(''evidence-id'', JStr (''ev_watchdog_'' @ show_int epoch)), (''sequence'', JInt sq), (''request-id'', JStr rid),
        (''session-id'', dget rec ''session-id''), (''attempt-epoch'', JInt epoch), (''phase'', JStr ''reconciliation''),
        (''kind'', JStr (if init then ''initial-activity-timeout'' else ''activity-lease-expired'')),
        (''certainty'', JStr ''weak''), (''side-effect-state'', JStr ''may-have-started''),
        (''source'', JStr ''gateway-watchdog''), (''source-sequence'', JNull)]) (\<lambda>ev.
     rbind (bump rec ''revision'') (\<lambda>rv.
     Inr (Commit (dupd rec [(''diagnostics'', JObj d), (''diagnostic-evidence'', ev),
            (''watchdog-state'', JStr ''intervention''),
            (''watchdog-reason'', JStr (if init then ''initial-activity-observation-expired''
                                        else ''activity-lease-expired-diagnostic'')),
            (''updated-at'', JStr (t 0)), (''revision'', rv)])
       (emit ''activity.lease-expired-diagnostic'' (JStr ''running'')
          [(''attempt-epoch'', JInt epoch),
           (''reason-code'', JStr (if init then ''initial-activity-observation-expired'' else ''activity-lease-expired''))]))))))))"

definition mark_watchdog_intervention_if_expired ::
    "('a genv_scheme) \<Rightarrow> string \<Rightarrow> string \<Rightarrow> string \<Rightarrow> int \<Rightarrow> rat \<Rightarrow> clock \<Rightarrow> gw \<Rightarrow> dict res \<times> gw" where
  "mark_watchdog_intervention_if_expired E rid owner worker epoch wall t s =
     (case require_owned_identity (Some owner) (Some worker) epoch of
        Inl e \<Rightarrow> (Inl e, s)
      | Inr _ \<Rightarrow> locked_update E rid (watchdog_body E rid owner worker epoch wall t) s)"

section \<open>Refinement\<close>

lemma commit_owner_heartbeat_step:
  "wf_rec d \<Longrightarrow> commit_owner_heartbeat so now a b d = Inr (Commit d' e) \<Longrightarrow> rec_step d d'"
  unfolding commit_owner_heartbeat_def rbind_eq_Inr
  by (clarsimp, rule annotate_step; simp add: annotate_simps)

lemma commit_client_liveness_step:
  "wf_rec d \<Longrightarrow> commit_client_liveness so ph n now a b d = Inr (Commit d' e) \<Longrightarrow> rec_step d d'"
  unfolding commit_client_liveness_def rbind_eq_Inr Let_def
  by (clarsimp, rule annotate_step; simp add: annotate_simps)

lemma commit_provider_activity_step:
  assumes "wf_rec d" "commit_provider_activity E rid ep so sq ph ca le n now a b d = Inr (Commit d' e)"
  shows "rec_step d d'"
proof -
  from assms(2) obtain ev u2 v where u2: "(case dget d ''diagnostics'' of
              JObj x \<Rightarrow> rbind (activity_diagnostics x) (\<lambda>m. Inr (dset ''diagnostics'' (JObj m) (dset ''diagnostic-evidence'' ev d)))
            | _ \<Rightarrow> Inr (dset ''diagnostic-evidence'' ev d)) = Inr u2"
    and v: "bump d ''revision'' = Inr v"
    and d': "d' = dupd u2 [(''last-activity-at'', JStr now), (''activity-sequence'', JInt n), (''activity-source'', JStr so),
          (''activity-lease-expires-at'', JStr (add_seconds E now le)),
          (''activity'', JObj (dupd a [(''sequence'', JInt n), (''last-at'', JStr now), (''last-source'', JStr so),
                  (''provider'', JObj (provider_bucket ph ca now b))])),
          (''watchdog-state'', JStr ''active''), (''watchdog-reason'', JStr ''verified-activity-renewed''),
          (''updated-at'', JStr now), (''revision'', v)]"
    unfolding commit_provider_activity_def rbind_eq_Inr Let_def by (elim exE conjE) (simp add: that)
  have k: "dget u2 k = dget d k" if "k \<notin> {''diagnostics'', ''diagnostic-evidence''}" for k
    using u2 that by (auto simp: rbind_eq_Inr split: json.splits)
  show ?thesis
    by (rule annotate_step [OF assms(1) v]; simp add: d' k annotate_simps)
qed

lemma activity_commit:
  assumes "wf_rec d" "activity_body E rid ow wk ep ki so si sq ph ca le ag t d = Inr (Commit d' e)"
  shows "rec_step d d'"
proof -
  from assms(2) obtain a b n where
    "commit_owner_heartbeat so (t 0) a b d = Inr (Commit d' e) \<or>
     commit_client_liveness so ph n (t 0) a b d = Inr (Commit d' e) \<or>
     commit_provider_activity E rid ep so sq ph ca le n (t 0) a b d = Inr (Commit d' e)"
    unfolding activity_body_def rbind_eq_Inr Let_def
    by (elim exE conjE) (auto simp: rbind_eq_Inr split: if_split_asm)
  then show ?thesis
    by (elim disjE)
       (erule commit_owner_heartbeat_step [OF assms(1)] commit_client_liveness_step [OF assms(1)]
          commit_provider_activity_step [OF assms(1)])+
qed

lemma watchdog_commit:
  assumes "wf_rec d" "watchdog_body E rid ow wk ep wall t d = Inr (Commit d' e)"
  shows "rec_step d d'"
proof -
  from assms(2) obtain x ev wr v where v: "bump d ''revision'' = Inr v"
    and d': "d' = dupd d [(''diagnostics'', JObj x), (''diagnostic-evidence'', ev),
            (''watchdog-state'', JStr ''intervention''), (''watchdog-reason'', JStr wr),
            (''updated-at'', JStr (t 0)), (''revision'', v)]"
    unfolding watchdog_body_def rbind_eq_Inr Let_def
    by (elim exE conjE) (auto simp: rbind_eq_Inr split: if_split_asm)
  show ?thesis by (rule annotate_step [OF assms(1) v]; simp add: d' annotate_simps)
qed

interpretation act: lifecycle_op "activity_body E rid ow wk ep ki so si sq ph ca le ag t"
    for E rid ow wk ep ki so si sq ph ca le ag t
  by unfold_locales (rule activity_commit)

interpretation wd: lifecycle_op "watchdog_body E rid ow wk ep wall t" for E rid ow wk ep wall t
  by unfold_locales (rule watchdog_commit)

lemma activity_contract: "keeps_contract (record_owned_activity E rid ow wk ep ki so si sq ph ca le ag t)"
  using keeps_contractI [OF act.lifecycle_op_axioms [of E rid ow wk ep ki so si sq ph ca le ag t], of E rid]
  by (simp add: keeps_contract_def record_owned_activity_def split: sum.splits)

lemma renew_contract: "keeps_contract (renew_owned_activity E rid ow wk ep sq so le t)"
  using activity_contract [of E rid ow wk ep "renewal_kind so" so "JStr wk" "Some sq" JNull JNull le "Some sq" t]
  by (simp add: keeps_contract_def renew_owned_activity_def split: sum.splits)

lemma watchdog_contract: "keeps_contract (mark_watchdog_intervention_if_expired E rid ow wk ep wall t)"
  using keeps_contractI [OF wd.lifecycle_op_axioms [of E rid ow wk ep wall t], of E rid]
  by (simp add: keeps_contract_def mark_watchdog_intervention_if_expired_def split: sum.splits)

end
