(* ===== verification/Node_Dispatch.thy ===== *)
theory Node_Dispatch
  imports Request_Transitions
begin

text \<open>
  Node dispatch fences of \<open>gateway/store/_transitions.py\<close>: binding one attested command identity to an
  owned attempt, recording its effect authorization, fencing a binding that had no effect, and
  checkpointing the receipts of the node.  They write the \<open>node-dispatch\<close> field only (binding a
  recovered attempt also clears the recovery flag) and record no timeline event.
\<close>

section \<open>Guards\<close>

text \<open>\<open>_node_identity\<close>: a typed identity, or a mapping that is parsed first.\<close>

definition node_identity :: "CommandIdentity + json \<Rightarrow> dict res" where
  "node_identity v = (case v of Inl c \<Rightarrow> Inr (identity_to_mapping c)
     | Inr m \<Rightarrow> rbind (identity_from_mapping m) (\<lambda>c. Inr (identity_to_mapping c)))"

text \<open>Subscription of a value that may be no dictionary.\<close>

fun jitem :: "json \<Rightarrow> string \<Rightarrow> json res" where
  "jitem (JObj d) k = ditem d k"
| "jitem _ k = Inl TypeError"

definition node_fences :: "string \<Rightarrow> string \<Rightarrow> int \<Rightarrow> int \<Rightarrow> unit res" where
  "node_fences owner worker epoch er =
     guard_r (owner \<noteq> [] \<and> worker \<noteq> [] \<and> 1 \<le> epoch \<and> 0 \<le> er)
       (conflict ''Node mutation requires complete owned attempt fences'')"

text \<open>\<open>_node_owned_record\<close>: the fences are checked before the record is read, its identity after.\<close>

definition node_update ::
    "('a genv_scheme) \<Rightarrow> string \<Rightarrow> string \<Rightarrow> string \<Rightarrow> int \<Rightarrow> int \<Rightarrow> (dict \<Rightarrow> outcome res) \<Rightarrow> gw \<Rightarrow> dict res \<times> gw" where
  "node_update E rid owner worker epoch er body s = (case node_fences owner worker epoch er of
     Inl e \<Rightarrow> (Inl e, s)
   | Inr _ \<Rightarrow> locked_update E rid (\<lambda>rec.
        rbind (check_expected_identity rec (Some er) (Some owner) (Some worker) (Some epoch)) (\<lambda>_. body rec)) s)"

definition node_matches_record :: "dict \<Rightarrow> dict \<Rightarrow> unit res" where
  "node_matches_record rec command =
     rbind (ditem rec ''request-id'') (\<lambda>r.
     rbind (if jeq (dget command ''request-id'') r
            then rbind (ditem rec ''execution-profile-id'') (\<lambda>p. Inr (jeq (dget command ''execution-profile-id'') p))
            else Inr False) (\<lambda>ok.
     rbind (guard_r ok (conflict ''Node command does not match the admitted request'')) (\<lambda>_.
     case dget rec ''node-placement'' of
       JObj pl \<Rightarrow>
         rbind (ditem pl ''node-id'') (\<lambda>n.
         if \<not> jeq (dget command ''node-id'') n then
           Inl (conflict ''Node command does not match immutable admission placement'') else
         rbind (ditem pl ''workspace-id'') (\<lambda>w.
         if \<not> jeq (dget command ''workspace-id'') w then
           Inl (conflict ''Node command does not match immutable admission placement'') else
         rbind (ditem pl ''grant-revision'') (\<lambda>g.
         guard_r (jeq (dget command ''grant-revision'') g)
           (conflict ''Node command does not match immutable admission placement''))))
     | _ \<Rightarrow> Inl (conflict ''Node command requires sealed admission placement''))))"

definition node_attestation_matches :: "dict \<Rightarrow> PreparationAttestation \<Rightarrow> unit res" where
  "node_attestation_matches rec att =
     rbind (ditem rec ''worker-id'') (\<lambda>w.
     rbind (if w = JStr (att_worker_id att)
            then rbind (ditem rec ''attempt-epoch'') (\<lambda>ep. Inr (jeq ep (JInt (att_attempt_epoch att))))
            else Inr False) (\<lambda>ok.
     guard_r ok (conflict ''Accepted node attestation does not match the owned worker attempt'')))"

definition node_fresh_effect :: "dict \<Rightarrow> dict \<Rightarrow> string \<Rightarrow> unit res" where
  "node_fresh_effect rec command owner =
     rbind (node_matches_record rec command) (\<lambda>_.
     rbind (ditem rec ''state'') (\<lambda>st.
     guard_r (st = JStr ''running'' \<and> \<not> truthy (dget rec ''cancel-requested'') \<and>
              \<not> truthy (dget rec ''recovery-required'') \<and> dget command ''gateway-owner-epoch'' = JStr owner)
       (conflict ''Node command is not eligible for fresh effect authorization'')))"

definition write_node_dispatch :: "bool \<Rightarrow> clock \<Rightarrow> dict \<Rightarrow> dict \<Rightarrow> outcome res" where
  "write_node_dispatch clear_recovery t dispatch rec =
     rbind (bump rec ''revision'') (\<lambda>rv.
     let u = dupd rec [(''node-dispatch'', JObj dispatch), (''revision'', rv), (''updated-at'', JStr (t 0))] in
     Inr (Commit (if clear_recovery
                  then dupd u [(''recovery-required'', JBool False), (''watchdog-state'', JStr ''active''),
                         (''watchdog-reason'', JStr ''node-recovery-bound'')]
                  else u) (Inr None)))"

section \<open>Binding\<close>

definition fresh_dispatch :: "dict \<Rightarrow> string \<Rightarrow> dict" where
  "fresh_dispatch command digest =
     [(''identity'', JObj command), (''attestation-sha256'', JStr digest), (''authorization-id'', JNull),
      (''authorization-state'', JStr ''not-authorized''), (''receipt-sequence'', JInt 0), (''receipt-sha256'', JNull),
      (''receipt-stage'', JNull), (''output-sha256'', JNull)]"

definition bind_body ::
    "dict \<Rightarrow> PreparationAttestation \<Rightarrow> string \<Rightarrow> string \<Rightarrow> bool \<Rightarrow> clock \<Rightarrow> dict \<Rightarrow> outcome res" where
  "bind_body command accepted digest owner resume_unbound t rec =
     rbind (node_attestation_matches rec accepted) (\<lambda>_.
     let prior = dget rec ''node-dispatch'' in
     rbind (if resume_unbound then
              rbind (node_matches_record rec command) (\<lambda>_.
              rbind (if prior = JNull then ditem rec ''state'' else Inr JNull) (\<lambda>st.
              guard_r (prior = JNull \<and> st = JStr ''running'' \<and> dget rec ''recovery-required'' = JBool True \<and>
                       \<not> truthy (dget rec ''cancel-requested'') \<and> dget command ''gateway-owner-epoch'' = JStr owner)
                (conflict ''Recovered node binding requires an owned unsent attempt'')))
            else node_fresh_effect rec command owner) (\<lambda>_.
     if prior \<noteq> JNull then
       rbind (jitem prior ''identity'') (\<lambda>i.
       if \<not> jeq i (JObj command) \<or> dget (obj_of prior) ''attestation-sha256'' \<noteq> JStr digest then
         Inl (conflict ''Node dispatch identity collision'')
       else Inr (Keep rec))
     else write_node_dispatch resume_unbound t (fresh_dispatch command digest) rec))"

definition bind_owned_node_dispatch ::
    "('a genv_scheme) \<Rightarrow> string \<Rightarrow> CommandIdentity + json \<Rightarrow> json \<Rightarrow> PreparationAttestation \<Rightarrow> string \<Rightarrow> string \<Rightarrow> int \<Rightarrow> int
      \<Rightarrow> bool \<Rightarrow> clock \<Rightarrow> gw \<Rightarrow> dict res \<times> gw" where
  "bind_owned_node_dispatch E rid identity payload accepted owner worker epoch er resume_unbound t s =
     (case rbind (node_identity identity) (\<lambda>command.
           rbind (identity_from_mapping (JObj command)) (\<lambda>c.
           rbind (validate_final_command_payload (crypto.truncate E) payload c accepted) (\<lambda>att.
           rbind (attestation_digest (crypto.truncate E) att) (\<lambda>digest. Inr (command, digest))))) of
        Inl e \<Rightarrow> (Inl e, s)
      | Inr (command, digest) \<Rightarrow>
          node_update E rid owner worker epoch er (bind_body command accepted digest owner resume_unbound t) s)"

section \<open>Authorization\<close>

definition authorize_body ::
    "dict \<Rightarrow> string \<Rightarrow> PreparationAttestation \<Rightarrow> string \<Rightarrow> string \<Rightarrow> clock \<Rightarrow> dict \<Rightarrow> outcome res" where
  "authorize_body command auth_id accepted digest owner t rec =
     rbind (node_attestation_matches rec accepted) (\<lambda>_.
     rbind (node_fresh_effect rec command owner) (\<lambda>_.
     let prior = dget rec ''node-dispatch''; p = obj_of prior in
     rbind (if prior = JNull then Inr JNull else jitem prior ''identity'') (\<lambda>i.
     rbind (guard_r (prior \<noteq> JNull \<and> jeq i (JObj command)) (conflict ''Node authorization identity collision'')) (\<lambda>_.
     rbind (guard_r (dget p ''attestation-sha256'' = JStr digest)
              (conflict ''Node authorization does not match the bound accepted attestation'')) (\<lambda>_.
     rbind (ditem p ''authorization-state'') (\<lambda>ast.
     rbind (if ast = JStr ''authorized'' \<or> ast = JStr ''not-authorized'' then ditem p ''authorization-id'' else Inr JNull) (\<lambda>aid.
     if ast = JStr ''authorized'' then
       (if aid \<noteq> JStr auth_id then Inl (conflict ''Node authorization identity changed'') else Inr (Keep rec))
     else if ast \<noteq> JStr ''not-authorized'' \<or> aid \<noteq> JNull then
       Inl (conflict ''Prior node effect requires evidence reconciliation'')
     else write_node_dispatch False t
       (dupd p [(''authorization-id'', JStr auth_id), (''authorization-state'', JStr ''authorized'')]) rec)))))))"

definition authorize_owned_node_effect ::
    "('a genv_scheme) \<Rightarrow> string \<Rightarrow> CommandIdentity + json \<Rightarrow> json \<Rightarrow> PreparationAttestation \<Rightarrow> string \<Rightarrow> int \<Rightarrow> string \<Rightarrow> string
      \<Rightarrow> int \<Rightarrow> int \<Rightarrow> clock \<Rightarrow> gw \<Rightarrow> dict res \<times> gw" where
  "authorize_owned_node_effect E rid identity auth_id accepted node_epoch generation owner worker epoch er t s =
     (case rbind (attestation_digest (crypto.truncate E) accepted) (\<lambda>digest.
           rbind (node_identity identity) (\<lambda>command.
           rbind (node_identifier auth_id) (\<lambda>a.
           rbind (guard_r (jeq (dget command ''connection-generation'') (JInt generation) \<and>
                           dget command ''node-epoch'' = JStr node_epoch)
                    (conflict ''Cannot authorize a stale node connection'')) (\<lambda>_.
           Inr (command, a, digest))))) of
        Inl e \<Rightarrow> (Inl e, s)
      | Inr (command, a, digest) \<Rightarrow>
          node_update E rid owner worker epoch er (authorize_body command a accepted digest owner t) s)"

section \<open>No-effect fence\<close>

definition fence_body :: "dict \<Rightarrow> string \<Rightarrow> clock \<Rightarrow> dict \<Rightarrow> outcome res" where
  "fence_body command owner t rec =
     rbind (guard_r (dget command ''gateway-owner-epoch'' = JStr owner)
              (conflict ''No-effect fence requires a proven strictly newer connection generation'')) (\<lambda>_.
     rbind (node_matches_record rec command) (\<lambda>_.
     let prior = dget rec ''node-dispatch''; p = obj_of prior;
         bad = Inl (conflict ''No-effect fence requires an original unauthorized binding'') in
     if prior = JNull then bad else
     rbind (jitem prior ''identity'') (\<lambda>i. if \<not> jeq i (JObj command) then bad else
     rbind (ditem p ''authorization-state'') (\<lambda>ast. if ast \<noteq> JStr ''not-authorized'' then bad else
     rbind (ditem p ''authorization-id'') (\<lambda>aid. if aid \<noteq> JNull then bad else
     write_node_dispatch False t (dupd p [(''authorization-state'', JStr ''no-effect'')]) rec)))))"

definition fence_node_dispatch_no_effect ::
    "('a genv_scheme) \<Rightarrow> string \<Rightarrow> CommandIdentity + json \<Rightarrow> string \<Rightarrow> string \<Rightarrow> int \<Rightarrow> int \<Rightarrow> int \<Rightarrow> clock \<Rightarrow> gw \<Rightarrow> dict res \<times> gw" where
  "fence_node_dispatch_no_effect E rid identity owner worker epoch er retired_generation t s =
     (case rbind (node_identity identity) (\<lambda>command.
           rbind (dint command ''connection-generation'') (\<lambda>g.
           rbind (guard_r (g < retired_generation)
                    (conflict ''No-effect fence requires a proven strictly newer connection generation'')) (\<lambda>_.
           Inr command))) of
        Inl e \<Rightarrow> (Inl e, s)
      | Inr command \<Rightarrow> node_update E rid owner worker epoch er (fence_body command owner t) s)"

section \<open>Receipts\<close>

definition RECEIPT_STAGES :: "string list" where
  "RECEIPT_STAGES = [''prepared'', ''effect-intent'', ''native-accepted'', ''terminal'']"

fun stage_rank :: "string \<Rightarrow> nat option" where
  "stage_rank st = map_of (zip RECEIPT_STAGES [0, 1, 2, 3]) st"

definition receipt_state :: "string \<Rightarrow> json \<Rightarrow> json" where
  "receipt_state stage prior_state =
     (if stage = ''effect-intent'' then JStr ''uncertain''
      else if stage = ''native-accepted'' then JStr ''effect-observed''
      else if stage = ''terminal'' then JStr ''terminal''
      else prior_state)"

definition stage_regressed :: "string \<Rightarrow> json \<Rightarrow> bool res" where
  "stage_regressed stage previous = (case previous of
     JNull \<Rightarrow> Inr False
   | JStr p \<Rightarrow> (case stage_rank p of None \<Rightarrow> Inl (KeyError p)
        | Some r \<Rightarrow> Inr (the (stage_rank stage) < r \<or> p = ''terminal''))
   | _ \<Rightarrow> Inl TypeError)"

definition receipt_body :: "dict \<Rightarrow> int \<Rightarrow> string \<Rightarrow> json \<Rightarrow> string \<Rightarrow> clock \<Rightarrow> dict \<Rightarrow> outcome res" where
  "receipt_body command sq stage output digest t rec =
     rbind (node_matches_record rec command) (\<lambda>_.
     let prior = dget rec ''node-dispatch''; p = obj_of prior in
     rbind (if prior = JNull then Inr JNull else jitem prior ''identity'') (\<lambda>i.
     rbind (guard_r (prior \<noteq> JNull \<and> jeq i (JObj command)) (conflict ''Node receipt identity collision'')) (\<lambda>_.
     rbind (ditem p ''receipt-sequence'') (\<lambda>ps.
     if jeq (JInt sq) ps then
       rbind (ditem p ''receipt-sha256'') (\<lambda>d.
       if d \<noteq> JStr digest then Inl (conflict ''Node receipt replay changed'') else Inr (Keep rec))
     else
     rbind (case num_of ps of None \<Rightarrow> Inl TypeError | Some q \<Rightarrow>
              guard_r (\<not> of_int sq < q) (conflict ''Node receipt sequence regressed'')) (\<lambda>_.
     rbind (ditem p ''receipt-stage'') (\<lambda>pst.
     rbind (stage_regressed stage pst) (\<lambda>bad.
     rbind (guard_r (\<not> bad) (conflict ''Node receipt stage regressed or terminal evidence changed'')) (\<lambda>_.
     rbind (if stage \<noteq> ''prepared'' then ditem p ''authorization-id'' else Inr (JBool True)) (\<lambda>aid.
     rbind (guard_r (aid \<noteq> JNull) (conflict ''Node effect receipt has no durable authorization'')) (\<lambda>_.
     rbind (ditem p ''authorization-state'') (\<lambda>ast.
     write_node_dispatch False t
       (dupd p [(''authorization-state'', receipt_state stage ast), (''receipt-sequence'', JInt sq),
          (''receipt-sha256'', JStr digest), (''receipt-stage'', JStr stage), (''output-sha256'', output)]) rec)))))))))))"

definition receipt_names :: "string list" where
  "receipt_names = [''identity'', ''state'', ''receipt-sequence'', ''output-sha256'']"

text \<open>The public receipt, parsed: command, sequence, stage, output digest and receipt digest.\<close>

definition parse_receipt :: "crypto \<Rightarrow> json \<Rightarrow> (dict \<times> int \<times> string \<times> json \<times> string) res" where
  "parse_receipt C receipt = (case receipt of
     JObj r \<Rightarrow>
       if set (map fst r) \<noteq> set receipt_names then Inl (conflict ''Invalid public node receipt fields'') else
       rbind (node_identity (Inr (dget r ''identity''))) (\<lambda>command.
       case (dget r ''receipt-sequence'', dget r ''state'') of
         (JInt sq, JStr stage) \<Rightarrow>
           let output = dget r ''output-sha256'' in
           rbind (guard_r (1 \<le> sq \<and> sq \<le> 2 ^ 63 - 1 \<and> stage \<in> set RECEIPT_STAGES \<and>
                           (if stage = ''terminal'' then is_sha256_hex output else output = JNull))
                    (conflict ''Invalid node receipt sequence, stage or output digest'')) (\<lambda>_.
           rbind (canonical_json C (JObj [(''identity'', JObj command), (''state'', JStr stage),
                    (''receipt-sequence'', JInt sq), (''output-sha256'', output)])) (\<lambda>txt.
           Inr (command, sq, stage, output, sha256_hex C txt)))
       | _ \<Rightarrow> Inl (conflict ''Invalid node receipt sequence, stage or output digest''))
   | _ \<Rightarrow> Inl (conflict ''Invalid public node receipt fields''))"

definition apply_owned_node_receipt ::
    "('a genv_scheme) \<Rightarrow> string \<Rightarrow> json \<Rightarrow> string \<Rightarrow> string \<Rightarrow> int \<Rightarrow> int \<Rightarrow> clock \<Rightarrow> gw \<Rightarrow> dict res \<times> gw" where
  "apply_owned_node_receipt E rid receipt owner worker epoch er t s =
     (case parse_receipt (crypto.truncate E) receipt of
        Inl e \<Rightarrow> (Inl e, s)
      | Inr (command, sq, stage, output, digest) \<Rightarrow>
          node_update E rid owner worker epoch er (receipt_body command sq stage output digest t) s)"

section \<open>The dispatch state machine\<close>

text \<open>The abstract state of one binding.  \<open>nd_auth\<close> and \<open>nd_stage\<close> are absent or texts.\<close>

record node_binding =
  nd_identity :: json
  nd_auth :: "string option"
  nd_state :: string
  nd_sequence :: int
  nd_stage :: "string option"

inductive nd_step :: "node_binding option \<Rightarrow> node_binding option \<Rightarrow> bool" where
  bind: "nd_step None (Some \<lparr>nd_identity = i, nd_auth = None, nd_state = ''not-authorized'', nd_sequence = 0, nd_stage = None\<rparr>)"
| authorize: "nd_state b = ''not-authorized'' \<Longrightarrow> nd_auth b = None \<Longrightarrow>
    nd_step (Some b) (Some (b\<lparr>nd_auth := Some a, nd_state := ''authorized''\<rparr>))"
| fence: "nd_state b = ''not-authorized'' \<Longrightarrow> nd_auth b = None \<Longrightarrow>
    nd_step (Some b) (Some (b\<lparr>nd_state := ''no-effect''\<rparr>))"
| receipt: "nd_sequence b < sq \<Longrightarrow> stage_rank st = Some r \<Longrightarrow>
    (\<forall>p. nd_stage b = Some p \<longrightarrow> p \<noteq> ''terminal'' \<and> (\<exists>q. stage_rank p = Some q \<and> q \<le> r)) \<Longrightarrow>
    st = ''prepared'' \<or> nd_auth b \<noteq> None \<Longrightarrow>
    nd_step (Some b) (Some (b\<lparr>nd_state := str_of (receipt_state st (JStr (nd_state b))), nd_sequence := sq, nd_stage := Some st\<rparr>))"

inductive_cases nd_stepE: "nd_step a b"

text \<open>An effect of the node is on record only for an authorized command.\<close>

definition nd_sound :: "node_binding \<Rightarrow> bool" where
  "nd_sound b \<longleftrightarrow>
     (nd_state b \<notin> {''not-authorized'', ''no-effect''} \<longrightarrow> nd_auth b \<noteq> None) \<and>
     (nd_stage b \<notin> {None, Some ''prepared''} \<longrightarrow> nd_auth b \<noteq> None)"

lemma nd_step_sound: "nd_step x y \<Longrightarrow> (\<forall>b. x = Some b \<longrightarrow> nd_sound b) \<Longrightarrow> y = Some b' \<Longrightarrow> nd_sound b'"
  by (erule nd_stepE) (auto simp: nd_sound_def receipt_state_def)

lemma nd_step_identity: "nd_step (Some b) y \<Longrightarrow> \<exists>b'. y = Some b' \<and> nd_identity b' = nd_identity b \<and> nd_sequence b \<le> nd_sequence b'"
  by (erule nd_stepE) auto

lemma nd_step_no_effect:
  "nd_step (Some b) y \<Longrightarrow> nd_state b = ''no-effect'' \<Longrightarrow> nd_auth b = None \<Longrightarrow>
     \<exists>b'. y = Some b' \<and> nd_state b' = ''no-effect'' \<and> nd_auth b' = None"
  by (erule nd_stepE) (auto simp: receipt_state_def)

lemma nd_steps_no_effect:
  assumes "nd_step\<^sup>*\<^sup>* (Some b) y" "nd_state b = ''no-effect''" "nd_auth b = None"
  shows "\<exists>b'. y = Some b' \<and> nd_state b' = ''no-effect'' \<and> nd_auth b' = None"
  using assms by (induction rule: rtranclp_induct) (auto dest: nd_step_no_effect)

lemma nd_steps_identity:
  assumes "nd_step\<^sup>*\<^sup>* (Some b) y"
  shows "\<exists>b'. y = Some b' \<and> nd_identity b' = nd_identity b \<and> nd_sequence b \<le> nd_sequence b'"
  using assms by (induction rule: rtranclp_induct) (force dest: nd_step_identity)+

lemma nd_steps_sound:
  assumes "nd_step\<^sup>*\<^sup>* x y" "\<forall>b. x = Some b \<longrightarrow> nd_sound b"
  shows "\<forall>b. y = Some b \<longrightarrow> nd_sound b"
  using assms by (induction rule: rtranclp_induct) (auto dest: nd_step_sound)

section \<open>The operations implement it\<close>

fun nd_of :: "json \<Rightarrow> node_binding option" where
  "nd_of (JObj p) = Some \<lparr>nd_identity = dget p ''identity'', nd_auth = opt_of (dget p ''authorization-id''),
     nd_state = str_of (dget p ''authorization-state''), nd_sequence = int_of (dget p ''receipt-sequence''),
     nd_stage = opt_of (dget p ''receipt-stage'')\<rparr>"
| "nd_of _ = None"

definition wf_nd :: "json \<Rightarrow> bool" where
  "wf_nd v \<longleftrightarrow> v = JNull \<or> (\<exists>p. v = JObj p \<and> is_str (dget p ''authorization-state'') \<and>
     nullable_str (dget p ''authorization-id'') \<and> is_int_strict (dget p ''receipt-sequence'') \<and>
     nullable_str (dget p ''receipt-stage''))"

abbreviation dispatch_of :: "dict \<Rightarrow> json" where
  "dispatch_of d \<equiv> dget d ''node-dispatch''"

lemma write_node_dispatch_commit:
  assumes "write_node_dispatch c t nd d = Inr (Commit d' e)"
  obtains v where "bump d ''revision'' = Inr v" "dget d' ''revision'' = v" "dispatch_of d' = JObj nd"
    "\<forall>k. k \<notin> set [''revision'', ''node-dispatch'', ''updated-at'', ''recovery-required'', ''watchdog-state'', ''watchdog-reason'']
        \<longrightarrow> dget d' k = dget d k"
  using assms unfolding write_node_dispatch_def rbind_eq_Inr Let_def by (cases c) auto

lemma write_node_dispatch_step:
  assumes "wf_rec d" "write_node_dispatch c t nd d = Inr (Commit d' e)"
  shows "rec_step d d'" "dispatch_of d' = JObj nd"
proof -
  obtain v where v: "bump d ''revision'' = Inr v" "dget d' ''revision'' = v" and nd: "dispatch_of d' = JObj nd"
    and k: "\<forall>k. k \<notin> set [''revision'', ''node-dispatch'', ''updated-at'', ''recovery-required'', ''watchdog-state'', ''watchdog-reason'']
        \<longrightarrow> dget d' k = dget d k"
    by (rule write_node_dispatch_commit [OF assms(2)])
  show "rec_step d d'" by (rule annotate_step [OF assms(1) v]) (simp add: k annotate_simps)
  show "dispatch_of d' = JObj nd" by (rule nd)
qed

text \<open>What a commit of each operation writes, and under which condition on the prior dispatch.\<close>

lemma bind_body_commit:
  assumes "bind_body c acc dg ow ru t d = Inr (Commit d' e)"
  shows "dispatch_of d = JNull \<and> write_node_dispatch ru t (fresh_dispatch c dg) d = Inr (Commit d' e)"
  using assms unfolding bind_body_def rbind_eq_Inr Let_def
  by (auto simp: rbind_eq_Inr split: if_split_asm)

lemma authorize_body_commit:
  assumes "authorize_body c a acc dg ow t d = Inr (Commit d' e)"
  obtains p where "dispatch_of d = JObj p" "dget p ''authorization-state'' = JStr ''not-authorized''"
    "dget p ''authorization-id'' = JNull" "jeq (dget p ''identity'') (JObj c)"
    "write_node_dispatch False t (dupd p [(''authorization-id'', JStr a), (''authorization-state'', JStr ''authorized'')]) d
       = Inr (Commit d' e)"
proof (cases "dispatch_of d")
  case (JObj p)
  with assms show thesis
    unfolding authorize_body_def rbind_eq_Inr Let_def guard_r_eq_Inr
    by (auto split: if_split_asm simp: ditem_eq_Inr dget_def intro: that)
qed (use assms in \<open>auto simp: authorize_body_def rbind_eq_Inr Let_def guard_r_eq_Inr\<close>)

lemma fence_body_commit:
  assumes "fence_body c ow t d = Inr (Commit d' e)"
  obtains p where "dispatch_of d = JObj p" "dget p ''authorization-state'' = JStr ''not-authorized''"
    "dget p ''authorization-id'' = JNull" "jeq (dget p ''identity'') (JObj c)"
    "write_node_dispatch False t (dupd p [(''authorization-state'', JStr ''no-effect'')]) d = Inr (Commit d' e)"
proof (cases "dispatch_of d")
  case (JObj p)
  with assms show thesis
    unfolding fence_body_def rbind_eq_Inr Let_def
    by (auto split: if_split_asm simp: rbind_eq_Inr ditem_eq_Inr dget_def intro: that)
qed (use assms in \<open>auto simp: fence_body_def rbind_eq_Inr Let_def split: if_split_asm\<close>)

lemma receipt_body_commit:
  assumes "receipt_body c sq st out dg t d = Inr (Commit d' e)"
  obtains p ast pst where "dispatch_of d = JObj p" "jeq (dget p ''identity'') (JObj c)"
    "\<not> jeq (JInt sq) (dget p ''receipt-sequence'')" "\<not> rat_of_int sq < the (num_of (dget p ''receipt-sequence''))"
    "num_of (dget p ''receipt-sequence'') \<noteq> None"
    "dget p ''receipt-stage'' = pst" "stage_regressed st pst = Inr False"
    "st = ''prepared'' \<or> dget p ''authorization-id'' \<noteq> JNull" "dget p ''authorization-state'' = ast"
    "write_node_dispatch False t (dupd p [(''authorization-state'', receipt_state st ast), (''receipt-sequence'', JInt sq),
          (''receipt-sha256'', JStr dg), (''receipt-stage'', JStr st), (''output-sha256'', out)]) d = Inr (Commit d' e)"
proof (cases "dispatch_of d")
  case (JObj p)
  from assms JObj obtain ps i pst aid ast where
    g: "ditem p ''identity'' = Inr i" "jeq i (JObj c)" "ditem p ''receipt-sequence'' = Inr ps" "\<not> jeq (JInt sq) ps"
      "(case num_of ps of None \<Rightarrow> Inl TypeError | Some q \<Rightarrow>
          guard_r (\<not> of_int sq < q) (conflict ''Node receipt sequence regressed'')) = Inr ()"
      "ditem p ''receipt-stage'' = Inr pst" "stage_regressed st pst = Inr False"
      "(if st \<noteq> ''prepared'' then ditem p ''authorization-id'' else Inr (JBool True)) = Inr aid" "aid \<noteq> JNull"
      "ditem p ''authorization-state'' = Inr ast"
      "write_node_dispatch False t (dupd p [(''authorization-state'', receipt_state st ast), (''receipt-sequence'', JInt sq),
          (''receipt-sha256'', JStr dg), (''receipt-stage'', JStr st), (''output-sha256'', out)]) d = Inr (Commit d' e)"
    unfolding receipt_body_def rbind_eq_Inr Let_def guard_r_eq_Inr
    by (auto split: if_split_asm simp: rbind_eq_Inr guard_r_eq_Inr)
  note i = g(1,3,6,10) [THEN ditem_Inr_dget]
  show thesis
  proof (rule that [OF JObj])
    show "st = ''prepared'' \<or> dget p ''authorization-id'' \<noteq> JNull"
      using g(8,9) by (cases "st = ''prepared''") (auto dest: ditem_Inr_dget)
  qed (use g i in \<open>auto split: option.splits simp: guard_r_eq_Inr\<close>)
qed (use assms in \<open>auto simp: receipt_body_def rbind_eq_Inr Let_def guard_r_eq_Inr\<close>)

text \<open>The interface of the node operations: lifecycle annotations that step the dispatch machine.\<close>

locale node_op = lifecycle_op body for body +
  assumes node_commit: "wf_rec d \<Longrightarrow> wf_nd (dispatch_of d) \<Longrightarrow> body d = Inr (Commit d' ev) \<Longrightarrow>
    wf_nd (dispatch_of d') \<and> nd_step (nd_of (dispatch_of d)) (nd_of (dispatch_of d'))"

text \<open>A body behind the owned-record check.\<close>

definition owned :: "string \<Rightarrow> string \<Rightarrow> int \<Rightarrow> int \<Rightarrow> (dict \<Rightarrow> outcome res) \<Rightarrow> dict \<Rightarrow> outcome res" where
  "owned ow wk ep er body = (\<lambda>rec.
     rbind (check_expected_identity rec (Some er) (Some ow) (Some wk) (Some ep)) (\<lambda>_. body rec))"

lemma node_op_owned: "node_op body \<Longrightarrow> node_op (owned ow wk ep er body)"
  unfolding node_op_def node_op_axioms_def lifecycle_op_def owned_def rbind_eq_Inr by blast

interpretation nb: node_op "bind_body c acc dg ow ru t" for c acc dg ow ru t
proof unfold_locales
  fix d d' ev
  assume d: "wf_rec d" and b: "bind_body c acc dg ow ru t d = Inr (Commit d' ev)"
  note w = bind_body_commit [OF b]
  from write_node_dispatch_step [OF d] w show "rec_step d d'" by blast
  from write_node_dispatch_step [OF d] w have n: "dispatch_of d' = JObj (fresh_dispatch c dg)" "dispatch_of d = JNull" by blast+
  then show "wf_nd (dispatch_of d') \<and> nd_step (nd_of (dispatch_of d)) (nd_of (dispatch_of d'))"
    using nd_step.bind [of "JObj c"] by (simp add: wf_nd_def fresh_dispatch_def dget_Cons)
qed

interpretation na: node_op "authorize_body c a acc dg ow t" for c a acc dg ow t
proof unfold_locales
  fix d d' ev
  assume d: "wf_rec d" and b: "authorize_body c a acc dg ow t d = Inr (Commit d' ev)"
  obtain p where p: "dispatch_of d = JObj p" "dget p ''authorization-state'' = JStr ''not-authorized''"
    "dget p ''authorization-id'' = JNull" "jeq (dget p ''identity'') (JObj c)"
    and w: "write_node_dispatch False t (dupd p [(''authorization-id'', JStr a), (''authorization-state'', JStr ''authorized'')]) d
       = Inr (Commit d' ev)"
    by (rule authorize_body_commit [OF b])
  show "rec_step d d'" by (rule write_node_dispatch_step [OF d w])
  assume "wf_nd (dispatch_of d)"
  with p write_node_dispatch_step(2) [OF d w]
  show "wf_nd (dispatch_of d') \<and> nd_step (nd_of (dispatch_of d)) (nd_of (dispatch_of d'))"
    using nd_step.authorize [of "the (nd_of (dispatch_of d))" a] by (auto simp: wf_nd_def)
qed

interpretation nf: node_op "fence_body c ow t" for c ow t
proof unfold_locales
  fix d d' ev
  assume d: "wf_rec d" and b: "fence_body c ow t d = Inr (Commit d' ev)"
  obtain p where p: "dispatch_of d = JObj p" "dget p ''authorization-state'' = JStr ''not-authorized''"
    "dget p ''authorization-id'' = JNull" "jeq (dget p ''identity'') (JObj c)"
    and w: "write_node_dispatch False t (dupd p [(''authorization-state'', JStr ''no-effect'')]) d = Inr (Commit d' ev)"
    by (rule fence_body_commit [OF b])
  show "rec_step d d'" by (rule write_node_dispatch_step [OF d w])
  assume "wf_nd (dispatch_of d)"
  with p write_node_dispatch_step(2) [OF d w]
  show "wf_nd (dispatch_of d') \<and> nd_step (nd_of (dispatch_of d)) (nd_of (dispatch_of d'))"
    using nd_step.fence [of "the (nd_of (dispatch_of d))"] by (auto simp: wf_nd_def)
qed

lemma stage_rank_known: "st \<in> set RECEIPT_STAGES \<Longrightarrow> \<exists>r. stage_rank st = Some r"
  by (auto simp: RECEIPT_STAGES_def)

lemma stage_regressed_False:
  assumes "stage_regressed st pst = Inr False" "stage_rank st = Some r" "opt_of pst = Some p"
  shows "p \<noteq> ''terminal'' \<and> (\<exists>q. stage_rank p = Some q \<and> q \<le> r)"
  using assms by (auto simp: stage_regressed_def simp del: stage_rank.simps split: option.splits)

lemma receipt_op:
  assumes st: "st \<in> set RECEIPT_STAGES"
  shows "node_op (receipt_body c sq st out dg t)"
proof unfold_locales
  fix d d' ev
  assume d: "wf_rec d" and b: "receipt_body c sq st out dg t d = Inr (Commit d' ev)"
  from stage_rank_known [OF st] obtain r where r: "stage_rank st = Some r" by blast
  obtain p ast pst where p: "dispatch_of d = JObj p" and q: "jeq (dget p ''identity'') (JObj c)"
    "\<not> jeq (JInt sq) (dget p ''receipt-sequence'')" "\<not> rat_of_int sq < the (num_of (dget p ''receipt-sequence''))"
    "num_of (dget p ''receipt-sequence'') \<noteq> None"
    "dget p ''receipt-stage'' = pst" "stage_regressed st pst = Inr False"
    "st = ''prepared'' \<or> dget p ''authorization-id'' \<noteq> JNull" "dget p ''authorization-state'' = ast"
    and w: "write_node_dispatch False t (dupd p [(''authorization-state'', receipt_state st ast), (''receipt-sequence'', JInt sq),
          (''receipt-sha256'', JStr dg), (''receipt-stage'', JStr st), (''output-sha256'', out)]) d = Inr (Commit d' ev)"
    by (rule receipt_body_commit [OF b])
  show "rec_step d d'" by (rule write_node_dispatch_step [OF d w])
  assume "wf_nd (dispatch_of d)"
  with p have t: "is_str ast" "nullable_str (dget p ''authorization-id'')" "is_int_strict (dget p ''receipt-sequence'')"
    "nullable_str pst" using q(5,8) by (auto simp: wf_nd_def)
  then obtain a n where a: "ast = JStr a" and n: "dget p ''receipt-sequence'' = JInt n"
    by (auto elim!: is_str.elims is_int_strict.elims)
  let ?b = "the (nd_of (dispatch_of d))"
  have "nd_step (Some ?b) (Some (?b\<lparr>nd_state := str_of (receipt_state st (JStr (nd_state ?b))), nd_sequence := sq, nd_stage := Some st\<rparr>))"
  proof (rule nd_step.receipt [OF _ r])
    show "nd_sequence ?b < sq" using q(2,3) n p by simp
    show "\<forall>x. nd_stage ?b = Some x \<longrightarrow> x \<noteq> ''terminal'' \<and> (\<exists>q. stage_rank x = Some q \<and> q \<le> r)"
      using stage_regressed_False [OF q(6) r] p q(5) by simp
    show "st = ''prepared'' \<or> nd_auth ?b \<noteq> None" using q(7) t(2) p by (auto simp: opt_of_eq_None)
  qed
  moreover have "is_str (receipt_state st (JStr a))" by (simp add: receipt_state_def)
  ultimately show "wf_nd (dispatch_of d') \<and> nd_step (nd_of (dispatch_of d)) (nd_of (dispatch_of d'))"
    using write_node_dispatch_step(2) [OF d w] p q(8) a t(2) by (simp add: wf_nd_def)
qed

section \<open>On the store\<close>

definition node_ok :: "gw \<Rightarrow> bool" where
  "node_ok s \<longleftrightarrow> (\<forall>rid d. rec_of s rid = Some d \<longrightarrow> wf_nd (dispatch_of d))"

definition node_path :: "gw \<Rightarrow> gw \<Rightarrow> bool" where
  "node_path s s' \<longleftrightarrow> (\<forall>rid d. rec_of s rid = Some d \<longrightarrow>
     (\<exists>d'. rec_of s' rid = Some d' \<and> nd_step\<^sup>*\<^sup>* (nd_of (dispatch_of d)) (nd_of (dispatch_of d'))))"

lemma dispatch_redact [simp]: "dispatch_of (redact_for_persistence d) = dispatch_of d"
  by (simp add: redact_keeps)

lemma read_record_locked_dispatch:
  assumes "store_ok s" "read_record_locked E rid s = (r, s1)" "rec_of s rid' = Some d"
  shows "\<exists>d1. rec_of s1 rid' = Some d1 \<and> dispatch_of d1 = dispatch_of d"
    and "r = Inr x \<Longrightarrow> rid' = rid \<Longrightarrow> dispatch_of x = dispatch_of d"
proof -
  have m: "dispatch_of d' = dispatch_of x" if "migrate_v1_payload E x = Inr d'" "rec_of s rid = Some x" for x d'
    using migrate_keeps [OF that(1), of "''node-dispatch''"] assms(1) that(2)
    by (auto simp: store_ok_def wf_rec_def MIGRATED_KEYS_def)
  show "\<exists>d1. rec_of s1 rid' = Some d1 \<and> dispatch_of d1 = dispatch_of d"
    using assms(2) by (cases rule: read_record_locked_cases) (use assms(3) m in auto)
  show "r = Inr x \<Longrightarrow> rid' = rid \<Longrightarrow> dispatch_of x = dispatch_of d"
    using assms(2) by (cases rule: read_record_locked_cases) (use assms(3) m in auto)
qed

lemma read_record_locked_node:
  assumes "store_ok s" "node_ok s" "read_record_locked E rid s = (r, s1)"
  shows "node_ok s1" and "node_path s s1"
    and "r = Inr d \<Longrightarrow> rec_of s1 rid = Some d1 \<Longrightarrow> dispatch_of d = dispatch_of d1"
proof -
  note nd = read_record_locked_dispatch [OF assms(1,3)]
  show "node_path s s1" unfolding node_path_def using nd(1) by (metis rtranclp.rtrancl_refl)
  show "r = Inr d \<Longrightarrow> rec_of s1 rid = Some d1 \<Longrightarrow> dispatch_of d = dispatch_of d1"
    using assms(3) by (cases rule: read_record_locked_cases) (use migrate_keeps assms(1) in \<open>auto dest: nd(2)\<close>)
  show "node_ok s1"
    unfolding node_ok_def
  proof (intro allI impI)
    fix rid' d1
    assume d1: "rec_of s1 rid' = Some d1"
    show "wf_nd (dispatch_of d1)"
    proof (cases "rec_of s rid'")
      case None
      with assms(3) d1 show ?thesis by (cases rule: read_record_locked_cases) (auto split: if_split_asm)
    next
      case (Some d)
      with nd(1) d1 assms(2) show ?thesis by (fastforce simp: node_ok_def)
    qed
  qed
qed

context node_op
begin

lemma node_refines:
  assumes "store_ok s" "node_ok s" "locked_update E rid body s = (r, s')"
  shows "node_ok s' \<and> node_path s s'"
proof -
  obtain r1 s1 where rd: "read_record_locked E rid s = (r1, s1)" by fastforce
  note ok = read_record_locked_ok [OF assms(1) rd] and nd = read_record_locked_node [OF assms(1,2) rd]
  show ?thesis
  proof (cases "\<exists>d upd ev. r1 = Inr d \<and> body d = Inr (Commit upd ev) \<and> fst (write_record E upd s1) = Inr ()")
    case False
    then have "rec_of s' = rec_of s1" using assms(3) rd
      by (auto simp: locked_update_def rec_of_def split: sum.splits prod.splits outcome.splits option.splits
          elim!: write_record_cases)
    then show ?thesis using nd(1,2) by (simp add: node_ok_def node_path_def)
  next
    case True
    then obtain d upd ev s2 where r1: "r1 = Inr d" and b: "body d = Inr (Commit upd ev)"
      and w: "write_record E upd s1 = (Inr (), s2)" by (metis prod.collapse)
    from ok(3) [OF r1] obtain d1 where d: "wf_rec d" "dget d ''request-id'' = JStr rid" "rec_of s1 rid = Some d1" by blast
    from w obtain p where p: "s2 = put_request rid (Doc (JObj (redact_for_persistence p))) s1" "dispatch_of p = dispatch_of upd"
      using commit [OF d(1) b] d(2)
      by (cases rule: write_record_cases) (auto simp: validate_record_keeps rec_step_def dest!: frozen_id)
    have "rec_of s' = rec_of s2" using assms(3) rd r1 b w
      by (auto simp: locked_update_def rec_of_def record_gateway_timeline_def split: sum.splits option.splits)
    then have s': "rec_of s' x = (if x = rid then Some (redact_for_persistence p) else rec_of s1 x)" for x
      using p(1) by simp
    have n: "wf_nd (dispatch_of upd)" "nd_step (nd_of (dispatch_of d1)) (nd_of (dispatch_of upd))"
      using node_commit [OF d(1) _ b] nd(1) nd(3) [OF r1 d(3)] d(3) by (auto simp: node_ok_def)
    have "node_ok s'" using nd(1) n(1) s' p(2) by (simp add: node_ok_def)
    moreover have "node_path s1 s'" using n(2) s' p(2) d(3) by (auto simp: node_path_def)
    with nd(2) have "node_path s s'" unfolding node_path_def by (meson rtranclp_trans)
    ultimately show ?thesis by blast
  qed
qed

end

text \<open>Each operation, through the owned-record check.\<close>

definition keeps_node_contract :: "(gw \<Rightarrow> 'r \<times> gw) \<Rightarrow> bool" where
  "keeps_node_contract f \<longleftrightarrow> keeps_contract f \<and>
     (\<forall>s. store_ok s \<longrightarrow> node_ok s \<longrightarrow> node_ok (snd (f s)) \<and> node_path s (snd (f s)))"

lemma node_path_refl [simp]: "node_path s s"
  by (auto simp: node_path_def)

lemma keeps_node_const [simp]: "keeps_node_contract (\<lambda>s. (x, s))"
  by (simp add: keeps_node_contract_def keeps_contract_def)

lemma node_update_contract:
  assumes "node_op body"
  shows "keeps_node_contract (node_update E rid ow wk ep er body)"
proof (cases "node_fences ow wk ep er")
  case (Inl e)
  then show ?thesis by (simp add: node_update_def keeps_node_contract_def keeps_contract_def)
next
  case (Inr u)
  then have u: "node_update E rid ow wk ep er body s = locked_update E rid (owned ow wk ep er body) s" for s
    by (simp add: node_update_def owned_def)
  note o = node_op_owned [OF assms, of ow wk ep er]
  have "keeps_contract (locked_update E rid (owned ow wk ep er body))"
    using o by (intro keeps_contractI) (simp add: node_op_def)
  moreover have "node_ok (snd (locked_update E rid (owned ow wk ep er body) s)) \<and>
      node_path s (snd (locked_update E rid (owned ow wk ep er body) s))" if "store_ok s" "node_ok s" for s
    by (rule node_op.node_refines [OF o that]) (rule prod.collapse [symmetric])
  ultimately show ?thesis by (simp add: keeps_node_contract_def keeps_contract_def u)
qed

lemma keeps_node_case:
  assumes "\<And>x. m = Inr x \<Longrightarrow> keeps_node_contract (f x)"
  shows "keeps_node_contract (\<lambda>s. case m of Inl e \<Rightarrow> (Inl e, s) | Inr x \<Rightarrow> f x s)"
  using assms by (cases m) simp_all

lemma bind_contract: "keeps_node_contract (bind_owned_node_dispatch E rid i pl acc ow wk ep er ru t)"
  unfolding bind_owned_node_dispatch_def [abs_def]
  by (rule keeps_node_case) (simp add: split_beta node_update_contract nb.node_op_axioms)

lemma authorize_contract: "keeps_node_contract (authorize_owned_node_effect E rid i a acc ne g ow wk ep er t)"
  unfolding authorize_owned_node_effect_def [abs_def]
  by (rule keeps_node_case) (simp add: split_beta node_update_contract na.node_op_axioms)

lemma fence_contract: "keeps_node_contract (fence_node_dispatch_no_effect E rid i ow wk ep er g t)"
  unfolding fence_node_dispatch_no_effect_def [abs_def]
  by (rule keeps_node_case) (simp add: node_update_contract nf.node_op_axioms)

lemma parse_receipt_stage:
  "parse_receipt C r = Inr (c, sq, st, out, dg) \<Longrightarrow> st \<in> set RECEIPT_STAGES \<and> 1 \<le> sq"
proof (cases r)
  case (JObj x)
  then show "parse_receipt C r = Inr (c, sq, st, out, dg) \<Longrightarrow> st \<in> set RECEIPT_STAGES \<and> 1 \<le> sq"
    by (cases "dget x ''receipt-sequence''"; cases "dget x ''state''")
       (auto simp: parse_receipt_def rbind_eq_Inr guard_r_eq_Inr Let_def split: if_split_asm)
qed (auto simp: parse_receipt_def)

lemma receipt_contract: "keeps_node_contract (apply_owned_node_receipt E rid r ow wk ep er t)"
  unfolding apply_owned_node_receipt_def [abs_def]
  by (rule keeps_node_case) (auto simp: split_beta intro!: node_update_contract receipt_op dest!: parse_receipt_stage)

end
