(* ===== verification/Store_System.thy ===== *)
theory Store_System
  imports Request_Activity Node_Dispatch
begin

text \<open>
  The store as a system: one step is any store operation of any caller with any arguments, under
  the per-request lock that makes it atomic.  Interleavings of workers, gateways, operators and
  nodes are the sequences of these steps.
\<close>

inductive store_step :: "('a genv_scheme) \<Rightarrow> gw \<Rightarrow> gw \<Rightarrow> bool" for E where
  transition: "store_step E s (snd (transition_record E rid st us er eo ew ea t s))"
| diagnostics: "store_step E s (snd (update_diagnostics E rid dg ev er t s))"
| mark_cancel: "store_step E s (snd (mark_cancel_requested E rid so ty aid re t s))"
| acknowledge: "store_step E s (snd (acknowledge_cancel E rid actor t s))"
| attempt: "store_step E s (snd (append_attempt E rid p pr m st e sa fa eo ew ea t s))"
| owned_attempt: "store_step E s (snd (append_owned_attempt E rid ow w ep p pr m st e sa fa t s))"
| cancel_queued: "store_step E s (snd (cancel_queued_or_mark_requested E rid so ty aid re odg er t s))"
| link: "store_step E s (snd (link_replay E rid rid2 t s))"
| recovered: "store_step E s (snd (transition_recovered_terminal E rid st e se rv rr rs t s))"
| owned_terminal: "store_step E s (snd (transition_owned_terminal E rid st ow w ep us er sr t s))"
| release: "store_step E s (snd (release_stale_claim E rid ow t s))"
| takeover: "store_step E s (snd (takeover_nonterminal_owner E rid eo ow nw h t s))"
| claim: "store_step E s (snd (claim_dispatch E pr rid ow rev_no sr t s))"
| start: "store_step E s (snd (start_attempt E rid w t s))"
| start_owned: "store_step E s (snd (start_owned_attempt E rid ow w rev_no t s))"
| prepare: "store_step E s (snd (prepare_owned_session_attempt E rid ow w rev_no o1 o2 o3 o4 t s))"
| start_session: "store_step E s (snd (start_owned_session_attempt E rid ow w ep t s))"
| bind_start: "store_step E s (snd (bind_and_start_owned_attempt E rid ow w rev_no src mdl o3 o4 t s))"
| defer_rec: "store_step E s (snd (defer_owned_recovery E rid ow ew ep e ph se dl co aq er t s))"
| session: "store_step E s (snd (update_owned_running_session E rid ow w ep sid md wa cu rs t s))"
| activity: "store_step E s (snd (record_owned_activity E rid ow w ep ki so si sq phj ca le ag t s))"
| renew: "store_step E s (snd (renew_owned_activity E rid ow w ep sqn so le t s))"
| watchdog: "store_step E s (snd (mark_watchdog_intervention_if_expired E rid ow w ep wall t s))"
| node_bind: "store_step E s (snd (bind_owned_node_dispatch E rid i pl acc ow w ep rev_no ru t s))"
| node_authorize: "store_step E s (snd (authorize_owned_node_effect E rid i aj acc ne g ow w ep rev_no t s))"
| node_fence: "store_step E s (snd (fence_node_dispatch_no_effect E rid i ow w ep rev_no g t s))"
| node_receipt: "store_step E s (snd (apply_owned_node_receipt E rid rcpt ow w ep rev_no t s))"

inductive_cases store_stepE: "store_step E s s'"

lemmas op_contracts = transition_record_contract acknowledge_contract owned_attempt_contract
  recovered_contract owned_terminal_contract takeover_contract claim_dispatch_contract start_attempt_contract
  start_owned_contract prepare_session_contract start_session_contract bind_start_contract defer_contract
  session_update_contract activity_contract renew_contract watchdog_contract

lemmas node_contracts = bind_contract authorize_contract fence_contract receipt_contract

lemma node_keeps: "keeps_node_contract f \<Longrightarrow> keeps_contract f"
  by (simp add: keeps_node_contract_def)

lemma plain_contracts:
  "keeps_contract (update_diagnostics E rid dg ev er t)"
  "keeps_contract (mark_cancel_requested E rid so ty aid re t)"
  "keeps_contract (append_attempt E rid p pr m st e sa fa eo ew ea t)"
  "keeps_contract (cancel_queued_or_mark_requested E rid so ty aid re odg er t)"
  "keeps_contract (link_replay E rid rid2 t)"
  "keeps_contract (release_stale_claim E rid ow t)"
  using keeps_contractI [OF ud.lifecycle_op_axioms] keeps_contractI [OF mc.lifecycle_op_axioms]
    keeps_contractI [OF aa.lifecycle_op_axioms] keeps_contractI [OF cq.lifecycle_op_axioms]
    keeps_contractI [OF lr.lifecycle_op_axioms] keeps_contractI [OF rel.lifecycle_op_axioms]
  by (simp_all add: update_diagnostics_def [abs_def] mark_cancel_requested_def [abs_def]
      append_attempt_def [abs_def] cancel_queued_or_mark_requested_def [abs_def] link_replay_def [abs_def]
      release_stale_claim_def [abs_def])

lemma contractD: "keeps_contract f \<Longrightarrow> store_ok s \<Longrightarrow> store_ok (snd (f s)) \<and> store_path s (snd (f s))"
  by (simp add: keeps_contract_def)

lemma store_step_contract:
  assumes "store_step E s s'" "store_ok s"
  shows "store_ok s' \<and> store_path s s'"
  using assms(1)
  by cases (simp_all add: contractD [OF _ assms(2)] op_contracts plain_contracts node_contracts [THEN node_keeps])

lemma store_steps_contract:
  assumes "(store_step E)\<^sup>*\<^sup>* s s'" "store_ok s"
  shows "store_ok s' \<and> store_path s s'"
  using assms
proof (induction rule: rtranclp_induct)
  case (step y z)
  then show ?case using store_step_contract [of E y z] store_path_trans [of s y z] by blast
qed simp

end
