(* ===== verification/Store_Fences.thy ===== *)
theory Store_Fences
  imports Store_System
begin

text \<open>
  The fences of the store: an owned operation whose owner epoch, worker or attempt epoch is not
  the record's is rejected before it writes, a start also when its revision is stale, and a claim
  when another owner holds the request.
\<close>

section \<open>Rejected operations\<close>

text \<open>A read, or an operation that raises before it writes, changes no lifecycle and no admission
  identity (it may persist the migrated form of the record it read).\<close>

definition quiet :: "gw \<Rightarrow> gw \<Rightarrow> bool" where
  "quiet s s' \<longleftrightarrow> (\<forall>rid. rel_option (\<lambda>d d'. lc_of d' = lc_of d \<and> frozen d d') (rec_of s rid) (rec_of s' rid))"

definition rejects :: "gw \<Rightarrow> 'r res \<times> gw \<Rightarrow> bool" where
  "rejects s r \<longleftrightarrow> isl (fst r) \<and> quiet s (snd r)"

lemma quiet_refl [simp]: "quiet s s"
  by (simp add: quiet_def option.rel_refl)

lemma rejects_early [simp]: "rejects s (Inl e, s)"
  by (simp add: rejects_def)

lemma read_record_locked_quiet:
  assumes "store_ok s" "read_record_locked E rid s = (r, s1)"
  shows "quiet s s1" and "r = Inr x \<Longrightarrow> rec_of s rid = Some d \<Longrightarrow> lc_of x = lc_of d"
proof -
  have m: "lc_of d' = lc_of x \<and> frozen x d'" if "migrate_v1_payload E x = Inr d'" "rec_of s rid = Some x" for x d'
    using migrate_same [OF that(1)] assms(1) that(2) by (auto simp: store_ok_def)
  have rd: "frozen x (redact_for_persistence d')" if "migrate_v1_payload E x = Inr d'" "rec_of s rid = Some x" for x d'
    using m [OF that] redact_same(2) [of d'] by (blast intro: frozen_trans)
  show "quiet s s1"
    using assms(2)
    by (cases rule: read_record_locked_cases)
       (auto simp: quiet_def redact_same(1) m rd option.rel_refl)
  show "r = Inr x \<Longrightarrow> rec_of s rid = Some d \<Longrightarrow> lc_of x = lc_of d"
    using assms(2) by (cases rule: read_record_locked_cases) (use m in auto)
qed

lemma rejects_locked:
  assumes "store_ok s" "rec_of s rid = Some d" "\<And>x. wf_rec x \<Longrightarrow> lc_of x = lc_of d \<Longrightarrow> isl (body x)"
  shows "rejects s (locked_update E rid body s)" and "rejects s (locked_start E rid ow body t s)"
proof -
  obtain r1 s1 where rd: "read_record_locked E rid s = (r1, s1)" by fastforce
  note q = read_record_locked_quiet [OF assms(1) rd]
  have "isl (body x)" if "r1 = Inr x" for x
    using read_record_locked_ok(3) [OF assms(1) rd that] q(2) [OF that assms(2)] assms(3) by blast
  with rd q(1) show "rejects s (locked_update E rid body s)" "rejects s (locked_start E rid ow body t s)"
    by (cases r1; auto simp: rejects_def locked_update_def locked_start_def isl_def)+
qed

text \<open>The four fences of an owned mutation.\<close>

lemma fence_rejects:
  assumes "wf_rec d"
    "er \<noteq> None \<and> er \<noteq> Some (lc_revision (lc_of d)) \<or> eo \<noteq> None \<and> eo \<noteq> lc_owner (lc_of d) \<or>
     ew \<noteq> None \<and> ew \<noteq> lc_worker (lc_of d) \<or> ea \<noteq> None \<and> ea \<noteq> Some (lc_attempt (lc_of d))"
  shows "isl (rbind (check_expected_identity d er eo ew ea) f)"
proof (cases "check_expected_identity d er eo ew ea")
  case (Inr u)
  then have "check_expected_identity d er eo ew ea = Inr u" by simp
  with assms(2) show ?thesis unfolding check_expected_identity_eq_Inr [OF assms(1)] by fastforce
qed simp

lemma isl_rbind: "isl m \<Longrightarrow> isl (rbind m f)"
  by (cases m) simp_all

lemma isl_rbind2: "(\<And>x. m = Inr x \<Longrightarrow> isl (f x)) \<Longrightarrow> isl (rbind m f)"
  by (cases m) simp_all

definition fenced_out :: "dict \<Rightarrow> string \<Rightarrow> string \<Rightarrow> int \<Rightarrow> bool" where
  "fenced_out d ow wk ep \<longleftrightarrow>
     lc_owner (lc_of d) \<noteq> Some ow \<or> lc_worker (lc_of d) \<noteq> Some wk \<or> lc_attempt (lc_of d) \<noteq> ep"

lemma owned_rejects:
  assumes "store_ok s" "rec_of s rid = Some d" "fenced_out d ow wk ep"
    "\<And>x. \<exists>f. body x = rbind (check_expected_identity x er (Some ow) (Some wk) (Some ep)) f"
  shows "rejects s (locked_update E rid body s)" and "rejects s (locked_start E rid ow' body t s)"
proof -
  have "isl (body x)" if x: "wf_rec x" "lc_of x = lc_of d" for x
  proof -
    from assms(4) obtain f where f: "body x = rbind (check_expected_identity x er (Some ow) (Some wk) (Some ep)) f" by blast
    show ?thesis
      unfolding f by (rule fence_rejects [OF x(1)]) (use assms(3) x(2) in \<open>auto simp: fenced_out_def\<close>)
  qed
  then show "rejects s (locked_update E rid body s)" "rejects s (locked_start E rid ow' body t s)"
    using rejects_locked [OF assms(1,2), of body] by blast+
qed

lemma rejects_case_res: "(\<And>x. m = Inr x \<Longrightarrow> rejects s (f x)) \<Longrightarrow> rejects s (case m of Inl e \<Rightarrow> (Inl e, s) | Inr x \<Rightarrow> f x)"
  by (cases m) simp_all

lemma fenced_bodies:
  "\<exists>f. session_update_body rid ow wk ep sid md w c rs t x = rbind (check_expected_identity x None (Some ow) (Some wk) (Some ep)) f"
  "\<exists>f. activity_body E rid ow wk ep ki so si sq ph ca le ag t x = rbind (check_expected_identity x None (Some ow) (Some wk) (Some ep)) f"
  "\<exists>f. watchdog_body E rid ow wk ep wall t x = rbind (check_expected_identity x None (Some ow) (Some wk) (Some ep)) f"
  "\<exists>f. start_session_body ow wk ep t x = rbind (check_expected_identity x None (Some ow) (Some wk) (Some ep)) f"
  "\<exists>f. append_attempt_body p pr m st e sa fa (Some ow) (Some wk) (Some ep) t x = rbind (check_expected_identity x None (Some ow) (Some wk) (Some ep)) f"
  "\<exists>f. transition_body st us er (Some ow) (Some wk) (Some ep) t x = rbind (check_expected_identity x er (Some ow) (Some wk) (Some ep)) f"
  unfolding session_update_body_def activity_body_def watchdog_body_def start_session_body_def append_attempt_body_def
    transition_body_def by blast+

lemma owned_terminal_rejects:
  assumes "store_ok s" "rec_of s rid = Some d" "fenced_out d ow wk ep"
  shows "rejects s (transition_owned_terminal E rid st ow wk ep us er sr t s)"
proof -
  have r: "rejects s (transition_record E rid st (terminal_updates us) er (Some ow) (Some wk) (Some ep) t s)"
    unfolding transition_record_def
    by (simp, intro impI, rule owned_rejects(1) [OF assms], rule fenced_bodies)
  then show ?thesis
    by (auto simp: transition_owned_terminal_def rejects_def isl_def split: sum.splits prod.splits)
qed

lemma owned_session_rejects:
  assumes "store_ok s" "rec_of s rid = Some d" "fenced_out d ow wk ep"
  shows "rejects s (update_owned_running_session E rid ow wk ep sid md w c rs t s)"
    and "rejects s (start_owned_session_attempt E rid ow wk ep t s)"
  unfolding update_owned_running_session_def start_owned_session_attempt_def
  by (auto intro!: rejects_case_res owned_rejects [OF assms] fenced_bodies)

lemma owned_activity_rejects:
  assumes "store_ok s" "rec_of s rid = Some d" "fenced_out d ow wk ep"
  shows "rejects s (record_owned_activity E rid ow wk ep ki so si sq ph ca le ag t s)"
    and "rejects s (renew_owned_activity E rid ow wk ep sqn so le t s)"
    and "rejects s (mark_watchdog_intervention_if_expired E rid ow wk ep wall t s)"
    and "rejects s (append_owned_attempt E rid ow wk ep p pr m st e sa fa t s)"
proof -
  show r: "rejects s (record_owned_activity E rid ow wk ep ki so si sq ph ca le ag t s)" for ki si sq ph ca ag
    unfolding record_owned_activity_def
    by (auto intro!: rejects_case_res owned_rejects(1) [OF assms] fenced_bodies)
  show "rejects s (renew_owned_activity E rid ow wk ep sqn so le t s)"
    unfolding renew_owned_activity_def using r by (auto intro!: rejects_case_res)
  show "rejects s (mark_watchdog_intervention_if_expired E rid ow wk ep wall t s)"
    unfolding mark_watchdog_intervention_if_expired_def
    by (auto intro!: rejects_case_res owned_rejects(1) [OF assms] fenced_bodies)
  show "rejects s (append_owned_attempt E rid ow wk ep p pr m st e sa fa t s)"
    unfolding append_owned_attempt_def append_attempt_def
    by (auto intro!: rejects_case_res owned_rejects(1) [OF assms] fenced_bodies)
qed

lemma node_update_rejects:
  assumes "store_ok s" "rec_of s rid = Some d" "fenced_out d ow wk ep"
  shows "rejects s (node_update E rid ow wk ep er body s)"
  unfolding node_update_def by (intro rejects_case_res owned_rejects(1) [OF assms]) blast

lemma node_ops_reject:
  assumes "store_ok s" "rec_of s rid = Some d" "fenced_out d ow wk ep"
  shows "rejects s (bind_owned_node_dispatch E rid i pl acc ow wk ep er ru t s)"
    and "rejects s (authorize_owned_node_effect E rid i aj acc ne g ow wk ep er t s)"
    and "rejects s (fence_node_dispatch_no_effect E rid i ow wk ep er g t s)"
    and "rejects s (apply_owned_node_receipt E rid rcpt ow wk ep er t s)"
  unfolding bind_owned_node_dispatch_def authorize_owned_node_effect_def fence_node_dispatch_no_effect_def
    apply_owned_node_receipt_def
  by (rule rejects_case_res; simp add: split_beta node_update_rejects [OF assms])+

text \<open>Starting from a claim needs the owner and the exact revision.\<close>

lemma start_ops_reject:
  assumes "store_ok s" "rec_of s rid = Some d" "lc_owner (lc_of d) \<noteq> Some ow \<or> lc_revision (lc_of d) \<noteq> rv"
  shows "rejects s (start_owned_attempt E rid ow wk rv t s)"
    and "rejects s (prepare_owned_session_attempt E rid ow wk rv o1 o2 o3 o4 t s)"
    and "rejects s (bind_and_start_owned_attempt E rid ow wk rv src mdl o3 o4 t s)"
proof -
  have g: "isl (rbind (check_expected_identity x (Some rv) (Some ow) None None) f)"
    if "wf_rec x" "lc_of x = lc_of d" for x and f :: "unit \<Rightarrow> outcome res"
    by (rule fence_rejects [OF that(1)]) (use assms(3) that(2) in auto)
  show "rejects s (start_owned_attempt E rid ow wk rv t s)"
    unfolding start_owned_attempt_def
    by (auto intro!: rejects_locked(2) [OF assms(1,2)] g simp: start_owned_body_def)
  show "rejects s (prepare_owned_session_attempt E rid ow wk rv o1 o2 o3 o4 t s)"
    unfolding prepare_owned_session_attempt_def
    by (auto intro!: rejects_locked(1) [OF assms(1,2)] g simp: prepare_session_body_def)
  show "rejects s (bind_and_start_owned_attempt E rid ow wk rv src mdl o3 o4 t s)"
    unfolding bind_and_start_owned_attempt_def
    by (auto intro!: rejects_locked(1) [OF assms(1,2)] g simp: bind_start_body_def)
qed

lemma claim_body_cases:
  assumes "claim_body w er sr t d = Inr c"
  obtains (taken) "c = Reclaim (dset ''_recovered-dispatch'' (JBool True) d)" "dget d ''dispatch-owner-epoch'' = JStr w"
  | (again) "c = Reclaim d" "dget d ''dispatch-owner-epoch'' = JStr w"
  | (fresh) rv where "dget d ''dispatch-owner-epoch'' \<in> {JNull, JStr w}" "bump d ''revision'' = Inr rv"
      "c = Claim (dupd d [(''dispatch-owner-epoch'', JStr w), (''dispatch-claimed-at'', JStr (t 0)),
          (''dispatch-service-root'', opt_json sr), (''updated-at'', JStr (t 1)), (''revision'', rv)])"
  using assms unfolding claim_body_def rbind_eq_Inr Let_def guard_r_eq_Inr
proof (elim exE conjE, goal_cases)
  case (1 u st)
  then show ?case
    by (cases "dget d ''dispatch-owner-epoch'' = JStr w \<and> (sr = None \<or> truthy (dget d ''dispatch-service-root''))")
      (simp_all add: rbind_eq_Inr guard_r_eq_Inr split: if_split_asm, blast+)
qed

lemma claim_body_owner:
  assumes "wf_rec d" "claim_body w er sr t d = Inr c"
  shows "lc_owner (lc_of d) = None \<or> lc_owner (lc_of d) = Some w"
    and "c = Reclaim x \<Longrightarrow> lc_owner (lc_of d) = Some w"
    and "c = Claim x \<Longrightarrow> lc_owner (lc_of x) = Some w"
  by (cases rule: claim_body_cases [OF assms(2)]; auto simp: lc_of_def)+

lemma claim_rejects:
  assumes "store_ok s" "rec_of s rid = Some d" "lc_owner (lc_of d) \<notin> {None, Some w}"
  shows "rejects s (claim_dispatch E pr rid w er sr t s)"
proof -
  obtain r1 s1 where rd: "read_record_locked E rid s = (r1, s1)" by fastforce
  note q = read_record_locked_quiet [OF assms(1) rd]
  have "isl (claim_body w er sr t x)" if "r1 = Inr x" for x
  proof (cases "claim_body w er sr t x")
    case (Inr c)
    with claim_body_owner(1) [OF _ Inr] read_record_locked_ok(3) [OF assms(1) rd that] q(2) [OF that assms(2)] assms(3)
    show ?thesis by auto
  qed simp
  with rd q(1) show ?thesis
    by (cases r1; auto simp: rejects_def claim_dispatch_def isl_def)
qed

lemma claim_success:
  assumes "store_ok s" "claim_dispatch E pr rid w er sr t s = (Inr u, s')"
  shows "\<exists>d. rec_of s' rid = Some d \<and> lc_owner (lc_of d) = Some w"
proof -
  from assms(2) obtain x s1 where rd: "read_record_locked E rid s = (Inr x, s1)"
    by (auto simp: claim_dispatch_def split: if_split_asm prod.splits sum.splits)
  note ok = read_record_locked_ok(3) [OF assms(1) rd refl]
  then obtain d1 where d1: "rec_of s1 rid = Some d1" "lc_of d1 = lc_of x" "wf_rec x" "dget x ''request-id'' = JStr rid" by blast
  from assms(2) rd obtain c where c: "claim_body w er sr t x = Inr c"
    by (auto simp: claim_dispatch_def split: if_split_asm prod.splits sum.splits)
  have w: "w \<noteq> []" using assms(2) by (auto simp: claim_dispatch_def)
  show ?thesis
  proof (cases c)
    case (Reclaim y)
    with assms(2) rd c w have "requests s' = requests s1" by (auto simp: claim_dispatch_def)
    then show ?thesis using d1 claim_body_owner(2) [OF d1(3) c Reclaim] by (simp add: rec_of_def)
  next
    case (Claim y)
    with assms(2) rd c w obtain s2 where w2: "write_record E y s1 = (Inr (), s2)" and r: "requests s' = requests s2"
      by (auto simp: claim_dispatch_def record_gateway_timeline_def split: prod.splits sum.splits)
         (metis requests_claim_index requests_cleanup(3) snd_conv)
    from claim_commit [OF d1(3) c [unfolded Claim] w] have "frozen x y" by (simp add: rec_step_def)
    with w2 d1(4) obtain p where "s2 = put_request rid (Doc (JObj (redact_for_persistence p))) s1" "lc_of p = lc_of y"
      by (cases rule: write_record_cases) (auto dest!: frozen_id validate_same(1))
    then show ?thesis
      using r claim_body_owner(3) [OF d1(3) c Claim] by (simp add: rec_of_def put_request_def map_of_alist_update redact_same(1))
  qed
qed

end
