(* ===== verification/Store_Examples.thy ===== *)
theory Store_Examples
  imports Store_Fences
begin

text \<open>
  Concrete environments and stores for the witnesses of the store properties: an environment whose
  parameters are simple total functions, and a store with one request in a given state.
\<close>

section \<open>Concrete stores for the witnesses\<close>

definition env0 :: genv where
  "env0 = \<lparr>sha256_hex = (\<lambda>x. x), canonical_text = (\<lambda>_. ''{}''), schema_issues = (\<lambda>_. []),
     add_seconds = (\<lambda>t q. t), root_digest = (\<lambda>p. p), parse_utc = (\<lambda>_. None), parse_float = (\<lambda>_. None),
     dict_text = (\<lambda>_. ''{}'')\<rparr>"

text \<open>A record of request \<open>req_a\<close> in a given state, at revision 3, with owner, worker and attempt 2.\<close>

definition record0 :: "string \<Rightarrow> json \<Rightarrow> json \<Rightarrow> dict" where
  "record0 st owner worker =
    [(''contract-version'', JStr ''v11''), (''request-id'', JStr ''req_a''), (''state'', JStr st),
     (''cancel-requested'', JBool False), (''revision'', JInt 3), (''dispatch-owner-epoch'', owner),
     (''worker-id'', worker), (''attempt-epoch'', JInt 2), (''prompt-body'', JNull)]"

definition gw_of :: "dict \<Rightarrow> gw" where
  "gw_of d = \<lparr>requests = [(''req_a'', Doc (JObj d))], timeline = [],
     windex = (\<lambda>_. \<lparr>ix_files = [], ix_quarantine = []\<rparr>), active_work = Map.empty\<rparr>"

definition clock0 :: clock where
  "clock0 n = ''2026-01-01T00:00:00Z''"

definition running0 :: gw where
  "running0 = gw_of (record0 ''running'' (JStr ''o1'') (JStr ''w1''))"

definition queued0 :: gw where
  "queued0 = gw_of (record0 ''queued'' JNull JNull)"

definition completed0 :: gw where
  "completed0 = gw_of (record0 ''completed'' JNull JNull)"

lemma rec_of_gw_of: "rec_of (gw_of d) rid = (if rid = ''req_a'' then Some d else None)"
  by (simp add: rec_of_def gw_of_def)

lemma store_ok_record0:
  assumes "nullable_str ow" "nullable_str wk"
  shows "store_ok (gw_of (record0 st ow wk))"
  using assms by (simp add: store_ok_def rec_of_gw_of record0_def wf_rec_def dget_Cons CONTRACT_VERSION_def)

lemma stores_ok [simp]: "store_ok running0" "store_ok queued0" "store_ok completed0"
  by (simp_all add: running0_def queued0_def completed0_def store_ok_record0)

lemma stores_rec [simp]:
  "rec_of running0 ''req_a'' = Some (record0 ''running'' (JStr ''o1'') (JStr ''w1''))"
  "rec_of queued0 ''req_a'' = Some (record0 ''queued'' JNull JNull)"
  "rec_of completed0 ''req_a'' = Some (record0 ''completed'' JNull JNull)"
  by (simp_all add: running0_def queued0_def completed0_def rec_of_gw_of)

lemma lc_record0 [simp]:
  "lc_of (record0 st ow wk) = \<lparr>lc_state = st, lc_revision = 3, lc_owner = opt_of ow, lc_worker = opt_of wk,
     lc_attempt = 2, lc_cancel = False, lc_ack = None\<rparr>"
  by (simp add: lc_of_def record0_def dget_Cons)

text \<open>One step of an operator or worker from \<open>running0\<close>.\<close>

definition cancelled0 :: gw where
  "cancelled0 = snd (mark_cancel_requested env0 ''req_a'' ''api'' ''client'' None None clock0 running0)"

lemma running0_step: "(store_step env0)\<^sup>*\<^sup>* running0 cancelled0"
  unfolding cancelled0_def by (blast intro: store_step.mark_cancel)

lemma completed0_step:
  "(store_step env0)\<^sup>*\<^sup>* completed0 (snd (start_attempt env0 ''req_a'' ''w2'' clock0 completed0))"
  by (blast intro: store_step.start)

end
