(* ===== verification/Store_Results.thy ===== *)
theory Store_Results
  imports Store_Examples
begin

text \<open>
  What a successful operation leaves in the store: the record it returns is the record on disk (up
  to the prompt and output redaction), and the lifecycle of that record is the one the operation
  promises.  The properties here are the functional behaviour of single operations; the ones over
  histories are in the root theory.
\<close>

section \<open>From the body of an operation to the store\<close>

lemma locked_update_InrE:
  assumes "locked_update E rid body s = (Inr u, s')"
  obtains (keep) d s1 where "read_record_locked E rid s = (Inr d, s1)" "body d = Inr (Keep u)" "s' = s1"
  | (commit) d s1 ev s2 where "read_record_locked E rid s = (Inr d, s1)" "body d = Inr (Commit u ev)"
      "write_record E u s1 = (Inr (), s2)" "requests s' = requests s2"
proof -
  obtain r1 s1 where rd: "read_record_locked E rid s = (r1, s1)" by fastforce
  with assms obtain d where d: "r1 = Inr d" by (cases r1) (auto simp: locked_update_def)
  with assms rd obtain oc where oc: "body d = Inr oc" by (cases "body d") (auto simp: locked_update_def)
  show thesis
  proof (cases oc)
    case (Keep x)
    with assms rd d oc show thesis by (intro keep) (auto simp: locked_update_def)
  next
    case (Commit x ev)
    obtain r2 s2 where w: "write_record E x s1 = (r2, s2)" by fastforce
    with assms rd d oc Commit have "r2 = Inr ()" by (cases r2) (auto simp: locked_update_def)
    with assms rd d oc Commit w show thesis
      by (intro commit [of d s1 ev s2])
        (auto simp: locked_update_def record_gateway_timeline_def split: sum.splits option.splits)
  qed
qed

lemma locked_start_InrE:
  assumes "locked_start E rid ow body t s = (Inr u, s')"
  obtains (keep) d s1 where "read_record_locked E rid s = (Inr d, s1)" "body d = Inr (Keep u)" "s' = s1"
  | (commit) d s1 ev s2 where "read_record_locked E rid s = (Inr d, s1)" "body d = Inr (Commit u ev)"
      "write_record E u s1 = (Inr (), s2)" "requests s' = requests s2"
proof -
  obtain r1 s1 where rd: "read_record_locked E rid s = (r1, s1)" by fastforce
  with assms obtain d where d: "r1 = Inr d" by (cases r1) (auto simp: locked_start_def)
  with assms rd obtain oc where oc: "body d = Inr oc" by (cases "body d") (auto simp: locked_start_def)
  show thesis
  proof (cases oc)
    case (Keep x)
    with assms rd d oc show thesis by (intro keep) (auto simp: locked_start_def)
  next
    case (Commit x ev)
    obtain r2 s2 where w: "write_record E x s1 = (r2, s2)" by fastforce
    with assms rd d oc Commit have r2: "r2 = Inr ()" by (cases r2) (auto simp: locked_start_def)
    obtain r3 s3 where x: "running_index E d rid ow (t 1) s2 = (r3, s3)" by fastforce
    have "requests s3 = requests s2" using arg_cong [OF x, of "\<lambda>p. requests (snd p)"] by simp
    with assms rd d oc Commit w r2 x show thesis
      by (intro commit [of d s1 ev s2])
        (auto simp: locked_start_def record_gateway_timeline_def split: sum.splits option.splits)
  qed
qed

text \<open>Reading keeps the fields that migration does not normalise.\<close>

lemma read_record_locked_fields:
  assumes "store_ok s" "read_record_locked E rid s = (Inr x, s1)" "rec_of s rid = Some d"
  shows "wf_rec x \<and> lc_of x = lc_of d \<and> dget x ''request-id'' = JStr rid \<and>
    (\<forall>k. k \<notin> set MIGRATED_KEYS \<longrightarrow> dget x k = dget d k)"
proof -
  have wf: "wf_rec d" "dget d ''request-id'' = JStr rid" using assms(1,3) by (auto simp: store_ok_def)
  have v: "dget d ''contract-version'' = JStr CONTRACT_VERSION" using wf(1) by (simp add: wf_rec_def)
  have m: "migrate_v1_payload E d = Inr x"
    using assms(2) by (cases rule: read_record_locked_cases) (use assms(3) in auto)
  then show ?thesis
    using migrate_same [OF m wf(1)] migrate_keeps [OF m v] wf(2) frozen_id [of d x] by simp
qed

lemma write_record_stored:
  assumes "write_record E u s1 = (Inr (), s2)" "dget u ''request-id'' = JStr rid"
  obtains d' where "rec_of s2 rid = Some d'" "lc_of d' = lc_of u"
    "\<forall>k. k \<notin> {''prompt-body'', ''output'', ''node-admission''} \<longrightarrow> dget d' k = dget u k"
  using assms(1)
proof (cases rule: write_record_cases)
  case (ok p rid')
  from ok(2) assms(2) have "rid' = rid" by simp
  with ok(3,4) show thesis
    by (intro that [of "redact_for_persistence p"])
      (auto simp: redact_same validate_same(1) [OF ok(3)] redact_keeps validate_record_keeps [OF ok(3)])
qed simp

text \<open>Both together: the two results of an operation on a stored record.\<close>

lemma locked_results:
  assumes "store_ok s" "rec_of s rid = Some d"
    "locked_update E rid body s = (Inr u, s') \<or> locked_start E rid ow body t s = (Inr u, s')"
    "lifecycle_op body"
  obtains (keep) x d' where "wf_rec x" "lc_of x = lc_of d" "body x = Inr (Keep u)" "rec_of s' rid = Some d'" "lc_of d' = lc_of d"
      "\<forall>k. k \<notin> set MIGRATED_KEYS \<longrightarrow> dget x k = dget d k"
  | (commit) x e d' where "wf_rec x" "lc_of x = lc_of d" "\<forall>k. k \<notin> set MIGRATED_KEYS \<longrightarrow> dget x k = dget d k"
      "body x = Inr (Commit u e)" "rec_of s' rid = Some d'" "lc_of d' = lc_of u"
      "\<forall>k. k \<notin> {''prompt-body'', ''output'', ''node-admission''} \<longrightarrow> dget d' k = dget u k"
proof -
  have "(\<exists>x s1. read_record_locked E rid s = (Inr x, s1) \<and> body x = Inr (Keep u) \<and> s' = s1) \<or>
    (\<exists>x s1 e s2. read_record_locked E rid s = (Inr x, s1) \<and> body x = Inr (Commit u e) \<and>
       write_record E u s1 = (Inr (), s2) \<and> requests s' = requests s2)"
    using assms(3)
  proof
    assume "locked_update E rid body s = (Inr u, s')"
    then show ?thesis by (cases rule: locked_update_InrE) blast+
  next
    assume "locked_start E rid ow body t s = (Inr u, s')"
    then show ?thesis by (cases rule: locked_start_InrE) blast+
  qed
  then show thesis
  proof (elim disjE exE conjE)
    fix x s1
    assume a: "read_record_locked E rid s = (Inr x, s1)" "body x = Inr (Keep u)" "s' = s1"
    note f = read_record_locked_fields [OF assms(1) a(1) assms(2)]
    from read_record_locked_ok(3) [OF assms(1) a(1)] obtain d1 where "rec_of s1 rid = Some d1" "lc_of d1 = lc_of x" by blast
    with a f show thesis by (intro keep [of x d1]) auto
  next
    fix x s1 e s2
    assume a: "read_record_locked E rid s = (Inr x, s1)" "body x = Inr (Commit u e)"
      "write_record E u s1 = (Inr (), s2)" "requests s' = requests s2"
    note f = read_record_locked_fields [OF assms(1) a(1) assms(2)]
    from lifecycle_op.commit [OF assms(4) _ a(2)] f have "frozen x u" by (simp add: rec_step_def)
    then have "dget u ''request-id'' = dget x ''request-id''" by (rule frozen_id)
    with f have "dget u ''request-id'' = JStr rid" by simp
    from write_record_stored [OF a(3) this] obtain d' where d': "rec_of s2 rid = Some d'" "lc_of d' = lc_of u"
      "\<forall>k. k \<notin> {''prompt-body'', ''output'', ''node-admission''} \<longrightarrow> dget d' k = dget u k" .
    have "rec_of s' rid = Some d'" using d'(1) a(4) by (simp add: rec_of_def)
    with a f d' show thesis by (intro commit [of x e d']) auto
  qed
qed

section \<open>Transitions\<close>



section \<open>Attempts\<close>

lemma start_owned_body_commit:
  assumes "wf_rec x" "start_owned_body ow wk rv t x = Inr (Commit u e)"
  shows "lc_of u = (lc_of x)\<lparr>lc_state := ''running'', lc_worker := Some wk, lc_attempt := lc_attempt (lc_of x) + 1,
        lc_revision := lc_revision (lc_of x) + 1\<rparr>"
    and "lc_owner (lc_of x) = Some ow" "lc_revision (lc_of x) = rv" "lc_state (lc_of x) = ''queued''"
proof -
  from assms(2) obtain st ep v where c: "check_expected_identity x (Some rv) (Some ow) None None = Inr ()"
    "ditem x ''state'' = Inr st" "ensure_transition st ''running'' = Inr ()" "bump x ''attempt-epoch'' = Inr ep"
    "bump x ''revision'' = Inr v"
    and u: "u = dupd x [(''state'', JStr ''running''), (''worker-id'', JStr wk), (''attempt-epoch'', ep),
          (''started-at'', JStr (t 0)), (''updated-at'', JStr (t 0)), (''revision'', v)]"
    unfolding start_owned_body_def rbind_eq_Inr by (elim exE conjE) (simp add: that)
  show "lc_of u = (lc_of x)\<lparr>lc_state := ''running'', lc_worker := Some wk, lc_attempt := lc_attempt (lc_of x) + 1,
        lc_revision := lc_revision (lc_of x) + 1\<rparr>"
    using bump_wf [OF assms(1) c(5)] bump_attempt [OF assms(1) c(4)] by (simp add: u lc_of_def)
  show "lc_owner (lc_of x) = Some ow" "lc_revision (lc_of x) = rv"
    using c(1) unfolding check_expected_identity_eq_Inr [OF assms(1)] by auto
  show "lc_state (lc_of x) = ''queued''"
    using c(2,3) by (auto simp: ensure_transition_eq_Inr transition_allowed_fn_iff lc_of_def dest!: ditem_Inr_dget)
qed

text \<open>An attempt starts exactly once per revision: a successful start was made by the owner of a
  queued request at its exact revision, and leaves a running request of that owner with the given
  worker, the next attempt epoch and the next revision.\<close>

theorem start_owned_attempt_effect:
  assumes "store_ok s" "rec_of s rid = Some d" "start_owned_attempt E rid ow wk rv t s = (Inr u, s')"
  shows "lc_state (lc_of d) = ''queued'' \<and> lc_owner (lc_of d) = Some ow \<and> lc_revision (lc_of d) = rv \<and>
    (\<exists>d'. rec_of s' rid = Some d' \<and> lc_of d' = (lc_of d)\<lparr>lc_state := ''running'', lc_worker := Some wk,
       lc_attempt := lc_attempt (lc_of d) + 1, lc_revision := rv + 1\<rparr>)"
proof -
  have ls: "locked_start E rid ow (start_owned_body ow wk rv t) t s = (Inr u, s')"
    using assms(3) by (auto simp: start_owned_attempt_def split: if_split_asm)
  from assms(1,2) disjI2 [OF ls] sto.lifecycle_op_axioms show ?thesis
  proof (cases rule: locked_results)
    case (commit x e d')
    note b = start_owned_body_commit [OF commit(1,4)]
    show ?thesis using b commit(2,5,6) by auto
  qed (auto simp: start_owned_body_def rbind_eq_Inr)
qed

definition claimed0 :: gw where
  "claimed0 = gw_of (record0 ''queued'' (JStr ''o1'') JNull)"

lemma claimed0_ok [simp]: "store_ok claimed0" "rec_of claimed0 ''req_a'' = Some (record0 ''queued'' (JStr ''o1'') JNull)"
  by (simp_all add: claimed0_def store_ok_record0 rec_of_gw_of)

section \<open>Takeover\<close>

lemma takeover_body_owner:
  assumes "wf_rec x" "takeover_body eo w nw h t x = Inr oc" "lc_state (lc_of x) \<in> {''queued'', ''running''}"
  shows "oc = Keep u \<Longrightarrow> lc_owner (lc_of x) = Some w"
    and "oc = Commit u e \<Longrightarrow> lc_owner (lc_of u) = Some w \<and> lc_state (lc_of u) = lc_state (lc_of x) \<and>
      lc_attempt (lc_of u) = lc_attempt (lc_of x)"
proof -
  from assms(2) obtain st where st: "ditem x ''state'' = Inr st"
    and r: "(if st \<notin> {JStr ''queued'', JStr ''running''} then Inr (Keep x) else
     rbind (guard_r (\<forall>w \<in> set_option eo. dget x ''dispatch-owner-epoch'' = JStr w)
              (ag_error ''CON-AGW-083'' ''gateway request dispatch ownership changed'' [])) (\<lambda>_.
     if dget x ''dispatch-owner-epoch'' = JStr w then Inr (Keep x) else
     rbind (takeover_recovery (obj_of (dget x ''recovery'')) (dget x ''dispatch-owner-epoch'') h) (\<lambda>recovery.
     rbind (bump x ''revision'') (\<lambda>rv.
     Inr (Commit (opt_set ''worker-id'' (map_option JStr nw)
               (dupd x [(''dispatch-owner-epoch'', JStr w),
                 (''dispatch-claimed-at'', dget x ''dispatch-claimed-at''), (''updated-at'', JStr (t 0)),
                 (''recovery'', JObj recovery), (''recovery-required'', JBool (st = JStr ''running'')),
                 (''revision'', rv)])) (emit ''recovery.owner-taken-over'' st
          [(''from-owner-epoch'', dget x ''dispatch-owner-epoch''), (''owner-epoch'', JStr w), (''handoff-id'', opt_json h),
           (''recovery-required'', JBool (st = JStr ''running''))])))))) = Inr oc"
    unfolding takeover_body_def rbind_eq_Inr Let_def by blast
  have "st \<in> {JStr ''queued'', JStr ''running''}"
    using assms(1,3) ditem_Inr_dget [OF st] by (cases st) (auto simp: lc_of_def wf_rec_def)
  with r show "oc = Keep u \<Longrightarrow> lc_owner (lc_of x) = Some w"
    and "oc = Commit u e \<Longrightarrow> lc_owner (lc_of u) = Some w \<and> lc_state (lc_of u) = lc_state (lc_of x) \<and>
      lc_attempt (lc_of u) = lc_attempt (lc_of x)"
    by (cases "dget x ''dispatch-owner-epoch'' = JStr w"; cases nw;
        auto simp: rbind_eq_Inr guard_r_eq_Inr lc_of_def opt_set_def)+
qed



end
