(* ===== verification/Cancel_Results.thy ===== *)
theory Cancel_Results
  imports Store_Results
begin

text \<open>
  Cancellation, by the state the request is in (\<open>mark_cancel_requested\<close>, \<open>acknowledge_cancel\<close>,
  \<open>cancel_queued_or_mark_requested\<close>), and what a cancelled queued request answers to a worker that
  wants to start it.
\<close>

lemma cancel_queued_body_effect:
  assumes "wf_rec x" "cancel_queued_body rid so ty aid re dg er t x = Inr oc"
  shows "oc = Keep u \<Longrightarrow> lc_state (lc_of x) \<noteq> ''queued'' \<and> (lc_state (lc_of x) = ''running'' \<longrightarrow> lc_cancel (lc_of x))"
    and "oc = Commit u e \<Longrightarrow>
      (lc_state (lc_of x) = ''queued'' \<longrightarrow> lc_state (lc_of u) = ''cancelled'' \<and> lc_cancel (lc_of u) \<and> lc_ack (lc_of u) = Some ''queue-worker'') \<and>
      (lc_state (lc_of x) = ''running'' \<longrightarrow> lc_state (lc_of u) = ''running'' \<and> lc_cancel (lc_of u)) \<and>
      (lc_state (lc_of x) \<notin> {''queued'', ''running''} \<longrightarrow> lc_state (lc_of u) = lc_state (lc_of x) \<and> lc_cancel (lc_of u) = lc_cancel (lc_of x))"
proof -
  from assms(2) obtain m st where st: "ditem x ''state'' = Inr st" and br:
    "(if st \<noteq> JStr ''queued'' then
       rbind (if st = JStr ''running'' then ditem x ''cancel-requested'' else Inr (JBool True)) (\<lambda>c.
       if \<not> truthy c then commit_cancel_mark so ty aid re m t x
       else if dg \<noteq> None then commit_diagnostics m t x
       else Inr (Keep x))
     else commit_cancel_queued so ty aid re m t x) = Inr oc"
    unfolding cancel_queued_body_def rbind_eq_Inr by (elim exE conjE) (rule that)
  have lst: "st = JStr (lc_state (lc_of x))"
    using ditem_Inr_dget [OF st] assms(1) by (cases st) (auto simp: lc_of_def wf_rec_def)
  have run: "(if \<not> lc_cancel (lc_of x) then commit_cancel_mark so ty aid re m t x
       else if dg \<noteq> None then commit_diagnostics m t x else Inr (Keep x)) = Inr oc" if "lc_state (lc_of x) = ''running''"
    using br lst that by (auto simp: rbind_eq_Inr lc_of_def split: if_split_asm dest!: ditem_Inr_dget)
  have oth: "(if dg \<noteq> None then commit_diagnostics m t x else Inr (Keep x)) = Inr oc"
    if "lc_state (lc_of x) \<notin> {''queued'', ''running''}"
    using br lst that by (simp add: rbind_eq_Inr)
  have que: "commit_cancel_queued so ty aid re m t x = Inr oc" if "lc_state (lc_of x) = ''queued''"
    using br lst that by simp
  consider (q) "lc_state (lc_of x) = ''queued''" | (r) "lc_state (lc_of x) = ''running''"
    | (o) "lc_state (lc_of x) \<notin> {''queued'', ''running''}" by blast
  then have "(oc = Keep u \<longrightarrow> lc_state (lc_of x) \<noteq> ''queued'' \<and> (lc_state (lc_of x) = ''running'' \<longrightarrow> lc_cancel (lc_of x))) \<and>
    (oc = Commit u e \<longrightarrow>
      (lc_state (lc_of x) = ''queued'' \<longrightarrow> lc_state (lc_of u) = ''cancelled'' \<and> lc_cancel (lc_of u) \<and> lc_ack (lc_of u) = Some ''queue-worker'') \<and>
      (lc_state (lc_of x) = ''running'' \<longrightarrow> lc_state (lc_of u) = ''running'' \<and> lc_cancel (lc_of u)) \<and>
      (lc_state (lc_of x) \<notin> {''queued'', ''running''} \<longrightarrow> lc_state (lc_of u) = lc_state (lc_of x) \<and> lc_cancel (lc_of u) = lc_cancel (lc_of x)))"
  proof cases
    case q
    from que [OF q] q show ?thesis by (auto simp: commit_cancel_queued_def rbind_eq_Inr lc_of_def)
  next
    case r
    from run [OF r] r show ?thesis
      by (cases "lc_cancel (lc_of x)"; cases dg)
        (auto simp: commit_cancel_mark_def commit_diagnostics_def rbind_eq_Inr Let_def lc_of_def)
  next
    case o
    from oth [OF o] o show ?thesis
      by (cases dg) (auto simp: commit_diagnostics_def rbind_eq_Inr lc_of_def)
  qed
  then show "oc = Keep u \<Longrightarrow> lc_state (lc_of x) \<noteq> ''queued'' \<and> (lc_state (lc_of x) = ''running'' \<longrightarrow> lc_cancel (lc_of x))"
    and "oc = Commit u e \<Longrightarrow>
      (lc_state (lc_of x) = ''queued'' \<longrightarrow> lc_state (lc_of u) = ''cancelled'' \<and> lc_cancel (lc_of u) \<and> lc_ack (lc_of u) = Some ''queue-worker'') \<and>
      (lc_state (lc_of x) = ''running'' \<longrightarrow> lc_state (lc_of u) = ''running'' \<and> lc_cancel (lc_of u)) \<and>
      (lc_state (lc_of x) \<notin> {''queued'', ''running''} \<longrightarrow> lc_state (lc_of u) = lc_state (lc_of x) \<and> lc_cancel (lc_of u) = lc_cancel (lc_of x))"
    by blast+
qed

text \<open>Cancelling is linearised with dispatch by the state under the lock: a queued request becomes
  cancelled and is acknowledged for the queue worker, a running one keeps running with the flag set, and
  a finished one is left as it is.\<close>

theorem cancel_by_state:
  assumes "store_ok s" "rec_of s rid = Some d" "cancel_queued_or_mark_requested E rid so ty aid re dg er t s = (Inr u, s')"
  shows "\<exists>d'. rec_of s' rid = Some d' \<and>
    (lc_state (lc_of d) = ''queued'' \<longrightarrow> lc_state (lc_of d') = ''cancelled'' \<and> lc_cancel (lc_of d') \<and> lc_ack (lc_of d') = Some ''queue-worker'') \<and>
    (lc_state (lc_of d) = ''running'' \<longrightarrow> lc_state (lc_of d') = ''running'' \<and> lc_cancel (lc_of d')) \<and>
    (lc_state (lc_of d) \<notin> {''queued'', ''running''} \<longrightarrow> lc_state (lc_of d') = lc_state (lc_of d) \<and> lc_cancel (lc_of d') = lc_cancel (lc_of d))"
proof -
  have lu: "locked_update E rid (cancel_queued_body rid so ty aid re dg er t) s = (Inr u, s')"
    using assms(3) by (simp add: cancel_queued_or_mark_requested_def)
  from assms(1,2) disjI1 [OF lu] cq.lifecycle_op_axioms show ?thesis
  proof (cases rule: locked_results)
    case (keep x d')
    note c = cancel_queued_body_effect(1) [OF keep(1,3) refl]
    show ?thesis by (rule exI [of _ d']) (use c keep(2,4,5) in auto)
  next
    case (commit x e d')
    note c = cancel_queued_body_effect(2) [OF commit(1,4) refl]
    show ?thesis by (rule exI [of _ d']) (use c commit(2,5,6) in simp)
  qed
qed

section \<open>Starting a cancelled session request\<close>

lemma cancelled_code_invalid: "\<exists>m. ag_error ''CON-AGW-CANCELLED'' msg ds = ValueError m"
proof -
  have "isl (validate_code ''CON-AGW-CANCELLED'')" by code_simp
  then show ?thesis using validate_code_cases [of "''CON-AGW-CANCELLED''"] by (auto simp: ag_error_def)
qed

text \<open>A worker that prepares or starts the session attempt of a queued request with the cancel flag
  is refused and nothing changes; the refusal reaches it as a \<open>ValueError\<close>, because the code
  \<open>CON-AGW-CANCELLED\<close> the operation names is not a valid error code.\<close>

theorem cancelled_session_start_value_error:
  assumes "store_ok s" "read_record_locked E rid s = (Inr d, s1)" "lc_state (lc_of d) = ''queued''" "lc_cancel (lc_of d)"
    "lc_owner (lc_of d) = Some ow" "ow \<noteq> []" "wk \<noteq> []"
  shows "(lc_revision (lc_of d) = rv \<longrightarrow>
      (\<exists>m. prepare_owned_session_attempt E rid ow wk rv o1 o2 o3 o4 t s = (Inl (ValueError m), s1))) \<and>
    (lc_worker (lc_of d) = Some wk \<and> lc_attempt (lc_of d) = ep \<and> 1 \<le> ep \<longrightarrow>
      (\<exists>m. start_owned_session_attempt E rid ow wk ep t s = (Inl (ValueError m), s1)))"
proof -
  have wf: "wf_rec d" using read_record_locked_ok(3) [OF assms(1,2)] by blast
  have st: "dget d ''state'' = JStr ''queued''" "truthy (dget d ''cancel-requested'')"
    using assms(3,4) wf by (auto simp: lc_of_def wf_rec_def elim!: is_str.elims)
  have di: "ditem d ''state'' = Inr (JStr ''queued'')" using st(1) by (auto simp: ditem_def dget_def split: option.splits)
  obtain m where m: "ag_error ''CON-AGW-CANCELLED'' ''gateway session request was cancelled'' [] = ValueError m"
    using cancelled_code_invalid by blast
  have "prepare_owned_session_attempt E rid ow wk rv o1 o2 o3 o4 t s = (Inl (ValueError m), s1)" if "lc_revision (lc_of d) = rv"
  proof -
    have "check_expected_identity d (Some rv) (Some ow) None None = Inr ()"
      unfolding check_expected_identity_eq_Inr [OF wf] using that assms(5) by simp
    then have "prepare_session_body ow wk rv o1 o2 o3 o4 t d = Inl (ValueError m)"
      using st di m by (simp add: prepare_session_body_def guard_r_def)
    with assms(2,6,7) show ?thesis by (simp add: prepare_owned_session_attempt_def locked_update_def)
  qed
  moreover have "start_owned_session_attempt E rid ow wk ep t s = (Inl (ValueError m), s1)"
    if "lc_worker (lc_of d) = Some wk" "lc_attempt (lc_of d) = ep" "1 \<le> ep"
  proof -
    have "check_expected_identity d None (Some ow) (Some wk) (Some ep) = Inr ()"
      unfolding check_expected_identity_eq_Inr [OF wf] using that assms(5) by simp
    then have "start_session_body ow wk ep t d = Inl (ValueError m)"
      using st di m by (simp add: start_session_body_def guard_r_def)
    with assms(2,6,7) that(3) show ?thesis
      by (simp add: start_owned_session_attempt_def require_owned_identity_def guard_r_def locked_start_def)
  qed
  ultimately show ?thesis by blast
qed

end
