(* ===== verification/Activity_Results.thy ===== *)
theory Activity_Results
  imports Store_Results
begin

text \<open>
  What accepted activity and the watchdog may change (\<open>record_owned_activity\<close>,
  \<open>mark_watchdog_intervention_if_expired\<close>): synthetic liveness does not renew the provider's lease,
  replays are ignored, the evidence trail is bounded, and an expired lease is a diagnostic and never
  ends a request.
\<close>

section \<open>Synthetic liveness\<close>

definition LEASE_FIELDS :: "string list" where
  "LEASE_FIELDS = [''activity-lease-expires-at'', ''watchdog-state'', ''watchdog-reason'', ''diagnostics'', ''diagnostic-evidence'', ''started-at'']"

lemma activity_body_cases:
  assumes "activity_body E rid ow wk ep ki so si sq ph ca le ag t d = Inr oc" "dget d ''activity'' = JObj a"
  obtains (dup) "oc = Keep d"
  | (beat) b where "ki = ''owner-heartbeat''" "commit_owner_heartbeat so (t 0) a b d = Inr oc"
  | (client) n b where "ki = ''client-liveness''" "commit_client_liveness so ph n (t 0) a b d = Inr oc"
  | (prov) n b where "ki \<noteq> ''owner-heartbeat''" "ki \<noteq> ''client-liveness''"
      "commit_provider_activity E rid ep so sq ph ca le n (t 0) a b d = Inr oc"
  using assms(1) unfolding activity_body_def rbind_eq_Inr Let_def assms(2) json.case
  by (elim exE conjE) (auto simp: rbind_eq_Inr split: if_split_asm intro: dup beat client prov)

lemma synthetic_commit:
  assumes "activity_body E rid ow wk ep ki so si sq ph ca le ag t d = Inr (Commit u e)" "dget d ''activity'' = JObj a"
    "ki \<in> {''owner-heartbeat'', ''client-liveness''}"
  shows "dget (obj_of (dget u ''activity'')) ''provider'' = dget a ''provider'' \<and> list_all (\<lambda>k. dget u k = dget d k) LEASE_FIELDS"
  using assms(1,2)
proof (cases rule: activity_body_cases)
  case (beat b)
  then show ?thesis by (auto simp: commit_owner_heartbeat_def rbind_eq_Inr LEASE_FIELDS_def)
next
  case (client n b)
  then show ?thesis by (auto simp: commit_client_liveness_def rbind_eq_Inr LEASE_FIELDS_def Let_def)
qed (use assms(3) in auto)

lemma owned_activity_InrE:
  assumes "record_owned_activity E rid ow wk ep ki so si sq ph ca le ag t s = (Inr u, s')"
  shows "locked_update E rid (activity_body E rid ow wk ep ki so si sq ph ca le ag t) s = (Inr u, s')" "ki \<in> set ACTIVITY_KINDS"
  using assms by (auto simp: record_owned_activity_def split: sum.splits if_split_asm)

text \<open>C32: Owner heartbeats and client liveness never pass for provider work: the provider's bucket, the
  lease, the watchdog state, the diagnostics and the evidence of the record they return are those of the
  record they read.\<close>

theorem synthetic_activity_keeps_lease:
  assumes "read_record_locked E rid s = (Inr d, s1)" "dget d ''activity'' = JObj a"
    "record_owned_activity E rid ow wk ep ki so si sq ph ca le ag t s = (Inr u, s')" "ki \<noteq> ''provider''"
  shows "dget (obj_of (dget u ''activity'')) ''provider'' = dget a ''provider'' \<and>
    (\<forall>k \<in> set LEASE_FIELDS. dget u k = dget d k)"
proof -
  have ki: "ki \<in> {''owner-heartbeat'', ''client-liveness''}"
    using owned_activity_InrE(2) [OF assms(3)] assms(4) by (simp add: ACTIVITY_KINDS_def)
  from owned_activity_InrE(1) [OF assms(3)] show ?thesis
  proof (cases rule: locked_update_InrE)
    case (keep x s2)
    then have x: "x = d" using assms(1) by simp
    from keep(2) have "u = d" unfolding x by (cases rule: activity_body_cases [OF _ assms(2), consumes 1])
      (auto simp: commit_owner_heartbeat_def commit_client_liveness_def commit_provider_activity_def rbind_eq_Inr Let_def)
    then show ?thesis using assms(2) by simp
  next
    case (commit x s2 ev s3)
    then have "x = d" using assms(1) by simp
    with commit(2) show ?thesis using synthetic_commit [OF _ assms(2) ki] by (simp add: list_all_iff)
  qed
qed

theorem synthetic_activity_keeps_lease_witness:
  "\<exists>u s'. record_owned_activity env0 ''req_a'' ''o1'' ''w1'' 2 ''owner-heartbeat'' ''gateway'' JNull None JNull JNull 30 None clock0 running0
      = (Inr u, s') \<and> dget u ''activity-lease-expires-at'' = JNull"
proof -
  let ?c = "record_owned_activity env0 ''req_a'' ''o1'' ''w1'' 2 ''owner-heartbeat'' ''gateway'' JNull None JNull JNull 30 None clock0 running0"
  let ?r = "read_record_locked env0 ''req_a'' running0"
  have "\<not> isl (fst ?c)" by code_simp
  then obtain u s' where c: "?c = (Inr u, s')" by (cases ?c; cases "fst ?c") auto
  have "case fst ?r of Inr d \<Rightarrow> is_dict (dget d ''activity'') \<and> dget d ''activity-lease-expires-at'' = JNull | Inl _ \<Rightarrow> False" by code_simp
  then obtain d a s1 where r: "?r = (Inr d, s1)" "dget d ''activity'' = JObj a" "dget d ''activity-lease-expires-at'' = JNull"
    by (cases ?r; cases "fst ?r") (auto elim!: is_dict.elims)
  from synthetic_activity_keeps_lease [OF r(1,2) c] r(3) c show ?thesis by (simp add: LEASE_FIELDS_def)
qed

section \<open>Replayed observations\<close>

text \<open>An observation whose sequence is not beyond the last one accepted from the same source
  instance is ignored: the record is returned as it was read and nothing is written.\<close>

theorem replayed_activity_ignored:
  assumes "read_record_locked E rid s = (Inr d, s1)" "wf_rec d" "lc_state (lc_of d) = ''running''"
    "\<not> fenced_out d ow wk ep" "ow \<noteq> []" "wk \<noteq> []" "1 \<le> ep"
    "ki \<in> set ACTIVITY_KINDS" "so \<noteq> []" "0 \<le> n" "0 < le"
    "dget d ''activity'' = JObj a" "dget a (activity_bucket ki) = JObj b"
    "jeq (dget b ''source-instance'') si" "dget b ''source-sequence'' = JInt m" "n \<le> m"
  shows "record_owned_activity E rid ow wk ep ki so si (Some n) ph ca le ag t s = (Inr d, s1)"
proof -
  have st: "ditem d ''state'' = Inr (JStr ''running'')"
    using assms(2,3) by (auto simp: ditem_def dget_def lc_of_def wf_rec_def split: option.splits elim!: is_str.elims)
  have id: "check_expected_identity d None (Some ow) (Some wk) (Some ep) = Inr ()"
    unfolding check_expected_identity_eq_Inr [OF assms(2)] using assms(4) by (simp add: fenced_out_def)
  have "activity_body E rid ow wk ep ki so si (Some n) ph ca le ag t d = Inr (Keep d)"
    using st id assms(12-16) by (simp add: activity_body_def activity_duplicate_def)
  then show ?thesis
    using assms(1,5-11) by (simp add: record_owned_activity_def require_owned_identity_def guard_r_def locked_update_def)
qed

definition observed0 :: gw where
  "observed0 = gw_of (record0 ''running'' (JStr ''o1'') (JStr ''w1'') @
     [(''activity'', JObj [(''provider'', JObj [(''source-instance'', JStr ''w1''), (''source-sequence'', JInt 7)])])])"

section \<open>Evidence\<close>

lemma append_evidence_bound: "append_evidence d e = Inr v \<Longrightarrow> \<exists>xs. v = JList xs \<and> length xs \<le> 8"
  by (auto simp: append_evidence_def split: json.splits)

text \<open>The evidence trail is bounded: accepted provider work, a watchdog mark and an evidence update
  leave at most eight entries, whatever was there.\<close>

theorem evidence_bounded:
  assumes "activity_body E rid ow wk ep ''provider'' so si sq ph ca le ag t d = Inr (Commit u e) \<or>
    watchdog_body E rid ow wk ep wall t d = Inr (Commit u e) \<or>
    update_diagnostics_body rid dg (Some evd) er t d = Inr (Commit u e)"
  shows "\<exists>xs. dget u ''diagnostic-evidence'' = JList xs \<and> length xs \<le> 8"
  using assms
proof (elim disjE)
  assume "activity_body E rid ow wk ep ''provider'' so si sq ph ca le ag t d = Inr (Commit u e)"
  then obtain n a b where "commit_provider_activity E rid ep so sq ph ca le n (t 0) a b d = Inr (Commit u e)"
    unfolding activity_body_def rbind_eq_Inr Let_def by (elim exE conjE) (auto simp: rbind_eq_Inr split: if_split_asm)
  then show ?thesis
    unfolding commit_provider_activity_def rbind_eq_Inr Let_def
    by (elim exE conjE) (auto simp: rbind_eq_Inr split: json.splits dest!: append_evidence_bound)
next
  assume "watchdog_body E rid ow wk ep wall t d = Inr (Commit u e)"
  then show ?thesis
    unfolding watchdog_body_def rbind_eq_Inr Let_def
    by (elim exE conjE) (auto simp: rbind_eq_Inr split: if_split_asm dest!: append_evidence_bound)
next
  assume "update_diagnostics_body rid dg (Some evd) er t d = Inr (Commit u e)"
  then show ?thesis
    unfolding update_diagnostics_body_def rbind_eq_Inr Let_def
    by (elim exE conjE) (auto simp: rbind_eq_Inr dest!: append_evidence_bound)
qed

section \<open>The watchdog\<close>

text \<open>Lease expiry is a suspicion and not a verdict: the watchdog leaves the request's lifecycle as it
  is, but for the revision when it writes its mark.\<close>

theorem watchdog_never_terminates:
  assumes "store_ok s" "rec_of s rid = Some d" "mark_watchdog_intervention_if_expired E rid ow wk ep wall t s = (Inr u, s')"
  shows "\<exists>d'. rec_of s' rid = Some d' \<and> lc_of d' \<in> {lc_of d, bumped (lc_of d)} \<and> lc_state (lc_of d') = lc_state (lc_of d)"
proof -
  have lu: "locked_update E rid (watchdog_body E rid ow wk ep wall t) s = (Inr u, s')"
    using assms(3) by (auto simp: mark_watchdog_intervention_if_expired_def split: sum.splits)
  from assms(1,2) disjI1 [OF lu] wd.lifecycle_op_axioms show ?thesis
  proof (cases rule: locked_results)
    case (commit x e d')
    from commit(4) obtain y ev wr v where v: "bump x ''revision'' = Inr v"
      and u: "u = dupd x [(''diagnostics'', JObj y), (''diagnostic-evidence'', ev),
            (''watchdog-state'', JStr ''intervention''), (''watchdog-reason'', JStr wr),
            (''updated-at'', JStr (t 0)), (''revision'', v)]"
      unfolding watchdog_body_def rbind_eq_Inr Let_def
      by (elim exE conjE) (auto simp: rbind_eq_Inr split: if_split_asm)
    have "lc_of u = bumped (lc_of x)" using bump_wf [OF commit(1) v] by (simp add: u lc_of_def bumped_def)
    then show ?thesis using commit(2,5,6) by (intro exI [of _ d']) simp
  qed auto
qed

end
