(* ===== verification/Node_System.thy ===== *)
theory Node_System
  imports Store_Results
begin

text \<open>
  The node dispatch along every history of the store.  Only the four node operations write the field
  \<open>node-dispatch\<close>; every other operation returns and stores the one it read.  So the dispatch of a
  request steps along the dispatch machine whatever runs beside it, and its safety facts hold for the
  whole store.
\<close>

section \<open>Operations that leave the dispatch alone\<close>

definition keeps_dispatch :: "(gw \<Rightarrow> 'r \<times> gw) \<Rightarrow> bool" where
  "keeps_dispatch f \<longleftrightarrow> (\<forall>s. store_ok s \<longrightarrow>
     (\<forall>rid. map_option (\<lambda>d. dispatch_of d) (rec_of (snd (f s)) rid) = map_option (\<lambda>d. dispatch_of d) (rec_of s rid)))"

lemma read_record_locked_keeps_dispatch:
  assumes "store_ok s" "read_record_locked E rid s = (r, s1)"
  shows "map_option (\<lambda>d. dispatch_of d) (rec_of s1 rid') = map_option (\<lambda>d. dispatch_of d) (rec_of s rid')"
proof (cases "rec_of s rid'")
  case None
  with assms(2) show ?thesis by (cases rule: read_record_locked_cases) auto
next
  case (Some d)
  from read_record_locked_dispatch(1) [OF assms Some] Some show ?thesis by auto
qed

locale dispatch_frame = lifecycle_op body for body +
  assumes frame: "body d = Inr (Commit d' ev) \<Longrightarrow> dispatch_of d' = dispatch_of d"
begin

lemma update_keeps: "keeps_dispatch (locked_update E rid body)"
  unfolding keeps_dispatch_def
proof (intro allI impI)
  fix s rid'
  assume ok: "store_ok s"
  obtain r1 s1 where rd: "read_record_locked E rid s = (r1, s1)" by fastforce
  note nd = read_record_locked_keeps_dispatch [OF ok rd]
  let ?s' = "snd (locked_update E rid body s)"
  show "map_option (\<lambda>d. dispatch_of d) (rec_of ?s' rid') = map_option (\<lambda>d. dispatch_of d) (rec_of s rid')"
  proof (cases "\<exists>d upd ev. r1 = Inr d \<and> body d = Inr (Commit upd ev) \<and> fst (write_record E upd s1) = Inr ()")
    case False
    have "?s' = s1"
    proof (cases "\<exists>d upd ev. r1 = Inr d \<and> body d = Inr (Commit upd ev)")
      case True
      then obtain d upd ev where c: "r1 = Inr d" "body d = Inr (Commit upd ev)" by blast
      obtain r2 s2 where w: "write_record E upd s1 = (r2, s2)" by fastforce
      then have "\<exists>e. r2 = Inl e \<and> s2 = s1" by (cases rule: write_record_cases) (use False c w in auto)
      with rd c w show ?thesis by (auto simp: locked_update_def)
    qed (use rd in \<open>auto simp: locked_update_def split: sum.splits outcome.splits\<close>)
    then show ?thesis using nd by simp
  next
    case True
    then obtain d upd ev s2 where r1: "r1 = Inr d" and b: "body d = Inr (Commit upd ev)"
      and w: "write_record E upd s1 = (Inr (), s2)" by (metis prod.collapse)
    from read_record_locked_ok(3) [OF ok rd r1] obtain d1 where d: "wf_rec d" "dget d ''request-id'' = JStr rid" "rec_of s1 rid = Some d1" by blast
    from w obtain p where p: "s2 = put_request rid (Doc (JObj (redact_for_persistence p))) s1" "dispatch_of p = dispatch_of upd"
      using commit [OF d(1) b] d(2)
      by (cases rule: write_record_cases) (auto simp: validate_record_keeps rec_step_def dest!: frozen_id)
    have "rec_of ?s' = rec_of s2" using rd r1 b w
      by (auto simp: locked_update_def rec_of_def record_gateway_timeline_def split: sum.splits option.splits)
    then have s': "rec_of ?s' x = (if x = rid then Some (redact_for_persistence p) else rec_of s1 x)" for x
      using p(1) by simp
    obtain d0 where d0: "rec_of s rid = Some d0" using nd [of rid] d(3) by (cases "rec_of s rid") auto
    then have "dispatch_of p = dispatch_of d0"
      using p(2) frame [OF b] read_record_locked_dispatch(2) [OF ok rd d0 r1 refl] by simp
    then show ?thesis using s' nd d0 by simp
  qed
qed

end

lemma keeps_dispatch_cong: "keeps_dispatch f \<Longrightarrow> (\<And>s. requests (snd (g s)) = requests (snd (f s))) \<Longrightarrow> keeps_dispatch g"
  by (simp add: keeps_dispatch_def rec_of_def)

lemma requests_locked_start: "requests (snd (locked_start E rid ow body t s)) = requests (snd (locked_update E rid body s))"
  by (auto simp: locked_start_def locked_update_def record_gateway_timeline_def
      split: prod.splits sum.splits outcome.splits option.splits)
    (metis requests_running_index snd_conv)+

context dispatch_frame
begin

lemma start_keeps: "keeps_dispatch (locked_start E rid ow body t)"
  by (rule keeps_dispatch_cong [OF update_keeps requests_locked_start])

end

section \<open>The bodies\<close>

lemma transition_frame:
  assumes "transition_body st us er eo ew ea t d = Inr (Commit d' e)" "illegal_fields us = []"
  shows "dispatch_of d' = dispatch_of d"
  using assms by (rule transition_body_commit_fields) (simp add: MUTABLE_RESULT_FIELDS_def)

lemma diagnostics_frame: "update_diagnostics_body rid dg ev er t d = Inr (Commit d' e) \<Longrightarrow> dispatch_of d' = dispatch_of d"
  unfolding update_diagnostics_body_def rbind_eq_Inr Let_def
  by (elim exE conjE) (auto simp: rbind_eq_Inr split: option.splits)

lemma mark_cancel_frame: "mark_cancel_body so ty aid re t d = Inr (Commit d' e) \<Longrightarrow> dispatch_of d' = dispatch_of d"
  unfolding mark_cancel_body_def commit_cancel_mark_def rbind_eq_Inr Let_def
  by (elim exE conjE) (auto simp: rbind_eq_Inr split: if_split_asm)

lemma acknowledge_frame: "acknowledge_body rid actor t d = Inr (Commit d' e) \<Longrightarrow> dispatch_of d' = dispatch_of d"
  unfolding acknowledge_body_def Let_def by (auto simp: rbind_eq_Inr split: if_split_asm)

lemma append_attempt_frame: "append_attempt_body p pr m st er sa fa eo ew ea t d = Inr (Commit d' e) \<Longrightarrow> dispatch_of d' = dispatch_of d"
  unfolding append_attempt_body_def rbind_eq_Inr Let_def by (elim exE conjE) auto

lemma cancel_queued_frame: "cancel_queued_body rid so ty aid re dg er t d = Inr (Commit d' e) \<Longrightarrow> dispatch_of d' = dispatch_of d"
  unfolding cancel_queued_body_def commit_cancel_mark_def commit_diagnostics_def commit_cancel_queued_def rbind_eq_Inr Let_def
  by (elim exE conjE) (auto simp: rbind_eq_Inr split: if_split_asm)

lemma link_replay_frame: "link_replay_body o_rid n t d = Inr (Commit d' e) \<Longrightarrow> dispatch_of d' = dispatch_of d"
  unfolding link_replay_body_def rbind_eq_Inr Let_def by (elim exE conjE) (auto simp: rbind_eq_Inr split: if_split_asm)

lemma recovered_frame: "recovered_body rid st er se rv rr rs t d = Inr (Commit d' e) \<Longrightarrow> dispatch_of d' = dispatch_of d"
  unfolding recovered_body_def rbind_eq_Inr
  by (elim exE conjE)
    (auto simp: recovered_diagnostics_def recovered_fields_def recovered_evidence_def ack_by_recovery_def rbind_eq_Inr split: if_split_asm)

lemma release_frame: "release_stale_body ep t d = Inr (Commit d' e) \<Longrightarrow> dispatch_of d' = dispatch_of d"
  unfolding release_stale_body_def rbind_eq_Inr by (elim exE conjE) auto

lemma takeover_frame: "takeover_body eo w nw h t d = Inr (Commit d' e) \<Longrightarrow> dispatch_of d' = dispatch_of d"
  unfolding takeover_body_def rbind_eq_Inr Let_def by (elim exE conjE) (auto simp: rbind_eq_Inr split: if_split_asm)

lemma claim_frame: "claim_outcome w er sr t d = Inr (Commit d' e) \<Longrightarrow> dispatch_of d' = dispatch_of d"
  by (cases "claim_body w er sr t d") (auto simp: claim_outcome_def split: claim.splits elim!: claim_body_cases)

lemma start_attempt_frame: "start_attempt_body wk t d = Inr (Commit d' e) \<Longrightarrow> dispatch_of d' = dispatch_of d"
  unfolding start_attempt_body_def rbind_eq_Inr by (elim exE conjE) auto

lemma start_owned_frame: "start_owned_body ow wk er t d = Inr (Commit d' e) \<Longrightarrow> dispatch_of d' = dispatch_of d"
  unfolding start_owned_body_def rbind_eq_Inr by (elim exE conjE) auto

lemma prepare_frame: "prepare_session_body ow wk er so mo se ge t d = Inr (Commit d' e) \<Longrightarrow> dispatch_of d' = dispatch_of d"
  unfolding prepare_session_body_def rbind_eq_Inr Let_def by (elim exE conjE) auto

lemma start_session_frame: "start_session_body ow wk ep t d = Inr (Commit d' e) \<Longrightarrow> dispatch_of d' = dispatch_of d"
  unfolding start_session_body_def rbind_eq_Inr by (elim exE conjE) (auto simp: rbind_eq_Inr split: if_split_asm)

lemma bind_start_frame: "bind_start_body ow wk er so mo se ge t d = Inr (Commit d' e) \<Longrightarrow> dispatch_of d' = dispatch_of d"
  unfolding bind_start_body_def rbind_eq_Inr Let_def by (elim exE conjE) auto

lemma defer_frame: "defer_body E ow wk ep er ph se dl co aq rv t d = Inr (Commit d' e) \<Longrightarrow> dispatch_of d' = dispatch_of d"
  unfolding defer_body_def rbind_eq_Inr Let_def by (elim exE conjE) (clarsimp split del: if_split, simp split: if_split)

lemma session_update_frame:
  assumes "session_update_body rid ow wk ep sid md w c rs t d = Inr (Commit d' e)"
  shows "dispatch_of d' = dispatch_of d"
proof -
  from assms obtain u1 u2 v where u1: "session_metadata w c (dset ''session-id'' (JStr sid) d) = Inr u1"
    and u2: "apply_results rs (opt_set ''provider-metadata'' (map_option JObj md) u1) = Inr u2"
    and d': "d' = dupd u2 [(''updated-at'', JStr (t 0)), (''revision'', v)]"
    unfolding session_update_body_def rbind_eq_Inr by (auto simp: rbind_eq_Inr split: if_split_asm)
  show ?thesis by (simp add: d' apply_results_other [OF u2] MUTABLE_RESULT_FIELDS_def session_metadata_other [OF u1])
qed

lemma activity_frame:
  assumes "activity_body E rid ow wk ep ki so si sq ph ca le ag t d = Inr (Commit d' e)"
  shows "dispatch_of d' = dispatch_of d"
proof -
  from assms obtain a b n where
    "commit_owner_heartbeat so (t 0) a b d = Inr (Commit d' e) \<or>
     commit_client_liveness so ph n (t 0) a b d = Inr (Commit d' e) \<or>
     commit_provider_activity E rid ep so sq ph ca le n (t 0) a b d = Inr (Commit d' e)"
    unfolding activity_body_def rbind_eq_Inr Let_def
    by (elim exE conjE) (auto simp: rbind_eq_Inr split: if_split_asm)
  then show ?thesis
    unfolding commit_owner_heartbeat_def commit_client_liveness_def commit_provider_activity_def rbind_eq_Inr Let_def
    by (elim disjE exE conjE) (auto simp: rbind_eq_Inr split: json.splits)
qed

lemma watchdog_frame: "watchdog_body E rid ow wk ep wall t d = Inr (Commit d' e) \<Longrightarrow> dispatch_of d' = dispatch_of d"
  unfolding watchdog_body_def rbind_eq_Inr Let_def by (elim exE conjE) (auto simp: rbind_eq_Inr split: if_split_asm)

section \<open>The operations\<close>

interpretation fud: dispatch_frame "update_diagnostics_body rid dg ev er t" for rid dg ev er t
  by unfold_locales (rule diagnostics_frame)

interpretation fmc: dispatch_frame "mark_cancel_body so ty aid re t" for so ty aid re t
  by unfold_locales (rule mark_cancel_frame)

interpretation fcq: dispatch_frame "cancel_queued_body rid so ty aid re dg er t" for rid so ty aid re dg er t
  by unfold_locales (rule cancel_queued_frame)

interpretation faa: dispatch_frame "append_attempt_body p pr m st er sa fa eo ew ea t" for p pr m st er sa fa eo ew ea t
  by unfold_locales (rule append_attempt_frame)

interpretation flr: dispatch_frame "link_replay_body a_rid b_rid t" for a_rid b_rid t
  by unfold_locales (rule link_replay_frame)

interpretation frel: dispatch_frame "release_stale_body ep t" for ep t
  by unfold_locales (rule release_frame)

interpretation fsta: dispatch_frame "start_attempt_body wk t" for wk t
  by unfold_locales (rule start_attempt_frame)

interpretation fsto: dispatch_frame "start_owned_body ow wk er t" for ow wk er t
  by unfold_locales (rule start_owned_frame)

interpretation fbst: dispatch_frame "bind_start_body ow wk er so mo se ge t" for ow wk er so mo se ge t
  by unfold_locales (rule bind_start_frame)

interpretation fprs: dispatch_frame "prepare_session_body ow wk er so mo se ge t" for ow wk er so mo se ge t
  by unfold_locales (rule prepare_frame)

interpretation fsts: dispatch_frame "start_session_body ow wk ep t" for ow wk ep t
  by unfold_locales (rule start_session_frame)

interpretation fdfr: dispatch_frame "defer_body E ow wk ep er ph se dl co aq rv t" for E ow wk ep er ph se dl co aq rv t
  by unfold_locales (rule defer_frame)

interpretation fsup: dispatch_frame "session_update_body rid ow wk ep sid md w c rs t" for rid ow wk ep sid md w c rs t
  by unfold_locales (rule session_update_frame)

interpretation fact: dispatch_frame "activity_body E rid ow wk ep ki so si sq ph ca le ag t" for E rid ow wk ep ki so si sq ph ca le ag t
  by unfold_locales (rule activity_frame)

interpretation fwd: dispatch_frame "watchdog_body E rid ow wk ep wall t" for E rid ow wk ep wall t
  by unfold_locales (rule watchdog_frame)

text \<open>The bodies that are lifecycle operations under a condition on their parameters only.\<close>

lemma conditional_frames:
  "illegal_fields us = [] \<Longrightarrow> dispatch_frame (transition_body st us er eo ew ea t)"
  "actor \<in> set CANCEL_ACK_ACTORS \<Longrightarrow> dispatch_frame (acknowledge_body rid actor t)"
  "st \<in> set TERMINAL_STATES \<Longrightarrow> dispatch_frame (recovered_body rid st e se rv rr rs t)"
  "w \<noteq> [] \<Longrightarrow> dispatch_frame (takeover_body xo w nw h t)"
  "w \<noteq> [] \<Longrightarrow> dispatch_frame (claim_outcome w erv sr t)"
  by (simp_all add: dispatch_frame_def dispatch_frame_axioms_def transition_op acknowledge_op recovered_op takeover_op claim_op)
    (blast dest: transition_frame acknowledge_frame recovered_frame takeover_frame claim_frame)+

lemma keeps_dispatch_const [simp]: "keeps_dispatch (Pair x)" "keeps_dispatch (\<lambda>s. (x, s))"
  by (simp_all add: keeps_dispatch_def)

lemma keeps_dispatch_if: "(b \<Longrightarrow> keeps_dispatch f) \<Longrightarrow> (\<not> b \<Longrightarrow> keeps_dispatch g) \<Longrightarrow> keeps_dispatch (\<lambda>s. if b then f s else g s)"
  by (cases b) simp_all

lemma keeps_dispatch_case: "(\<And>x. m = Inr x \<Longrightarrow> keeps_dispatch (f x)) \<Longrightarrow> keeps_dispatch (\<lambda>s. case m of Inl e \<Rightarrow> (Inl e, s) | Inr x \<Rightarrow> f x s)"
  by (cases m) simp_all

lemmas frame_updates = fud.update_keeps fmc.update_keeps fcq.update_keeps faa.update_keeps flr.update_keeps frel.update_keeps
  fsta.update_keeps fsto.start_keeps fbst.update_keeps fprs.update_keeps fsts.start_keeps fdfr.update_keeps fsup.update_keeps
  fact.update_keeps fwd.update_keeps conditional_frames [THEN dispatch_frame.update_keeps]

lemma transition_keeps: "keeps_dispatch (transition_record E rid st us er eo ew ea t)"
  unfolding transition_record_def [abs_def] by (intro keeps_dispatch_if keeps_dispatch_const) (simp add: frame_updates)

lemma owned_terminal_keeps: "keeps_dispatch (transition_owned_terminal E rid st ow w ep us er sr t)"
proof (cases "st \<in> set TERMINAL_STATES \<and> require_owned_identity (Some ow) (Some w) ep = Inr ()")
  case True
  then show ?thesis
    by (intro keeps_dispatch_cong [OF transition_keeps [of E rid st "terminal_updates us" er "Some ow" "Some w" "Some ep" t]])
      (auto simp: transition_owned_terminal_def Let_def split: sum.splits prod.splits)
next
  case False
  then have "snd (transition_owned_terminal E rid st ow w ep us er sr t s) = s" for s
    by (auto simp: transition_owned_terminal_def split: sum.splits)
  then show ?thesis by (simp add: keeps_dispatch_def)
qed

lemma claim_keeps: "keeps_dispatch (claim_dispatch E pr rid w er sr t)"
proof (cases "w = []")
  case True
  then show ?thesis by (simp add: keeps_dispatch_def claim_dispatch_def)
next
  case False
  have "requests (snd (claim_dispatch E pr rid w er sr t s)) = requests (snd (locked_update E rid (claim_outcome w er sr t) s))" for s
    using False
    by (auto simp: claim_dispatch_def locked_update_def claim_outcome_def record_gateway_timeline_def
        split: prod.splits sum.splits outcome.splits option.splits claim.splits)
      (metis requests_claim_index requests_cleanup(3) snd_conv)+
  then show ?thesis using False by (intro keeps_dispatch_cong [OF frame_updates(20)]) simp_all
qed

lemma activity_keeps: "keeps_dispatch (record_owned_activity E rid ow w ep ki so si sq ph ca le ag t)"
  unfolding record_owned_activity_def [abs_def]
  by (intro keeps_dispatch_case keeps_dispatch_if keeps_dispatch_const frame_updates)

lemmas dispatch_keeps = transition_keeps owned_terminal_keeps claim_keeps activity_keeps

lemma plain_keeps:
  "keeps_dispatch (update_diagnostics E rid dg ev er t)"
  "keeps_dispatch (mark_cancel_requested E rid so ty aid re t)"
  "keeps_dispatch (append_attempt E rid p pr m st e sa fa eo ew ea t)"
  "keeps_dispatch (cancel_queued_or_mark_requested E rid so ty aid re odg er t)"
  "keeps_dispatch (link_replay E rid rid2 t)"
  "keeps_dispatch (release_stale_claim E rid oe t)"
  by (simp_all add: update_diagnostics_def [abs_def] mark_cancel_requested_def [abs_def] append_attempt_def [abs_def]
      cancel_queued_or_mark_requested_def [abs_def] link_replay_def [abs_def] release_stale_claim_def [abs_def] frame_updates)

lemma guarded_keeps:
  "keeps_dispatch (acknowledge_cancel E rid actor t)"
  "keeps_dispatch (append_owned_attempt E rid ow w ep p pr m st e sa fa t)"
  "keeps_dispatch (transition_recovered_terminal E rid st e se rv rr rs t)"
  "keeps_dispatch (takeover_nonterminal_owner E rid xo ow nw h t)"
  "keeps_dispatch (start_attempt E rid w t)"
  "keeps_dispatch (start_owned_attempt E rid ow w rn t)"
  "keeps_dispatch (prepare_owned_session_attempt E rid ow w rn o1 o2 o3 o4 t)"
  "keeps_dispatch (start_owned_session_attempt E rid ow w ep t)"
  "keeps_dispatch (bind_and_start_owned_attempt E rid ow w rn src mdl o3 o4 t)"
  "keeps_dispatch (defer_owned_recovery E rid ow ew ep e ph se' dl co aq er t)"
  "keeps_dispatch (update_owned_running_session E rid ow w ep sid md wa cu rs' t)"
  "keeps_dispatch (renew_owned_activity E rid ow w ep sqn so le t)"
  "keeps_dispatch (mark_watchdog_intervention_if_expired E rid ow w ep wall t)"
  unfolding acknowledge_cancel_def [abs_def] append_owned_attempt_def [abs_def] append_attempt_def [abs_def]
    transition_recovered_terminal_def [abs_def] takeover_nonterminal_owner_def [abs_def] start_attempt_def [abs_def]
    start_owned_attempt_def [abs_def] prepare_owned_session_attempt_def [abs_def] start_owned_session_attempt_def [abs_def]
    bind_and_start_owned_attempt_def [abs_def] defer_owned_recovery_def [abs_def] update_owned_running_session_def [abs_def]
    renew_owned_activity_def [abs_def] mark_watchdog_intervention_if_expired_def [abs_def]
  by (intro keeps_dispatch_case keeps_dispatch_if keeps_dispatch_const frame_updates activity_keeps; simp)+

section \<open>Histories\<close>

lemma keeps_dispatch_node:
  assumes "keeps_dispatch f" "store_ok s" "node_ok s"
  shows "node_ok (snd (f s)) \<and> node_path s (snd (f s))"
proof -
  from assms(1,2) have k: "map_option (\<lambda>d. dispatch_of d) (rec_of (snd (f s)) rid) = map_option (\<lambda>d. dispatch_of d) (rec_of s rid)" for rid
    by (simp add: keeps_dispatch_def)
  have "wf_nd (dispatch_of d')" if "rec_of (snd (f s)) rid = Some d'" for rid d'
    using k [of rid] that assms(3) by (cases "rec_of s rid") (auto simp: node_ok_def)
  moreover have "\<exists>d'. rec_of (snd (f s)) rid = Some d' \<and> dispatch_of d' = dispatch_of d" if "rec_of s rid = Some d" for rid d
    using k [of rid] that by auto
  ultimately show ?thesis unfolding node_ok_def node_path_def by (metis rtranclp.rtrancl_refl)
qed

lemma keeps_nodeD: "keeps_node_contract f \<Longrightarrow> store_ok s \<Longrightarrow> node_ok s \<Longrightarrow> node_ok (snd (f s)) \<and> node_path s (snd (f s))"
  by (simp add: keeps_node_contract_def)

lemma store_step_node:
  assumes "store_step E s s'" "store_ok s" "node_ok s"
  shows "node_ok s' \<and> node_path s s'"
  using assms(1)
  by cases (simp_all add: keeps_nodeD [OF _ assms(2,3)] node_contracts keeps_dispatch_node [OF _ assms(2,3)]
      dispatch_keeps plain_keeps guarded_keeps)

lemma node_path_trans: "node_path a b \<Longrightarrow> node_path b c \<Longrightarrow> node_path a c"
  unfolding node_path_def by (meson rtranclp_trans)

lemma store_steps_node:
  assumes "(store_step E)\<^sup>*\<^sup>* s s'" "store_ok s" "node_ok s"
  shows "node_ok s' \<and> node_path s s'"
  using assms
proof (induction rule: rtranclp_induct)
  case (step y z)
  then show ?case
    using store_step_node [OF step.hyps(2)] store_steps_contract [OF step.hyps(1)] node_path_trans by blast
qed simp

text \<open>C7: A dispatch that was fenced as having had no effect stays so whatever operations follow, on
  this request or beside it: it is never authorized, so no effect can be claimed for it later.\<close>

theorem no_effect_fence_permanent:
  assumes "(store_step E)\<^sup>*\<^sup>* s s'" "store_ok s" "node_ok s" "rec_of s rid = Some d"
    "nd_of (dispatch_of d) = Some b" "nd_state b = ''no-effect''" "nd_auth b = None"
  shows "\<exists>d' b'. rec_of s' rid = Some d' \<and> nd_of (dispatch_of d') = Some b' \<and> nd_identity b' = nd_identity b \<and>
    nd_state b' = ''no-effect'' \<and> nd_auth b' = None"
proof -
  from store_steps_node [OF assms(1-3)] assms(4) obtain d' where d': "rec_of s' rid = Some d'"
    "nd_step\<^sup>*\<^sup>* (nd_of (dispatch_of d)) (nd_of (dispatch_of d'))" unfolding node_path_def by blast
  note st = d'(2) [unfolded assms(5)]
  from nd_steps_no_effect [OF st assms(6,7)] nd_steps_identity [OF st] d'(1) show ?thesis by auto
qed

text \<open>C8: A bound node command is immutable evidence: along every history its identity is the same, its
  receipt sequence never falls, and an effect is on record only for an authorized command.\<close>

theorem node_binding_immutable:
  assumes "(store_step E)\<^sup>*\<^sup>* s s'" "store_ok s" "node_ok s" "rec_of s rid = Some d"
    "nd_of (dispatch_of d) = Some b" "nd_sound b"
  shows "\<exists>d' b'. rec_of s' rid = Some d' \<and> nd_of (dispatch_of d') = Some b' \<and> nd_identity b' = nd_identity b \<and>
    nd_sequence b \<le> nd_sequence b' \<and> (nd_stage b' \<notin> {None, Some ''prepared''} \<longrightarrow> nd_auth b' \<noteq> None)"
proof -
  from store_steps_node [OF assms(1-3)] assms(4) obtain d' where d': "rec_of s' rid = Some d'"
    "nd_step\<^sup>*\<^sup>* (nd_of (dispatch_of d)) (nd_of (dispatch_of d'))" unfolding node_path_def by blast
  note st = d'(2) [unfolded assms(5)]
  from nd_steps_identity [OF st] obtain b' where b': "nd_of (dispatch_of d') = Some b'" "nd_identity b' = nd_identity b"
    "nd_sequence b \<le> nd_sequence b'" by blast
  have "nd_sound b'" using nd_steps_sound [OF st] assms(6) b'(1) by simp
  then have "nd_stage b' \<notin> {None, Some ''prepared''} \<longrightarrow> nd_auth b' \<noteq> None" by (simp add: nd_sound_def)
  with d'(1) b' show ?thesis by blast
qed

definition fenced0 :: gw where
  "fenced0 = gw_of (record0 ''running'' (JStr ''o1'') (JStr ''w1'') @
     [(''node-dispatch'', JObj [(''identity'', JObj []), (''attestation-sha256'', JStr ''a''), (''authorization-id'', JNull),
        (''authorization-state'', JStr ''no-effect''), (''receipt-sequence'', JInt 0), (''receipt-sha256'', JNull),
        (''receipt-stage'', JNull), (''output-sha256'', JNull)])])"

lemma fenced0_facts:
  "store_ok fenced0" "node_ok fenced0"
  "\<exists>d b. rec_of fenced0 ''req_a'' = Some d \<and> nd_of (dispatch_of d) = Some b \<and> nd_state b = ''no-effect'' \<and> nd_auth b = None \<and>
     nd_sound b \<and> nd_sequence b = 0"
  by (simp_all add: fenced0_def store_ok_def node_ok_def rec_of_gw_of record0_def wf_rec_def wf_nd_def nd_sound_def dget_Cons
      CONTRACT_VERSION_def)

theorem no_effect_fence_permanent_witness:
  "\<exists>d' b'. rec_of (snd (mark_cancel_requested env0 ''req_a'' ''api'' ''client'' None None clock0 fenced0)) ''req_a'' = Some d' \<and>
     nd_of (dispatch_of d') = Some b' \<and> nd_state b' = ''no-effect''"
proof -
  have "(store_step env0)\<^sup>*\<^sup>* fenced0 (snd (mark_cancel_requested env0 ''req_a'' ''api'' ''client'' None None clock0 fenced0))"
    by (blast intro: store_step.mark_cancel)
  with fenced0_facts no_effect_fence_permanent [OF this] show ?thesis by blast
qed

theorem node_binding_immutable_witness:
  "\<exists>d' b'. rec_of (snd (start_attempt env0 ''req_a'' ''w2'' clock0 fenced0)) ''req_a'' = Some d' \<and>
     nd_of (dispatch_of d') = Some b' \<and> 0 \<le> nd_sequence b'"
proof -
  have "(store_step env0)\<^sup>*\<^sup>* fenced0 (snd (start_attempt env0 ''req_a'' ''w2'' clock0 fenced0))"
    by (blast intro: store_step.start)
  with fenced0_facts node_binding_immutable [OF this] show ?thesis by (metis (no_types, lifting))
qed

end
