(* ===== verification/Response_Artifacts.thy ===== *)
theory Response_Artifacts
  imports Store_Examples "HOL-Library.Sublist"
begin

text \<open>
  The terminal response artifact of a request (\<open>gateway/output.py\<close>): the exact response is kept
  in a file of its own, the record holds its size, digest and a bounded preview.  A text is its
  UTF-8 encoding, one \<open>char\<close> per byte, so \<open>encode\<close> is the identity; \<open>decode(errors=ignore)\<close> is
  \<open>utf8_ignore\<close>, which keeps the well-formed sequences and drops every other byte.  The project
  directory is the gateway state together with the response files, the idempotency index and the
  enqueue sequence.
\<close>

record proj =
  pgw :: gw
  final_files :: "(string \<times> string) list"
  failure_files :: "(string \<times> string) list"
  idem_files :: "(string \<times> doc) list"
  sequence_file :: "doc option"

section \<open>UTF-8\<close>

definition byte_in :: "nat \<Rightarrow> nat \<Rightarrow> char \<Rightarrow> bool" where
  "byte_in lo hi c \<longleftrightarrow> lo \<le> (of_char c :: nat) \<and> (of_char c :: nat) \<le> hi"

abbreviation cont_byte :: "char \<Rightarrow> bool" where
  "cont_byte \<equiv> byte_in 128 191"

text \<open>The length of the well-formed sequence at the head of a byte string, 0 when there is none.\<close>

fun utf8_seq :: "string \<Rightarrow> nat" where
  "utf8_seq [] = 0"
| "utf8_seq (a # s) =
     (if byte_in 0 127 a then 1
      else if byte_in 194 223 a then (case s of b # _ \<Rightarrow> if cont_byte b then 2 else 0 | _ \<Rightarrow> 0)
      else if byte_in 224 239 a then (case s of b # c # _ \<Rightarrow>
          if byte_in (if byte_in 224 224 a then 160 else 128) (if byte_in 237 237 a then 159 else 191) b \<and> cont_byte c
          then 3 else 0 | _ \<Rightarrow> 0)
      else if byte_in 240 244 a then (case s of b # c # d # _ \<Rightarrow>
          if byte_in (if byte_in 240 240 a then 144 else 128) (if byte_in 244 244 a then 143 else 191) b \<and> cont_byte c \<and> cont_byte d
          then 4 else 0 | _ \<Rightarrow> 0)
      else 0)"

function utf8_ignore :: "string \<Rightarrow> string" where
  "utf8_ignore [] = []"
| "utf8_ignore (a # s) =
     (case utf8_seq (a # s) of 0 \<Rightarrow> utf8_ignore s | Suc n \<Rightarrow> a # take n s @ utf8_ignore (drop n s))"
  by pat_completeness auto

termination
  by (relation "measure length") auto

definition valid_utf8 :: "string \<Rightarrow> bool" where
  "valid_utf8 s \<longleftrightarrow> utf8_ignore s = s"

definition FINAL_RESPONSE_PREVIEW_BYTES :: nat where
  "FINAL_RESPONSE_PREVIEW_BYTES = 4096"

definition truncation_marker :: string where
  "truncation_marker = [CHR 0x0A, CHR 0xE2, CHR 0x80, CHR 0xA6] @ ''[truncated]''"

definition utf8_preview :: "string \<Rightarrow> nat \<Rightarrow> string \<times> bool" where
  "utf8_preview raw limit =
     (if length raw \<le> limit then (raw, False)
      else let body = utf8_ignore (take (limit - length truncation_marker) raw)
           in (utf8_ignore (take limit (body @ truncation_marker)), True))"

section \<open>Artifacts\<close>

definition validated_final_media_type :: "string \<Rightarrow> string res" where
  "validated_final_media_type v =
     (if v \<in> {''text/plain; charset=utf-8'', ''text/markdown; charset=utf-8''} then Inr v
      else Inl (ag_error ''VAL-AGW-149'' ''gateway final response media type is unsupported''
             [(''media-type'', JStr (take 128 v))]))"

definition artifact_of :: "('a genv_scheme) \<Rightarrow> string \<Rightarrow> string \<Rightarrow> string \<Rightarrow> string \<Rightarrow> dict" where
  "artifact_of E aid rid media raw =
     (let (preview, truncated) = utf8_preview raw FINAL_RESPONSE_PREVIEW_BYTES in
      [(''artifact-id'', JStr aid), (''request-id'', JStr rid), (''media-type'', JStr media),
       (''bytes'', JInt (int (length raw))), (''sha256'', JStr (sha256_hex E raw)),
       (''output-preview'', JStr preview), (''output-truncated'', JBool truncated)])"

definition final_response_artifact :: "('a genv_scheme) \<Rightarrow> string \<Rightarrow> string \<Rightarrow> string \<Rightarrow> dict res" where
  "final_response_artifact E raw rid media =
     rbind (validated_final_media_type media) (\<lambda>m. Inr (artifact_of E ''final-response'' rid m raw))"

definition request_is_terminal :: "string \<Rightarrow> proj \<Rightarrow> bool" where
  "request_is_terminal rid p = (case map_of (requests (pgw p)) rid of
     Some (Doc (JObj d)) \<Rightarrow> dget d ''state'' \<notin> {JStr ''queued'', JStr ''dispatching'', JStr ''running''}
   | _ \<Rightarrow> False)"

definition persist_final_response ::
    "('a genv_scheme) \<Rightarrow> string \<Rightarrow> string \<Rightarrow> string \<Rightarrow> bool \<Rightarrow> proj \<Rightarrow> dict res \<times> proj" where
  "persist_final_response E rid raw media allow_terminal p =
     (case final_response_artifact E raw rid media of
        Inl e \<Rightarrow> (Inl e, p)
      | Inr art \<Rightarrow> (Inr art,
          if \<not> allow_terminal \<and> request_is_terminal rid p then p
          else p\<lparr>final_files := AList.update rid raw (final_files p)\<rparr>))"

definition verified_file :: "('a genv_scheme) \<Rightarrow> string \<Rightarrow> string \<Rightarrow> string option \<Rightarrow> dict \<Rightarrow> string res" where
  "verified_file E code msg content art = (case content of
     None \<Rightarrow> Inl (OSError ''FileNotFoundError'')
   | Some raw \<Rightarrow>
       if \<not> jeq (JInt (int (length raw))) (dget art ''bytes'') \<or> dget art ''sha256'' \<noteq> JStr (sha256_hex E raw)
       then Inl (ag_error code msg [])
       else if valid_utf8 raw then Inr raw else Inl (ValueError ''UnicodeDecodeError''))"

definition read_final_response :: "('a genv_scheme) \<Rightarrow> string \<Rightarrow> dict \<Rightarrow> proj \<Rightarrow> string res" where
  "read_final_response E rid art p =
     verified_file E ''CON-AGW-140'' ''gateway response artifact integrity check failed'' (map_of (final_files p) rid) art"

definition persist_failure_response :: "('a genv_scheme) \<Rightarrow> string \<Rightarrow> string \<Rightarrow> proj \<Rightarrow> dict \<times> proj" where
  "persist_failure_response E rid raw p =
     (artifact_of E ''failure-response'' rid ''text/plain; charset=utf-8'' raw,
      p\<lparr>failure_files := AList.update rid raw (failure_files p)\<rparr>)"

definition read_failure_response :: "('a genv_scheme) \<Rightarrow> string \<Rightarrow> dict \<Rightarrow> proj \<Rightarrow> string res" where
  "read_failure_response E rid art p =
     verified_file E ''CON-AGW-142'' ''gateway failure response artifact integrity check failed''
       (map_of (failure_files p) rid) art"

section \<open>Decoding\<close>

lemma utf8_seq_le: "utf8_seq s \<le> length s"
  by (cases s) (auto split: list.splits)

lemma utf8_seq_le4: "utf8_seq s \<le> 4"
  by (cases s) (auto split: list.splits)

text \<open>The sequence at the head depends on its own bytes only.\<close>

lemma utf8_seqE:
  assumes "utf8_seq s = Suc n"
  obtains (one) a t where "s = [a] @ t" "n = 0" "\<And>r. utf8_seq (a # r) = 1"
  | (two) a b t where "s = [a, b] @ t" "n = 1" "\<And>r. utf8_seq (a # b # r) = 2" "utf8_seq [a] = 0" "cont_byte b"
  | (three) a b c t where "s = [a, b, c] @ t" "n = 2" "\<And>r. utf8_seq (a # b # c # r) = 3"
      "utf8_seq [a] = 0" "utf8_seq [a, b] = 0" "cont_byte b" "cont_byte c"
  | (four) a b c d t where "s = [a, b, c, d] @ t" "n = 3" "\<And>r. utf8_seq (a # b # c # d # r) = 4"
      "utf8_seq [a] = 0" "utf8_seq [a, b] = 0" "utf8_seq [a, b, c] = 0" "cont_byte b" "cont_byte c" "cont_byte d"
proof (cases s)
  case Nil
  with assms show thesis by simp
next
  case (Cons a t)
  have wider: "cont_byte b" if "byte_in (if P then x else 128) (if Q then y else 191) b" "128 \<le> x" "y \<le> 191" for b P Q x y
    using that by (simp add: byte_in_def split: if_split_asm)
  consider "byte_in 0 127 a" | "\<not> byte_in 0 127 a" "byte_in 194 223 a"
    | "\<not> byte_in 0 127 a" "\<not> byte_in 194 223 a" "byte_in 224 239 a"
    | "\<not> byte_in 0 127 a" "\<not> byte_in 194 223 a" "\<not> byte_in 224 239 a" "byte_in 240 244 a"
    using assms Cons by (auto split: if_split_asm)
  then show thesis
  proof cases
    case 1
    then show thesis using assms Cons by (intro one [of a t]) simp_all
  next
    case 2
    then obtain b u where "t = b # u" "cont_byte b" "n = 1" using assms Cons
      by (cases t) (simp_all split: if_split_asm)
    then show thesis using 2 Cons by (intro two [of a b u]) simp_all
  next
    case 3
    then obtain b c u where t: "t = b # c # u" using assms Cons by (simp split: list.split_asm)
    with 3 assms Cons have "byte_in (if byte_in 224 224 a then 160 else 128) (if byte_in 237 237 a then 159 else 191) b"
      "cont_byte c" "n = 2" by (simp_all split: if_split_asm)
    then show thesis using 3 Cons t wider [of _ 160 _ 159 b] by (intro three [of a b c u]) simp_all
  next
    case 4
    then obtain b c d u where t: "t = b # c # d # u" using assms Cons by (simp split: list.split_asm)
    with 4 assms Cons have "byte_in (if byte_in 240 240 a then 144 else 128) (if byte_in 244 244 a then 143 else 191) b"
      "cont_byte c" "cont_byte d" "n = 3" by (simp_all split: if_split_asm)
    then show thesis using 4 Cons t wider [of _ 144 _ 143 b] by (intro four [of a b c d u]) simp_all
  qed
qed

lemma utf8_seq_take: "utf8_seq s = Suc n \<Longrightarrow> utf8_seq (take (Suc n) s @ r) = Suc n"
  by (erule utf8_seqE) (simp_all del: utf8_seq.simps)

lemma length_utf8_ignore: "length (utf8_ignore s) \<le> length s"
proof (induction s rule: utf8_ignore.induct)
  case (2 a s)
  show ?case
  proof (cases "utf8_seq (a # s)")
    case 0
    with 2(1) show ?thesis by (simp del: utf8_seq.simps)
  next
    case (Suc n)
    with 2(2) utf8_seq_le [of "a # s"] show ?thesis by (simp del: utf8_seq.simps)
  qed
qed simp

lemma valid_utf8_Nil [simp]: "valid_utf8 []"
  by (simp add: valid_utf8_def)

lemma utf8_ignore_seq: "utf8_seq s = Suc n \<Longrightarrow> utf8_ignore s = take (Suc n) s @ utf8_ignore (drop (Suc n) s)"
  by (cases s) (auto simp del: utf8_seq.simps)

lemma valid_utf8_step:
  assumes "utf8_seq s = Suc n"
  shows "valid_utf8 s \<longleftrightarrow> valid_utf8 (drop (Suc n) s)"
  using utf8_ignore_seq [OF assms] unfolding valid_utf8_def by (metis append_take_drop_id same_append_eq)

lemma valid_utf8_Cons:
  assumes "valid_utf8 (a # s)"
  obtains n where "utf8_seq (a # s) = Suc n" "valid_utf8 (drop n s)"
proof (cases "utf8_seq (a # s)")
  case 0
  with assms length_utf8_ignore [of s] have False by (auto simp: valid_utf8_def simp del: utf8_seq.simps)
  then show thesis ..
next
  case (Suc n)
  then show thesis using assms valid_utf8_step [OF Suc] by (intro that) simp_all
qed

text \<open>Induction over the sequences of a well-formed text.\<close>

lemma valid_utf8_induct [consumes 1, case_names Nil seq]:
  assumes "valid_utf8 s" "P []"
    "\<And>s n. utf8_seq s = Suc n \<Longrightarrow> valid_utf8 (drop (Suc n) s) \<Longrightarrow> P (drop (Suc n) s) \<Longrightarrow> P s"
  shows "P s"
  using assms(1)
proof (induction s rule: length_induct)
  case (1 s)
  show ?case
  proof (cases s)
    case (Cons a t)
    with 1(2) obtain n where n: "utf8_seq (a # t) = Suc n" "valid_utf8 (drop n t)" using valid_utf8_Cons by blast
    have "P (drop n t)" using 1(1) n(2) Cons by (metis diff_le_self length_Cons length_drop less_Suc_eq_le)
    then show ?thesis using assms(3) [of "a # t" n] n Cons by (simp del: utf8_seq.simps)
  qed (simp add: assms(2))
qed

lemma utf8_seq_append: "utf8_seq s = Suc n \<Longrightarrow> utf8_seq (s @ r) = Suc n"
  by (metis append_assoc append_take_drop_id utf8_seq_take)

lemma utf8_ignore_append:
  assumes "valid_utf8 a"
  shows "utf8_ignore (a @ b) = a @ utf8_ignore b"
  using assms
proof (induction a rule: valid_utf8_induct)
  case (seq s n)
  have "Suc n \<le> length s" using utf8_seq_le [of s] seq(1) by simp
  then have "utf8_ignore (s @ b) = take (Suc n) s @ utf8_ignore (drop (Suc n) s @ b)"
    using utf8_ignore_seq [OF utf8_seq_append [OF seq(1), of b]] by simp
  also have "\<dots> = s @ utf8_ignore b" using seq(3) by (simp flip: append_assoc)
  finally show ?case .
qed simp

lemma valid_utf8_append: "valid_utf8 a \<Longrightarrow> valid_utf8 b \<Longrightarrow> valid_utf8 (a @ b)"
  by (simp add: valid_utf8_def [of "a @ b"] utf8_ignore_append) (simp add: valid_utf8_def)

lemma valid_utf8_ignore: "valid_utf8 (utf8_ignore s)"
proof (induction s rule: utf8_ignore.induct)
  case (2 a s)
  show ?case
  proof (cases "utf8_seq (a # s)")
    case 0
    with 2(1) show ?thesis by (simp del: utf8_seq.simps)
  next
    case (Suc n)
    let ?t = "utf8_ignore (drop n s)"
    have len: "Suc n \<le> length (a # s)" using utf8_seq_le [of "a # s"] Suc by simp
    have eq: "utf8_ignore (a # s) = take (Suc n) (a # s) @ ?t" using Suc by (simp del: utf8_seq.simps)
    have "utf8_seq (take (Suc n) (a # s) @ ?t) = Suc n" by (rule utf8_seq_take [OF Suc])
    from valid_utf8_step [OF this] 2(2) [OF Suc] len show ?thesis
      unfolding eq by (simp add: min_def del: utf8_seq.simps utf8_ignore.simps)
  qed
qed simp

text \<open>Cutting a sequence short leaves bytes that are all dropped.\<close>

lemma utf8_seq_cont: "cont_byte a \<Longrightarrow> utf8_seq (a # s) = 0"
  by (simp add: byte_in_def)

lemma utf8_ignore_conts: "list_all cont_byte s \<Longrightarrow> utf8_ignore s = []"
  by (induction s) (simp_all add: utf8_seq_cont del: utf8_seq.simps)

lemma utf8_ignore_cut:
  assumes "utf8_seq s = Suc n" "k < Suc n"
  shows "utf8_ignore (take k s) = []"
  using assms(1)
proof (cases rule: utf8_seqE)
  case (one a t)
  with assms(2) show ?thesis by simp
next
  case (two a b t)
  with assms(2) have "k \<in> {0, 1}" by auto
  with two show ?thesis by (auto simp del: utf8_seq.simps)
next
  case (three a b c t)
  with assms(2) have "k \<in> {0, 1, 2}" by auto
  with three show ?thesis by (auto simp: utf8_seq_cont numeral_2_eq_2 simp del: utf8_seq.simps)
next
  case (four a b c d t)
  with assms(2) have "k \<in> {0, 1, 2, 3}" by auto
  with four show ?thesis by (auto simp: utf8_seq_cont numeral_2_eq_2 numeral_3_eq_3 simp del: utf8_seq.simps)
qed

lemma utf8_ignore_take:
  assumes "valid_utf8 s"
  shows "prefix (utf8_ignore (take k s)) s \<and> min k (length s) \<le> length (utf8_ignore (take k s)) + 3"
  using assms
proof (induction s arbitrary: k rule: valid_utf8_induct)
  case (seq s n)
  have len: "Suc n \<le> length s" "n \<le> 3" using utf8_seq_le [of s] utf8_seq_le4 [of s] seq(1) by simp_all
  show ?case
  proof (cases "k < Suc n")
    case True
    then show ?thesis using utf8_ignore_cut [OF seq(1)] len by simp
  next
    case False
    let ?t = "drop (Suc n) s" and ?k = "k - Suc n"
    have tk: "take k s = take (Suc n) s @ take ?k ?t" using False by (metis append_take_drop_id le_add_diff_inverse not_less take_add)
    have "utf8_seq (take k s) = Suc n" unfolding tk by (rule utf8_seq_take [OF seq(1)])
    from utf8_ignore_seq [OF this] have ig: "utf8_ignore (take k s) = take (Suc n) s @ utf8_ignore (take ?k ?t)"
      using len False by (simp add: drop_take min_def)
    from seq(3) [of ?k] have "prefix (utf8_ignore (take k s)) (take (Suc n) s @ ?t)" unfolding ig by (metis same_prefix_prefix)
    moreover have "min k (length s) = Suc n + min ?k (length ?t)" using len False by simp
    ultimately show ?thesis using seq(3) [of ?k] len by (simp add: ig)
  qed
qed simp

section \<open>Properties\<close>

lemma valid_marker: "valid_utf8 truncation_marker" "length truncation_marker = 15"
  by (simp_all add: valid_utf8_def truncation_marker_def byte_in_def)

text \<open>C34: The preview kept in the record is bounded: it is the response itself when that fits into 4096
  bytes, and otherwise well-formed UTF-8 of at most 4096 bytes, a prefix of the response (cut at a
  character, at most three bytes early) followed by the truncation marker.\<close>

theorem response_preview_bounded:
  assumes "valid_utf8 raw" "utf8_preview raw FINAL_RESPONSE_PREVIEW_BYTES = (preview, truncated)"
  shows "length preview \<le> 4096 \<and> valid_utf8 preview \<and> truncated = (4096 < length raw) \<and>
    (if truncated then \<exists>body. preview = body @ truncation_marker \<and> prefix body raw \<and> 4078 \<le> length body
     else preview = raw)"
proof (cases "length raw \<le> 4096")
  case True
  with assms show ?thesis by (simp add: utf8_preview_def FINAL_RESPONSE_PREVIEW_BYTES_def)
next
  case False
  let ?body = "utf8_ignore (take 4081 raw)"
  have body: "valid_utf8 ?body" "length ?body \<le> 4081" "prefix ?body raw" "4078 \<le> length ?body"
    using valid_utf8_ignore [of "take 4081 raw"] length_utf8_ignore [of "take 4081 raw"]
      utf8_ignore_take [OF assms(1), of 4081] False by simp_all
  have "preview = utf8_ignore (?body @ truncation_marker)" "truncated"
    using assms(2) False valid_marker(2) body(2)
    by (auto simp: utf8_preview_def FINAL_RESPONSE_PREVIEW_BYTES_def Let_def)
  moreover have "valid_utf8 (?body @ truncation_marker)" by (rule valid_utf8_append [OF body(1) valid_marker(1)])
  ultimately show ?thesis using body False valid_marker(2) by (auto simp: valid_utf8_def)
qed

theorem response_preview_bounded_witness:
  "length ''done'' \<le> 4096 \<and> valid_utf8 ''done'' \<and> False = (4096 < length ''done'') \<and>
    (if False then \<exists>body. ''done'' = body @ truncation_marker \<and> prefix body ''done'' \<and> 4078 \<le> length body
     else ''done'' = ''done'')"
proof -
  have "valid_utf8 ''done''" by (simp add: valid_utf8_def byte_in_def)
  moreover have "utf8_preview ''done'' FINAL_RESPONSE_PREVIEW_BYTES = (''done'', False)"
    by (simp add: utf8_preview_def FINAL_RESPONSE_PREVIEW_BYTES_def)
  ultimately show ?thesis by (rule response_preview_bounded)
qed

text \<open>C33: The terminal response survives on disk: what a worker persists for a live request is read
  back exactly under the artifact that was returned; once the request is terminal, a late worker that
  persists another response changes nothing, so the winner's artifact still reads the winner's text.\<close>

theorem final_response_round_trip:
  assumes "persist_final_response E rid raw media False p = (Inr art, p1)" "valid_utf8 raw" "\<not> request_is_terminal rid p"
    "final_files p2 = final_files p1" "request_is_terminal rid p2"
  shows "read_final_response E rid art p1 = Inr raw \<and>
    (\<forall>raw' media'. snd (persist_final_response E rid raw' media' False p2) = p2) \<and>
    read_final_response E rid art (snd (persist_final_response E rid raw' media' False p2)) = Inr raw"
proof -
  from assms(1,3) have art: "art = artifact_of E ''final-response'' rid media raw"
    and p1: "p1 = p\<lparr>final_files := AList.update rid raw (final_files p)\<rparr>"
    by (auto simp: persist_final_response_def final_response_artifact_def rbind_eq_Inr validated_final_media_type_def
      split: sum.split_asm if_split_asm)
  have stored: "map_of (final_files p1) rid = Some raw" by (simp add: p1 map_of_alist_update)
  have rd: "read_final_response E rid art q = Inr raw" if "map_of (final_files q) rid = Some raw" for q
    using that assms(2) by (simp add: read_final_response_def verified_file_def art artifact_of_def dget_Cons split: prod.split)
  have keep: "snd (persist_final_response E rid raw' media' False p2) = p2" for raw' media'
    using assms(5) by (auto simp: persist_final_response_def split: sum.split)
  show ?thesis using rd stored assms(4) keep by simp
qed

text \<open>A project directory around a store.\<close>

definition proj_of :: "gw \<Rightarrow> proj" where
  "proj_of s = \<lparr>pgw = s, final_files = [], failure_files = [], idem_files = [], sequence_file = None\<rparr>"

theorem final_response_round_trip_witness:
  "let art = artifact_of env0 ''final-response'' ''req_a'' ''text/plain; charset=utf-8'' ''done'';
       p1 = (proj_of running0)\<lparr>final_files := [(''req_a'', ''done'')]\<rparr>; p2 = p1\<lparr>pgw := completed0\<rparr> in
   read_final_response env0 ''req_a'' art p1 = Inr ''done'' \<and>
   (\<forall>raw' media'. snd (persist_final_response env0 ''req_a'' raw' media' False p2) = p2) \<and>
   read_final_response env0 ''req_a'' art (snd (persist_final_response env0 ''req_a'' ''late''
     ''text/plain; charset=utf-8'' False p2)) = Inr ''done''"
  unfolding Let_def
proof (rule final_response_round_trip [where p = "proj_of running0"])
  show "persist_final_response env0 ''req_a'' ''done'' ''text/plain; charset=utf-8'' False (proj_of running0) =
      (Inr (artifact_of env0 ''final-response'' ''req_a'' ''text/plain; charset=utf-8'' ''done''),
       (proj_of running0)\<lparr>final_files := [(''req_a'', ''done'')]\<rparr>)"
    by (simp add: persist_final_response_def final_response_artifact_def validated_final_media_type_def
      request_is_terminal_def proj_of_def running0_def gw_of_def record0_def dget_Cons)
  show "valid_utf8 ''done''" by (simp add: valid_utf8_def byte_in_def)
qed (simp_all add: request_is_terminal_def proj_of_def running0_def completed0_def gw_of_def record0_def dget_Cons)

end
