(* ===== verification/Record_Reads.thy ===== *)
theory Record_Reads
  imports Response_Artifacts "HOL-Library.Multiset" "HOL-Library.Char_ord" "HOL-Library.List_Lexorder"
begin

text \<open>
  Building, reading and listing request records, and the public status projection
  (\<open>gateway/store/_records.py\<close>).  \<open>build_record\<close> takes its keyword arguments as a dictionary under
  the parameter names; the clock and the fresh identifier are arguments.  \<open>read_record\<close> answers a
  record of the current shape without the request lock and migrates any other under it.  Listing
  visits the request directories in the order of the store and sorts by creation time, newest
  first.  In a settled store, where every file is a valid record of the current shape, reading
  and listing change nothing.
\<close>

section \<open>Construction\<close>

definition negative :: "json \<Rightarrow> bool" where
  "negative v \<longleftrightarrow> (case num_of v of Some q \<Rightarrow> q < 0 | None \<Rightarrow> False)"

fun blank_text :: "json \<Rightarrow> bool" where
  "blank_text (JStr s) \<longleftrightarrow> strip s = []"
| "blank_text _ \<longleftrightarrow> True"

definition quoted :: "string \<Rightarrow> string" where
  "quoted w = CHR 0x27 # w @ [CHR 0x27]"

text \<open>The identifier of a request: a bounded slug of the project directory and a random suffix.\<close>

fun sub_runs :: "bool \<Rightarrow> string \<Rightarrow> string" where
  "sub_runs inrun [] = []"
| "sub_runs inrun (c # s) =
     (if c \<in> set ''abcdefghijklmnopqrstuvwxyz0123456789'' then c # sub_runs False s
      else if inrun then sub_runs True s else CHR ''-'' # sub_runs True s)"

definition strip_char :: "char \<Rightarrow> string \<Rightarrow> string" where
  "strip_char c s = rev (dropWhile ((=) c) (rev (dropWhile ((=) c) s)))"

definition generate_request_id :: "string option \<Rightarrow> string \<Rightarrow> string" where
  "generate_request_id dir_name uuid_hex =
     (let slug = (case dir_name of None \<Rightarrow> ''project'' | Some n \<Rightarrow>
        (let c = strip_char (CHR ''-'') (sub_runs False (lower n)) in if c \<noteq> [] then take 24 c else ''project''))
      in ''req_'' @ slug @ ''_'' @ take 12 uuid_hex)"

definition build_payload :: "string \<Rightarrow> string \<Rightarrow> dict \<Rightarrow> dict" where
  "build_payload now rid kw =
    [(''contract-version'', JStr CONTRACT_VERSION), (''node-dispatch'', JNull),
     (''node-placement'', dget kw ''node_placement''), (''node-admission'', dget kw ''node_admission''),
     (''request-id'', por (dget kw ''request_id'') (JStr rid)), (''agent-id'', dget kw ''agent_id''),
     (''execution-profile-id'', dget kw ''execution_profile_id''),
     (''prompt-profile-id'', dget_or kw ''prompt_profile_id'' (JStr ''default'')),
     (''prompt-template-name'', dget kw ''prompt_template_name''),
     (''prompt-template-digest'', dget kw ''prompt_template_digest''),
     (''prompt-definition-fingerprint'', dget kw ''prompt_definition_fingerprint''),
     (''response-artifact'', dget kw ''response_artifact''), (''output-preview'', dget kw ''output_preview''),
     (''output-truncated'', dget_or kw ''output_truncated'' (JBool False)),
     (''prompt-body'', dget kw ''prompt_body''), (''prompt-digest'', dget kw ''prompt_digest''),
     (''manifest-id'', dget kw ''manifest_id''), (''context-fingerprint'', dget kw ''context_fingerprint''),
     (''idempotency-key'', dget kw ''idempotency_key''), (''correlation-id'', dget kw ''correlation_id''),
     (''client-default-session'', dget kw ''client_default_session''),
     (''warnings'', por (dget kw ''warnings'') (JList [])),
     (''gateway-profile-id'', dget kw ''gateway_profile_id''),
     (''gateway-profile-generation'', dget kw ''gateway_profile_generation''),
     (''gateway-profile-config-digest'', dget kw ''gateway_profile_config_digest''),
     (''gateway-profile-runtime'', dget kw ''gateway_profile_runtime''),
     (''resolved-provider-id'', dget kw ''resolved_provider_id''), (''resolved-model-id'', dget kw ''resolved_model_id''),
     (''resolved-model-selector'', dget kw ''resolved_model_selector''),
     (''resolved-source-id'', dget kw ''resolved_source_id''),
     (''resolved-capacity-generation'', dget kw ''resolved_capacity_generation''),
     (''last-activity-at'', JNull), (''activity-sequence'', JInt 0), (''activity-source'', JNull),
     (''activity-lease-expires-at'', JNull), (''activity'', JObj default_activity),
     (''watchdog-state'', JStr ''not-started''), (''watchdog-reason'', JNull),
     (''watchdog-policy'', dget kw ''watchdog_policy''), (''terminal-classification'', JNull),
     (''diagnostics'', JNull), (''diagnostic-evidence'', JList []),
     (''resolved-instance-ids'', dget kw ''resolved_instance_ids''),
     (''mode'', dget_or kw ''mode'' (JStr ''async'')), (''source'', dget kw ''source''),
     (''session-id'', dget kw ''session_id''),
     (''provider-transport-kind'', dget_or kw ''provider_transport_kind'' (JStr ''worker'')),
     (''continuation-session-id'', dget kw ''continuation_session_id''),
     (''session-keep-alive'', dget kw ''session_keep_alive''),
     (''session-idle-timeout-seconds'', dget kw ''session_idle_timeout_seconds''),
     (''session-max-lifetime-seconds'', dget kw ''session_max_lifetime_seconds''),
     (''metadata'', por (dget kw ''metadata'') (JObj [])),
     (''template-context'', por (dget kw ''template_context'') (JObj [])),
     (''state'', JStr ''queued''), (''cancel-requested'', JBool False), (''cancel-acknowledged-at'', JNull),
     (''cancel-acknowledged-by'', JNull), (''cancel-provenance'', JNull), (''revision'', JInt 0),
     (''worker-id'', JNull), (''attempt-epoch'', JInt 0), (''dispatch-owner-epoch'', JNull),
     (''dispatch-claimed-at'', JNull), (''dispatch-service-root'', JNull), (''recovery'', JNull),
     (''recovery-required'', JBool False), (''replay-required'', JNull), (''replay-reason'', JNull),
     (''replayed-by-request-id'', JNull), (''resumed-from-request-id'', JNull), (''provider-id'', JNull),
     (''model-id'', JNull), (''output'', JNull), (''completion'', JNull), (''usage'', JNull), (''error'', JNull),
     (''worker-evidence'', JNull), (''attempts'', JList []), (''created-at'', JStr now), (''updated-at'', JStr now),
     (''started-at'', JNull), (''finished-at'', JNull)]"

definition build_record :: "('a genv_scheme) \<Rightarrow> string \<Rightarrow> string \<Rightarrow> dict \<Rightarrow> dict res" where
  "build_record E now rid kw =
     (let mode = dget_or kw ''mode'' (JStr ''async''); keep = dget kw ''session_keep_alive'';
          idle = dget kw ''session_idle_timeout_seconds''; life = dget kw ''session_max_lifetime_seconds'' in
      if mode \<notin> {JStr ''async'', JStr ''blocking''} then
        Inl (ag_error ''VAL-AGW-001'' (''mode must be '' @ quoted ''async'' @ '' or '' @ quoted ''blocking'') [(''mode'', mode)])
      else if blank_text (dget kw ''prompt_body'') then
        Inl (ag_error ''VAL-AGW-007'' ''prompt_body is required and must not be empty'' [])
      else if idle \<noteq> JNull \<and> \<not> truthy keep then
        Inl (ag_error ''VAL-AGW-059'' (''session_idle_timeout_seconds requires session_keep_alive=true (the timeout applies to the session'' @ [CHR 0x27] @ ''s lifetime policy)'') [])
      else if negative idle then
        Inl (ag_error ''VAL-AGW-059'' ''session_idle_timeout_seconds must be positive, or 0 to disable the idle timeout''
               [(''session_idle_timeout_seconds'', idle)])
      else if life \<noteq> JNull \<and> \<not> truthy keep then
        Inl (ag_error ''VAL-AGW-061'' (''session_max_lifetime_seconds requires session_keep_alive=true (the cap applies to the session'' @ [CHR 0x27] @ ''s lifetime policy)'') [])
      else if negative life then
        Inl (ag_error ''VAL-AGW-061'' ''session_max_lifetime_seconds must be positive, or 0 to disable the lifetime cap''
               [(''session_max_lifetime_seconds'', life)])
      else validate_record E ''VAL-AGW-002'' (build_payload now rid kw))"

section \<open>Reading\<close>

definition CURRENT_KEYS :: "string list" where
  "CURRENT_KEYS = [''node-dispatch'', ''node-placement'', ''node-admission'', ''cancel-acknowledged-at'',
     ''cancel-acknowledged-by'', ''resolved-source-id'', ''resolved-capacity-generation'', ''last-activity-at'',
     ''activity-sequence'', ''activity-source'', ''activity-lease-expires-at'', ''activity'', ''recovery-required'']"

definition current_shape :: "dict \<Rightarrow> bool" where
  "current_shape d \<longleftrightarrow> dget d ''contract-version'' = JStr CONTRACT_VERSION \<and> list_all (dhas d) CURRENT_KEYS \<and>
     \<not> dhas d ''timeout-seconds'' \<and>
     (case dget d ''activity'' of JObj a \<Rightarrow> (case dget a ''provider'' of JObj q \<Rightarrow> dhas q ''first-at'' | _ \<Rightarrow> False) | _ \<Rightarrow> False)"

definition attach_output :: "('a genv_scheme) \<Rightarrow> bool \<Rightarrow> string \<Rightarrow> proj \<Rightarrow> dict \<Rightarrow> dict" where
  "attach_output E include_output rid p rec =
     (if include_output \<and> dget rec ''output'' = JNull then
        (case dget rec ''response-artifact'' of
           JObj art \<Rightarrow> (case read_final_response E rid art p of Inl _ \<Rightarrow> rec | Inr t \<Rightarrow> dset ''output'' (JStr t) rec)
         | _ \<Rightarrow> rec)
      else rec)"

definition read_record :: "('a genv_scheme) \<Rightarrow> bool \<Rightarrow> string \<Rightarrow> proj \<Rightarrow> dict res \<times> proj" where
  "read_record E include_output rid p = (case read_record_payload rid (pgw p) of
     Inl e \<Rightarrow> (Inl e, p)
   | Inr payload \<Rightarrow>
      (let (r, s) = (if current_shape payload then (validate_record E ''VAL-AGW-005'' payload, pgw p)
                     else read_record_locked E rid (pgw p))
       in (rbind r (\<lambda>rec. Inr (attach_output E include_output rid p rec)), p\<lparr>pgw := s\<rparr>)))"

text \<open>The listing loop: a record that cannot be read is skipped when the gateway's own error says so.\<close>

fun read_entries :: "('a genv_scheme) \<Rightarrow> bool \<Rightarrow> string list \<Rightarrow> proj \<Rightarrow> dict list res \<times> proj" where
  "read_entries E io [] p = (Inr [], p)"
| "read_entries E io (rid # rids) p =
     (if rid \<in> {''idempotency'', ''sessions''} then read_entries E io rids p
      else case read_record E io rid p of
        (Inr rec, p1) \<Rightarrow> (case read_entries E io rids p1 of
            (Inl e, p2) \<Rightarrow> (Inl e, p2) | (Inr recs, p2) \<Rightarrow> (Inr (rec # recs), p2))
      | (Inl (AG c m d), p1) \<Rightarrow> read_entries E io rids p1
      | (Inl e, p1) \<Rightarrow> (Inl e, p1))"

text \<open>\<open>sort(key=created-at, reverse=True)\<close>: descending, equal keys in their original order.  The
  schema admits only text as creation time.\<close>

definition created_key :: "dict \<Rightarrow> string" where
  "created_key d = (case dget d ''created-at'' of JStr s \<Rightarrow> s | _ \<Rightarrow> [])"

definition newest_first :: "dict list \<Rightarrow> dict list" where
  "newest_first recs = rev (sort_key created_key (rev recs))"

definition list_records :: "('a genv_scheme) \<Rightarrow> bool \<Rightarrow> int option \<Rightarrow> proj \<Rightarrow> dict list res \<times> proj" where
  "list_records E io limit p =
     (if (case limit of Some n \<Rightarrow> n < 1 | None \<Rightarrow> False) then (Inl (ValueError ''request list limit must be a positive integer''), p)
      else case read_entries E io (map fst (requests (pgw p))) p of
        (Inl e, p1) \<Rightarrow> (Inl e, p1)
      | (Inr recs, p1) \<Rightarrow> (Inr (case limit of None \<Rightarrow> newest_first recs | Some n \<Rightarrow> take (nat n) (newest_first recs)), p1))"

section \<open>Public status\<close>

definition PUBLIC_FIELDS :: "string list" where
  "PUBLIC_FIELDS = [''contract-version'', ''request-id'', ''agent-id'', ''prompt-profile-id'', ''prompt-template-name'',
     ''prompt-template-digest'', ''prompt-definition-fingerprint'', ''execution-profile-id'', ''mode'', ''state'',
     ''response-artifact'', ''output-preview'', ''output-truncated'', ''failure-response-artifact'',
     ''failure-response-preview'', ''failure-response-truncated'', ''cancel-requested'', ''revision'',
     ''dispatch-owner-epoch'', ''dispatch-claimed-at'', ''cancel-acknowledged-at'', ''cancel-acknowledged-by'',
     ''cancel-provenance'', ''recovery'', ''recovery-required'', ''worker-id'', ''attempt-epoch'', ''provider-id'',
     ''model-id'', ''session-id'', ''session-keep-alive'', ''completion'', ''usage'', ''error'', ''attempts'',
     ''created-at'', ''updated-at'', ''started-at'', ''finished-at'', ''replay-required'', ''replay-reason'',
     ''replayed-by-request-id'', ''resumed-from-request-id'', ''metadata'', ''warnings'', ''gateway-profile-id'',
     ''gateway-profile-generation'', ''gateway-profile-config-digest'', ''gateway-execution-lane-key'',
     ''resolved-provider-id'', ''resolved-model-id'', ''resolved-source-id'', ''resolved-capacity-generation'',
     ''last-activity-at'', ''activity-sequence'', ''activity-source'', ''activity-lease-expires-at'', ''activity'',
     ''watchdog-state'', ''watchdog-reason'', ''watchdog-policy'', ''terminal-classification'', ''diagnostics'',
     ''diagnostic-evidence'', ''resolved-instance-ids'', ''resolved-queue-limits'', ''admission-policy-digest'']"

definition execution_status :: "dict \<Rightarrow> dict \<Rightarrow> dict" where
  "execution_status rec status = (case dget rec ''recovery'' of
     JObj r \<Rightarrow>
      (if dget rec ''state'' \<in> {JStr ''queued'', JStr ''running''} then
         dupd status [(''execution-status'', JStr ''recovering''), (''recovery-phase'', dget r ''phase''),
           (''recovery-attempt'', dget r ''attempt''), (''recovery-next-retry-at'', dget r ''next-retry-at'')]
       else dset ''execution-status'' (dget rec ''state'') status)
   | _ \<Rightarrow> dset ''execution-status''
       (if dget rec ''state'' = JStr ''running'' then JStr ''active'' else dget rec ''state'') status)"

definition project_public_status :: "dict \<Rightarrow> json \<Rightarrow> dict" where
  "project_public_status rec latest =
     (let st = execution_status rec (dset ''activity'' (dget rec ''activity'') (map (\<lambda>k. (k, dget rec k)) PUBLIC_FIELDS));
          st' = (case dget (obj_of (dget rec ''provider-metadata'')) ''unresolved-turn-pending'' of
                   JBool b \<Rightarrow> dset ''provider-turn-pending'' (JBool b) st | _ \<Rightarrow> st)
      in dset ''latest-transition'' latest st')"

section \<open>Settled stores\<close>

definition settled :: "('a genv_scheme) \<Rightarrow> dict \<Rightarrow> bool" where
  "settled E d \<longleftrightarrow> current_shape d \<and> validate_record E ''VAL-AGW-005'' d = Inr d"

definition settled_store :: "('a genv_scheme) \<Rightarrow> gw \<Rightarrow> bool" where
  "settled_store E s \<longleftrightarrow> distinct (map fst (requests s)) \<and>
     (\<forall>(rid, f) \<in> set (requests s). rid \<notin> {''idempotency'', ''sessions''} \<and> (\<exists>d. f = Doc (JObj d) \<and> settled E d \<and> dget d ''request-id'' = JStr rid))"

lemma settled_file:
  assumes "settled_store E s" "(rid, f) \<in> set (requests s)"
  obtains d where "f = Doc (JObj d)" "settled E d" "rec_of s rid = Some d" "rid \<notin> {''idempotency'', ''sessions''}"
    "dget d ''request-id'' = JStr rid"
proof -
  from assms obtain d where "f = Doc (JObj d)" "settled E d" "rid \<notin> {''idempotency'', ''sessions''}"
    "dget d ''request-id'' = JStr rid"
    unfolding settled_store_def by fastforce
  moreover have "map_of (requests s) rid = Some f" using assms by (simp add: settled_store_def)
  ultimately show thesis by (intro that) (simp_all add: rec_of_def)
qed

lemma rec_of_mem: "rec_of s rid = Some d \<Longrightarrow> (rid, Doc (JObj d)) \<in> set (requests s)"
  by (auto simp: rec_of_def dest: map_of_SomeD split: option.split_asm doc.split_asm json.split_asm)

lemma settled_rec:
  assumes "settled_store E s" "rec_of s rid = Some d"
  shows "settled E d" "dget d ''request-id'' = JStr rid" "rid \<notin> {''idempotency'', ''sessions''}"
  using settled_file [OF assms(1) rec_of_mem [OF assms(2)]] assms(2) by (metis option.inject)+

lemma read_settled:
  assumes "settled_store E (pgw p)" "rec_of (pgw p) rid = Some d"
  shows "read_record E io rid p = (Inr (attach_output E io rid p d), p)"
proof -
  have "read_record_payload rid (pgw p) = Inr d" using assms(2) by (simp add: rec_of_payload)
  then show ?thesis using settled_rec(1) [OF assms] by (simp add: read_record_def settled_def)
qed

lemma read_missing: "map_of (requests (pgw p)) rid = None \<Longrightarrow>
    read_record E io rid p = (Inl (ag_error ''RES-AGW-001'' ''gateway request not found'' [(''request-id'', JStr rid)]), p)"
  by (simp add: read_record_def read_record_payload_def)

lemma settled_missing: "settled_store E s \<Longrightarrow> rec_of s rid = None \<longleftrightarrow> map_of (requests s) rid = None"
proof
  assume s: "settled_store E s" "rec_of s rid = None"
  show "map_of (requests s) rid = None"
  proof (cases "map_of (requests s) rid")
    case (Some f)
    then show ?thesis using settled_file [OF s(1), of rid f] s(2) by (metis map_of_SomeD option.distinct(1))
  qed
qed (simp add: rec_of_def)

definition listed :: "('a genv_scheme) \<Rightarrow> bool \<Rightarrow> proj \<Rightarrow> dict list" where
  "listed E io p = map (\<lambda>rid. attach_output E io rid p (the (rec_of (pgw p) rid))) (map fst (requests (pgw p)))"

lemma read_entries_settled:
  assumes "settled_store E (pgw p)" "set rids \<subseteq> fst ` set (requests (pgw p))"
  shows "read_entries E io rids p = (Inr (map (\<lambda>rid. attach_output E io rid p (the (rec_of (pgw p) rid))) rids), p)"
  using assms(2)
proof (induction rids)
  case (Cons rid rids)
  then obtain f where "(rid, f) \<in> set (requests (pgw p))" by auto
  with assms(1) obtain d where "rec_of (pgw p) rid = Some d" "rid \<notin> {''idempotency'', ''sessions''}"
    by (elim settled_file)
  with Cons read_settled [OF assms(1)] show ?case by simp
qed simp

lemma list_settled:
  assumes "settled_store E (pgw p)"
  shows "list_records E io limit p =
    (if (case limit of Some n \<Rightarrow> n < 1 | None \<Rightarrow> False) then (Inl (ValueError ''request list limit must be a positive integer''), p)
     else (Inr (case limit of None \<Rightarrow> newest_first (listed E io p) | Some n \<Rightarrow> take (nat n) (newest_first (listed E io p))), p))"
proof -
  have "read_entries E io (map fst (requests (pgw p))) p = (Inr (listed E io p), p)"
    unfolding listed_def by (rule read_entries_settled [OF assms]) simp
  then show ?thesis unfolding list_records_def by simp
qed

lemma newest_first_mset [simp]: "mset (newest_first xs) = mset xs"
  by (simp add: newest_first_def)

lemma newest_first_set [simp]: "set (newest_first xs) = set xs"
  by (metis newest_first_mset set_mset_mset)

lemma newest_first_filter: "mset (filter P (newest_first xs)) = mset (filter P xs)"
  by simp

lemma attach_output_other: "k \<noteq> ''output'' \<Longrightarrow> dget (attach_output E io rid p d) k = dget d k"
  by (auto simp: attach_output_def split: json.split sum.split)

section \<open>Properties\<close>



text \<open>Listing a settled store is complete, ordered and free of side effects: every record is
  listed once, newest first, records of the same instant keep the order of the store, and a limit
  returns the first records of that list.\<close>

theorem list_records_complete:
  assumes "settled_store E (pgw p)" "list_records E io limit p = (Inr recs, p')"
  shows "p' = p \<and> (\<exists>al. mset al = mset (listed E io p) \<and> sorted_wrt (\<lambda>a b. created_key b \<le> created_key a) al \<and>
      (\<forall>t. filter (\<lambda>r. created_key r = t) al = filter (\<lambda>r. created_key r = t) (listed E io p)) \<and>
      recs = (case limit of None \<Rightarrow> al | Some n \<Rightarrow> take (nat n) al))"
proof -
  let ?al = "newest_first (listed E io p)"
  have "sorted_wrt (\<lambda>a b. created_key b \<le> created_key a) ?al"
    using sorted_sort_key [of created_key] by (simp add: newest_first_def sorted_wrt_rev sorted_wrt_map sorted_map)
  moreover have "filter (\<lambda>r. created_key r = t) ?al = filter (\<lambda>r. created_key r = t) (listed E io p)" for t
    by (simp add: newest_first_def sort_key_stable flip: rev_filter)
  moreover have "p' = p" "recs = (case limit of None \<Rightarrow> ?al | Some n \<Rightarrow> take (nat n) ?al)"
    using assms(2) unfolding list_settled [OF assms(1)] by (simp_all split: if_split_asm)
  ultimately show ?thesis by (intro conjI exI [of _ ?al]) simp_all
qed

lemma build_payload_current: "current_shape (build_payload now rid kw)"
proof -
  have keys: "dhas d k \<longleftrightarrow> k \<in> set (map fst d)" for d k by (simp add: dhas_def map_of_eq_None_iff)
  have "set CURRENT_KEYS \<subseteq> set (map fst (build_payload now rid kw))" "''timeout-seconds'' \<notin> set (map fst (build_payload now rid kw))"
    by (simp_all add: build_payload_def CURRENT_KEYS_def)
  moreover have "dget (build_payload now rid kw) ''activity'' = JObj default_activity"
    "dget (build_payload now rid kw) ''contract-version'' = JStr CONTRACT_VERSION"
    by (simp_all add: build_payload_def dget_Cons)
  ultimately show ?thesis
    by (auto simp: current_shape_def list_all_iff keys default_activity_def default_provider_activity_def dget_Cons)
qed

definition admitted0 :: proj where
  "admitted0 = proj_of (gw_of (redact_for_persistence (build_payload ''2026-01-01T00:00:00Z'' ''req_a'' [(''prompt_body'', JStr ''hi'')])))"

lemma current_shape_redact [simp]: "current_shape (redact_for_persistence d) = current_shape d"
  by (auto simp: current_shape_def redact_for_persistence_def Let_def CURRENT_KEYS_def)

lemma admitted0_settled: "settled_store env0 (pgw admitted0)"
proof -
  have "validate_record env0 ''VAL-AGW-005'' (redact_for_persistence d) = Inr (redact_for_persistence d)"
    if "dget d ''node-admission'' = JNull" for d
    using that redact_keeps [of "''node-admission''" d] by (simp add: validate_record_def env0_def)
  moreover have "dget (build_payload now rid [(''prompt_body'', JStr ''hi'')]) ''node-admission'' = JNull" for now rid
    by (simp add: build_payload_def dget_Cons)
  moreover have "dget (build_payload now ''req_a'' kw) ''request-id'' = JStr ''req_a''" if "kw = [(''prompt_body'', JStr ''hi'')]" for now kw
    by (simp add: that build_payload_def dget_Cons por_def)
  ultimately show ?thesis
    by (simp add: admitted0_def settled_store_def gw_of_def proj_of_def settled_def build_payload_current redact_keeps)
qed

end
