(* ===== verification/Admission.thy ===== *)
theory Admission
  imports Record_Reads
begin

text \<open>
  Admission (\<open>gateway/store/_admission.py\<close>): a request is admitted once per idempotency key.  The
  idempotency index is only an accelerator; the records are the authority, so every path of
  \<open>admit_record\<close> rederives the intent from the record.  A provider-session request gets the next
  enqueue ordinal; the scan that reconstructs a lost counter runs before the admission lock, so it
  is a step of its own here (\<open>admit_scan\<close>, then \<open>admit_locked\<close>).  The callbacks \<open>before_write\<close> and
  \<open>on_admitted\<close> are arguments; they may raise and work on state outside the store.
\<close>

section \<open>Digests\<close>

definition hash_idempotency_key :: "('a genv_scheme) \<Rightarrow> string \<Rightarrow> string" where
  "hash_idempotency_key E key = sha256_hex E key"

definition node_intent :: "json \<Rightarrow> json res" where
  "node_intent descriptor = (case descriptor of
     JNull \<Rightarrow> Inr JNull
   | JObj d \<Rightarrow>
      rbind (ditem d ''version'') (\<lambda>v. rbind (ditem d ''server-id'') (\<lambda>sid.
      rbind (ditem d ''semantic'') (\<lambda>sem. rbind (ditem d ''policy'') (\<lambda>pol.
        Inr (JObj ([(''version'', v), (''server-id'', sid), (''semantic'', sem), (''policy'', pol)] @
          (case map_of d ''source-workspace'' of None \<Rightarrow> [] | Some w \<Rightarrow> [(''source-workspace'', w)])))))))
   | _ \<Rightarrow> Inl TypeError)"

definition intent_of :: "dict \<Rightarrow> dict res" where
  "intent_of rec =
     rbind (ditem rec ''execution-profile-id'') (\<lambda>ep. rbind (ditem rec ''mode'') (\<lambda>mode.
     let intent = [(''execution-profile-id'', ep), (''context-fingerprint'', dget rec ''context-fingerprint''),
        (''prompt-digest'', dget rec ''prompt-digest''), (''mode'', mode),
        (''continuation-session-id'', dget rec ''continuation-session-id''),
        (''provider-transport-kind'', dget rec ''provider-transport-kind''),
        (''session-keep-alive'', dget rec ''session-keep-alive''),
        (''session-idle-timeout-seconds'', dget rec ''session-idle-timeout-seconds''),
        (''session-max-lifetime-seconds'', dget rec ''session-max-lifetime-seconds'')] in
     if dget rec ''node-placement'' \<noteq> JNull \<or> dget rec ''node-admission'' \<noteq> JNull then
       rbind (node_intent (dget rec ''node-admission'')) (\<lambda>n.
         Inr (intent @ [(''node-placement'', dget rec ''node-placement''), (''node-admission'', n)]))
     else Inr intent))"

definition intent_digest :: "('a genv_scheme) \<Rightarrow> dict \<Rightarrow> string res" where
  "intent_digest E rec = rbind (intent_of rec) (\<lambda>i. Inr (sha256_hex E (canonical_text E (JObj i))))"

section \<open>The idempotency index\<close>

definition put_index :: "string \<Rightarrow> string \<Rightarrow> json \<Rightarrow> proj \<Rightarrow> proj" where
  "put_index kd intent rid p = p\<lparr>idem_files := AList.update kd (Doc (JObj
     [(''key-digest'', JStr kd), (''intent-digest'', JStr intent), (''request-id'', rid)])) (idem_files p)\<rparr>"

definition drop_index :: "string \<Rightarrow> proj \<Rightarrow> proj" where
  "drop_index kd p = p\<lparr>idem_files := AList.delete kd (idem_files p)\<rparr>"

definition read_idempotency_index :: "string \<Rightarrow> proj \<Rightarrow> dict option" where
  "read_idempotency_index kd p = (case map_of (idem_files p) kd of
     Some (Doc (JObj v)) \<Rightarrow>
       if list_all (\<lambda>k. is_str (dget v k)) [''key-digest'', ''intent-digest'', ''request-id''] then Some v else None
   | _ \<Rightarrow> None)"

abbreviation key_conflict :: py_error where
  "key_conflict \<equiv> ag_error ''CON-AGW-081'' ''idempotency key was already used for a different gateway request'' []"

fun intent_matches :: "('a genv_scheme) \<Rightarrow> string \<Rightarrow> dict list \<Rightarrow> dict list res" where
  "intent_matches E intent [] = Inr []"
| "intent_matches E intent (r # rs) =
     rbind (intent_digest E r) (\<lambda>i. rbind (intent_matches E intent rs) (\<lambda>ms.
       Inr (if i = intent then r # ms else ms)))"

definition matching_persisted_record ::
    "('a genv_scheme) \<Rightarrow> string \<Rightarrow> string \<Rightarrow> proj \<Rightarrow> dict option res \<times> proj" where
  "matching_persisted_record E kd intent p = (case list_records E True None p of
     (Inl e, p1) \<Rightarrow> (Inl e, p1)
   | (Inr recs, p1) \<Rightarrow>
      (let matches = filter (\<lambda>r. dget r ''idempotency-key'' = JStr kd) recs in
       (if matches = [] then Inr None
        else rbind (intent_matches E intent matches) (\<lambda>ms.
          case ms of m # _ \<Rightarrow> (if length matches = 1 then Inr (Some m) else Inl key_conflict)
          | [] \<Rightarrow> Inl key_conflict), p1)))"

text \<open>The lookup through the index.  \<open>Inr None\<close>: the index was of no use and, if stale, is gone.\<close>

definition replay_by_index :: "('a genv_scheme) \<Rightarrow> string \<Rightarrow> string \<Rightarrow> proj \<Rightarrow> dict option res \<times> proj" where
  "replay_by_index E kd intent p = (case read_idempotency_index kd p of
     None \<Rightarrow> (Inr None, p)
   | Some ix \<Rightarrow>
      if dget ix ''key-digest'' \<noteq> JStr kd then (Inr None, drop_index kd p)
      else case read_record E True (str_of (dget ix ''request-id'')) p of
        (Inl e, p1) \<Rightarrow> (case e of
            AG c m d \<Rightarrow> if c = ''RES-AGW-001'' then (Inr None, drop_index kd p1) else (Inl e, p1)
          | _ \<Rightarrow> (Inl e, p1))
      | (Inr orig, p1) \<Rightarrow>
          if dget orig ''idempotency-key'' \<noteq> JStr kd then (Inr None, drop_index kd p1)
          else case intent_digest E orig of
            Inl e \<Rightarrow> (Inl e, p1)
          | Inr persisted \<Rightarrow>
             (case (if dget ix ''intent-digest'' = JStr persisted then Inr p1
                    else rbind (ditem orig ''request-id'') (\<lambda>rid. Inr (put_index kd persisted rid p1))) of
                Inl e \<Rightarrow> (Inl e, p1)
              | Inr p2 \<Rightarrow> if persisted \<noteq> intent then (Inl key_conflict, p2) else (Inr (Some orig), p2)))"

section \<open>Enqueue ordinals\<close>

definition max_ordinal :: "dict list \<Rightarrow> int" where
  "max_ordinal recs = (case map (\<lambda>r. int_of (dget r ''enqueue-ordinal''))
       (filter (\<lambda>r. is_int_strict (dget r ''enqueue-ordinal'')) recs) of
     [] \<Rightarrow> 0 | x # xs \<Rightarrow> fold max xs x)"

definition provider_session :: "dict \<Rightarrow> bool" where
  "provider_session d \<longleftrightarrow> dget d ''provider-transport-kind'' = JStr ''provider-session''"

definition admit_scan :: "('a genv_scheme) \<Rightarrow> dict \<Rightarrow> proj \<Rightarrow> int option res \<times> proj" where
  "admit_scan E candidate p =
     (if provider_session candidate \<and> sequence_file p = None then
        (case list_records E True None p of
           (Inl e, p1) \<Rightarrow> (Inl e, p1) | (Inr recs, p1) \<Rightarrow> (Inr (Some (max_ordinal recs)), p1))
      else (Inr None, p))"

definition previous_ordinal :: "('a genv_scheme) \<Rightarrow> int option \<Rightarrow> proj \<Rightarrow> int res \<times> proj" where
  "previous_ordinal E fallback p = (case sequence_file p of
     Some (Doc (JInt n)) \<Rightarrow> (if n < 0 then Inl (ValueError ''invalid gateway enqueue sequence'') else Inr n, p)
   | Some Garbage \<Rightarrow> (Inl (ValueError ''JSONDecodeError''), p)
   | Some (Doc v) \<Rightarrow> (Inl (ValueError ''invalid gateway enqueue sequence''), p)
   | None \<Rightarrow> (case fallback of Some n \<Rightarrow> (Inr n, p)
       | None \<Rightarrow> (case list_records E True None p of
            (Inl e, p1) \<Rightarrow> (Inl e, p1) | (Inr recs, p1) \<Rightarrow> (Inr (max_ordinal recs), p1))))"

text \<open>The ordinal of a provider-session candidate; the counter is durable before the record is.\<close>

definition assign_ordinal :: "('a genv_scheme) \<Rightarrow> int option \<Rightarrow> dict \<Rightarrow> proj \<Rightarrow> dict res \<times> proj" where
  "assign_ordinal E fallback candidate p =
     (if \<not> provider_session candidate then (Inr candidate, p)
      else case previous_ordinal E fallback p of
        (Inl e, p1) \<Rightarrow> (Inl e, p1)
      | (Inr n, p1) \<Rightarrow> (Inr (dset ''enqueue-ordinal'' (JInt (n + 1)) candidate),
                        p1\<lparr>sequence_file := Some (Doc (JInt (n + 1)))\<rparr>))"

section \<open>Admission\<close>

definition fresh_node_admission :: "('a genv_scheme) \<Rightarrow> dict \<Rightarrow> dict res" where
  "fresh_node_admission E candidate =
     (if dget candidate ''node-placement'' \<noteq> JNull then
        if dget candidate ''contract-version'' \<noteq> JStr CONTRACT_VERSION then
          Inl (ag_error ''VAL-AGW-002'' ''Fresh node admission requires the current record contract'' [])
        else rbind (node_admission_from_mapping (crypto.truncate E) (dget candidate ''node-admission'')) (\<lambda>m.
          if \<not> dhas m ''source-workspace'' then
            Inl (ag_error ''VAL-AGW-002'' ''Fresh node admission requires caller workspace identity'' [])
          else if \<not> jeq (dget (obj_of (dget m ''policy'')) ''profile-id'') (dget candidate ''execution-profile-id'') then
            Inl (ag_error ''VAL-AGW-002'' ''Node admission profile mismatch'' [])
          else Inr (dset ''node-admission'' (JObj m) candidate))
      else if dget candidate ''node-admission'' \<noteq> JNull then
        Inl (ag_error ''VAL-AGW-002'' ''Node descriptor requires sealed placement'' [])
      else Inr candidate)"

definition prepare_candidate :: "('a genv_scheme) \<Rightarrow> string \<Rightarrow> dict \<Rightarrow> (dict \<times> string) res" where
  "prepare_candidate E kd payload =
     rbind (fresh_node_admission E payload) (\<lambda>c1.
     rbind (validate_record E ''VAL-AGW-002'' c1) (\<lambda>c2.
     let c = dset ''idempotency-key'' (JStr kd) c2 in
     rbind (intent_digest E c) (\<lambda>i. Inr (c, i))))"

record hooks =
  before_write :: "unit res"
  on_admitted :: "dict \<Rightarrow> unit res"
  h_service_root :: "string option"
  h_project_root :: string

definition admission_index :: "('a genv_scheme) \<Rightarrow> hooks \<Rightarrow> string \<Rightarrow> string \<Rightarrow> gw \<Rightarrow> gw" where
  "admission_index E H now rid s = (case h_service_root H of
     None \<Rightarrow> s
   | Some r \<Rightarrow> s\<lparr>windex := (windex s)(r := write_work_index_entry (root_digest E) now (h_project_root H) rid ''admitted''
        JNull JNull (windex s r))\<rparr>)"

definition admit_new ::
    "('a genv_scheme) \<Rightarrow> hooks \<Rightarrow> string \<Rightarrow> string \<Rightarrow> string \<Rightarrow> int option \<Rightarrow> dict \<Rightarrow> proj \<Rightarrow> (dict \<times> bool) res \<times> proj" where
  "admit_new E H now kd intent fallback candidate p = (case before_write H of
     Inl e \<Rightarrow> (Inl e, p)
   | Inr _ \<Rightarrow> (case assign_ordinal E fallback candidate p of
       (Inl e, p1) \<Rightarrow> (Inl e, p1)
     | (Inr c, p1) \<Rightarrow> (case write_record E c (pgw p1) of
         (Inl e, s) \<Rightarrow> (Inl e, p1\<lparr>pgw := s\<rparr>)
       | (Inr _, s) \<Rightarrow>
          (let rid = dget c ''request-id'';
               p2 = put_index kd intent rid (p1\<lparr>pgw := s\<rparr>);
               p3 = p2\<lparr>pgw := admission_index E H now (str_of rid) (pgw p2)\<rparr>
           in (rbind (on_admitted H c) (\<lambda>_. Inr (c, True)), p3)))))"

definition admit_locked ::
    "('a genv_scheme) \<Rightarrow> hooks \<Rightarrow> string \<Rightarrow> string \<Rightarrow> string \<Rightarrow> int option \<Rightarrow> dict \<Rightarrow> proj \<Rightarrow> (dict \<times> bool) res \<times> proj" where
  "admit_locked E H now kd intent fallback candidate p = (case replay_by_index E kd intent p of
     (Inl e, p1) \<Rightarrow> (Inl e, p1)
   | (Inr (Some orig), p1) \<Rightarrow> (Inr (orig, False), p1)
   | (Inr None, p1) \<Rightarrow> (case matching_persisted_record E kd intent p1 of
       (Inl e, p2) \<Rightarrow> (Inl e, p2)
     | (Inr (Some r), p2) \<Rightarrow> (case ditem r ''request-id'' of
          Inl e \<Rightarrow> (Inl e, p2) | Inr rid \<Rightarrow> (Inr (r, False), put_index kd intent rid p2))
     | (Inr None, p2) \<Rightarrow> admit_new E H now kd intent fallback candidate p2))"

definition admit_record ::
    "('a genv_scheme) \<Rightarrow> hooks \<Rightarrow> string \<Rightarrow> dict \<Rightarrow> string \<Rightarrow> proj \<Rightarrow> (dict \<times> bool) res \<times> proj" where
  "admit_record E H now payload key p =
     (let kd = hash_idempotency_key E key in
      case prepare_candidate E kd payload of
        Inl e \<Rightarrow> (Inl e, p)
      | Inr (candidate, intent) \<Rightarrow> (case admit_scan E candidate p of
          (Inl e, p1) \<Rightarrow> (Inl e, p1)
        | (Inr fallback, p1) \<Rightarrow> admit_locked E H now kd intent fallback candidate p1))"

section \<open>The index is only an accelerator\<close>

definition keyed :: "gw \<Rightarrow> string \<Rightarrow> string \<Rightarrow> bool" where
  "keyed s kd rid \<longleftrightarrow> (\<exists>d. rec_of s rid = Some d \<and> dget d ''idempotency-key'' = JStr kd)"

lemma put_index_sel [simp]:
  "pgw (put_index kd i rid p) = pgw p" "sequence_file (put_index kd i rid p) = sequence_file p"
  "final_files (put_index kd i rid p) = final_files p"
  by (simp_all add: put_index_def)

lemma drop_index_sel [simp]:
  "pgw (drop_index kd p) = pgw p" "sequence_file (drop_index kd p) = sequence_file p"
  "final_files (drop_index kd p) = final_files p"
  by (simp_all add: drop_index_def)

text \<open>Two project states that differ in the index only.\<close>

definition same_records :: "proj \<Rightarrow> proj \<Rightarrow> bool" where
  "same_records p p' \<longleftrightarrow> pgw p' = pgw p \<and> sequence_file p' = sequence_file p \<and> final_files p' = final_files p"

lemma same_records_index [simp]:
  "same_records p p" "same_records p (put_index kd i rid p)" "same_records p (drop_index kd p)"
  by (simp_all add: same_records_def)

lemma attach_same: "same_records p p' \<Longrightarrow> attach_output E io rid p' d = attach_output E io rid p d"
  by (auto simp: attach_output_def read_final_response_def same_records_def split: json.split)

lemma intent_of_attach: "intent_of (attach_output E io rid p d) = intent_of d"
proof -
  have "ditem (attach_output E io rid p d) k = ditem d k" if "k \<noteq> ''output''" for k
    using that by (auto simp: attach_output_def ditem_def split: json.split sum.split)
  then show ?thesis by (simp add: intent_of_def attach_output_other cong: if_cong)
qed

lemma intent_digest_attach [simp]: "intent_digest E (attach_output E io rid p d) = intent_digest E d"
  by (simp add: intent_digest_def intent_of_attach)

lemma listed_keyed:
  assumes "settled_store E (pgw p)"
  shows "filter (\<lambda>r. dget r ''idempotency-key'' = JStr kd) (listed E io p) =
    map (\<lambda>rid. attach_output E io rid p (the (rec_of (pgw p) rid))) (filter (keyed (pgw p) kd) (map fst (requests (pgw p))))"
proof -
  have "(dget (attach_output E io rid p (the (rec_of (pgw p) rid))) ''idempotency-key'' = JStr kd) = keyed (pgw p) kd rid"
    if mem: "rid \<in> set (map fst (requests (pgw p)))" for rid
  proof -
    from mem obtain f where "(rid, f) \<in> set (requests (pgw p))" by auto
    with assms obtain d where "rec_of (pgw p) rid = Some d" by (elim settled_file)
    then show ?thesis by (simp add: keyed_def attach_output_other)
  qed
  then show ?thesis unfolding listed_def filter_map comp_def by (intro map_cong filter_cong) auto
qed

lemma distinct_singleton: "distinct xs \<Longrightarrow> set xs = {a} \<Longrightarrow> xs = [a]"
  by (cases xs) (auto simp: subset_singleton_iff)

lemma keyed_mem: "keyed s kd rid \<Longrightarrow> rid \<in> set (map fst (requests s))"
  unfolding keyed_def set_map by (metis fst_conv image_eqI rec_of_mem)

lemma keyed_only:
  assumes "settled_store E s" "keyed s kd rid" "\<forall>r. keyed s kd r \<longrightarrow> r = rid"
  shows "filter (keyed s kd) (map fst (requests s)) = [rid]"
proof (rule distinct_singleton)
  show "distinct (filter (keyed s kd) (map fst (requests s)))" using assms(1) by (simp add: settled_store_def)
  show "set (filter (keyed s kd) (map fst (requests s))) = {rid}"
    using assms(2,3) keyed_mem [OF assms(2)] unfolding set_filter by blast
qed

lemma matching_settled:
  assumes "settled_store E (pgw p)"
  shows "\<forall>r. \<not> keyed (pgw p) kd r \<Longrightarrow> matching_persisted_record E kd intent p = (Inr None, p)"
    and "\<forall>r. keyed (pgw p) kd r \<longleftrightarrow> r = rid \<Longrightarrow> rec_of (pgw p) rid = Some d \<Longrightarrow> intent_digest E d = Inr i \<Longrightarrow>
      matching_persisted_record E kd intent p =
        (if i = intent then Inr (Some (attach_output E True rid p d)) else Inl key_conflict, p)"
proof -
  let ?f = "\<lambda>r. dget r ''idempotency-key'' = JStr kd"
  have m: "mset (filter ?f (newest_first (listed E True p))) = mset (filter ?f (listed E True p))" by simp
  note k = listed_keyed [OF assms, of kd True]
  show "matching_persisted_record E kd intent p = (Inr None, p)" if no: "\<forall>r. \<not> keyed (pgw p) kd r"
  proof -
    have "filter ?f (newest_first (listed E True p)) = []" using m unfolding k using no by simp
    then show ?thesis by (simp add: matching_persisted_record_def list_settled [OF assms])
  qed
  show "matching_persisted_record E kd intent p =
      (if i = intent then Inr (Some (attach_output E True rid p d)) else Inl key_conflict, p)"
    if one: "\<forall>r. keyed (pgw p) kd r \<longleftrightarrow> r = rid" and d: "rec_of (pgw p) rid = Some d" "intent_digest E d = Inr i"
  proof -
    have "filter (keyed (pgw p) kd) (map fst (requests (pgw p))) = [rid]" by (rule keyed_only [OF assms]) (use one in auto)
    then have "mset (filter ?f (listed E True p)) = {#attach_output E True rid p d#}" unfolding k by (simp add: d(1))
    then have "filter ?f (newest_first (listed E True p)) = [attach_output E True rid p d]"
      unfolding m [symmetric] mset_single_iff .
    then show ?thesis by (simp add: matching_persisted_record_def list_settled [OF assms] d(2))
  qed
qed

lemma not_found_error: "ag_error ''RES-AGW-001'' ''gateway request not found'' d = AG ''RES-AGW-001'' ''gateway request not found'' (redact_details d)"
  by (rule ag_error_AG) code_simp+

text \<open>The lookup through the index, whatever the index holds.\<close>

lemma replay_settled:
  assumes "settled_store E (pgw p)" "replay_by_index E kd intent p = (r, p1)"
  shows "same_records p p1 \<and> (r = Inr None \<or>
    (\<exists>rid d. rec_of (pgw p) rid = Some d \<and> dget d ''idempotency-key'' = JStr kd \<and>
      (case intent_digest E d of Inl e \<Rightarrow> r = Inl e
       | Inr i \<Rightarrow> r = (if i = intent then Inr (Some (attach_output E True rid p d)) else Inl key_conflict))))"
proof (cases "read_idempotency_index kd p")
  case None
  with assms(2) show ?thesis by (auto simp: replay_by_index_def)
next
  case (Some ix)
  show ?thesis
  proof (cases "dget ix ''key-digest'' = JStr kd")
    case False
    with Some assms(2) show ?thesis by (auto simp: replay_by_index_def)
  next
    case key: True
    let ?rid = "str_of (dget ix ''request-id'')"
    show ?thesis
    proof (cases "rec_of (pgw p) ?rid")
      case None
      then have "map_of (requests (pgw p)) ?rid = None" using settled_missing [OF assms(1)] by simp
      with assms(2) Some key show ?thesis by (auto simp: replay_by_index_def read_missing not_found_error)
    next
      case d: (Some d)
      then have id: "ditem (attach_output E True ?rid p d) ''request-id'' = Inr (JStr ?rid)"
        using settled_rec(2) [OF assms(1)] by (intro ditem_of_str) (simp add: attach_output_other)
      show ?thesis
        using assms(2) Some key d read_settled [OF assms(1) d] id
        by (cases "intent_digest E d")
          (auto simp: replay_by_index_def attach_output_other split: if_split_asm sum.split_asm intro!: exI [of _ ?rid])
    qed
  qed
qed

lemma same_records_settled: "same_records p p' \<Longrightarrow> settled_store E (pgw p') = settled_store E (pgw p)"
  by (simp add: same_records_def)

lemma same_records_trans: "same_records a b \<Longrightarrow> same_records b c \<Longrightarrow> same_records a c"
  by (simp add: same_records_def)

text \<open>An admission under a key that one record holds answers from that record.\<close>

lemma admit_locked_replay:
  assumes "settled_store E (pgw p)" "\<forall>r. keyed (pgw p) kd r \<longleftrightarrow> r = rid" "rec_of (pgw p) rid = Some d"
    "intent_digest E d = Inr i"
  obtains p' where "same_records p p'" "admit_locked E H now kd intent fb c p =
      (if i = intent then Inr (attach_output E True rid p d, False) else Inl key_conflict, p')"
proof -
  obtain r p1 where rp: "replay_by_index E kd intent p = (r, p1)" by fastforce
  note rs = replay_settled [OF assms(1) rp]
  then have same: "same_records p p1" by blast
  from rs have "r = Inr None \<or> r = (if i = intent then Inr (Some (attach_output E True rid p d)) else Inl key_conflict)"
  proof (elim conjE disjE exE)
    fix rid' d'
    assume d': "rec_of (pgw p) rid' = Some d'" "dget d' ''idempotency-key'' = JStr kd"
      and c: "case intent_digest E d' of Inl e \<Rightarrow> r = Inl e
       | Inr i \<Rightarrow> r = (if i = intent then Inr (Some (attach_output E True rid' p d')) else Inl key_conflict)"
    from d' assms(2) have "rid' = rid" unfolding keyed_def by blast
    with d' assms(3) have "rid' = rid" "d' = d" by simp_all
    with c assms(4) show ?thesis by simp
  qed simp
  then show thesis
  proof
    assume r: "r = (if i = intent then Inr (Some (attach_output E True rid p d)) else Inl key_conflict)"
    show thesis by (rule that [OF same]) (simp add: admit_locked_def rp r)
  next
    assume r: "r = Inr None"
    have pg: "pgw p1 = pgw p" using same by (simp add: same_records_def)
    have m: "matching_persisted_record E kd intent p1 =
        (if i = intent then Inr (Some (attach_output E True rid p d)) else Inl key_conflict, p1)"
      using matching_settled(2) [of E p1 kd rid d i intent] assms unfolding pg attach_same [OF same] by blast
    have "ditem (attach_output E True rid p d) ''request-id'' = Inr (JStr rid)"
      using settled_rec(2) [OF assms(1,3)] by (intro ditem_of_str) (simp add: attach_output_other)
    then show thesis
      using same_records_trans [OF same, of "put_index kd intent (JStr rid) p1"] same
      by (intro that [of "if i = intent then put_index kd intent (JStr rid) p1 else p1"]) (simp_all add: admit_locked_def rp r m)
  qed
qed

text \<open>Only an admission under a key no record holds goes on to create one.\<close>

lemma admit_locked_cases:
  assumes "settled_store E (pgw p)" "admit_locked E H now kd intent fb c p = (r, p')"
  obtains (same) "same_records p p'" "\<forall>c. r \<noteq> Inr (c, True)"
  | (fresh) p1 where "same_records p p1" "\<forall>r. \<not> keyed (pgw p) kd r" "admit_new E H now kd intent fb c p1 = (r, p')"
proof -
  obtain x p1 where rp: "replay_by_index E kd intent p = (x, p1)" by fastforce
  note rs = replay_settled [OF assms(1) rp]
  then have sm: "same_records p p1" by blast
  then have pg: "pgw p1 = pgw p" by (simp add: same_records_def)
  with assms(1) have st1: "settled_store E (pgw p1)" by simp
  obtain m p2 where mp: "matching_persisted_record E kd intent p1 = (m, p2)" by fastforce
  have p2: "p2 = p1" using mp by (auto simp: matching_persisted_record_def list_settled [OF st1] Let_def)
  show thesis
  proof (cases "x = Inr None \<and> m = Inr None")
    case True
    have none: "(case ms of a # _ \<Rightarrow> if b then Inr (Some a) else Inl e | [] \<Rightarrow> Inl e) \<noteq> Inr None" for ms :: "dict list" and b e
      by (cases ms) auto
    from mp True have "filter (\<lambda>r. dget r ''idempotency-key'' = JStr kd) (newest_first (listed E True p1)) = []"
      by (auto simp: matching_persisted_record_def list_settled [OF st1] Let_def rbind_eq_Inr none split: if_split_asm)
    then have "filter (\<lambda>r. dget r ''idempotency-key'' = JStr kd) (listed E True p1) = []"
      by (metis newest_first_filter mset_zero_iff)
    then have "\<forall>r. \<not> keyed (pgw p) kd r" unfolding listed_keyed [OF st1] using keyed_mem pg by (fastforce simp: filter_empty_conv)
    then show thesis using assms(2) rp mp True p2 by (intro fresh [OF sm]) (simp_all add: admit_locked_def)
  next
    case False
    have "same_records p p'" "\<forall>c. r \<noteq> Inr (c, True)" using assms(2) rp mp False p2 sm same_records_trans [OF sm same_records_index(2)]
      by (auto simp: admit_locked_def split: sum.split_asm option.split_asm)
    then show thesis by (rule same)
  qed
qed

section \<open>What admission stores\<close>

text \<open>The record schema lets the prompt and the output be null.\<close>

definition schema_nullable :: "('a genv_scheme) \<Rightarrow> bool" where
  "schema_nullable E \<longleftrightarrow> (\<forall>d. schema_issues E d = [] \<longrightarrow> schema_issues E (redact_for_persistence d) = [])"

definition canonical_node :: "('a genv_scheme) \<Rightarrow> dict \<Rightarrow> bool" where
  "canonical_node E d \<longleftrightarrow> dget d ''node-admission'' = JNull \<or>
     (\<exists>m. map_of d ''node-admission'' = Some (JObj m) \<and> node_admission_from_mapping (crypto.truncate E) (JObj m) = Inr m)"

lemma validate_canonical: "validate_record E c d = Inr d' \<Longrightarrow> canonical_node E d'"
  by (auto simp: validate_record_def canonical_node_def rbind_eq_Inr node_admission_canonical split: if_split_asm)

lemma canonical_validate:
  assumes "canonical_node E d" "validate_record E c d = Inr d'"
  shows "d' = d" "validate_record E c' d = Inr d"
proof -
  have "dset ''node-admission'' (JObj m) d = d" if "map_of d ''node-admission'' = Some (JObj m)" for m
    using that by (simp add: dset_def update_triv)
  then show "d' = d" "validate_record E c' d = Inr d"
    using assms by (auto simp: canonical_node_def validate_record_def rbind_eq_Inr dget_def split: if_split_asm)
qed

lemma canonical_dset: "k \<noteq> ''node-admission'' \<Longrightarrow> canonical_node E (dset k v d) = canonical_node E d"
  by (simp add: canonical_node_def)

lemma canonical_redact: "canonical_node E (redact_for_persistence d) = canonical_node E d"
  by (simp add: redact_for_persistence_def Let_def canonical_dset)

lemma validate_redact:
  assumes "validate_record E c d = Inr d" "canonical_node E d" "schema_nullable E"
  shows "validate_record E c' (redact_for_persistence d) = Inr (redact_for_persistence d)"
proof -
  note r = redact_keeps [of "''node-admission''" d] redact_keeps [of "''node-placement''" d] redact_keeps [of "''execution-profile-id''" d]
  have i: "schema_issues E (redact_for_persistence d) = []"
    using assms(3) validate_record_schema [OF assms(1)] by (simp add: schema_nullable_def)
  show ?thesis
  proof (cases "dget d ''node-admission'' = JNull")
    case True
    then show ?thesis by (simp add: validate_record_def r i)
  next
    case False
    have "canonical_node E (redact_for_persistence d)" using assms(2) by (simp add: canonical_redact)
    with False obtain m where m: "map_of (redact_for_persistence d) ''node-admission'' = Some (JObj m)"
      "node_admission_from_mapping (crypto.truncate E) (JObj m) = Inr m" by (auto simp: canonical_node_def r)
    then have n: "dget d ''node-admission'' = JObj m" by (simp add: r [symmetric]) (simp add: dget_def)
    from m(1) have "dset ''node-admission'' (JObj m) (redact_for_persistence d) = redact_for_persistence d"
      by (simp add: dset_def update_triv)
    then show ?thesis using assms(1) m(2) n by (simp add: validate_record_def r i split: if_split_asm)
  qed
qed

lemma current_shape_dset: "k \<notin> set (''contract-version'' # ''timeout-seconds'' # CURRENT_KEYS) \<Longrightarrow> current_shape d \<Longrightarrow> current_shape (dset k v d)"
  by (auto simp: current_shape_def list_all_iff CURRENT_KEYS_def)

lemma current_shape_validate:
  assumes "validate_record E c d = Inr d'" "current_shape d"
  shows "current_shape d'"
  using assms by (auto simp: validate_record_def rbind_eq_Inr current_shape_def CURRENT_KEYS_def split: if_split_asm)

lemma prepare_candidate_shape:
  assumes "prepare_candidate E kd payload = Inr (c, i)" "current_shape payload"
  shows "current_shape c" "canonical_node E c" "dget c ''idempotency-key'' = JStr kd" "intent_digest E c = Inr i"
    "\<And>k. k \<notin> {''idempotency-key'', ''node-admission''} \<Longrightarrow> dget c k = dget payload k"
proof -
  from assms(1) obtain c1 c2 where c: "fresh_node_admission E payload = Inr c1" "validate_record E ''VAL-AGW-002'' c1 = Inr c2"
      "c = dset ''idempotency-key'' (JStr kd) c2" "intent_digest E c = Inr i"
    unfolding prepare_candidate_def rbind_eq_Inr Let_def by (elim exE conjE) (simp add: that)
  have f: "current_shape c1" "\<And>k. k \<noteq> ''node-admission'' \<Longrightarrow> dget c1 k = dget payload k"
    using c(1) assms(2) by (auto simp: fresh_node_admission_def rbind_eq_Inr current_shape_def CURRENT_KEYS_def split: if_split_asm)
  show "current_shape c" unfolding c(3)
    by (rule current_shape_dset [OF _ current_shape_validate [OF c(2) f(1)]]) (simp add: CURRENT_KEYS_def)
  show "canonical_node E c" using validate_canonical [OF c(2)] by (simp add: c(3) canonical_dset)
  show "dget c ''idempotency-key'' = JStr kd" "intent_digest E c = Inr i" using c(3,4) by simp_all
  show "dget c k = dget payload k" if "k \<notin> {''idempotency-key'', ''node-admission''}" for k
    using that f(2) validate_record_keeps [OF c(2)] by (simp add: c(3))
qed

lemma assign_ordinal_frame:
  assumes "assign_ordinal E fb c p = (Inr c', p1)" "settled_store E (pgw p)"
  shows "pgw p1 = pgw p" "final_files p1 = final_files p" "c' = c \<or> (\<exists>n. c' = dset ''enqueue-ordinal'' n c)"
proof -
  have "p2 = p" if "previous_ordinal E fb p = (r, p2)" for r p2
    using that assms(2) by (auto simp: previous_ordinal_def list_settled split: option.split_asm doc.split_asm json.split_asm)
  then show "pgw p1 = pgw p" "final_files p1 = final_files p" "c' = c \<or> (\<exists>n. c' = dset ''enqueue-ordinal'' n c)"
    using assms(1) by (auto simp: assign_ordinal_def split: if_split_asm prod.split_asm sum.split_asm)
qed

lemma requests_admission_index [simp]: "requests (admission_index E H now rid s) = requests s"
  by (simp add: admission_index_def split: option.split)

lemma rec_of_admission_index [simp]: "rec_of (admission_index E H now rid s) r = rec_of s r"
  by (simp add: rec_of_def)

lemma ditem_dset: "ditem (dset k v d) k' = (if k' = k then Inr v else ditem d k')"
  by (simp add: ditem_def)

lemma intent_of_dset:
  "intent_of (dset ''prompt-body'' v d) = intent_of d" "intent_of (dset ''output'' v d) = intent_of d"
  "intent_of (dset ''enqueue-ordinal'' v d) = intent_of d"
  by (simp_all add: intent_of_def ditem_dset cong: if_cong)

lemma intent_digest_stored:
  "intent_digest E (redact_for_persistence d) = intent_digest E d"
  "intent_digest E (dset ''enqueue-ordinal'' n d) = intent_digest E d"
  by (simp_all add: intent_digest_def redact_for_persistence_def Let_def intent_of_dset)

lemma alist_update_new: "map_of al k = None \<Longrightarrow> AList.update k v al = al @ [(k, v)]"
  by (induction al) (auto split: if_split_asm)

text \<open>Every outcome of the creation: no record is written (the ordinal may be spent), or the candidate,
  with its ordinal, is on disk without its prompt.\<close>

lemma admit_new_cases:
  assumes "admit_new E H now kd intent fb c p = (r, p')"
  obtains (none) e where "r = Inl e" "p' = p"
  | (spent) e p1 where "r = Inl e" "assign_ordinal E fb c p = (Inl e, p1)" "p' = p1"
  | (failed) e c' p1 where "r = Inl e" "assign_ordinal E fb c p = (Inr c', p1)" "p' = p1"
  | (stored) c' p1 q rid where "r = rbind (on_admitted H c') (\<lambda>_. Inr (c', True))" "assign_ordinal E fb c p = (Inr c', p1)"
      "dget c' ''request-id'' = JStr rid" "validate_record E ''VAL-AGW-004'' c' = Inr q"
      "requests (pgw p') = AList.update rid (Doc (JObj (redact_for_persistence q))) (requests (pgw p1))"
      "sequence_file p' = sequence_file p1" "final_files p' = final_files p1"
proof (cases "before_write H")
  case (Inl e)
  with assms show thesis by (intro none [of e]) (simp_all add: admit_new_def)
next
  case (Inr u)
  obtain a p1 where a: "assign_ordinal E fb c p = (a, p1)" by fastforce
  show thesis
  proof (cases a)
    case (Inl e)
    with assms a Inr show thesis by (intro spent [of e p1]) (simp_all add: admit_new_def)
  next
    case c': (Inr c')
    obtain w s where w: "write_record E c' (pgw p1) = (w, s)" by fastforce
    from w show thesis
    proof (cases rule: write_record_cases)
      case (fail e)
      with assms a Inr c' w show thesis by (intro failed [of e c' p1]) (simp_all add: admit_new_def)
    next
      case (ok q rid)
      with assms a Inr c' w show thesis
        by (intro stored [of c' p1 rid q]) (auto simp: admit_new_def Let_def put_request_def)
    qed
  qed
qed

lemma stored_settled:
  assumes "settled_store E (pgw p)" "current_shape c" "canonical_node E c" "schema_nullable E"
    "\<forall>rid. dget c ''request-id'' = JStr rid \<longrightarrow> map_of (requests (pgw p)) rid = None \<and> rid \<notin> {''idempotency'', ''sessions''}"
    "assign_ordinal E fb c p = (Inr c', p1)" "dget c' ''request-id'' = JStr rid" "validate_record E ''VAL-AGW-004'' c' = Inr q"
    "requests s = AList.update rid (Doc (JObj (redact_for_persistence q))) (requests (pgw p1))"
  shows "requests s = requests (pgw p) @ [(rid, Doc (JObj (redact_for_persistence c')))]"
    "settled_store E s" "rec_of (pgw p) rid = None" "dget c ''request-id'' = JStr rid"
    "\<And>r. rec_of s r = (if r = rid then Some (redact_for_persistence c') else rec_of (pgw p) r)"
    "c' = c \<or> (\<exists>n. c' = dset ''enqueue-ordinal'' n c)"
proof -
  note f = assign_ordinal_frame [OF assms(6,1)]
  then show "c' = c \<or> (\<exists>n. c' = dset ''enqueue-ordinal'' n c)" by blast
  have c': "canonical_node E c'" "current_shape c'" "dget c ''request-id'' = JStr rid"
    using f(3) assms(2,3,7) by (auto simp: canonical_dset intro!: current_shape_dset simp: CURRENT_KEYS_def)
  then show "dget c ''request-id'' = JStr rid" by blast
  note q = canonical_validate [OF c'(1) assms(8)]
  from q assms(8) have st: "settled E (redact_for_persistence c')"
    using validate_redact [OF _ c'(1) assms(4)] c'(2) by (simp add: settled_def)
  have id: "dget (redact_for_persistence c') ''request-id'' = JStr rid" using assms(7) by (simp add: redact_keeps)
  have new: "map_of (requests (pgw p)) rid = None" "rid \<notin> {''idempotency'', ''sessions''}" using assms(5) c'(3) by blast+
  show rq: "requests s = requests (pgw p) @ [(rid, Doc (JObj (redact_for_persistence c')))]"
    using assms(9) f(1) q(1) new(1) by (simp add: alist_update_new)
  show "settled_store E s" using assms(1) st id new
    by (auto simp: settled_store_def rq map_of_eq_None_iff)
  show "rec_of (pgw p) rid = None" using new(1) by (simp add: rec_of_def)
  show "rec_of s r = (if r = rid then Some (redact_for_persistence c') else rec_of (pgw p) r)" for r
    using new(1) by (auto simp: rec_of_def rq map_add_def split: option.split)
qed

end
