(* ===== verification/Admission_System.thy ===== *)
theory Admission_System
  imports Admission
begin

text \<open>
  Admissions that run concurrently.  An admission is two steps: the preparation with the scan before
  the lock leaves a ticket, and the locked section redeems it later, after any number of steps of
  other admissions and any loss or corruption of the idempotency index.  The invariant says why the
  scan may be trusted: a ticket of a missing counter bounds every ordinal on disk.
\<close>

record ticket =
  t_candidate :: dict
  t_key :: string
  t_intent :: string
  t_fallback :: "int option"

text \<open>An identifier that is new in the store and no reserved directory name.\<close>

definition fresh_id :: "proj \<Rightarrow> dict \<Rightarrow> bool" where
  "fresh_id p c \<longleftrightarrow> (\<forall>rid. dget c ''request-id'' = JStr rid \<longrightarrow>
     map_of (requests (pgw p)) rid = None \<and> rid \<notin> {''idempotency'', ''sessions''})"

inductive adm_step :: "('a genv_scheme) \<Rightarrow> proj \<times> ticket list \<Rightarrow> proj \<times> ticket list \<Rightarrow> bool" for E where
  scan: "\<lbrakk>build_record E now rid kw = Inr payload; prepare_candidate E kd payload = Inr (c, i); admit_scan E c p = (Inr fb, p')\<rbrakk>
    \<Longrightarrow> adm_step E (p, ts) (p', \<lparr>t_candidate = c, t_key = kd, t_intent = i, t_fallback = fb\<rparr> # ts)"
| lock: "\<lbrakk>fresh_id p (t_candidate t);
      admit_locked E H now (t_key t) (t_intent t) (t_fallback t) (t_candidate t) p = (r, p')\<rbrakk>
    \<Longrightarrow> adm_step E (p, ts1 @ t # ts2) (p', ts1 @ ts2)"
| index: "adm_step E (p, ts) (p\<lparr>idem_files := fs\<rparr>, ts)"

definition ord_of :: "gw \<Rightarrow> string \<Rightarrow> int \<Rightarrow> bool" where
  "ord_of s rid n \<longleftrightarrow> (\<exists>d. rec_of s rid = Some d \<and> dget d ''enqueue-ordinal'' = JInt n)"

definition bounds_ordinals :: "gw \<Rightarrow> int \<Rightarrow> bool" where
  "bounds_ordinals s n \<longleftrightarrow> (\<forall>rid m. ord_of s rid m \<longrightarrow> m \<le> n)"

definition seq_ok :: "proj \<Rightarrow> bool" where
  "seq_ok p \<longleftrightarrow> (\<forall>n. sequence_file p = Some (Doc (JInt n)) \<longrightarrow> bounds_ordinals (pgw p) n)"

definition ticket_ok :: "('a genv_scheme) \<Rightarrow> proj \<Rightarrow> ticket \<Rightarrow> bool" where
  "ticket_ok E p t \<longleftrightarrow> current_shape (t_candidate t) \<and> canonical_node E (t_candidate t) \<and>
     dget (t_candidate t) ''idempotency-key'' = JStr (t_key t) \<and> dget (t_candidate t) ''enqueue-ordinal'' = JNull \<and>
     (sequence_file p = None \<longrightarrow> (\<forall>n. t_fallback t = Some n \<longrightarrow> bounds_ordinals (pgw p) n))"

definition admissions_ok :: "proj \<Rightarrow> bool" where
  "admissions_ok p \<longleftrightarrow> seq_ok p \<and> (\<forall>kd a b. keyed (pgw p) kd a \<and> keyed (pgw p) kd b \<longrightarrow> a = b) \<and>
     (\<forall>n a b. ord_of (pgw p) a n \<and> ord_of (pgw p) b n \<longrightarrow> a = b)"

definition adm_inv :: "('a genv_scheme) \<Rightarrow> proj \<times> ticket list \<Rightarrow> bool" where
  "adm_inv E x \<longleftrightarrow> settled_store E (pgw (fst x)) \<and> admissions_ok (fst x) \<and> (\<forall>t \<in> set (snd x). ticket_ok E (fst x) t)"

section \<open>Scans\<close>

lemma fold_max_ge: "x \<le> fold max xs (x :: int)" "y \<in> set xs \<Longrightarrow> y \<le> fold max xs x"
proof (induction xs arbitrary: x)
  case (Cons z zs)
  { case 1 show ?case using Cons(1) [of "max z x"] by simp
  next case 2 then show ?case using Cons(1) [of "max z x"] Cons(2) [of "max z x"] by auto }
qed simp_all

lemma max_ordinal_ge: "r \<in> set recs \<Longrightarrow> dget r ''enqueue-ordinal'' = JInt m \<Longrightarrow> m \<le> max_ordinal recs"
proof -
  assume a: "r \<in> set recs" "dget r ''enqueue-ordinal'' = JInt m"
  let ?os = "map (\<lambda>r. int_of (dget r ''enqueue-ordinal'')) (filter (\<lambda>r. is_int_strict (dget r ''enqueue-ordinal'')) recs)"
  have "m \<in> set ?os" using a by (force simp: image_iff)
  then show ?thesis using fold_max_ge by (cases ?os) (auto simp: max_ordinal_def)
qed

lemma scan_bounds:
  assumes "settled_store E (pgw p)"
  shows "bounds_ordinals (pgw p) (max_ordinal (newest_first (listed E io p)))"
  unfolding bounds_ordinals_def
proof (intro allI impI)
  fix rid m
  assume "ord_of (pgw p) rid m"
  then obtain d where d: "rec_of (pgw p) rid = Some d" "dget d ''enqueue-ordinal'' = JInt m" by (auto simp: ord_of_def)
  have "attach_output E io rid p d \<in> set (listed E io p)"
    using rec_of_mem [OF d(1)] d(1) by (force simp: listed_def image_iff)
  then show "m \<le> max_ordinal (newest_first (listed E io p))"
    using d(2) by (intro max_ordinal_ge [of "attach_output E io rid p d"]) (simp_all add: attach_output_other)
qed

lemma admit_scan_settled:
  assumes "settled_store E (pgw p)" "admit_scan E c p = (Inr fb, p')"
  shows "p' = p" "sequence_file p = None \<Longrightarrow> fb = Some n \<Longrightarrow> bounds_ordinals (pgw p) n"
  using assms scan_bounds [OF assms(1)] by (auto simp: admit_scan_def list_settled split: if_split_asm)

lemma admit_scan_total: "settled_store E (pgw p) \<Longrightarrow> \<exists>fb. admit_scan E c p = (Inr fb, p)"
  by (simp add: admit_scan_def list_settled)

lemma previous_ordinal_bounds:
  assumes "settled_store E (pgw p)" "seq_ok p" "sequence_file p = None \<longrightarrow> (\<forall>m. fb = Some m \<longrightarrow> bounds_ordinals (pgw p) m)"
    "previous_ordinal E fb p = (Inr n, p')"
  shows "p' = p" "bounds_ordinals (pgw p) n"
proof -
  have "p' = p \<and> bounds_ordinals (pgw p) n"
  proof (cases "sequence_file p")
    case None
    show ?thesis
    proof (cases fb)
      case None
      then show ?thesis using assms(1,4) scan_bounds [OF assms(1)] \<open>sequence_file p = None\<close>
        by (auto simp: previous_ordinal_def list_settled)
    next
      case (Some k)
      then show ?thesis using assms(3,4) None by (auto simp: previous_ordinal_def)
    qed
  next
    case (Some f)
    then show ?thesis using assms(2,4)
      by (auto simp: previous_ordinal_def seq_ok_def split: doc.split_asm json.split_asm if_split_asm)
  qed
  then show "p' = p" "bounds_ordinals (pgw p) n" by blast+
qed

text \<open>The ordinal of a candidate in a state of the invariant.\<close>

lemma assign_ordinal_cases:
  assumes "settled_store E (pgw p)" "seq_ok p" "sequence_file p = None \<longrightarrow> (\<forall>m. fb = Some m \<longrightarrow> bounds_ordinals (pgw p) m)"
    "assign_ordinal E fb c p = (a, p1)"
  obtains (plain) "\<not> provider_session c" "a = Inr c" "p1 = p"
  | (failed) e where "a = Inl e" "p1 = p"
  | (next_ordinal) n where "provider_session c" "bounds_ordinals (pgw p) n" "a = Inr (dset ''enqueue-ordinal'' (JInt (n + 1)) c)"
      "p1 = p\<lparr>sequence_file := Some (Doc (JInt (n + 1)))\<rparr>"
proof (cases "provider_session c")
  case False
  with assms(4) show thesis by (intro plain) (simp_all add: assign_ordinal_def)
next
  case True
  obtain x p2 where pr: "previous_ordinal E fb p = (x, p2)" by fastforce
  show thesis
  proof (cases x)
    case (Inl e)
    moreover have "p2 = p" using pr assms(1)
      by (auto simp: previous_ordinal_def list_settled split: option.split_asm doc.split_asm json.split_asm)
    ultimately show thesis using assms(4) True pr by (intro failed [of e]) (simp_all add: assign_ordinal_def)
  next
    case (Inr n)
    with pr have "previous_ordinal E fb p = (Inr n, p2)" by simp
    note b = previous_ordinal_bounds [OF assms(1-3) this]
    show thesis using assms(4) True pr b Inr by (intro next_ordinal [of n]) (simp_all add: assign_ordinal_def)
  qed
qed

section \<open>The invariant\<close>

lemma bounds_mono: "bounds_ordinals s n \<Longrightarrow> n \<le> m \<Longrightarrow> bounds_ordinals s m"
  by (force simp: bounds_ordinals_def)

lemma admissions_same: "same_records p p' \<Longrightarrow> adm_inv E (p, ts) \<Longrightarrow> adm_inv E (p', ts)"
  by (simp add: adm_inv_def admissions_ok_def seq_ok_def ticket_ok_def same_records_def)

lemma adm_inv_drop: "adm_inv E (p, ts1 @ t # ts2) \<Longrightarrow> adm_inv E (p, ts1 @ ts2) \<and> ticket_ok E p t"
  by (simp add: adm_inv_def)

lemma adm_inv_spent:
  assumes "adm_inv E (p, ts)" "bounds_ordinals (pgw p) n"
  shows "adm_inv E (p\<lparr>sequence_file := Some (Doc (JInt n))\<rparr>, ts)"
  using assms by (simp add: adm_inv_def admissions_ok_def seq_ok_def ticket_ok_def)

text \<open>Storing a new record under a key nobody holds, with a new ordinal or none.\<close>

lemma adm_inv_store:
  assumes "adm_inv E (p, ts)" "settled_store E (pgw p')" "\<forall>r. \<not> keyed (pgw p) kd r" "rec_of (pgw p) rid = None"
    "\<forall>r. rec_of (pgw p') r = (if r = rid then Some d else rec_of (pgw p) r)" "dget d ''idempotency-key'' = JStr kd"
    "sequence_file p' = sequence_file p \<and> dget d ''enqueue-ordinal'' = JNull \<or>
     (\<exists>n. bounds_ordinals (pgw p) n \<and> dget d ''enqueue-ordinal'' = JInt (n + 1) \<and> sequence_file p' = Some (Doc (JInt (n + 1))))"
  shows "adm_inv E (p', ts)"
proof -
  have k: "keyed (pgw p') kd' r \<longleftrightarrow> (if r = rid then kd' = kd else keyed (pgw p) kd' r)" for kd' r
    using assms(5,6) by (auto simp: keyed_def)
  have o: "ord_of (pgw p') r m \<longleftrightarrow> (if r = rid then dget d ''enqueue-ordinal'' = JInt m else ord_of (pgw p) r m)" for r m
    using assms(5) by (auto simp: ord_of_def)
  have o': "\<not> ord_of (pgw p) rid m" for m using assms(4) by (simp add: ord_of_def)
  have k1: "\<forall>kd' a b. keyed (pgw p') kd' a \<and> keyed (pgw p') kd' b \<longrightarrow> a = b"
    using assms(1,3) by (auto simp: k adm_inv_def admissions_ok_def)
  show ?thesis
    using assms(7)
  proof (elim disjE conjE exE)
    assume seq: "sequence_file p' = sequence_file p" and od: "dget d ''enqueue-ordinal'' = JNull"
    have e: "ord_of (pgw p') = ord_of (pgw p)" using o o' od by (intro ext) auto
    then have "bounds_ordinals (pgw p') = bounds_ordinals (pgw p)" by (simp add: bounds_ordinals_def fun_eq_iff)
    then show ?thesis using assms(1,2) k1 seq by (simp add: adm_inv_def admissions_ok_def seq_ok_def ticket_ok_def e)
  next
    fix n
    assume n: "bounds_ordinals (pgw p) n" "dget d ''enqueue-ordinal'' = JInt (n + 1)" "sequence_file p' = Some (Doc (JInt (n + 1)))"
    have "bounds_ordinals (pgw p') (n + 1)" using n(1,2) by (force simp: bounds_ordinals_def o)
    moreover have no: "\<not> ord_of (pgw p) r (n + 1)" for r using n(1) by (force simp: bounds_ordinals_def)
    have "a = b" if "ord_of (pgw p') a m" "ord_of (pgw p') b m" for a b m
      using that n(2) assms(1) unfolding o by (auto simp: adm_inv_def admissions_ok_def no split: if_split_asm)
    ultimately show ?thesis using assms(1,2) k1 n(3)
      by (auto simp: adm_inv_def admissions_ok_def seq_ok_def ticket_ok_def)
  qed
qed

lemma lock_inv:
  assumes "adm_inv E (p, ts)" "ticket_ok E p t" "schema_nullable E" "fresh_id p (t_candidate t)"
    "admit_locked E H now (t_key t) (t_intent t) (t_fallback t) (t_candidate t) p = (r, p')"
  shows "adm_inv E (p', ts) \<and> (\<forall>rid d. rec_of (pgw p) rid = Some d \<longrightarrow> rec_of (pgw p') rid = Some d) \<and>
    (\<forall>c. r = Inr (c, True) \<and> provider_session (t_candidate t) \<longrightarrow>
       (\<exists>n. dget c ''enqueue-ordinal'' = JInt (n + 1) \<and> bounds_ordinals (pgw p) n))"
proof -
  from assms(1) have st: "settled_store E (pgw p)" by (simp add: adm_inv_def)
  from st assms(5) show ?thesis
  proof (cases rule: admit_locked_cases)
    case same
    with admissions_same [OF same(1) assms(1)] show ?thesis by (auto simp: same_records_def)
  next
    case (fresh p1)
    have inv1: "adm_inv E (p1, ts)" by (rule admissions_same [OF fresh(1) assms(1)])
    have pg: "pgw p1 = pgw p" "sequence_file p1 = sequence_file p" using fresh(1) by (simp_all add: same_records_def)
    have t: "current_shape (t_candidate t)" "canonical_node E (t_candidate t)"
      "dget (t_candidate t) ''idempotency-key'' = JStr (t_key t)" "dget (t_candidate t) ''enqueue-ordinal'' = JNull"
      "sequence_file p1 = None \<longrightarrow> (\<forall>m. t_fallback t = Some m \<longrightarrow> bounds_ordinals (pgw p1) m)"
      using assms(2) by (simp_all add: ticket_ok_def pg)
    have st1: "settled_store E (pgw p1)" "seq_ok p1" using inv1 by (simp_all add: adm_inv_def admissions_ok_def)
    have fid: "\<forall>rid. dget (t_candidate t) ''request-id'' = JStr rid \<longrightarrow>
        map_of (requests (pgw p1)) rid = None \<and> rid \<notin> {''idempotency'', ''sessions''}"
      using assms(4) by (simp add: fresh_id_def pg)
    from fresh(3) show ?thesis
    proof (cases rule: admit_new_cases)
      case none
      then show ?thesis using inv1 pg by simp
    next
      case (spent e p2)
      from st1 t(5) spent(2) have "p2 = p1" by (cases rule: assign_ordinal_cases) auto
      then show ?thesis using spent inv1 pg by simp
    next
      case (failed e c' p2)
      from st1 t(5) failed(2) show ?thesis
      proof (cases rule: assign_ordinal_cases)
        case (next_ordinal n)
        then show ?thesis using failed adm_inv_spent [OF inv1 bounds_mono [OF next_ordinal(2), of "n + 1"]] pg by simp
      qed (use failed inv1 pg in auto)
    next
      case (stored c' p2 q rid)
      note sd = stored_settled [OF st1(1) t(1,2) assms(3) fid stored(2-5)]
      have key: "dget c' ''idempotency-key'' = JStr (t_key t)" using sd(6) t(3) by auto
      have od: "sequence_file p' = sequence_file p1 \<and> dget c' ''enqueue-ordinal'' = JNull \<and> \<not> provider_session (t_candidate t) \<or>
         (\<exists>n. bounds_ordinals (pgw p1) n \<and> dget c' ''enqueue-ordinal'' = JInt (n + 1) \<and> sequence_file p' = Some (Doc (JInt (n + 1))))"
        using st1 t(5) stored(2)
      proof (cases rule: assign_ordinal_cases)
        case plain
        then show ?thesis using stored(6) t(4) by simp
      next
        case (next_ordinal n)
        then show ?thesis using stored(6) by auto
      qed simp
      have "adm_inv E (p', ts)"
        by (rule adm_inv_store [OF inv1 sd(2), where kd = "t_key t" and rid = rid and d = "redact_for_persistence c'"])
          (use fresh(2) pg sd(3,5) key od in \<open>auto simp: redact_keeps\<close>)
      then show ?thesis using sd(3,5) stored(1) od pg by (auto simp: rbind_eq_Inr)
    qed
  qed
qed

lemma build_record_fields:
  assumes "build_record E now rid kw = Inr d"
  shows "current_shape d" "dget d ''enqueue-ordinal'' = JNull"
proof -
  from assms have v: "validate_record E ''VAL-AGW-002'' (build_payload now rid kw) = Inr d"
    by (simp add: build_record_def Let_def split: if_split_asm)
  show "current_shape d" by (rule current_shape_validate [OF v build_payload_current])
  show "dget d ''enqueue-ordinal'' = JNull"
    using validate_record_keeps [OF v, of "''enqueue-ordinal''"] by (simp add: build_payload_def dget_Cons)
qed

lemma adm_step_inv:
  assumes "adm_step E x y" "adm_inv E x" "schema_nullable E"
  shows "adm_inv E y \<and> (\<forall>rid d. rec_of (pgw (fst x)) rid = Some d \<longrightarrow> rec_of (pgw (fst y)) rid = Some d)"
  using assms
proof (cases rule: adm_step.cases)
  case (scan now rid kw payload kd c i p fb p' ts)
  have st: "settled_store E (pgw p)" using assms(2) scan(1) by (simp add: adm_inv_def)
  note sc = admit_scan_settled [OF st scan(5)]
  note b = build_record_fields [OF scan(3)]
  have "ticket_ok E p \<lparr>t_candidate = c, t_key = kd, t_intent = i, t_fallback = fb\<rparr>"
    using prepare_candidate_shape [OF scan(4) b(1)] b(2) sc(2) by (simp add: ticket_ok_def)
  then show ?thesis using assms(2) scan(1,2) sc(1) by (simp add: adm_inv_def)
next
  case (lock p t H now r p' ts1 ts2)
  with assms(2) adm_inv_drop [of E p ts1 t ts2] have i: "adm_inv E (p, ts1 @ ts2)" "ticket_ok E p t" by simp_all
  from lock_inv [OF i assms(3) lock(3,4)] lock(1,2) show ?thesis by simp
next
  case (index p ts fs)
  then show ?thesis using assms(2) admissions_same [of p "p\<lparr>idem_files := fs\<rparr>" E ts] by (simp add: same_records_def)
qed

lemma adm_steps_inv:
  assumes "(adm_step E)\<^sup>*\<^sup>* x y" "adm_inv E x" "schema_nullable E"
  shows "adm_inv E y \<and> (\<forall>rid d. rec_of (pgw (fst x)) rid = Some d \<longrightarrow> rec_of (pgw (fst y)) rid = Some d)"
  using assms(1) by (induction rule: rtranclp_induct) (use assms(2) adm_step_inv [OF _ _ assms(3)] in blast)+

section \<open>Properties\<close>

text \<open>C9: Admission is idempotent.  Once a request was created under a key, a second admission with the
  same key creates nothing: with the same execution intent it answers the request that was created,
  with another intent it is refused as a conflict, and in both cases the records are untouched.  This
  holds whatever happened to the idempotency index, the counter and the response files in between.\<close>

theorem admission_idempotent:
  assumes "settled_store E (pgw p)" "schema_nullable E" "current_shape payload" "fresh_id p payload"
    "admit_record E H now payload key p = (Inr (c, True), p1)" "pgw p2 = pgw p1"
    "prepare_candidate E (hash_idempotency_key E key) payload = Inr (c1, i1)"
    "prepare_candidate E (hash_idempotency_key E key) payload2 = Inr (c2, i2)"
  shows "\<exists>p3 r. admit_record E H2 now2 payload2 key p2 = (if i1 = i2 then Inr (r, False) else Inl key_conflict, p3) \<and>
    pgw p3 = pgw p2 \<and> dget r ''request-id'' = dget c ''request-id'' \<and> intent_digest E r = Inr i1"
proof -
  let ?kd = "hash_idempotency_key E key"
  note sh = prepare_candidate_shape [OF assms(7,3)]
  have scan: "p' = q" if "admit_scan E x q = (r, p')" "settled_store E (pgw q)" for x q r p'
    using that by (auto simp: admit_scan_def list_settled split: if_split_asm)
  from assms(5,7) obtain fb where lk: "admit_locked E H now ?kd i1 fb c1 p = (Inr (c, True), p1)"
    using scan [OF _ assms(1)] by (auto simp: admit_record_def Let_def split: sum.split_asm prod.split_asm)
  from assms(1) lk obtain q where q: "same_records p q" "\<forall>r. \<not> keyed (pgw p) ?kd r" "admit_new E H now ?kd i1 fb c1 q = (Inr (c, True), p1)"
    by (cases rule: admit_locked_cases) auto
  have pg: "pgw q = pgw p" using q(1) by (simp add: same_records_def)
  have fid: "\<forall>rid. dget c1 ''request-id'' = JStr rid \<longrightarrow> map_of (requests (pgw q)) rid = None \<and> rid \<notin> {''idempotency'', ''sessions''}"
    using assms(4) sh(5) [of "''request-id''"] by (simp add: fresh_id_def pg)
  from assms(1) have st: "settled_store E (pgw q)" by (simp add: pg)
  from q(3) obtain c' q1 q' rid where n: "assign_ordinal E fb c1 q = (Inr c', q1)" "dget c' ''request-id'' = JStr rid"
      "validate_record E ''VAL-AGW-004'' c' = Inr q'" "c' = c"
      "requests (pgw p1) = AList.update rid (Doc (JObj (redact_for_persistence q'))) (requests (pgw q1))"
    by (cases rule: admit_new_cases) (auto simp: rbind_eq_Inr eq_commute [of "Inr _" "rbind _ _"])
  note sd = stored_settled [OF st sh(1,2) assms(2) fid n(1-3,5)]
  let ?d = "redact_for_persistence c"
  have d: "rec_of (pgw p2) rid = Some ?d" "intent_digest E ?d = Inr i1" "dget ?d ''idempotency-key'' = JStr ?kd"
    using sd(5,6) n(4) sh(3,4) assms(6) by (auto simp: intent_digest_stored redact_keeps)
  have one: "\<forall>r. keyed (pgw p2) ?kd r \<longleftrightarrow> r = rid" using q(2) sd(5) d n(4) assms(6) by (auto simp: keyed_def pg)
  have st2: "settled_store E (pgw p2)" using sd(2) assms(6) by simp
  obtain fb2 where sc: "admit_scan E c2 p2 = (Inr fb2, p2)" using admit_scan_total [OF st2] by blast
  obtain p3 where p3: "same_records p2 p3" "admit_locked E H2 now2 ?kd i2 fb2 c2 p2 =
      (if i1 = i2 then Inr (attach_output E True rid p2 ?d, False) else Inl key_conflict, p3)"
    by (rule admit_locked_replay [OF st2 one d(1,2)])
  show ?thesis
    using p3 assms(8) sc d(2) n(2,4)
    by (intro exI [of _ p3] exI [of _ "attach_output E True rid p2 ?d"])
      (simp add: admit_record_def Let_def same_records_def attach_output_other redact_keeps)
qed

text \<open>C10: Concurrent admissions are exclusive.  However the scans and the locked sections of admissions
  interleave, and whatever happens to the idempotency index, no two records share an idempotency key,
  no two share an enqueue ordinal, and every record that was there is there unchanged.\<close>

theorem concurrent_admissions_exclusive:
  assumes "(adm_step E)\<^sup>*\<^sup>* (p, []) (p', ts)" "settled_store E (pgw p)" "admissions_ok p" "schema_nullable E"
  shows "(\<forall>kd a b. keyed (pgw p') kd a \<and> keyed (pgw p') kd b \<longrightarrow> a = b) \<and>
    (\<forall>n a b. ord_of (pgw p') a n \<and> ord_of (pgw p') b n \<longrightarrow> a = b) \<and>
    (\<forall>rid d. rec_of (pgw p) rid = Some d \<longrightarrow> rec_of (pgw p') rid = Some d)"
proof -
  have "adm_inv E (p, [])" using assms(2,3) by (simp add: adm_inv_def)
  from adm_steps_inv [OF assms(1) this assms(4)] show ?thesis by (simp add: adm_inv_def admissions_ok_def)
qed

text \<open>Enqueue order is admission order: the ordinal a provider-session admission gets is larger than
  every ordinal on disk at that moment, also when the counter file was lost and its value was
  reconstructed by a scan that ran before other admissions.\<close>

theorem enqueue_ordinal_is_newest:
  assumes "(adm_step E)\<^sup>*\<^sup>* (p, []) (p1, ts1 @ t # ts2)" "settled_store E (pgw p)" "admissions_ok p" "schema_nullable E"
    "fresh_id p1 (t_candidate t)" "provider_session (t_candidate t)"
    "admit_locked E H now (t_key t) (t_intent t) (t_fallback t) (t_candidate t) p1 = (Inr (c, True), p2)"
  shows "\<exists>n. dget c ''enqueue-ordinal'' = JInt n \<and> (\<forall>rid m. ord_of (pgw p1) rid m \<longrightarrow> m < n)"
proof -
  have "adm_inv E (p, [])" using assms(2,3) by (simp add: adm_inv_def)
  from adm_steps_inv [OF assms(1) this assms(4)] have "adm_inv E (p1, ts1 @ t # ts2)" by blast
  with adm_inv_drop have i: "adm_inv E (p1, ts1 @ ts2)" "ticket_ok E p1 t" by blast+
  from lock_inv [OF i assms(4,5,7)] assms(6) obtain n where
    "dget c ''enqueue-ordinal'' = JInt (n + 1)" "bounds_ordinals (pgw p1) n" by blast
  then show ?thesis by (force simp: bounds_ordinals_def)
qed

section \<open>A concrete run\<close>

definition hooks0 :: hooks where
  "hooks0 = \<lparr>before_write = Inr (), on_admitted = (\<lambda>_. Inr ()), h_service_root = Some ''/svc'', h_project_root = ''/proj''\<rparr>"

definition empty0 :: proj where
  "empty0 = proj_of \<lparr>requests = [], timeline = [], windex = (\<lambda>_. \<lparr>ix_files = [], ix_quarantine = []\<rparr>), active_work = Map.empty\<rparr>"

definition payload0 :: dict where
  "payload0 = build_payload ''2026-01-01T00:00:00Z'' ''req_a''
     [(''prompt_body'', JStr ''hi''), (''execution_profile_id'', JStr ''p''), (''provider_transport_kind'', JStr ''provider-session'')]"

lemma empty0_ok [simp]: "settled_store env0 (pgw empty0)" "admissions_ok empty0" "fresh_id empty0 payload0"
  by (simp_all add: empty0_def proj_of_def settled_store_def admissions_ok_def seq_ok_def bounds_ordinals_def ord_of_def keyed_def
    rec_of_def fresh_id_def payload0_def build_payload_def dget_Cons por_def)

lemma env0_nullable [simp]: "schema_nullable env0"
  by (simp add: schema_nullable_def env0_def)

definition ticket0 :: ticket where
  "ticket0 = \<lparr>t_candidate = dset ''idempotency-key'' (JStr ''k1'') payload0, t_key = ''k1'', t_intent = ''{}'', t_fallback = Some 0\<rparr>"

definition run0 :: "(dict \<times> bool) res \<times> proj" where
  "run0 = admit_locked env0 hooks0 ''now'' (t_key ticket0) (t_intent ticket0) (t_fallback ticket0) (t_candidate ticket0) empty0"

lemma build0: "build_record env0 ''2026-01-01T00:00:00Z'' ''req_a''
     [(''prompt_body'', JStr ''hi''), (''execution_profile_id'', JStr ''p''), (''provider_transport_kind'', JStr ''provider-session'')] = Inr payload0"
  unfolding payload0_def by code_simp

lemma prepare0: "prepare_candidate env0 ''k1'' payload0 = Inr (t_candidate ticket0, t_intent ticket0)"
  by code_simp

lemma scan0: "admit_scan env0 (t_candidate ticket0) empty0 = (Inr (t_fallback ticket0), empty0)"
proof -
  have "fst (admit_scan env0 (t_candidate ticket0) empty0) = Inr (t_fallback ticket0)" by code_simp
  then show ?thesis using admit_scan_total [OF empty0_ok(1), of "t_candidate ticket0"] by auto
qed

lemma fresh0: "fresh_id empty0 (t_candidate ticket0)"
  using empty0_ok(3) by (simp add: ticket0_def fresh_id_def)

definition created :: "(dict \<times> bool) res \<Rightarrow> bool" where
  "created r = (case r of Inl _ \<Rightarrow> False | Inr (_, b) \<Rightarrow> b)"

lemma createdD: "created r \<Longrightarrow> \<exists>c. r = Inr (c, True)"
  by (auto simp: created_def split: sum.split_asm)

lemma run0_created: "\<exists>c. fst run0 = Inr (c, True)"
  by (rule createdD) code_simp

lemma run0_steps: "(adm_step env0)\<^sup>*\<^sup>* (empty0, []) (snd run0, [])" "(adm_step env0)\<^sup>*\<^sup>* (empty0, []) (empty0, [] @ ticket0 # [])"
proof -
  have "adm_step env0 (empty0, []) (empty0, [ticket0])"
    using adm_step.scan [OF build0 prepare0 scan0, of "[]"] by (simp add: ticket0_def)
  moreover have "adm_step env0 (empty0, [] @ ticket0 # []) (snd run0, [] @ [])"
    by (rule adm_step.lock [OF fresh0, where r = "fst run0" and H = hooks0 and now = "''now''"]) (simp add: run0_def)
  ultimately show "(adm_step env0)\<^sup>*\<^sup>* (empty0, []) (snd run0, [])" "(adm_step env0)\<^sup>*\<^sup>* (empty0, []) (empty0, [] @ ticket0 # [])"
    by (auto intro: rtranclp.rtrancl_into_rtrancl)
qed

theorem concurrent_admissions_exclusive_witness: "{a. keyed (pgw (snd run0)) ''k1'' a} = {''req_a''}"
proof -
  have "case rec_of (pgw (snd run0)) ''req_a'' of None \<Rightarrow> False | Some d \<Rightarrow> dget d ''idempotency-key'' = JStr ''k1''" by code_simp
  then have "keyed (pgw (snd run0)) ''k1'' ''req_a''" by (simp add: keyed_def split: option.split_asm)
  moreover have "\<forall>kd a b. keyed (pgw (snd run0)) kd a \<and> keyed (pgw (snd run0)) kd b \<longrightarrow> a = b"
    using concurrent_admissions_exclusive [OF run0_steps(1) empty0_ok(1,2) env0_nullable] by blast
  ultimately show ?thesis by blast
qed

theorem admission_idempotent_witness:
  "\<exists>c p1 p3 r. admit_record env0 hooks0 ''now'' payload0 ''k1'' empty0 = (Inr (c, True), p1) \<and>
    admit_record env0 hooks0 ''later'' payload0 ''k1'' (p1\<lparr>idem_files := []\<rparr>) = (Inr (r, False), p3) \<and>
    pgw p3 = pgw p1 \<and> dget r ''request-id'' = dget c ''request-id'' \<and> intent_digest env0 r = Inr ''{}''"
proof -
  have sh: "current_shape payload0" unfolding payload0_def by (rule build_payload_current)
  have h: "hash_idempotency_key env0 ''k1'' = ''k1''" by code_simp
  obtain c p1 where a: "admit_record env0 hooks0 ''now'' payload0 ''k1'' empty0 = (Inr (c, True), p1)"
  proof -
    have "\<exists>c. fst (admit_record env0 hooks0 ''now'' payload0 ''k1'' empty0) = Inr (c, True)" by (rule createdD) code_simp
    then show thesis using that by (metis prod.collapse)
  qed
  have "t_intent ticket0 = ''{}''" by (simp add: ticket0_def)
  with prepare0 have pr: "prepare_candidate env0 (hash_idempotency_key env0 ''k1'') payload0 = Inr (t_candidate ticket0, ''{}'')"
    by (simp add: h)
  from admission_idempotent [OF empty0_ok(1) env0_nullable sh empty0_ok(3) a _ pr pr, of "p1\<lparr>idem_files := []\<rparr>" hooks0 "''later''"] a
  show ?thesis by auto
qed

end
