(* ===== verification/Recovery_Journal.thy ===== *)
theory Recovery_Journal
  imports Store_Examples
begin

text \<open>
  The recovery journal of a request (\<open>gateway/replay.py\<close>): an append-only list of events.  An action
  is journalled as an intent before its side effect and closed by one result.  Provider-native
  actions consume a retry budget and are fenced while a submission is ambiguous; reconciliation is
  guarded by a claim with a lease, projected from the journal order.  The rotation of the file into
  segments is invisible to readers, so the journal is its list of rows and the sequence watermark the
  rotation keeps.  Times are seconds; \<open>parse_utc\<close> and \<open>add_seconds\<close> are \<open>fromisoformat\<close> and
  the formatted sum (a text without offset does not parse).  The wall clock of a call is the argument
  \<open>ref\<close>, its \<open>now_iso_z\<close> the argument \<open>now\<close>.  The observations that mirror the events are
  advisory and not modelled.
\<close>

record rjournal =
  rows :: "dict list"
  watermark :: int

definition RECOVERY_SCHEMA :: string where
  "RECOVERY_SCHEMA = ''gateway-recovery.v1''"

definition RECOVERY_CLAIM_LEASE_SECONDS :: rat where
  "RECOVERY_CLAIM_LEASE_SECONDS = 120"

definition RECOVERY_UNRESOLVED_COOLDOWN_SECONDS :: rat where
  "RECOVERY_UNRESOLVED_COOLDOWN_SECONDS = 60"

definition RECOVERY_CLOCK_SKEW_SECONDS :: rat where
  "RECOVERY_CLOCK_SKEW_SECONDS = 5"

fun bounded_text :: "nat \<Rightarrow> json \<Rightarrow> json" where
  "bounded_text n (JStr s) = (if s = [] then JNull else JStr (take n s))"
| "bounded_text n _ = JNull"

fun parse_recovery_time :: "('a genv_scheme) \<Rightarrow> json \<Rightarrow> rat option" where
  "parse_recovery_time E (JStr s) = (if s = [] then None else parse_utc E s)"
| "parse_recovery_time E _ = None"

section \<open>The claim\<close>

record rclaim =
  cl_attempt :: json
  cl_generation :: int
  cl_lease :: json
  cl_lease_created :: json
  cl_intent :: dict
  cl_result :: "dict option"

definition claims :: "dict \<Rightarrow> bool" where
  "claims e \<longleftrightarrow> dget e ''event'' = JStr ''action-intent'' \<and> dget e ''action-kind'' = JStr ''reconcile'' \<and>
     dget e ''disposition'' = JStr ''intent-persisted''"

definition about_claim :: "rclaim \<Rightarrow> dict \<Rightarrow> bool" where
  "about_claim c e \<longleftrightarrow> jeq (dget e ''action-attempt-id'') (cl_attempt c) \<and> jeq (dget e ''claim-generation'') (JInt (cl_generation c))"

definition claim_step :: "rclaim option \<times> int \<Rightarrow> dict \<Rightarrow> rclaim option \<times> int" where
  "claim_step st e =
     (if claims e then
        (let g = (case dget e ''claim-generation'' of JInt n \<Rightarrow> n | _ \<Rightarrow> snd st + 1)
         in (Some \<lparr>cl_attempt = dget e ''action-attempt-id'', cl_generation = g, cl_lease = dget e ''lease-expires-at'',
               cl_lease_created = dget e ''created-at'', cl_intent = e, cl_result = None\<rparr>, g))
      else case fst st of
        None \<Rightarrow> st
      | Some c \<Rightarrow>
          if dget e ''event'' = JStr ''claim-renewal'' \<and> about_claim c e then
            (Some (c\<lparr>cl_lease := dget e ''lease-expires-at'', cl_lease_created := dget e ''created-at''\<rparr>), snd st)
          else if dget e ''event'' = JStr ''action-result'' \<and> about_claim c e then (Some (c\<lparr>cl_result := Some e\<rparr>), snd st)
          else st)"

definition recovery_claim :: "dict list \<Rightarrow> rclaim option" where
  "recovery_claim es = fst (foldl claim_step (None, 0) es)"

definition claim_valid :: "('a genv_scheme) \<Rightarrow> rat \<Rightarrow> rclaim \<Rightarrow> bool" where
  "claim_valid E ref c =
     (case (parse_recovery_time E (dget (cl_intent c) ''created-at''), parse_recovery_time E (cl_lease_created c),
            parse_recovery_time E (cl_lease c)) of
        (Some created, Some lease_created, Some expires) \<Rightarrow>
          created \<le> ref + RECOVERY_CLOCK_SKEW_SECONDS \<and> lease_created \<le> ref + RECOVERY_CLOCK_SKEW_SECONDS \<and>
          lease_created \<le> expires \<and>
          expires \<le> lease_created + (RECOVERY_CLAIM_LEASE_SECONDS + RECOVERY_CLOCK_SKEW_SECONDS)
      | _ \<Rightarrow> False)"

definition claim_active :: "('a genv_scheme) \<Rightarrow> rat \<Rightarrow> rclaim \<Rightarrow> bool" where
  "claim_active E ref c \<longleftrightarrow> claim_valid E ref c \<and>
     (case parse_recovery_time E (cl_lease c) of Some expires \<Rightarrow> ref < expires | None \<Rightarrow> False)"

text \<open>The claim is held, open and unexpired, by this attempt at this generation.\<close>

definition owns_claim :: "('a genv_scheme) \<Rightarrow> rat \<Rightarrow> string \<Rightarrow> json \<Rightarrow> dict list \<Rightarrow> bool" where
  "owns_claim E ref att gen es = (case recovery_claim es of
     None \<Rightarrow> False
   | Some c \<Rightarrow> claim_active E ref c \<and> cl_attempt c = JStr att \<and> jeq (JInt (cl_generation c)) gen \<and> cl_result c = None)"

definition assert_recovery_claim_owner :: "('a genv_scheme) \<Rightarrow> rat \<Rightarrow> string \<Rightarrow> int \<Rightarrow> rjournal \<Rightarrow> rclaim res" where
  "assert_recovery_claim_owner E ref att gen j =
     (if owns_claim E ref att (JInt gen) (rows j) then Inr (the (recovery_claim (rows j)))
      else Inl (RuntimeError ''recovery claim is no longer owned''))"

section \<open>Appending\<close>

definition last_seq :: "rjournal \<Rightarrow> int res" where
  "last_seq j = (if rows j = [] \<or> last (rows j) = [] then Inr (watermark j)
     else py_int (dget_or (last (rows j)) ''event-seq'' (JInt 0)))"

definition journal_append :: "dict \<Rightarrow> rjournal \<Rightarrow> dict res \<times> rjournal" where
  "journal_append e j = (case last_seq j of
        Inl err \<Rightarrow> (Inl err, j)
      | Inr n \<Rightarrow> (let e' = dset ''event-seq'' (JInt (n + 1)) e in (Inr e', j\<lparr>rows := rows j @ [e']\<rparr>)))"

text \<open>\<open>now2\<close> is the second reading of the wall clock, the start of the new lease.\<close>

definition renew_recovery_claim ::
    "('a genv_scheme) \<Rightarrow> rat \<Rightarrow> string \<Rightarrow> string \<Rightarrow> string \<Rightarrow> int \<Rightarrow> rjournal \<Rightarrow> bool res \<times> rjournal" where
  "renew_recovery_claim E ref now2 now att gen j =
     (if \<not> owns_claim E ref att (JInt gen) (rows j) then (Inr False, j)
      else case journal_append
        [(''schema-version'', JStr RECOVERY_SCHEMA), (''event'', JStr ''claim-renewal''), (''action-attempt-id'', JStr att),
         (''claim-generation'', JInt gen), (''lease-expires-at'', JStr (add_seconds E now2 RECOVERY_CLAIM_LEASE_SECONDS)),
         (''created-at'', JStr now)] j of
        (Inl e, j') \<Rightarrow> (Inl e, j') | (Inr _, j') \<Rightarrow> (Inr True, j'))"

section \<open>Intents\<close>

record raction =
  ra_attempt_id :: string
  ra_action :: string
  ra_attempt_epoch :: int
  ra_retry_budget :: int
  ra_submission_proven :: "bool option"
  ra_kind :: string
  ra_causal :: "string list"
  ra_binding :: dict

definition native_kinds :: "string set" where
  "native_kinds = {''provider-native-retry'', ''provider-native-continue''}"

definition native_persisted :: "dict \<Rightarrow> bool" where
  "native_persisted e \<longleftrightarrow> dget e ''event'' = JStr ''action-intent'' \<and>
     dget e ''action-kind'' \<in> {JStr ''provider-native-retry'', JStr ''provider-native-continue''} \<and>
     dget e ''disposition'' = JStr ''intent-persisted''"

definition of_attempt :: "string \<Rightarrow> dict \<Rightarrow> bool" where
  "of_attempt att e \<longleftrightarrow> dget e ''action-attempt-id'' = JStr att"

definition is_result :: "string \<Rightarrow> dict \<Rightarrow> bool" where
  "is_result att e \<longleftrightarrow> dget e ''event'' = JStr ''action-result'' \<and> of_attempt att e"

text \<open>An attempt that is in the journal already is never journalled again.\<close>

definition existing_action :: "string \<Rightarrow> dict list \<Rightarrow> dict option" where
  "existing_action att es = (case filter (of_attempt att) es of
     [] \<Rightarrow> None
   | mine \<Rightarrow> (let x = last mine in Some
       (if dget x ''event'' = JStr ''action-intent'' \<and> dget x ''disposition'' = JStr ''intent-persisted'' then
          if list_ex (is_result att) es
          then dupd x [(''disposition'', JStr ''already-recorded''), (''outcome'', JStr ''action-already-recorded'')]
          else dupd x [(''disposition'', JStr ''reconciliation-required''), (''outcome'', JStr ''action-result-missing'')]
        else x)))"

text \<open>The decision on the claim for a reconcile action: an answer, or the generation to claim.\<close>

definition claim_decision :: "('a genv_scheme) \<Rightarrow> rat \<Rightarrow> dict list \<Rightarrow> dict + int option" where
  "claim_decision E ref es = (case recovery_claim es of
     None \<Rightarrow> Inr (Some 1)
   | Some c \<Rightarrow> (case cl_result c of
       Some res \<Rightarrow>
        (let base = dupd (cl_intent c) res; created = parse_recovery_time E (dget res ''created-at'');
             invalid_time = dupd base [(''disposition'', JStr ''reconciliation-required''), (''outcome'', JStr ''recovery-timestamp-invalid'')] in
         if dget res ''outcome'' = JStr ''reconciliation-completed'' then Inl (dset ''disposition'' (JStr ''already-recorded'') base)
         else case created of
           None \<Rightarrow> Inl invalid_time
         | Some t \<Rightarrow>
             if ref + RECOVERY_CLOCK_SKEW_SECONDS < t then Inl invalid_time
             else if ref - t < RECOVERY_UNRESOLVED_COOLDOWN_SECONDS then
               Inl (dupd base [(''disposition'', JStr ''reconciliation-required''), (''outcome'', JStr ''recovery-cooldown-active'')])
             else Inr None)
     | None \<Rightarrow>
         if \<not> claim_valid E ref c then Inr (Some ((if 0 < cl_generation c then cl_generation c else 0) + 1))
         else if claim_active E ref c then
           Inl (dupd (cl_intent c) [(''disposition'', JStr ''reconciliation-required''), (''outcome'', JStr ''recovery-claim-active'')])
         else Inr (Some (cl_generation c + 1))))"

definition disposition_of :: "raction \<Rightarrow> int \<Rightarrow> string \<times> string" where
  "disposition_of a remaining =
     (if ra_kind a \<in> native_kinds \<and> ra_submission_proven a \<noteq> Some False then
        (''reconciliation-required'', ''rejected-ambiguous-submission'')
      else if remaining = 0 \<and> ra_kind a \<noteq> ''reconcile'' then (''budget-exhausted'', ''rejected-retry-budget'')
      else (''intent-persisted'', ''pending-side-effect''))"

definition BINDING_KEYS :: "string list" where
  "BINDING_KEYS = [''project-id'', ''session-id'', ''chat-id'', ''turn-id'', ''prompt-fingerprint'', ''assistant-id'',
     ''terminal-witness-id'', ''provider-session-id'', ''provider-turn-id'']"

fun binding_value :: "json \<Rightarrow> bool" where
  "binding_value (JStr _) = True" | "binding_value (JInt _) = True" | "binding_value (JBool _) = True" | "binding_value _ = False"

definition safe_binding :: "dict \<Rightarrow> dict" where
  "safe_binding b = filter (\<lambda>(k, v). binding_value v) (map (\<lambda>k. (k, dget b k)) BINDING_KEYS)"

definition causal_ids :: "string list \<Rightarrow> json" where
  "causal_ids xs = JList (filter (\<lambda>v. v \<noteq> JNull) (map (\<lambda>x. bounded_text 128 (JStr x)) xs))"

definition intent_event :: "('a genv_scheme) \<Rightarrow> string \<Rightarrow> raction \<Rightarrow> int \<Rightarrow> int option \<Rightarrow> dict" where
  "intent_event E now a remaining gen =
     (let (disposition, outcome) = disposition_of a remaining;
          e = [(''schema-version'', JStr RECOVERY_SCHEMA), (''event'', JStr ''action-intent''),
               (''action-attempt-id'', bounded_text 128 (JStr (ra_attempt_id a))), (''action'', bounded_text 128 (JStr (ra_action a))),
               (''action-kind'', JStr (ra_kind a)), (''attempt-epoch'', JInt (max 1 (ra_attempt_epoch a))),
               (''retry-budget'', JInt (if ra_kind a \<noteq> ''reconcile'' then remaining else ra_retry_budget a)),
               (''retry-budget-before'', JInt (ra_retry_budget a)),
               (''submission-proven'', case ra_submission_proven a of None \<Rightarrow> JNull | Some b \<Rightarrow> JBool b),
               (''disposition'', JStr disposition), (''outcome'', JStr outcome), (''causal-input-ids'', causal_ids (ra_causal a)),
               (''binding'', JObj (safe_binding (ra_binding a))), (''created-at'', JStr now)] in
      if ra_kind a = ''reconcile'' \<and> disposition = ''intent-persisted'' then
        (let e1 = dupd e [(''claim-generation'', JInt (case gen of None \<Rightarrow> 1 | Some g \<Rightarrow> if g = 0 then 1 else g)),
               (''claim-owner-id'', dget e ''action-attempt-id'')]
         in if parse_recovery_time E (JStr now) \<noteq> None
            then dset ''lease-expires-at'' (JStr (add_seconds E now RECOVERY_CLAIM_LEASE_SECONDS)) e1 else e1)
      else e)"

definition prepare_recovery_action ::
    "('a genv_scheme) \<Rightarrow> rat \<Rightarrow> string \<Rightarrow> raction \<Rightarrow> rjournal \<Rightarrow> dict res \<times> rjournal" where
  "prepare_recovery_action E ref now a j =
     (if ra_attempt_id a = [] \<or> ra_action a = [] then (Inl (ValueError ''action and action_attempt_id are required''), j)
      else if ra_retry_budget a < 0 then (Inl (ValueError ''retry budget cannot be negative''), j)
      else if ra_kind a \<notin> native_kinds \<union> {''linked-child-turn'', ''reconcile''} then (Inl (ValueError ''unknown recovery action kind''), j)
      else case existing_action (ra_attempt_id a) (rows j) of
        Some x \<Rightarrow> (Inr x, j)
      | None \<Rightarrow> (case (if ra_kind a = ''reconcile'' then claim_decision E ref (rows j) else Inr None) of
          Inl answer \<Rightarrow> (Inr answer, j)
        | Inr gen \<Rightarrow>
           (let remaining = max 0 (ra_retry_budget a - int (length (filter native_persisted (rows j))))
            in journal_append (intent_event E now a remaining gen) j)))"

section \<open>Results\<close>

definition record_recovery_result ::
    "('a genv_scheme) \<Rightarrow> rat \<Rightarrow> string \<Rightarrow> string \<Rightarrow> string \<Rightarrow> bool \<Rightarrow> int option \<Rightarrow> string list \<Rightarrow> rjournal \<Rightarrow> dict res \<times> rjournal" where
  "record_recovery_result E ref now att outcome terminal gen causal j =
     (case find (\<lambda>e. dget e ''event'' = JStr ''action-intent'' \<and> of_attempt att e) (rows j) of
        None \<Rightarrow> (Inl (ValueError ''recovery action intent is missing''), j)
      | Some intent \<Rightarrow>
         (let resolved = (case gen of Some g \<Rightarrow> JInt g | None \<Rightarrow> dget intent ''claim-generation'') in
          case find (is_result att) (rows j) of
            Some r \<Rightarrow> (Inr r, j)
          | None \<Rightarrow>
             if dget intent ''action-kind'' = JStr ''reconcile'' \<and> \<not> owns_claim E ref att resolved (rows j) then
               (Inr [(''disposition'', JStr ''stale-claim''), (''outcome'', JStr ''recovery-claim-lost''),
                     (''action-attempt-id'', JStr att), (''claim-generation'', resolved)], j)
             else journal_append
               [(''schema-version'', JStr RECOVERY_SCHEMA), (''event'', JStr ''action-result''),
                (''action-attempt-id'', bounded_text 128 (JStr att)), (''claim-generation'', resolved),
                (''outcome'', por (bounded_text 128 (JStr outcome)) (JStr ''unknown'')), (''terminal'', JBool terminal),
                (''causal-input-ids'', causal_ids causal), (''created-at'', JStr now)] j))"

section \<open>Journal steps\<close>

text \<open>Any interleaving of the three writers.  Attempt identifiers are at most 128 characters long, so
  the journal holds them unabridged; \<open>B\<close> bounds the retry budgets the callers pass.\<close>

inductive rj_step :: "('a genv_scheme) \<Rightarrow> int \<Rightarrow> rjournal \<Rightarrow> rjournal \<Rightarrow> bool" for E B where
  prepare: "\<lbrakk>length (ra_attempt_id a) \<le> 128; ra_retry_budget a \<le> B\<rbrakk>
    \<Longrightarrow> rj_step E B j (snd (prepare_recovery_action E ref now a j))"
| renew: "rj_step E B j (snd (renew_recovery_claim E ref now2 now att gen j))"
| result: "\<lbrakk>length att \<le> 128; att \<noteq> []\<rbrakk> \<Longrightarrow> rj_step E B j (snd (record_recovery_result E ref now att outcome terminal gen causal j))"

lemma rtranclp_invariant: "r\<^sup>*\<^sup>* x y \<Longrightarrow> P x \<Longrightarrow> (\<And>a b. r a b \<Longrightarrow> P a \<Longrightarrow> P b) \<Longrightarrow> P y"
  by (induction rule: rtranclp_induct) auto

text \<open>The event a step appends.\<close>

definition appended :: "rjournal \<Rightarrow> rjournal \<Rightarrow> dict \<Rightarrow> bool" where
  "appended j j' e \<longleftrightarrow> watermark j' = watermark j \<and> (\<exists>n. rows j' = rows j @ [dset ''event-seq'' (JInt n) e])"

lemma journal_append_cases:
  assumes "journal_append e j = (r, j')"
  obtains (failed) x where "r = Inl x" "j' = j" | (ok) n where "last_seq j = Inr n" "r = Inr (dset ''event-seq'' (JInt (n + 1)) e)"
    "appended j j' e" "rows j' = rows j @ [dset ''event-seq'' (JInt (n + 1)) e]"
proof (cases "last_seq j")
  case (Inl x)
  with assms show thesis by (intro failed [of x]) (simp_all add: journal_append_def)
next
  case (Inr n)
  with assms show thesis by (intro ok [OF Inr]) (auto simp: journal_append_def Let_def appended_def)
qed

lemma rj_step_cases:
  assumes "rj_step E B j j'"
  obtains (same) "j' = j"
  | (intent) a ref now gen where "appended j j' (intent_event E now a
        (max 0 (ra_retry_budget a - int (length (filter native_persisted (rows j))))) gen)"
      "length (ra_attempt_id a) \<le> 128" "ra_attempt_id a \<noteq> []" "ra_retry_budget a \<le> B" "existing_action (ra_attempt_id a) (rows j) = None"
      "ra_kind a = ''reconcile'' \<longrightarrow> claim_decision E ref (rows j) = Inr gen"
  | (renewal) att gen e ref where "appended j j' e" "dget e ''event'' = JStr ''claim-renewal''" "of_attempt att e" "owns_claim E ref att (JInt gen) (rows j)"
  | (res) att e where "appended j j' e" "dget e ''event'' = JStr ''action-result''" "of_attempt att e" "find (is_result att) (rows j) = None"
      "list_ex (of_attempt att) (rows j)"
  using assms
proof (cases rule: rj_step.cases)
  case (prepare a ref now)
  obtain r j1 where p: "prepare_recovery_action E ref now a j = (r, j1)" by fastforce
  show thesis
  proof (cases "j1 = j")
    case True
    then show thesis using prepare(1) p by (intro same) simp
  next
    case False
    let ?d = "if ra_kind a = ''reconcile'' then claim_decision E ref (rows j) else Inr None"
    from p False obtain gen where g: "?d = Inr gen" "existing_action (ra_attempt_id a) (rows j) = None" "ra_attempt_id a \<noteq> []"
      and ja: "journal_append (intent_event E now a (max 0 (ra_retry_budget a - int (length (filter native_persisted (rows j))))) gen) j = (r, j1)"
      by (auto simp: prepare_recovery_action_def Let_def split: if_split_asm option.split_asm sum.split_asm)
    from ja False have "appended j j1 (intent_event E now a (max 0 (ra_retry_budget a - int (length (filter native_persisted (rows j))))) gen)"
      by (cases rule: journal_append_cases) auto
    then show thesis using prepare p g by (intro intent [of now a gen ref]) auto
  qed
next
  case (renew ref now2 now att gen)
  let ?e = "[(''schema-version'', JStr RECOVERY_SCHEMA), (''event'', JStr ''claim-renewal''), (''action-attempt-id'', JStr att),
         (''claim-generation'', JInt gen), (''lease-expires-at'', JStr (add_seconds E now2 RECOVERY_CLAIM_LEASE_SECONDS)),
         (''created-at'', JStr now)]"
  obtain r j1 where ja: "journal_append ?e j = (r, j1)" by fastforce
  show thesis
  proof (cases "owns_claim E ref att (JInt gen) (rows j)")
    case True
    then have j': "j' = j1" using renew ja by (simp add: renew_recovery_claim_def split: sum.split)
    from ja show thesis
    proof (cases rule: journal_append_cases)
      case failed
      then show thesis using j' by (intro same) simp
    next
      case (ok n)
      then show thesis using j' True by (intro renewal [of ?e att ref gen]) (simp_all add: dget_Cons of_attempt_def)
    qed
  next
    case False
    then show thesis using renew by (intro same) (simp add: renew_recovery_claim_def)
  qed
next
  case (result att ref now outcome terminal gen causal)
  obtain r j1 where p: "record_recovery_result E ref now att outcome terminal gen causal j = (r, j1)" by fastforce
  show thesis
  proof (cases "j1 = j")
    case True
    then show thesis using result(1) p by (intro same) simp
  next
    case False
    from p False obtain intent where i: "find (\<lambda>e. dget e ''event'' = JStr ''action-intent'' \<and> of_attempt att e) (rows j) = Some intent"
      and n: "find (is_result att) (rows j) = None"
      by (auto simp: record_recovery_result_def Let_def split: if_split_asm option.split_asm)
    from p False i n obtain resolved where ja: "journal_append
               [(''schema-version'', JStr RECOVERY_SCHEMA), (''event'', JStr ''action-result''),
                (''action-attempt-id'', bounded_text 128 (JStr att)), (''claim-generation'', resolved),
                (''outcome'', por (bounded_text 128 (JStr outcome)) (JStr ''unknown'')), (''terminal'', JBool terminal),
                (''causal-input-ids'', causal_ids causal), (''created-at'', JStr now)] j = (r, j1)"
      by (auto simp: record_recovery_result_def Let_def split: if_split_asm)
    let ?e = "[(''schema-version'', JStr RECOVERY_SCHEMA), (''event'', JStr ''action-result''),
                (''action-attempt-id'', bounded_text 128 (JStr att)), (''claim-generation'', resolved),
                (''outcome'', por (bounded_text 128 (JStr outcome)) (JStr ''unknown'')), (''terminal'', JBool terminal),
                (''causal-input-ids'', causal_ids causal), (''created-at'', JStr now)]"
    from ja False have "appended j j1 ?e" by (cases rule: journal_append_cases) auto
    moreover have "dget ?e ''event'' = JStr ''action-result''" "of_attempt att ?e"
      using result(2,3) by (simp_all add: dget_Cons of_attempt_def)
    moreover have "list_ex (of_attempt att) (rows j)" using i by (auto simp: find_Some_iff list_ex_iff)
    ultimately show thesis using result(1) p n by (intro res [of ?e att]) auto
  qed
qed

lemma intent_event_fields:
  "dget (intent_event E now a rem gen) ''event'' = JStr ''action-intent''"
  "dget (intent_event E now a rem gen) ''action-kind'' = JStr (ra_kind a)"
  "dget (intent_event E now a rem gen) ''disposition'' = JStr (fst (disposition_of a rem))"
  "dget (intent_event E now a rem gen) ''action-attempt-id'' = bounded_text 128 (JStr (ra_attempt_id a))"
  "dget (intent_event E now a rem gen) ''submission-proven'' = (case ra_submission_proven a of None \<Rightarrow> JNull | Some b \<Rightarrow> JBool b)"
  by (simp_all add: intent_event_def Let_def split_beta dget_Cons)

lemma intent_event_generation:
  "ra_kind a = ''reconcile'' \<Longrightarrow>
    dget (intent_event E now a rem gen) ''claim-generation'' = JInt (case gen of None \<Rightarrow> 1 | Some g \<Rightarrow> if g = 0 then 1 else g)"
  by (simp add: intent_event_def Let_def split_beta disposition_of_def native_kinds_def)

section \<open>Native actions\<close>

lemma native_intent:
  assumes "native_persisted (dset ''event-seq'' n (intent_event E now a rem gen))" "0 \<le> rem"
  shows "0 < rem" "ra_submission_proven a = Some False"
  using assms by (auto simp: native_persisted_def intent_event_fields disposition_of_def native_kinds_def split: if_split_asm)

definition native_ok :: "int \<Rightarrow> dict list \<Rightarrow> bool" where
  "native_ok B es \<longleftrightarrow> int (length (filter native_persisted es)) \<le> B \<and>
     (\<forall>e \<in> set es. native_persisted e \<longrightarrow> dget e ''submission-proven'' = JBool False)"

lemma native_ok_step:
  assumes "rj_step E B j j'" "native_ok B (rows j)"
  shows "native_ok B (rows j')"
  using assms(1)
proof (cases rule: rj_step_cases)
  case (intent a ref now gen)
  let ?r = "max 0 (ra_retry_budget a - int (length (filter native_persisted (rows j))))"
  from intent(1) obtain n where r: "rows j' = rows j @ [dset ''event-seq'' (JInt n) (intent_event E now a ?r gen)]"
    by (auto simp: appended_def)
  show ?thesis
  proof (cases "native_persisted (dset ''event-seq'' (JInt n) (intent_event E now a ?r gen))")
    case True
    note ni = native_intent [OF True]
    then have "int (length (filter native_persisted (rows j))) < B" using intent(4) by simp
    then show ?thesis using assms(2) True ni(2) by (simp add: native_ok_def r intent_event_fields)
  qed (use assms(2) in \<open>simp add: native_ok_def r\<close>)
qed (use assms(2) in \<open>auto simp: native_ok_def appended_def native_persisted_def\<close>)

text \<open>C27: Provider-native recovery is fenced: however intents, renewals and results interleave, the journal
  never holds more persisted provider-native intents than the retry budget, and each of them was
  persisted with proof that nothing had been submitted, so no ambiguous submission is replayed.\<close>

theorem native_retries_fenced:
  assumes "(rj_step E B)\<^sup>*\<^sup>* j j'" "int (length (filter native_persisted (rows j))) \<le> B"
    "\<forall>e \<in> set (rows j). native_persisted e \<longrightarrow> dget e ''submission-proven'' = JBool False"
  shows "int (length (filter native_persisted (rows j'))) \<le> B \<and>
    (\<forall>e \<in> set (rows j'). native_persisted e \<longrightarrow> dget e ''submission-proven'' = JBool False)"
proof -
  have "native_ok B (rows j)" using assms(2,3) by (simp add: native_ok_def)
  with assms(1) have "native_ok B (rows j')" by (rule rtranclp_invariant) (rule native_ok_step)
  then show ?thesis by (simp add: native_ok_def)
qed

section \<open>Claims\<close>

lemma recovery_claim_snoc: "recovery_claim (es @ [e]) = fst (claim_step (foldl claim_step (None, 0) es) e)"
  by (simp add: recovery_claim_def)

lemma claim_step_attempt:
  assumes "fst (claim_step st e) = Some c"
  shows "claims e \<and> cl_attempt c = dget e ''action-attempt-id'' \<or>
    (\<exists>c0. \<not> claims e \<and> fst st = Some c0 \<and> cl_attempt c = cl_attempt c0 \<and> cl_generation c = cl_generation c0)"
  using assms by (auto simp: claim_step_def Let_def split: if_split_asm option.split_asm)

text \<open>An attempt is in the journal and the claim belongs to another one.\<close>

definition superseded :: "string \<Rightarrow> dict list \<Rightarrow> bool" where
  "superseded att es \<longleftrightarrow> list_ex (of_attempt att) es \<and> (\<exists>c. recovery_claim es = Some c \<and> cl_attempt c \<noteq> JStr att)"

lemma claim_step_Some: "fst st = Some c \<Longrightarrow> \<exists>c'. fst (claim_step st e) = Some c'"
  by (auto simp: claim_step_def Let_def)

lemma superseded_append:
  assumes "superseded att es" "claims e \<Longrightarrow> dget e ''action-attempt-id'' \<noteq> JStr att"
  shows "superseded att (es @ [e])"
proof -
  from assms(1) obtain c0 where c0: "fst (foldl claim_step (None, 0) es) = Some c0" "cl_attempt c0 \<noteq> JStr att"
    by (auto simp: superseded_def recovery_claim_def)
  from claim_step_Some [OF c0(1)] obtain c where c: "recovery_claim (es @ [e]) = Some c" by (auto simp: recovery_claim_snoc)
  have "cl_attempt c \<noteq> JStr att"
    using claim_step_attempt [of "foldl claim_step (None, 0) es" e c] c c0 assms(2) by (auto simp: recovery_claim_snoc)
  then show ?thesis using assms(1) c by (simp add: superseded_def)
qed

lemma existing_action_None: "existing_action att es = None \<longleftrightarrow> \<not> list_ex (of_attempt att) es"
proof -
  have "list_ex (of_attempt att) es \<longleftrightarrow> filter (of_attempt att) es \<noteq> []" by (auto simp: filter_empty_conv list_ex_iff)
  then show ?thesis by (simp add: existing_action_def Let_def split: list.split)
qed

lemma superseded_step:
  assumes "rj_step E B j j'" "superseded att (rows j)"
  shows "superseded att (rows j')"
  using assms(1)
proof (cases rule: rj_step_cases)
  case same
  then show ?thesis using assms(2) by simp
next
  case (intent a ref now gen)
  have "ra_attempt_id a \<noteq> att" using intent(5) assms(2) by (auto simp: existing_action_None superseded_def)
  then show ?thesis using intent(1-3) by (auto simp: appended_def intent_event_fields intro!: superseded_append [OF assms(2)])
next
  case (renewal att' gen e ref)
  then show ?thesis by (auto simp: appended_def claims_def intro!: superseded_append [OF assms(2)])
next
  case (res att' e)
  then show ?thesis by (auto simp: appended_def claims_def intro!: superseded_append [OF assms(2)])
qed

text \<open>A superseded reconciliation attempt is fenced for good: once another attempt holds the claim of a
  request, then after every later sequence of journal operations the old attempt fails its ownership
  check, cannot renew and cannot record a result, at any generation and at any time.\<close>

theorem superseded_claim_fenced:
  assumes "(rj_step E B)\<^sup>*\<^sup>* j j'" "list_ex (of_attempt att) (rows j)" "recovery_claim (rows j) = Some c" "cl_attempt c \<noteq> JStr att"
  shows "assert_recovery_claim_owner E ref att gen j' = Inl (RuntimeError ''recovery claim is no longer owned'') \<and>
    renew_recovery_claim E ref now2 now att gen j' = (Inr False, j') \<and>
    (find (\<lambda>e. dget e ''event'' = JStr ''action-intent'' \<and> of_attempt att e) (rows j') = Some intent \<and>
       dget intent ''action-kind'' = JStr ''reconcile'' \<longrightarrow>
       snd (record_recovery_result E ref now att outcome terminal gen' causal j') = j')"
proof -
  have "superseded att (rows j)" using assms(2-4) by (simp add: superseded_def)
  with assms(1) have "superseded att (rows j')" by (rule rtranclp_invariant) (rule superseded_step)
  then have "\<not> owns_claim E ref att g (rows j')" for g by (auto simp: superseded_def owns_claim_def)
  then show ?thesis
    by (auto simp: assert_recovery_claim_owner_def renew_recovery_claim_def record_recovery_result_def Let_def split: option.split)
qed

text \<open>The claim is exclusive: while an attempt owns the reconciliation claim, a reconcile intent of any
  other attempt is answered with the active claim and leaves the journal as it is.\<close>

theorem active_claim_excludes:
  assumes "owns_claim E ref att gen (rows j)" "\<not> list_ex (of_attempt (ra_attempt_id a)) (rows j)" "ra_kind a = ''reconcile''"
    "ra_attempt_id a \<noteq> []" "ra_action a \<noteq> []" "0 \<le> ra_retry_budget a"
  shows "\<exists>d. prepare_recovery_action E ref now a j = (Inr d, j) \<and> dget d ''outcome'' = JStr ''recovery-claim-active'' \<and>
    dget d ''disposition'' = JStr ''reconciliation-required''"
proof -
  from assms(1) obtain c where c: "recovery_claim (rows j) = Some c" "claim_active E ref c" "cl_result c = None"
    by (auto simp: owns_claim_def split: option.split_asm)
  have "existing_action (ra_attempt_id a) (rows j) = None" using assms(2) by (simp add: existing_action_None)
  then show ?thesis using c assms(3-6)
    by (simp add: prepare_recovery_action_def claim_decision_def claim_active_def)
qed

section \<open>Results and numbering\<close>

lemma rj_step_append:
  assumes "rj_step E B j j'"
  shows "\<exists>es. rows j' = rows j @ es"
  using assms by (cases rule: rj_step_cases) (auto simp: appended_def)

lemma rj_steps_append: "(rj_step E B)\<^sup>*\<^sup>* j j' \<Longrightarrow> \<exists>es. rows j' = rows j @ es"
proof (induction rule: rtranclp_induct)
  case (step y z)
  then show ?case using rj_step_append [OF step(2)] by auto
qed simp

lemma find_append: "find P (xs @ ys) = (case find P xs of Some x \<Rightarrow> Some x | None \<Rightarrow> find P ys)"
  by (induction xs) auto

definition single_results :: "dict list \<Rightarrow> bool" where
  "single_results es \<longleftrightarrow> (\<forall>att. length (filter (is_result att) es) \<le> 1)"

lemma single_results_step:
  assumes "rj_step E B j j'" "single_results (rows j)"
  shows "single_results (rows j')"
  using assms(1)
proof (cases rule: rj_step_cases)
  case (res att e)
  then obtain n where r: "rows j' = rows j @ [dset ''event-seq'' (JInt n) e]" by (auto simp: appended_def)
  show ?thesis
    unfolding single_results_def
  proof
    fix a
    show "length (filter (is_result a) (rows j')) \<le> 1"
    proof (cases "a = att")
      case True
      have "filter (is_result att) (rows j) = []" using res(4) by (auto simp: find_None_iff filter_empty_conv)
      then show ?thesis using True by (simp add: r)
    next
      case False
      then have "\<not> is_result a (dset ''event-seq'' (JInt n) e)" using res(3) by (simp add: is_result_def of_attempt_def)
      then show ?thesis using assms(2) by (simp add: r single_results_def)
    qed
  qed
qed (use assms(2) in \<open>auto simp: single_results_def appended_def is_result_def intent_event_fields\<close>)

text \<open>Results are final: an attempt has at most one result in the journal, and once it has one, every
  later attempt to record another answers the first result and leaves the journal as it is, whatever
  operations ran in between.\<close>

theorem recovery_result_final:
  assumes "(rj_step E B)\<^sup>*\<^sup>* j j'" "\<forall>att. length (filter (is_result att) (rows j)) \<le> 1" "find (is_result att) (rows j) = Some r"
    "list_ex (\<lambda>e. dget e ''event'' = JStr ''action-intent'' \<and> of_attempt att e) (rows j)"
  shows "(\<forall>a. length (filter (is_result a) (rows j')) \<le> 1) \<and>
    record_recovery_result E ref now att outcome terminal gen causal j' = (Inr r, j')"
proof -
  have "single_results (rows j)" using assms(2) by (simp add: single_results_def)
  with assms(1) have "single_results (rows j')" by (rule rtranclp_invariant) (rule single_results_step)
  moreover from rj_steps_append [OF assms(1)] obtain es where es: "rows j' = rows j @ es" by blast
  from assms(4) obtain i where "find (\<lambda>e. dget e ''event'' = JStr ''action-intent'' \<and> of_attempt att e) (rows j) = Some i"
    by (cases "find (\<lambda>e. dget e ''event'' = JStr ''action-intent'' \<and> of_attempt att e) (rows j)") (auto simp: find_None_iff list_ex_iff)
  with assms(3) have "record_recovery_result E ref now att outcome terminal gen causal j' = (Inr r, j')"
    by (simp add: record_recovery_result_def es find_append Let_def)
  ultimately show ?thesis by (simp add: single_results_def)
qed

text \<open>Events are numbered without gaps from the watermark.\<close>

definition numbered :: "rjournal \<Rightarrow> bool" where
  "numbered j \<longleftrightarrow> (\<forall>i < length (rows j). dget (rows j ! i) ''event-seq'' = JInt (watermark j + int i + 1))"

lemma last_seq_numbered:
  assumes "numbered j" "last_seq j = Inr n"
  shows "n = watermark j + int (length (rows j))"
proof (cases "rows j = []")
  case False
  then have l: "last (rows j) = rows j ! (length (rows j) - 1)" "length (rows j) - 1 < length (rows j)" by (simp_all add: last_conv_nth)
  then have d: "dget (last (rows j)) ''event-seq'' = JInt (watermark j + int (length (rows j)))"
    using assms(1) False by (simp add: numbered_def of_nat_diff Suc_leI)
  then have "last (rows j) \<noteq> []" "dget_or (last (rows j)) ''event-seq'' (JInt 0) = JInt (watermark j + int (length (rows j)))"
    by (auto simp: dget_def dget_or_def split: option.split_asm)
  then show ?thesis using assms(2) False by (simp add: last_seq_def)
qed (use assms in \<open>simp add: last_seq_def\<close>)

lemma journal_append_numbered:
  assumes "numbered j" "journal_append e j = (r, j')"
  shows "numbered j'"
  using assms(2)
proof (cases rule: journal_append_cases)
  case (ok n)
  then show ?thesis using assms(1) last_seq_numbered [OF assms(1) ok(1)]
    by (auto simp: numbered_def appended_def nth_append less_Suc_eq)
qed (use assms(1) in simp)

section \<open>The generation of a claim\<close>

text \<open>C39: After an unresolved result and its cooldown the next reconciliation claim has generation 1,
  whatever the generation of the claim before it was: the generation restarts instead of advancing.\<close>

theorem claim_generation_restarts:
  assumes "recovery_claim (rows j) = Some c" "cl_result c = Some res" "dget res ''outcome'' \<noteq> JStr ''reconciliation-completed''"
    "parse_recovery_time E (dget res ''created-at'') = Some t" "t + 60 \<le> ref" "\<not> list_ex (of_attempt (ra_attempt_id a)) (rows j)"
    "ra_kind a = ''reconcile''" "ra_attempt_id a \<noteq> []" "ra_action a \<noteq> []" "0 \<le> ra_retry_budget a" "last_seq j = Inr n"
  shows "\<exists>e. fst (prepare_recovery_action E ref now a j) = Inr e \<and> dget e ''disposition'' = JStr ''intent-persisted'' \<and>
    dget e ''claim-generation'' = JInt 1"
proof -
  have "claim_decision E ref (rows j) = Inr None"
    using assms(1-5) by (simp add: claim_decision_def Let_def RECOVERY_CLOCK_SKEW_SECONDS_def RECOVERY_UNRESOLVED_COOLDOWN_SECONDS_def)
  moreover have "existing_action (ra_attempt_id a) (rows j) = None" using assms(6) by (simp add: existing_action_None)
  ultimately show ?thesis using assms(7-11)
    by (simp add: intent_event_generation prepare_recovery_action_def journal_append_def Let_def intent_event_fields disposition_of_def native_kinds_def)
qed

section \<open>Concrete journals\<close>

text \<open>Times in seconds, printed as so many bars; the sum of a time and the lease is the time with 120 more.\<close>

definition renv0 :: genv where
  "renv0 = env0\<lparr>parse_utc := (\<lambda>s. Some (of_nat (length s))), add_seconds := (\<lambda>s q. s @ replicate 120 (CHR ''i''))\<rparr>"

definition journal0 :: rjournal where
  "journal0 = \<lparr>rows = [], watermark = 0\<rparr>"

definition action0 :: "string \<Rightarrow> string \<Rightarrow> raction" where
  "action0 att kind = \<lparr>ra_attempt_id = att, ra_action = ''resume'', ra_attempt_epoch = 1, ra_retry_budget = 1,
     ra_submission_proven = Some False, ra_kind = kind, ra_causal = [], ra_binding = []\<rparr>"

definition retried0 :: rjournal where
  "retried0 = snd (prepare_recovery_action renv0 1 ''i'' (action0 ''a'' ''provider-native-retry'') journal0)"

definition claimed_a :: rjournal where
  "claimed_a = snd (prepare_recovery_action renv0 1 ''i'' (action0 ''a'' ''reconcile'') journal0)"

definition claimed_b :: rjournal where
  "claimed_b = snd (prepare_recovery_action renv0 200 (replicate 200 (CHR ''i'')) (action0 ''b'' ''reconcile'') claimed_a)"

definition unresolved_b :: rjournal where
  "unresolved_b = snd (record_recovery_result renv0 210 (replicate 210 (CHR ''i'')) ''b'' ''reconciliation-unresolved'' False None [] claimed_b)"

theorem native_retries_fenced_witness:
  "length (filter native_persisted (rows retried0)) = 1 \<and>
    list_all (\<lambda>e. native_persisted e \<longrightarrow> dget e ''submission-proven'' = JBool False) (rows retried0)"
proof -
  have "(rj_step renv0 1)\<^sup>*\<^sup>* journal0 retried0"
    unfolding retried0_def by (rule r_into_rtranclp) (rule rj_step.prepare; simp add: action0_def)
  from native_retries_fenced [OF this] have "int (length (filter native_persisted (rows retried0))) \<le> 1"
    "\<forall>e \<in> set (rows retried0). native_persisted e \<longrightarrow> dget e ''submission-proven'' = JBool False" by (simp_all add: journal0_def)
  moreover have "0 < length (filter native_persisted (rows retried0))" by code_simp
  ultimately show ?thesis unfolding list_all_iff by linarith
qed

theorem claim_generation_restarts_witness:
  "\<exists>e. fst (prepare_recovery_action renv0 300 ''i'' (action0 ''c'' ''reconcile'') unresolved_b) = Inr e \<and>
    dget e ''disposition'' = JStr ''intent-persisted'' \<and> dget e ''claim-generation'' = JInt 1"
proof -
  have c: "(case recovery_claim (rows unresolved_b) of None \<Rightarrow> False | Some c \<Rightarrow> cl_generation c = 2 \<and>
      (case cl_result c of None \<Rightarrow> False | Some r \<Rightarrow> dget r ''outcome'' = JStr ''reconciliation-unresolved'' \<and>
        parse_recovery_time renv0 (dget r ''created-at'') = Some 210))" by code_simp
  then obtain c r where r: "recovery_claim (rows unresolved_b) = Some c" "cl_result c = Some r"
    "dget r ''outcome'' \<noteq> JStr ''reconciliation-completed''" "parse_recovery_time renv0 (dget r ''created-at'') = Some 210"
    by (auto split: option.split_asm)
  have n: "\<not> list_ex (of_attempt (ra_attempt_id (action0 ''c'' ''reconcile''))) (rows unresolved_b)" "last_seq unresolved_b = Inr 3"
    by code_simp+
  show ?thesis by (rule claim_generation_restarts [OF r _ n(1) _ _ _ _ n(2)]) (simp_all add: action0_def)
qed

end
