(* ===== verification/Operation_Store.thy ===== *)
theory Operation_Store
  imports Record_Reads
begin

text \<open>
  The durable store of gateway operations and its pump (\<open>gateway/operations/operation_store.py\<close>,
  \<open>contracts.py\<close>, \<open>pump.py\<close>, \<open>application.py\<close>).  An operation is a directory with a record; taking
  the lock of an operation creates its directory, so a directory may have no record.  The timeline
  is the list of events.  The executor of the pump is an injected interface and an argument here, as
  is the snapshot of the machine's retention policy.
\<close>

section \<open>Contracts\<close>

datatype ManagementOperationKind = RECONCILE | ARCHIVE | PURGE | SESSION_PURGE | NODE_REVOKE

primrec kind_value :: "ManagementOperationKind \<Rightarrow> string" where
  "kind_value RECONCILE = ''reconcile''"
| "kind_value ARCHIVE = ''archive''"
| "kind_value PURGE = ''purge''"
| "kind_value SESSION_PURGE = ''session-purge''"
| "kind_value NODE_REVOKE = ''node-revoke''"

record ManagementCommand =
  mc_operation_id :: string
  mc_kind :: ManagementOperationKind
  mc_scope :: json
  mc_correlation_id :: "string option"

definition validate_node_revoke_scope :: "json \<Rightarrow> dict res" where
  "validate_node_revoke_scope scope =
     (let bad = Inl (ag_error ''VAL-AGM-004'' ''node-revoke scope requires only node-id and a positive expected-grant-revision'' []) in
      case scope of
        JObj d \<Rightarrow>
          (if set (map fst d) = {''node-id'', ''expected-grant-revision''} then
             (case (dget d ''node-id'', dget d ''expected-grant-revision'') of
                (JStr n, JInt r) \<Rightarrow> if identifier_match n \<and> 1 \<le> r \<and> r \<le> 2 ^ 63 - 1 then Inr d else bad
              | _ \<Rightarrow> bad)
           else bad)
      | _ \<Rightarrow> bad)"

definition FORBIDDEN_SCOPE_KEYS :: "string list" where
  "FORBIDDEN_SCOPE_KEYS = [''prompt'', ''prompt-body'', ''prompt_body'', ''output'', ''raw-output'', ''raw_output'',
     ''credential'', ''credentials'', ''token'', ''password'', ''authorization'']"

fun safe_value :: "json \<Rightarrow> json res"
  and safe_values :: "json list \<Rightarrow> json list res"
  and safe_pairs :: "dict \<Rightarrow> dict res" where
  "safe_value (JObj d) = rbind (safe_pairs d) (\<lambda>d'. Inr (JObj d'))"
| "safe_value (JList xs) = rbind (safe_values xs) (\<lambda>ys. Inr (JList ys))"
| "safe_value v = Inr v"
| "safe_values [] = Inr []"
| "safe_values (x # xs) = rbind (safe_value x) (\<lambda>y. rbind (safe_values xs) (\<lambda>ys. Inr (y # ys)))"
| "safe_pairs [] = Inr []"
| "safe_pairs ((k, v) # d) =
     (if lower k \<in> set FORBIDDEN_SCOPE_KEYS then
        Inl (ag_error ''VAL-AGM-005'' ''gateway operation scope contains forbidden data'' [])
      else rbind (safe_value v) (\<lambda>w. rbind (safe_pairs d) (\<lambda>d'. Inr ((k, w) # d'))))"

definition validate_op_scope :: "json \<Rightarrow> dict res" where
  "validate_op_scope scope = (case scope of
     JObj d \<Rightarrow> safe_pairs d
   | _ \<Rightarrow> Inl (ag_error ''VAL-AGM-004'' ''gateway operation scope must be a mapping'' []))"

definition bad_op_error :: py_error where
  "bad_op_error = ag_error ''VAL-AGM-006'' ''gateway operation error must contain only code'' []"

fun validate_op_error :: "json \<Rightarrow> dict res" where
  "validate_op_error (JObj d) =
     (case (set (map fst d) = {''code''}, dget d ''code'') of
        (True, JStr c) \<Rightarrow> if c \<noteq> [] then Inr [(''code'', JStr c)] else Inl bad_op_error
      | _ \<Rightarrow> Inl bad_op_error)"
| "validate_op_error (JList xs) =
     (if list_ex (\<lambda>x. is_list x \<or> is_dict x) xs then Inl TypeError
      else if set xs = {JStr ''code''} then Inl AttributeError else Inl bad_op_error)"
| "validate_op_error (JStr s) = Inl bad_op_error"
| "validate_op_error v = Inl TypeError"

section \<open>Records\<close>

definition operation_workflow :: dict where
  "operation_workflow = (case load_workflow agents_workflows_yaml ''gateway-operation'' None of
     Inr (JObj w) \<Rightarrow> w | _ \<Rightarrow> [])"

definition OP_DISPATCHABLE :: "string list" where
  "OP_DISPATCHABLE = states_in_set operation_workflow ''dispatchable''"

definition OP_TERMINAL :: "string list" where
  "OP_TERMINAL = states_in_set operation_workflow ''terminal''"

definition op_id_match :: "string \<Rightarrow> bool" where
  "op_id_match s \<longleftrightarrow> 3 \<le> length s \<and> length s \<le> 128 \<and> alnum (hd s) \<and>
     list_all (\<lambda>c. alnum c \<or> c = CHR ''_'' \<or> c = CHR ''-'') (tl s)"

definition require_op_id :: "string \<Rightarrow> string res" where
  "require_op_id s = (if op_id_match s then Inr s else Inl (ag_error ''VAL-AGM-003'' ''operation id is invalid'' []))"

definition OP_FIELDS :: "string list" where
  "OP_FIELDS = [''contract-version'', ''operation-id'', ''kind'', ''scope'', ''intent-digest'', ''correlation-id'', ''state'',
     ''revision'', ''owner-epoch'', ''created-at'', ''updated-at'', ''started-at'', ''finished-at'', ''result'', ''error'']"

definition bad_op_record :: py_error where
  "bad_op_record = ag_error ''VAL-AGM-007'' ''gateway operation record is invalid'' []"

fun op_state_known :: "json \<Rightarrow> unit res" where
  "op_state_known (JStr s) = guard_r (s \<in> set ([''accepted'', ''running''] @ OP_TERMINAL)) bad_op_record"
| "op_state_known (JList xs) = Inl TypeError"
| "op_state_known (JObj d) = Inl TypeError"
| "op_state_known v = Inl bad_op_record"

fun op_revision_ok :: "json \<Rightarrow> bool" where
  "op_revision_ok (JInt i) \<longleftrightarrow> 0 \<le> i"
| "op_revision_ok (JBool b) \<longleftrightarrow> True"
| "op_revision_ok _ \<longleftrightarrow> False"

definition validate_op_record :: "dict \<Rightarrow> unit res" where
  "validate_op_record r =
     rbind (guard_r (set (map fst r) = set OP_FIELDS \<and> dget r ''contract-version'' = JStr ''v1'') bad_op_record) (\<lambda>_.
     rbind (case vocab_str (dget r ''operation-id'') of
              None \<Rightarrow> Inl (ag_error ''VAL-AGM-003'' ''operation id is invalid'' []) | Some s \<Rightarrow> require_op_id s) (\<lambda>_.
     rbind (op_state_known (dget r ''state'')) (\<lambda>_.
     rbind (guard_r (op_revision_ok (dget r ''revision'')) bad_op_record) (\<lambda>_.
     rbind (if dget r ''kind'' = JStr ''node-revoke'' then validate_node_revoke_scope (dget r ''scope'')
            else validate_op_scope (dget r ''scope'')) (\<lambda>_.
     rbind (if dget r ''result'' \<noteq> JNull then rbind (validate_op_scope (dget r ''result'')) (\<lambda>_. Inr ()) else Inr ()) (\<lambda>_.
     if dget r ''error'' \<noteq> JNull then rbind (validate_op_error (dget r ''error'')) (\<lambda>_. Inr ()) else Inr ()))))))"

section \<open>The store\<close>

record op_event =
  oe_id :: string
  oe_name :: string
  oe_state :: json
  oe_revision :: json

record opstore =
  op_dirs :: "(string \<times> doc option) list"
  op_timeline :: "op_event list"

text \<open>Entering the lock of an operation creates its directory.\<close>

definition op_lock :: "string \<Rightarrow> opstore \<Rightarrow> opstore" where
  "op_lock i s = (case map_of (op_dirs s) i of
     None \<Rightarrow> s\<lparr>op_dirs := op_dirs s @ [(i, None)]\<rparr> | Some _ \<Rightarrow> s)"

definition op_read_unlocked :: "string \<Rightarrow> opstore \<Rightarrow> dict res" where
  "op_read_unlocked i s = (case map_of (op_dirs s) i of
     Some (Some (Doc (JObj r))) \<Rightarrow> rbind (validate_op_record r) (\<lambda>_. Inr r)
   | Some (Some _) \<Rightarrow> Inl (ag_error ''IO-AGM-001'' ''gateway operation record is invalid'' [])
   | _ \<Rightarrow> Inl (ag_error ''RES-AGM-001'' ''gateway operation not found'' [(''operation-id'', JStr i)]))"

text \<open>A record whose identifier is not text has no file here; this store writes text only.\<close>

definition op_write_unlocked :: "dict \<Rightarrow> opstore \<Rightarrow> unit res \<times> opstore" where
  "op_write_unlocked r s = (case validate_op_record r of
     Inl e \<Rightarrow> (Inl e, s)
   | Inr _ \<Rightarrow> (case dget r ''operation-id'' of
       JStr i \<Rightarrow> (Inr (), s\<lparr>op_dirs := AList.update i (Some (Doc (JObj r))) (op_dirs s)\<rparr>)
     | _ \<Rightarrow> (Inl TypeError, s)))"

definition op_event_for :: "dict \<Rightarrow> string \<Rightarrow> opstore \<Rightarrow> opstore" where
  "op_event_for r name s = s\<lparr>op_timeline := op_timeline s @
     [\<lparr>oe_id = str_of (dget r ''operation-id''), oe_name = name, oe_state = dget r ''state'', oe_revision = dget r ''revision''\<rparr>]\<rparr>"

definition op_transition :: "string \<Rightarrow> dict \<Rightarrow> string \<Rightarrow> dict res" where
  "op_transition now r new =
     (case vocab_str (dget r ''state'') of
        None \<Rightarrow> Inl (ag_error ''CON-AGM-003'' ''undeclared gateway operation transition'' [(''to'', JStr new)])
      | Some old \<Rightarrow>
         if \<not> transition_allowed operation_workflow old new then
           Inl (ag_error ''CON-AGM-003'' ''undeclared gateway operation transition'' [(''from'', JStr old), (''to'', JStr new)])
         else rbind (py_int (dget r ''revision'')) (\<lambda>n.
           Inr (dupd r [(''state'', JStr new), (''revision'', JInt (n + 1)), (''updated-at'', JStr now)])))"

definition op_intent_digest :: "('a genv_scheme) \<Rightarrow> dict \<Rightarrow> string" where
  "op_intent_digest E intent = sha256_hex E (canonical_text E (JObj intent))"

definition op_create :: "('a genv_scheme) \<Rightarrow> string \<Rightarrow> bool \<Rightarrow> ManagementCommand \<Rightarrow> opstore \<Rightarrow> dict res \<times> opstore" where
  "op_create E now local_only c s =
     (case rbind (require_op_id (mc_operation_id c)) (\<lambda>i.
           if mc_kind c = NODE_REVOKE \<and> \<not> local_only then
             Inl (ag_error ''UNS-AGM-001'' ''node-revoke requires explicit local operation creation'' [])
           else if mc_kind c = NODE_REVOKE then validate_node_revoke_scope (mc_scope c)
           else validate_op_scope (mc_scope c)) of
        Inl e \<Rightarrow> (Inl e, s)
      | Inr scope \<Rightarrow>
         (let i = mc_operation_id c; corr = opt_str (mc_correlation_id c);
              digest = op_intent_digest E [(''kind'', JStr (kind_value (mc_kind c))), (''scope'', JObj scope), (''correlation-id'', corr)];
              s1 = op_lock i s in
          case map_of (op_dirs s1) i of
            Some (Some _) \<Rightarrow> (case op_read_unlocked i s1 of
                Inl e \<Rightarrow> (Inl e, s1)
              | Inr existing \<Rightarrow>
                  if dget existing ''intent-digest'' \<noteq> JStr digest then
                    (Inl (ag_error ''CON-AGM-001'' ''gateway operation id conflicts with existing intent'' [(''operation-id'', JStr i)]), s1)
                  else (Inr existing, s1))
          | _ \<Rightarrow>
             (let r = [(''contract-version'', JStr ''v1''), (''operation-id'', JStr i), (''kind'', JStr (kind_value (mc_kind c))),
                  (''scope'', JObj scope), (''intent-digest'', JStr digest), (''correlation-id'', corr), (''state'', JStr ''accepted''),
                  (''revision'', JInt 0), (''owner-epoch'', JNull), (''created-at'', JStr now), (''updated-at'', JStr now),
                  (''started-at'', JNull), (''finished-at'', JNull), (''result'', JNull), (''error'', JNull)] in
              case op_write_unlocked r s1 of
                (Inl e, s2) \<Rightarrow> (Inl e, s2)
              | (Inr _, s2) \<Rightarrow> (Inr r, op_event_for r ''gateway.operation-created'' s2))))"

definition op_read :: "string \<Rightarrow> opstore \<Rightarrow> dict res \<times> opstore" where
  "op_read i s = (case require_op_id i of
     Inl e \<Rightarrow> (Inl e, s)
   | Inr _ \<Rightarrow> (let s1 = op_lock i s in (op_read_unlocked i s1, s1)))"

text \<open>The shared shape of the two fenced writes.\<close>

definition op_commit :: "string \<Rightarrow> dict \<Rightarrow> opstore \<Rightarrow> dict res \<times> opstore" where
  "op_commit name r s = (case op_write_unlocked r s of
     (Inl e, s1) \<Rightarrow> (Inl e, s1) | (Inr _, s1) \<Rightarrow> (Inr r, op_event_for r name s1))"

definition op_claim :: "string \<Rightarrow> string \<Rightarrow> string \<Rightarrow> opstore \<Rightarrow> dict option res \<times> opstore" where
  "op_claim now i owner s = (case require_op_id i of
     Inl e \<Rightarrow> (Inl e, s)
   | Inr _ \<Rightarrow>
      if owner = [] then (Inl (ag_error ''VAL-AGM-002'' ''owner epoch is required'' []), s)
      else (let s1 = op_lock i s in
        case op_read_unlocked i s1 of
          Inl e \<Rightarrow> (Inl e, s1)
        | Inr r \<Rightarrow>
            if dget r ''state'' \<notin> JStr ` set OP_DISPATCHABLE then (Inr None, s1)
            else case op_transition now r ''running'' of
              Inl e \<Rightarrow> (Inl e, s1)
            | Inr u \<Rightarrow> (case op_commit ''gateway.operation-claimed'' (dupd u [(''owner-epoch'', JStr owner), (''started-at'', JStr now)]) s1 of
                (Inl e, s2) \<Rightarrow> (Inl e, s2) | (Inr d, s2) \<Rightarrow> (Inr (Some d), s2))))"

text \<open>\<open>error\<close> is the mapping given, \<open>None\<close> or an empty mapping for success; \<open>result\<close> is any value
  the executor returned (\<open>result or \<^bold>{\<^bold>}\<close>).\<close>

definition op_finish :: "string \<Rightarrow> string \<Rightarrow> string \<Rightarrow> json \<Rightarrow> json \<Rightarrow> opstore \<Rightarrow> dict res \<times> opstore" where
  "op_finish now i owner result error s = (case require_op_id i of
     Inl e \<Rightarrow> (Inl e, s)
   | Inr _ \<Rightarrow> (let s1 = op_lock i s in
      case op_read_unlocked i s1 of
        Inl e \<Rightarrow> (Inl e, s1)
      | Inr r \<Rightarrow>
          if dget r ''state'' \<noteq> JStr ''running'' \<or> dget r ''owner-epoch'' \<noteq> JStr owner then
            (Inl (ag_error ''CON-AGM-002'' ''gateway operation ownership changed'' []), s1)
          else case rbind (op_transition now r (if truthy error then ''failed'' else ''completed'')) (\<lambda>u.
                 rbind (if truthy error then Inr JNull
                        else rbind (validate_op_scope (por result (JObj []))) (\<lambda>d. Inr (JObj d))) (\<lambda>res.
                 rbind (if truthy error then rbind (validate_op_error error) (\<lambda>d. Inr (JObj d)) else Inr JNull) (\<lambda>err.
                   Inr (dupd u [(''result'', res), (''error'', err), (''finished-at'', JStr now)])))) of
              Inl e \<Rightarrow> (Inl e, s1)
            | Inr u \<Rightarrow> op_commit (''gateway.operation-'' @ str_of (dget u ''state'')) u s1))"

definition op_fail :: "string \<Rightarrow> string \<Rightarrow> string \<Rightarrow> string \<Rightarrow> opstore \<Rightarrow> dict res \<times> opstore" where
  "op_fail now i owner code s = op_finish now i owner JNull (JObj [(''code'', JStr code)]) s"

section \<open>Scans\<close>

definition op_names :: "opstore \<Rightarrow> string list" where
  "op_names s = filter op_id_match (sort (map fst (op_dirs s)))"

fun list_dispatchable_loop :: "nat \<Rightarrow> string list \<Rightarrow> opstore \<Rightarrow> dict list res \<times> opstore" where
  "list_dispatchable_loop n [] s = (Inr [], s)"
| "list_dispatchable_loop n (i # is) s = (case op_read i s of
     (Inl (AG c m d), s1) \<Rightarrow> list_dispatchable_loop n is s1
   | (Inl e, s1) \<Rightarrow> (Inl e, s1)
   | (Inr r, s1) \<Rightarrow>
      if dget r ''state'' \<in> JStr ` set OP_DISPATCHABLE then
        (if n \<le> 1 then (Inr [r], s1)
         else case list_dispatchable_loop (n - 1) is s1 of (Inl e, s2) \<Rightarrow> (Inl e, s2) | (Inr rs, s2) \<Rightarrow> (Inr (r # rs), s2))
      else list_dispatchable_loop n is s1)"

definition list_dispatchable :: "int \<Rightarrow> opstore \<Rightarrow> dict list res \<times> opstore" where
  "list_dispatchable limit s =
     (if limit \<le> 0 then (Inl (ag_error ''VAL-AGM-001'' ''limit must be positive'' []), s)
      else list_dispatchable_loop (nat limit) (op_names s) s)"

fun op_read_all :: "string list \<Rightarrow> opstore \<Rightarrow> dict list res \<times> opstore" where
  "op_read_all [] s = (Inr [], s)"
| "op_read_all (i # is) s = (case op_read i s of
     (Inl (AG c m d), s1) \<Rightarrow> op_read_all is s1
   | (Inl e, s1) \<Rightarrow> (Inl e, s1)
   | (Inr r, s1) \<Rightarrow> (case op_read_all is s1 of (Inl e, s2) \<Rightarrow> (Inl e, s2) | (Inr rs, s2) \<Rightarrow> (Inr (r # rs), s2)))"

definition op_list_records :: "int \<Rightarrow> opstore \<Rightarrow> dict list res \<times> opstore" where
  "op_list_records limit s =
     (if limit \<le> 0 then (Inl (ag_error ''VAL-AGM-001'' ''limit must be positive'' []), s)
      else case op_read_all (filter op_id_match (map fst (op_dirs s))) s of
        (Inl e, s1) \<Rightarrow> (Inl e, s1) | (Inr rs, s1) \<Rightarrow> (Inr (take (nat limit) (newest_first rs)), s1))"

definition active_count :: "opstore \<Rightarrow> nat res \<times> opstore" where
  "active_count s = (case op_read_all (filter op_id_match (map fst (op_dirs s))) s of
     (Inl e, s1) \<Rightarrow> (Inl e, s1)
   | (Inr rs, s1) \<Rightarrow> (Inr (length (filter (\<lambda>r. dget r ''state'' \<in> {JStr ''accepted'', JStr ''running''}) rs)), s1))"

fun recover_claims_loop :: "string \<Rightarrow> string \<Rightarrow> string list \<Rightarrow> opstore \<Rightarrow> nat res \<times> opstore" where
  "recover_claims_loop now owner [] s = (Inr 0, s)"
| "recover_claims_loop now owner (i # is) s = (case op_read_unlocked i s of
     Inl e \<Rightarrow> (Inl e, s)
   | Inr r \<Rightarrow>
      if dget r ''state'' \<noteq> JStr ''running'' \<or> dget r ''owner-epoch'' = JStr owner then recover_claims_loop now owner is s
      else case op_transition now r ''accepted'' of
        Inl e \<Rightarrow> (Inl e, s)
      | Inr u \<Rightarrow> (case op_commit ''gateway.operation-requeued-after-owner-change'' (dupd u [(''owner-epoch'', JNull), (''started-at'', JNull)]) s of
          (Inl e, s1) \<Rightarrow> (Inl e, s1)
        | (Inr _, s1) \<Rightarrow> (case recover_claims_loop now owner is s1 of (Inl e, s2) \<Rightarrow> (Inl e, s2) | (Inr n, s2) \<Rightarrow> (Inr (Suc n), s2))))"

definition recover_prior_owner_claims :: "string \<Rightarrow> string \<Rightarrow> opstore \<Rightarrow> nat res \<times> opstore" where
  "recover_prior_owner_claims now owner s =
     (if owner = [] then (Inr 0, s) else recover_claims_loop now owner (op_names s) s)"

section \<open>The pump\<close>

text \<open>One claimed operation: the executor's result, or its failure without exception text.\<close>

definition pump_execute :: "(dict \<Rightarrow> json res) \<Rightarrow> string \<Rightarrow> string \<Rightarrow> string \<Rightarrow> dict \<Rightarrow> opstore \<Rightarrow> dict res \<times> opstore" where
  "pump_execute executor now owner i operation s = (case executor operation of
     Inl _ \<Rightarrow> op_fail now i owner ''INT-AGM-001'' s
   | Inr result \<Rightarrow> (case op_finish now i owner result JNull s of
       (Inl _, s1) \<Rightarrow> op_fail now i owner ''INT-AGM-001'' s1
     | (Inr r, s1) \<Rightarrow> (Inr r, s1)))"

fun pump_loop :: "(dict \<Rightarrow> json res) \<Rightarrow> string \<Rightarrow> string \<Rightarrow> dict list \<Rightarrow> opstore \<Rightarrow> dict list res \<times> opstore" where
  "pump_loop executor now owner [] s = (Inr [], s)"
| "pump_loop executor now owner (c # cs) s =
     (let i = str_of (dget c ''operation-id'') in
      case op_claim now i owner s of
        (Inl e, s1) \<Rightarrow> (Inl e, s1)
      | (Inr None, s1) \<Rightarrow> pump_loop executor now owner cs s1
      | (Inr (Some operation), s1) \<Rightarrow> (case pump_execute executor now owner i operation s1 of
          (Inl e, s2) \<Rightarrow> (Inl e, s2)
        | (Inr r, s2) \<Rightarrow> (case pump_loop executor now owner cs s2 of
            (Inl e, s3) \<Rightarrow> (Inl e, s3) | (Inr rs, s3) \<Rightarrow> (Inr (r # rs), s3))))"

definition pump_run_once :: "(dict \<Rightarrow> json res) \<Rightarrow> string \<Rightarrow> string \<Rightarrow> int \<Rightarrow> opstore \<Rightarrow> dict list res \<times> opstore" where
  "pump_run_once executor now owner limit s = (case recover_prior_owner_claims now owner s of
     (Inl e, s1) \<Rightarrow> (Inl e, s1)
   | (Inr _, s1) \<Rightarrow> (case list_dispatchable limit s1 of
       (Inl e, s2) \<Rightarrow> (Inl e, s2) | (Inr cs, s2) \<Rightarrow> pump_loop executor now owner cs s2))"

section \<open>The application\<close>

definition OP_PUBLIC_FIELDS :: "string list" where
  "OP_PUBLIC_FIELDS = [''contract-version'', ''operation-id'', ''kind'', ''state'', ''revision'', ''created-at'', ''updated-at'',
     ''started-at'', ''finished-at'', ''result'', ''error'']"

definition op_project_public :: "dict \<Rightarrow> dict" where
  "op_project_public r = map (\<lambda>k. (k, dget r k)) OP_PUBLIC_FIELDS"

definition create_operation :: "('a genv_scheme) \<Rightarrow> string \<Rightarrow> json \<Rightarrow> ManagementCommand \<Rightarrow> opstore \<Rightarrow> dict res \<times> opstore" where
  "create_operation E now policy_snapshot c s =
     (let c' = (if mc_kind c \<in> {PURGE, SESSION_PURGE}
                then c\<lparr>mc_scope := JObj (dset ''retention-policy'' policy_snapshot (obj_of (mc_scope c)))\<rparr> else c)
      in case op_create E now False c' s of (Inl e, s1) \<Rightarrow> (Inl e, s1) | (Inr r, s1) \<Rightarrow> (Inr (op_project_public r), s1))"

definition create_local_node_revoke :: "('a genv_scheme) \<Rightarrow> string \<Rightarrow> string \<Rightarrow> json \<Rightarrow> json \<Rightarrow> opstore \<Rightarrow> dict res \<times> opstore" where
  "create_local_node_revoke E now i node_id revision s =
     (case validate_node_revoke_scope (JObj [(''node-id'', node_id), (''expected-grant-revision'', revision)]) of
        Inl e \<Rightarrow> (Inl e, s)
      | Inr scope \<Rightarrow>
         (case op_create E now True \<lparr>mc_operation_id = i, mc_kind = NODE_REVOKE, mc_scope = JObj scope, mc_correlation_id = None\<rparr> s of
            (Inl e, s1) \<Rightarrow> (Inl e, s1) | (Inr r, s1) \<Rightarrow> (Inr (op_project_public r), s1)))"

definition get_operation :: "string \<Rightarrow> opstore \<Rightarrow> dict res \<times> opstore" where
  "get_operation i s = (case op_read i s of (Inl e, s1) \<Rightarrow> (Inl e, s1) | (Inr r, s1) \<Rightarrow> (Inr (op_project_public r), s1))"

definition list_operations :: "int \<Rightarrow> opstore \<Rightarrow> dict list res \<times> opstore" where
  "list_operations limit s = (case op_list_records limit s of
     (Inl e, s1) \<Rightarrow> (Inl e, s1) | (Inr rs, s1) \<Rightarrow> (Inr (map op_project_public rs), s1))"

definition has_active_operations :: "opstore \<Rightarrow> bool res \<times> opstore" where
  "has_active_operations s = (case active_count s of (Inl e, s1) \<Rightarrow> (Inl e, s1) | (Inr n, s1) \<Rightarrow> (Inr (n > 0), s1))"

end
