(* ===== verification/Operation_System.thy ===== *)
theory Operation_System
  imports Operation_Store
begin

text \<open>
  Gateway operations over time: the contract of one operation (accepted, claimed by an owner, finished
  or returned after a change of owner), and the proof that the store implements it under every
  sequence of calls of creators, readers, claimants and pumps.
\<close>

section \<open>Valid records\<close>

lemma op_sets [simp]: "OP_DISPATCHABLE = [''accepted'']" "OP_TERMINAL = [''completed'', ''failed'']"
  by code_simp+

lemma op_moves [simp]:
  "transition_allowed operation_workflow ''accepted'' ''running''" "transition_allowed operation_workflow ''running'' ''accepted''"
  "transition_allowed operation_workflow ''running'' ''completed''" "transition_allowed operation_workflow ''running'' ''failed''"
  by code_simp+

definition op_scope_ok :: "dict \<Rightarrow> bool" where
  "op_scope_ok r \<longleftrightarrow> (if dget r ''kind'' = JStr ''node-revoke'' then \<not> isl (validate_node_revoke_scope (dget r ''scope''))
     else \<not> isl (validate_op_scope (dget r ''scope'')))"

definition op_valid :: "dict \<Rightarrow> bool" where
  "op_valid r \<longleftrightarrow> set (map fst r) = set OP_FIELDS \<and> dget r ''contract-version'' = JStr ''v1'' \<and>
     (\<exists>i. vocab_str (dget r ''operation-id'') = Some i \<and> op_id_match i) \<and>
     dget r ''state'' \<in> {JStr ''accepted'', JStr ''running'', JStr ''completed'', JStr ''failed''} \<and>
     op_revision_ok (dget r ''revision'') \<and> op_scope_ok r \<and>
     (dget r ''result'' = JNull \<or> \<not> isl (validate_op_scope (dget r ''result''))) \<and>
     (dget r ''error'' = JNull \<or> \<not> isl (validate_op_error (dget r ''error'')))"

lemma not_isl: "\<not> isl x \<longleftrightarrow> (\<exists>y. x = Inr y)"
  by (cases x) auto

lemma op_state_known_iff: "op_state_known v = Inr () \<longleftrightarrow> v \<in> {JStr ''accepted'', JStr ''running'', JStr ''completed'', JStr ''failed''}"
  by (cases v) (auto simp: guard_r_def)

lemma require_op_id_iff: "require_op_id s = Inr x \<longleftrightarrow> x = s \<and> op_id_match s"
  by (auto simp: require_op_id_def)

lemma validate_op_record_iff: "validate_op_record r = Inr () \<longleftrightarrow> op_valid r"
  unfolding validate_op_record_def op_valid_def op_scope_ok_def rbind_eq_Inr guard_r_eq_Inr not_isl
  by (auto simp: op_state_known_iff require_op_id_iff rbind_eq_Inr split: option.split_asm)

text \<open>Updating the lifecycle fields keeps a record valid.\<close>

definition OP_LIVE_FIELDS :: "string list" where
  "OP_LIVE_FIELDS = [''state'', ''revision'', ''owner-epoch'', ''updated-at'', ''started-at'', ''finished-at'', ''result'', ''error'']"

lemma keys_dset: "set (map fst (dset k v d)) = insert k (set (map fst d))"
  by (simp add: dset_def update_keys insert_absorb)

lemma keys_dupd: "set (map fst (dupd d kvs)) = set (map fst d) \<union> fst ` set kvs"
  by (induction d kvs rule: dupd.induct) (auto simp: keys_dset simp del: set_map)

lemma op_valid_dupd:
  assumes "op_valid r" "fst ` set kvs \<subseteq> set OP_LIVE_FIELDS"
    "dget (dupd r kvs) ''state'' \<in> {JStr ''accepted'', JStr ''running'', JStr ''completed'', JStr ''failed''}"
    "op_revision_ok (dget (dupd r kvs) ''revision'')"
    "dget (dupd r kvs) ''result'' = JNull \<or> \<not> isl (validate_op_scope (dget (dupd r kvs) ''result''))"
    "dget (dupd r kvs) ''error'' = JNull \<or> \<not> isl (validate_op_error (dget (dupd r kvs) ''error''))"
  shows "op_valid (dupd r kvs)"
proof -
  have same: "dget (dupd r kvs) k = dget r k" if "k \<notin> set OP_LIVE_FIELDS" for k
    by (rule dget_dupd_other) (use that assms(2) in blast)
  have "set OP_LIVE_FIELDS \<subseteq> set OP_FIELDS" by (simp add: OP_LIVE_FIELDS_def OP_FIELDS_def)
  then have "set (map fst (dupd r kvs)) = set OP_FIELDS" using assms(1,2) unfolding keys_dupd op_valid_def by blast
  moreover have "dget (dupd r kvs) ''contract-version'' = dget r ''contract-version''" "dget (dupd r kvs) ''operation-id'' = dget r ''operation-id''"
    "dget (dupd r kvs) ''kind'' = dget r ''kind''" "dget (dupd r kvs) ''scope'' = dget r ''scope''"
    by (rule same; simp add: OP_LIVE_FIELDS_def)+
  ultimately show ?thesis using assms(1,3-6) by (simp add: op_valid_def op_scope_ok_def)
qed

section \<open>The contract of an operation\<close>

record oplc =
  ol_state :: string
  ol_revision :: int
  ol_owner :: "string option"

inductive op_step :: "oplc \<Rightarrow> oplc \<Rightarrow> bool" where
  claim: "\<lbrakk>ol_state a = ''accepted''; w \<noteq> []\<rbrakk> \<Longrightarrow>
    op_step a \<lparr>ol_state = ''running'', ol_revision = ol_revision a + 1, ol_owner = Some w\<rparr>"
| requeue: "ol_state a = ''running'' \<Longrightarrow> op_step a \<lparr>ol_state = ''accepted'', ol_revision = ol_revision a + 1, ol_owner = None\<rparr>"
| finish: "\<lbrakk>ol_state a = ''running''; ol_owner a = Some w; st \<in> {''completed'', ''failed''}\<rbrakk> \<Longrightarrow>
    op_step a \<lparr>ol_state = st, ol_revision = ol_revision a + 1, ol_owner = Some w\<rparr>"

fun rev_of :: "json \<Rightarrow> int" where
  "rev_of (JInt i) = i"
| "rev_of (JBool b) = (if b then 1 else 0)"
| "rev_of _ = 0"

definition oplc_of :: "dict \<Rightarrow> oplc" where
  "oplc_of r = \<lparr>ol_state = str_of (dget r ''state''), ol_revision = rev_of (dget r ''revision''), ol_owner = opt_of (dget r ''owner-epoch'')\<rparr>"

definition OP_INTENT_FIELDS :: "string list" where
  "OP_INTENT_FIELDS = [''contract-version'', ''operation-id'', ''kind'', ''scope'', ''intent-digest'', ''correlation-id'', ''created-at'']"

definition op_move :: "dict \<Rightarrow> dict \<Rightarrow> bool" where
  "op_move r r' \<longleftrightarrow> op_step\<^sup>*\<^sup>* (oplc_of r) (oplc_of r') \<and> (\<forall>k \<in> set OP_INTENT_FIELDS. dget r' k = dget r k) \<and>
     (dget r ''state'' \<in> {JStr ''completed'', JStr ''failed''} \<longrightarrow> r' = r)"

definition op_rec :: "opstore \<Rightarrow> string \<Rightarrow> dict option" where
  "op_rec s i = (case map_of (op_dirs s) i of Some (Some (Doc (JObj r))) \<Rightarrow> Some r | _ \<Rightarrow> None)"

text \<open>A sound store: every record file is a valid record of its own operation.  A full store: every
  directory has one.\<close>

definition op_sound :: "opstore \<Rightarrow> bool" where
  "op_sound s \<longleftrightarrow> distinct (map fst (op_dirs s)) \<and> (\<forall>(i, f) \<in> set (op_dirs s). op_id_match i \<and>
     (f = None \<or> (\<exists>r. f = Some (Doc (JObj r)) \<and> op_valid r \<and> dget r ''operation-id'' = JStr i)))"

definition op_full :: "opstore \<Rightarrow> bool" where
  "op_full s \<longleftrightarrow> (\<forall>i \<in> fst ` set (op_dirs s). op_rec s i \<noteq> None)"

definition op_path :: "opstore \<Rightarrow> opstore \<Rightarrow> bool" where
  "op_path s s' \<longleftrightarrow> (\<forall>i r. op_rec s i = Some r \<longrightarrow> (\<exists>r'. op_rec s' i = Some r' \<and> op_move r r'))"

lemma op_move_refl [simp]: "op_move r r"
  by (simp add: op_move_def)

lemma op_path_refl [simp]: "op_path s s"
  by (simp add: op_path_def)

lemma op_move_trans: "op_move a b \<Longrightarrow> op_move b c \<Longrightarrow> op_move a c"
  unfolding op_move_def by (auto intro: rtranclp_trans)

lemma op_path_trans: "op_path a b \<Longrightarrow> op_path b c \<Longrightarrow> op_path a c"
  unfolding op_path_def using op_move_trans by blast

lemma op_step_live: "op_step a b \<Longrightarrow> ol_state a \<in> {''accepted'', ''running''}"
  by (cases rule: op_step.cases) auto

lemma op_rec_dir: "op_rec s i = Some r \<Longrightarrow> map_of (op_dirs s) i = Some (Some (Doc (JObj r)))"
  by (auto simp: op_rec_def split: option.split_asm doc.split_asm json.split_asm)

lemma op_sound_rec:
  assumes "op_sound s" "op_rec s i = Some r"
  shows "op_valid r" "dget r ''operation-id'' = JStr i" "op_id_match i" "op_read_unlocked i s = Inr r"
proof -
  note m = op_rec_dir [OF assms(2)]
  then have "(i, Some (Doc (JObj r))) \<in> set (op_dirs s)" by (rule map_of_SomeD)
  with assms(1) show v: "op_valid r" "dget r ''operation-id'' = JStr i" "op_id_match i" by (fastforce simp: op_sound_def)+
  have "validate_op_record r = Inr ()" using v(1) by (simp add: validate_op_record_iff)
  then show "op_read_unlocked i s = Inr r" using m by (simp add: op_read_unlocked_def)
qed

lemma op_sound_norec:
  assumes "op_sound s" "op_rec s i = None"
  shows "op_read_unlocked i s = Inl (ag_error ''RES-AGM-001'' ''gateway operation not found'' [(''operation-id'', JStr i)])"
    "map_of (op_dirs s) i \<in> {None, Some None}"
proof -
  have "map_of (op_dirs s) i \<in> {None, Some None}"
  proof (cases "map_of (op_dirs s) i")
    case (Some f)
    then have "(i, f) \<in> set (op_dirs s)" by (rule map_of_SomeD)
    with assms(1) have "f = None \<or> (\<exists>r. f = Some (Doc (JObj r)))" by (fastforce simp: op_sound_def)
    then show ?thesis using Some assms(2) by (auto simp: op_rec_def)
  qed simp
  then show "op_read_unlocked i s = Inl (ag_error ''RES-AGM-001'' ''gateway operation not found'' [(''operation-id'', JStr i)])"
    "map_of (op_dirs s) i \<in> {None, Some None}" by (auto simp: op_read_unlocked_def)
qed

lemma op_read_unlocked_sound: "op_sound s \<Longrightarrow> op_read_unlocked i s = Inr r \<longleftrightarrow> op_rec s i = Some r"
  using op_sound_rec(4) op_sound_norec(1) by (cases "op_rec s i") fastforce+

section \<open>The operations keep the contract\<close>

lemma op_lock_rec [simp]: "op_rec (op_lock i s) = op_rec s"
  by (auto simp: op_rec_def op_lock_def map_add_def fun_eq_iff split: option.split)

lemma op_lock_sound [simp]: "op_id_match i \<Longrightarrow> op_sound s \<Longrightarrow> op_sound (op_lock i s)"
  by (auto simp: op_sound_def op_lock_def map_of_eq_None_iff split: option.split)

lemma op_path_rec: "op_rec s' = op_rec s \<Longrightarrow> op_path s s'"
  by (simp add: op_path_def)

lemma op_rec_event [simp]: "op_rec (op_event_for r n s) = op_rec s"
  by (rule ext) (simp add: op_rec_def op_event_for_def)

lemma op_dirs_event [simp]: "op_dirs (op_event_for r n s) = op_dirs s"
  by (simp add: op_event_for_def)

lemma op_sound_event [simp]: "op_sound (op_event_for r n s) = op_sound s"
  by (simp add: op_sound_def op_event_for_def)

lemma set_alist_update: "set (AList.update k v al) \<subseteq> insert (k, v) (set al)"
  by (induction al) auto

lemma op_write_valid:
  assumes "op_sound s" "op_valid u" "dget u ''operation-id'' = JStr i" "op_id_match i"
  obtains s' where "op_write_unlocked u s = (Inr (), s')" "op_sound s'" "op_rec s' = (op_rec s)(i \<mapsto> u)"
    "fst ` set (op_dirs s') = insert i (fst ` set (op_dirs s))"
proof -
  have v: "validate_op_record u = Inr ()" using assms(2) by (simp add: validate_op_record_iff)
  let ?s = "s\<lparr>op_dirs := AList.update i (Some (Doc (JObj u))) (op_dirs s)\<rparr>"
  have "op_write_unlocked u s = (Inr (), ?s)" using v assms(3) by (simp add: op_write_unlocked_def)
  moreover have "op_sound ?s" using assms set_alist_update [of i "Some (Doc (JObj u))" "op_dirs s"]
    by (auto simp: op_sound_def distinct_update)
  moreover have "op_rec ?s = (op_rec s)(i \<mapsto> u)" by (auto simp: op_rec_def update_conv' fun_eq_iff)
  ultimately show thesis by (intro that [of ?s]) (simp_all add: dom_update)
qed

text \<open>A fenced write: the successor of a stored record is stored.\<close>

definition op_succ :: "dict \<Rightarrow> dict \<Rightarrow> bool" where
  "op_succ r u \<longleftrightarrow> op_valid u \<and> op_step (oplc_of r) (oplc_of u) \<and> (\<forall>k \<in> set OP_INTENT_FIELDS. dget u k = dget r k)"

lemma op_commit_succ:
  assumes "op_sound s" "op_rec s i = Some r" "op_succ r u"
  obtains s' where "op_commit name u s = (Inr u, s')" "op_sound s'" "op_rec s' = (op_rec s)(i \<mapsto> u)" "op_path s s'"
    "fst ` set (op_dirs s') = fst ` set (op_dirs s)"
proof -
  note r = op_sound_rec [OF assms(1,2)]
  have u: "op_valid u" "dget u ''operation-id'' = JStr i" using assms(3) r(2) by (simp_all add: op_succ_def OP_INTENT_FIELDS_def)
  obtain s' where s': "op_write_unlocked u s = (Inr (), s')" "op_sound s'" "op_rec s' = (op_rec s)(i \<mapsto> u)"
    "fst ` set (op_dirs s') = insert i (fst ` set (op_dirs s))"
    by (rule op_write_valid [OF assms(1) u r(3)])
  have "i \<in> fst ` set (op_dirs s)" using assms(2)
    by (force simp: op_rec_def split: option.split_asm dest: map_of_SomeD)
  then have "fst ` set (op_dirs s') = fst ` set (op_dirs s)" using s'(4) by blast
  moreover have "op_move r u" using assms(3) op_step_live [of "oplc_of r" "oplc_of u"]
    by (auto simp: op_move_def op_succ_def oplc_of_def)
  then have "op_path s s'" using s'(3) assms(2) by (auto simp: op_path_def)
  ultimately show thesis using s'
    by (intro that [of "op_event_for u name s'"]) (simp_all add: op_commit_def op_path_def)
qed

lemma op_transition_ok:
  assumes "op_valid r" "dget r ''state'' = JStr old" "transition_allowed operation_workflow old new"
  shows "op_transition now r new =
    Inr (dupd r [(''state'', JStr new), (''revision'', JInt (rev_of (dget r ''revision'') + 1)), (''updated-at'', JStr now)])"
proof -
  have "py_int (dget r ''revision'') = Inr (rev_of (dget r ''revision''))"
    using assms(1) by (cases "dget r ''revision''") (auto simp: op_valid_def)
  then show ?thesis using assms(2,3) by (simp add: op_transition_def)
qed

lemma rev_nonneg: "op_valid r \<Longrightarrow> 0 \<le> rev_of (dget r ''revision'')"
  by (cases "dget r ''revision''") (auto simp: op_valid_def)

text \<open>The successors the operations write.\<close>

lemma op_succI:
  assumes "op_valid r" "dget (dupd r kvs) ''state'' \<in> {JStr ''accepted'', JStr ''running'', JStr ''completed'', JStr ''failed''}"
    "fst ` set kvs \<subseteq> set OP_LIVE_FIELDS" "dget (dupd r kvs) ''revision'' = JInt (rev_of (dget r ''revision'') + 1)"
    "dget (dupd r kvs) ''result'' = JNull \<or> \<not> isl (validate_op_scope (dget (dupd r kvs) ''result''))"
    "dget (dupd r kvs) ''error'' = JNull \<or> \<not> isl (validate_op_error (dget (dupd r kvs) ''error''))"
    "op_step (oplc_of r) (oplc_of (dupd r kvs))"
  shows "op_succ r (dupd r kvs)"
proof -
  have "op_valid (dupd r kvs)" using op_valid_dupd [OF assms(1,3,2) _ assms(5,6)] assms(4) rev_nonneg [OF assms(1)] by simp
  moreover have "dget (dupd r kvs) k = dget r k" if "k \<in> set OP_INTENT_FIELDS" for k
    by (rule dget_dupd_other) (use that assms(3) in \<open>auto simp: OP_INTENT_FIELDS_def OP_LIVE_FIELDS_def\<close>)
  ultimately show ?thesis using assms(7) by (simp add: op_succ_def)
qed

lemma dupd_append: "dupd (dupd d xs) ys = dupd d (xs @ ys)"
  by (induction d xs rule: dupd.induct) auto

lemma claim_succ:
  assumes "op_valid r" "dget r ''state'' = JStr ''accepted''" "owner \<noteq> []"
  shows "op_succ r (dupd r [(''state'', JStr ''running''), (''revision'', JInt (rev_of (dget r ''revision'') + 1)), (''updated-at'', JStr now),
     (''owner-epoch'', JStr owner), (''started-at'', JStr now)])"
proof (rule op_succI [OF assms(1)])
  show "op_step (oplc_of r) (oplc_of (dupd r [(''state'', JStr ''running''), (''revision'', JInt (rev_of (dget r ''revision'') + 1)),
     (''updated-at'', JStr now), (''owner-epoch'', JStr owner), (''started-at'', JStr now)]))"
    using op_step.claim [of "oplc_of r" owner] assms(2,3) by (simp add: oplc_of_def)
qed (use assms(1) in \<open>auto simp: OP_LIVE_FIELDS_def op_valid_def\<close>)

lemma requeue_succ:
  assumes "op_valid r" "dget r ''state'' = JStr ''running''"
  shows "op_succ r (dupd r [(''state'', JStr ''accepted''), (''revision'', JInt (rev_of (dget r ''revision'') + 1)), (''updated-at'', JStr now),
     (''owner-epoch'', JNull), (''started-at'', JNull)])"
proof (rule op_succI [OF assms(1)])
  show "op_step (oplc_of r) (oplc_of (dupd r [(''state'', JStr ''accepted''), (''revision'', JInt (rev_of (dget r ''revision'') + 1)),
     (''updated-at'', JStr now), (''owner-epoch'', JNull), (''started-at'', JNull)]))"
    using op_step.requeue [of "oplc_of r"] assms(2) by (simp add: oplc_of_def)
qed (use assms(1) in \<open>auto simp: OP_LIVE_FIELDS_def op_valid_def\<close>)

lemma finish_succ:
  assumes "op_valid r" "dget r ''state'' = JStr ''running''" "dget r ''owner-epoch'' = JStr owner" "st \<in> {''completed'', ''failed''}"
    "res = JNull \<or> \<not> isl (validate_op_scope res)" "err = JNull \<or> \<not> isl (validate_op_error err)"
  shows "op_succ r (dupd r [(''state'', JStr st), (''revision'', JInt (rev_of (dget r ''revision'') + 1)), (''updated-at'', JStr now),
     (''result'', res), (''error'', err), (''finished-at'', JStr now)])"
proof (rule op_succI [OF assms(1)])
  show "op_step (oplc_of r) (oplc_of (dupd r [(''state'', JStr st), (''revision'', JInt (rev_of (dget r ''revision'') + 1)),
     (''updated-at'', JStr now), (''result'', res), (''error'', err), (''finished-at'', JStr now)]))"
    using op_step.finish [of "oplc_of r" owner st] assms(2-4) by (simp add: oplc_of_def)
qed (use assms in \<open>auto simp: OP_LIVE_FIELDS_def\<close>)

text \<open>Validated data is valid again.\<close>

lemma safe_again:
  "safe_value v = Inr w \<Longrightarrow> safe_value w = Inr w"
  "safe_values xs = Inr ys \<Longrightarrow> safe_values ys = Inr ys"
  "safe_pairs d = Inr e \<Longrightarrow> safe_pairs e = Inr e"
  by (induction v and xs and d arbitrary: w and ys and e rule: safe_value_safe_values_safe_pairs.induct)
    (auto simp: rbind_eq_Inr split: if_split_asm)

lemma validate_scope_again: "validate_op_scope v = Inr d \<Longrightarrow> validate_op_scope (JObj d) = Inr d"
  by (cases v) (auto simp: validate_op_scope_def safe_again)

lemma validate_error_again:
  assumes "validate_op_error v = Inr d"
  shows "validate_op_error (JObj d) = Inr d"
proof (cases v)
  case (JObj e)
  have "\<exists>c. d = [(''code'', JStr c)] \<and> c \<noteq> []" using assms unfolding JObj
    by (cases "set (map fst e) = {''code''}"; cases "dget e ''code''") (auto split: if_split_asm)
  then show ?thesis by (auto simp: dget_Cons)
qed (use assms in \<open>simp_all split: if_split_asm\<close>)

lemma op_claim_cases:
  assumes "op_sound s" "op_claim now i owner s = (x, s')"
  obtains (error) e where "x = Inl e" "op_sound s'" "op_rec s' = op_rec s"
  | (busy) r where "x = Inr None" "op_sound s'" "op_rec s' = op_rec s" "op_rec s i = Some r" "dget r ''state'' \<noteq> JStr ''accepted''"
      "fst ` set (op_dirs s') = fst ` set (op_dirs s)"
  | (claimed) r u where "x = Inr (Some u)" "op_sound s'" "op_path s s'" "op_rec s i = Some r" "op_rec s' = (op_rec s)(i \<mapsto> u)" "op_succ r u"
      "dget r ''state'' = JStr ''accepted''" "dget u ''state'' = JStr ''running''" "dget u ''owner-epoch'' = JStr owner"
      "fst ` set (op_dirs s') = fst ` set (op_dirs s)"
proof (cases "op_id_match i \<and> owner \<noteq> []")
  case False
  then show thesis using assms by (cases "op_id_match i") (auto simp: op_claim_def require_op_id_def intro: error)
next
  case True
  let ?s = "op_lock i s"
  have sd: "op_sound ?s" using assms(1) True by simp
  show thesis
  proof (cases "op_rec s i")
    case None
    then show thesis using assms(2) True sd op_sound_norec(1) [OF sd, of i]
      by (intro error) (auto simp: op_claim_def require_op_id_def Let_def)
  next
    case (Some r)
    then have rd: "op_read_unlocked i ?s = Inr r" using op_sound_rec(4) [OF sd] by simp
    note v = op_sound_rec [OF assms(1) Some]
    have lk: "fst ` set (op_dirs ?s) = fst ` set (op_dirs s)" using Some
      by (auto simp: op_lock_def op_rec_def split: option.split)
    show thesis
    proof (cases "dget r ''state'' = JStr ''accepted''")
      case False
      then show thesis using assms(2) True sd rd Some lk
        by (intro busy [of r]) (auto simp: op_claim_def require_op_id_def Let_def)
    next
      case acc: True
      let ?u = "dupd r [(''state'', JStr ''running''), (''revision'', JInt (rev_of (dget r ''revision'') + 1)), (''updated-at'', JStr now),
         (''owner-epoch'', JStr owner), (''started-at'', JStr now)]"
      have su: "op_succ r ?u" by (rule claim_succ [OF v(1) acc]) (use True in blast)
      have r': "op_rec ?s i = Some r" using Some by simp
      obtain s2 where s2: "op_commit ''gateway.operation-claimed'' ?u ?s = (Inr ?u, s2)" "op_sound s2" "op_rec s2 = (op_rec ?s)(i \<mapsto> ?u)"
        "op_path ?s s2" "fst ` set (op_dirs s2) = fst ` set (op_dirs ?s)" by (rule op_commit_succ [OF sd r' su])
      have "op_claim now i owner s = (Inr (Some ?u), s2)"
        using True rd acc op_transition_ok [OF v(1) acc, of "''running''" now] s2(1)
        by (simp add: op_claim_def require_op_id_def Let_def dupd_append del: dupd.simps)
      then show thesis using assms(2) s2 Some su acc lk op_path_trans [OF op_path_rec [of ?s s] s2(4)]
        by (intro claimed [of ?u r]) auto
    qed
  qed
qed

lemma op_finish_cases:
  assumes "op_sound s" "op_finish now i owner result error s = (x, s')"
  obtains (error) e where "x = Inl e" "op_sound s'" "op_rec s' = op_rec s"
      "op_rec s i \<noteq> None \<Longrightarrow> fst ` set (op_dirs s') = fst ` set (op_dirs s)"
      "\<And>r. op_rec s i = Some r \<Longrightarrow> dget r ''state'' = JStr ''running'' \<Longrightarrow> dget r ''owner-epoch'' = JStr owner \<Longrightarrow>
        if truthy error then isl (validate_op_error error) else isl (validate_op_scope (por result (JObj [])))"
  | (finished) r u where "x = Inr u" "op_sound s'" "op_path s s'" "op_rec s i = Some r" "op_rec s' = (op_rec s)(i \<mapsto> u)" "op_succ r u"
      "dget r ''state'' = JStr ''running''" "dget r ''owner-epoch'' = JStr owner" "dget u ''state'' \<in> {JStr ''completed'', JStr ''failed''}"
      "fst ` set (op_dirs s') = fst ` set (op_dirs s)"
proof (cases "op_id_match i")
  case False
  then have "op_rec s i = None" using op_sound_rec(3) [OF assms(1)] by (cases "op_rec s i") auto
  then show thesis using assms False by (intro error) (auto simp: op_finish_def require_op_id_def)
next
  case True
  let ?s = "op_lock i s"
  have sd: "op_sound ?s" using assms(1) True by simp
  show thesis
  proof (cases "op_rec s i")
    case None
    then show thesis using assms(2) True sd op_sound_norec(1) [OF sd, of i]
      by (intro error) (auto simp: op_finish_def require_op_id_def Let_def)
  next
    case (Some r)
    then have rd: "op_read_unlocked i ?s = Inr r" using op_sound_rec(4) [OF sd] by simp
    note v = op_sound_rec [OF assms(1) Some]
    have lk: "fst ` set (op_dirs ?s) = fst ` set (op_dirs s)" using Some
      by (auto simp: op_lock_def op_rec_def split: option.split)
    show thesis
    proof (cases "dget r ''state'' = JStr ''running'' \<and> dget r ''owner-epoch'' = JStr owner")
      case False
      then show thesis using assms(2) True sd rd Some lk
        by (intro error) (auto simp: op_finish_def require_op_id_def Let_def)
    next
      case own: True
      let ?st = "if truthy error then ''failed'' else ''completed''"
      let ?res = "if truthy error then Inr JNull else rbind (validate_op_scope (por result (JObj []))) (\<lambda>d. Inr (JObj d))"
      let ?err = "if truthy error then rbind (validate_op_error error) (\<lambda>d. Inr (JObj d)) else Inr JNull"
      have tr: "op_transition now r ?st = Inr (dupd r [(''state'', JStr ?st), (''revision'', JInt (rev_of (dget r ''revision'') + 1)), (''updated-at'', JStr now)])"
        using own by (intro op_transition_ok [OF v(1)]) auto
      show thesis
      proof (cases "\<exists>res err. ?res = Inr res \<and> ?err = Inr err")
        case False
        then have "\<exists>e. rbind ?res (\<lambda>res. rbind ?err (\<lambda>err. Inr (dupd (dupd r [(''state'', JStr ?st), (''revision'', JInt (rev_of (dget r ''revision'') + 1)), (''updated-at'', JStr now)])
              [(''result'', res), (''error'', err), (''finished-at'', JStr now)]))) = Inl e"
          by (cases ?res; cases ?err) (auto simp del: dupd.simps)
        then obtain e where "rbind ?res (\<lambda>res. rbind ?err (\<lambda>err. Inr (dupd (dupd r [(''state'', JStr ?st), (''revision'', JInt (rev_of (dget r ''revision'') + 1)), (''updated-at'', JStr now)])
              [(''result'', res), (''error'', err), (''finished-at'', JStr now)]))) = Inl e" ..
        then have "op_finish now i owner result error s = (Inl e, ?s)"
          using True rd own tr by (simp add: op_finish_def require_op_id_def Let_def del: dupd.simps)
        moreover have "if truthy error then isl (validate_op_error error) else isl (validate_op_scope (por result (JObj [])))"
          using False by (cases "truthy error"; cases "validate_op_error error"; cases "validate_op_scope (por result (JObj []))") auto
        ultimately show thesis using assms(2) sd lk by (intro error [of e]) auto
      next
        case ok: True
        then obtain res err where re: "?res = Inr res" "?err = Inr err" by blast
        let ?u = "dupd r [(''state'', JStr ?st), (''revision'', JInt (rev_of (dget r ''revision'') + 1)), (''updated-at'', JStr now),
          (''result'', res), (''error'', err), (''finished-at'', JStr now)]"
        have rok: "res = JNull \<or> \<not> isl (validate_op_scope res)" "err = JNull \<or> \<not> isl (validate_op_error err)"
          using re by (auto simp: rbind_eq_Inr dest: validate_scope_again validate_error_again split: if_split_asm)
        have su: "op_succ r ?u" by (rule finish_succ [OF v(1) _ _ _ rok]) (use own in auto)
        have r': "op_rec ?s i = Some r" using Some by simp
        obtain s2 where s2: "op_commit (''gateway.operation-'' @ str_of (dget ?u ''state'')) ?u ?s = (Inr ?u, s2)" "op_sound s2"
          "op_rec s2 = (op_rec ?s)(i \<mapsto> ?u)" "op_path ?s s2" "fst ` set (op_dirs s2) = fst ` set (op_dirs ?s)"
          by (rule op_commit_succ [OF sd r' su])
        have "op_finish now i owner result error s = (Inr ?u, s2)"
          using True rd own tr re s2(1) by (simp add: op_finish_def require_op_id_def Let_def dupd_append del: dupd.simps)
        then show thesis using assms(2) s2 Some su own lk op_path_trans [OF op_path_rec [of ?s s] s2(4)]
          by (intro finished [of ?u r]) auto
      qed
    qed
  qed
qed

lemma recover_loop_ok:
  assumes "op_sound s"
  shows "op_sound (snd (recover_claims_loop now owner is s)) \<and> op_path s (snd (recover_claims_loop now owner is s)) \<and>
    fst ` set (op_dirs (snd (recover_claims_loop now owner is s))) = fst ` set (op_dirs s)"
  using assms
proof (induction now owner "is" s rule: recover_claims_loop.induct)
  case (2 now owner i "is" s)
  show ?case
  proof (cases "op_rec s i")
    case None
    then show ?thesis using op_sound_norec(1) [OF 2(3)] 2(3) by simp
  next
    case (Some r)
    note v = op_sound_rec [OF 2(3) Some]
    show ?thesis
    proof (cases "dget r ''state'' \<noteq> JStr ''running'' \<or> dget r ''owner-epoch'' = JStr owner")
      case True
      with 2(1) [OF v(4) True 2(3)] v(4) show ?thesis by simp
    next
      case False
      then have run: "dget r ''state'' = JStr ''running''" by simp
      let ?u = "dupd r [(''state'', JStr ''accepted''), (''revision'', JInt (rev_of (dget r ''revision'') + 1)), (''updated-at'', JStr now),
         (''owner-epoch'', JNull), (''started-at'', JNull)]"
      have tr: "op_transition now r ''accepted'' = Inr (dupd r [(''state'', JStr ''accepted''), (''revision'', JInt (rev_of (dget r ''revision'') + 1)), (''updated-at'', JStr now)])"
        by (rule op_transition_ok [OF v(1) run]) simp
      obtain s2 where s2: "op_commit ''gateway.operation-requeued-after-owner-change'' ?u s = (Inr ?u, s2)" "op_sound s2"
        "op_rec s2 = (op_rec s)(i \<mapsto> ?u)" "op_path s s2" "fst ` set (op_dirs s2) = fst ` set (op_dirs s)"
        by (rule op_commit_succ [OF 2(3) Some requeue_succ [OF v(1) run]])
      note ih = 2(2) [OF v(4) False tr _ _ s2(2), of "Inr ?u" ?u]
      have eq: "snd (recover_claims_loop now owner (i # is) s) = snd (recover_claims_loop now owner is s2)"
        using v(4) False tr s2(1) by (simp add: dupd_append del: dupd.simps split: prod.split sum.split)
      show ?thesis using ih s2 op_path_trans [OF s2(4)] unfolding eq by (simp add: dupd_append del: dupd.simps)
    qed
  qed
qed simp

lemma op_fail_ok:
  assumes "op_sound s" "op_rec s i = Some r" "dget r ''state'' = JStr ''running''" "dget r ''owner-epoch'' = JStr owner" "code \<noteq> []"
  obtains u s' where "op_fail now i owner code s = (Inr u, s')" "op_sound s'" "op_path s s'" "op_rec s' = (op_rec s)(i \<mapsto> u)"
    "dget u ''state'' \<in> {JStr ''completed'', JStr ''failed''}" "fst ` set (op_dirs s') = fst ` set (op_dirs s)"
proof -
  obtain x s' where f: "op_finish now i owner JNull (JObj [(''code'', JStr code)]) s = (x, s')" by fastforce
  from assms(1) f show thesis
  proof (cases rule: op_finish_cases)
    case (error e)
    then show thesis using error(5) [OF assms(2-4)] assms(5) by (simp add: dget_Cons)
  next
    case (finished r u)
    then show thesis using f by (intro that [of u s']) (simp_all add: op_fail_def)
  qed
qed

lemma pump_execute_ok:
  assumes "op_sound s" "op_rec s i = Some r" "dget r ''state'' = JStr ''running''" "dget r ''owner-epoch'' = JStr owner"
  obtains u s' where "pump_execute executor now owner i operation s = (Inr u, s')" "op_sound s'" "op_path s s'" "op_rec s' = (op_rec s)(i \<mapsto> u)"
    "dget u ''state'' \<in> {JStr ''completed'', JStr ''failed''}" "fst ` set (op_dirs s') = fst ` set (op_dirs s)"
proof (cases "executor operation")
  case (Inl e)
  obtain u s' where f: "op_fail now i owner ''INT-AGM-001'' s = (Inr u, s')" "op_sound s'" "op_path s s'" "op_rec s' = (op_rec s)(i \<mapsto> u)"
    "dget u ''state'' \<in> {JStr ''completed'', JStr ''failed''}" "fst ` set (op_dirs s') = fst ` set (op_dirs s)"
    by (rule op_fail_ok [OF assms, of "''INT-AGM-001''" now]) simp_all
  show thesis by (rule that [OF _ f(2-6)]) (simp add: pump_execute_def Inl f(1))
next
  case (Inr result)
  obtain x s1 where fin: "op_finish now i owner result JNull s = (x, s1)" by fastforce
  from assms(1) fin show thesis
  proof (cases rule: op_finish_cases)
    case (error e)
    then have r1: "op_rec s1 i = Some r" "op_sound s1" "fst ` set (op_dirs s1) = fst ` set (op_dirs s)" using assms(2) by auto
    obtain u s' where f: "op_fail now i owner ''INT-AGM-001'' s1 = (Inr u, s')" "op_sound s'" "op_path s1 s'" "op_rec s' = (op_rec s1)(i \<mapsto> u)"
      "dget u ''state'' \<in> {JStr ''completed'', JStr ''failed''}" "fst ` set (op_dirs s') = fst ` set (op_dirs s1)"
      by (rule op_fail_ok [OF r1(2,1) assms(3,4), of "''INT-AGM-001''" now]) simp_all
    show thesis
      by (rule that [of u s']) (use f error r1(3) fin Inr op_path_trans [OF op_path_rec f(3)] in \<open>simp_all add: pump_execute_def\<close>)
  next
    case (finished r' u)
    then show thesis using fin Inr by (intro that [of u s1]) (simp_all add: pump_execute_def)
  qed
qed

text \<open>A pump over operations that are accepted finishes each of them.\<close>

lemma pump_loop_ok:
  assumes "op_sound s" "owner \<noteq> []" "distinct (map (\<lambda>c. dget c ''operation-id'') cs)"
    "\<forall>c \<in> set cs. \<exists>i r. dget c ''operation-id'' = JStr i \<and> op_rec s i = Some r \<and> dget r ''state'' = JStr ''accepted''"
  obtains rs s' where "pump_loop executor now owner cs s = (Inr rs, s')" "op_sound s'" "op_path s s'"
    "\<forall>i. JStr i \<in> (\<lambda>c. dget c ''operation-id'') ` set cs \<longrightarrow>
       (\<exists>u. op_rec s' i = Some u \<and> dget u ''state'' \<in> {JStr ''completed'', JStr ''failed''})"
    "\<forall>i. JStr i \<notin> (\<lambda>c. dget c ''operation-id'') ` set cs \<longrightarrow> op_rec s' i = op_rec s i"
  using assms(1,3,4)
proof (induction cs arbitrary: s thesis)
  case Nil
  show ?case by (rule Nil.prems(1) [OF _ Nil.prems(2) op_path_refl]) simp_all
next
  case (Cons c cs)
  from Cons.prems(4) obtain i r where c: "dget c ''operation-id'' = JStr i" "op_rec s i = Some r" "dget r ''state'' = JStr ''accepted''" by auto
  obtain x s1 where cl: "op_claim now i owner s = (x, s1)" by fastforce
  have pos: "op_id_match i" by (rule op_sound_rec(3) [OF Cons.prems(2) c(2)])
  have notin: "JStr i \<notin> (\<lambda>c. dget c ''operation-id'') ` set cs" using Cons.prems(3) c(1) by auto
  from Cons.prems(2) cl obtain u where u: "x = Inr (Some u)" "op_sound s1" "op_path s s1" "op_rec s1 = (op_rec s)(i \<mapsto> u)"
    "dget u ''state'' = JStr ''running''" "dget u ''owner-epoch'' = JStr owner"
  proof (cases rule: op_claim_cases)
    case (error e)
    have "\<exists>d. x = Inr d"
    proof -
      have lk: "op_sound (op_lock i s)" using pos Cons.prems(2) by simp
      have rd: "op_read_unlocked i (op_lock i s) = Inr r" by (rule op_sound_rec(4) [OF lk]) (simp add: c(2))
      note v = op_sound_rec(1) [OF Cons.prems(2) c(2)]
      have r': "op_rec (op_lock i s) i = Some r" using c(2) by simp
      obtain s2 where "op_commit ''gateway.operation-claimed'' (dupd r [(''state'', JStr ''running''), (''revision'', JInt (rev_of (dget r ''revision'') + 1)),
          (''updated-at'', JStr now), (''owner-epoch'', JStr owner), (''started-at'', JStr now)]) (op_lock i s) =
          (Inr (dupd r [(''state'', JStr ''running''), (''revision'', JInt (rev_of (dget r ''revision'') + 1)),
          (''updated-at'', JStr now), (''owner-epoch'', JStr owner), (''started-at'', JStr now)]), s2)"
        by (rule op_commit_succ [OF lk r' claim_succ [OF v c(3) assms(2)]])
      then show ?thesis using cl pos assms(2) rd c(3) op_transition_ok [OF v c(3), of "''running''" now]
        by (auto simp: op_claim_def require_op_id_def Let_def dupd_append simp del: dupd.simps)
    qed
    with error show ?thesis by simp
  next
    case (busy r')
    with c show ?thesis by simp
  next
    case (claimed r' u)
    then show ?thesis using that by simp
  qed
  have u1: "op_rec s1 i = Some u" using u(4) by simp
  obtain v s2 where e: "pump_execute executor now owner i u s1 = (Inr v, s2)" "op_sound s2" "op_path s1 s2" "op_rec s2 = (op_rec s1)(i \<mapsto> v)"
    "dget v ''state'' \<in> {JStr ''completed'', JStr ''failed''}" by (rule pump_execute_ok [OF u(2) u1 u(5,6)])
  have acc: "\<forall>c \<in> set cs. \<exists>i r. dget c ''operation-id'' = JStr i \<and> op_rec s2 i = Some r \<and> dget r ''state'' = JStr ''accepted''"
  proof
    fix c'
    assume c': "c' \<in> set cs"
    then obtain j r' where j: "dget c' ''operation-id'' = JStr j" "op_rec s j = Some r'" "dget r' ''state'' = JStr ''accepted''" using Cons.prems(4) by auto
    with c' notin have "j \<noteq> i" by force
    then show "\<exists>i r. dget c' ''operation-id'' = JStr i \<and> op_rec s2 i = Some r \<and> dget r ''state'' = JStr ''accepted''"
      using j u(4) e(4) by auto
  qed
  have dis: "distinct (map (\<lambda>c. dget c ''operation-id'') cs)" using Cons.prems(3) by simp
  obtain rs s' where l: "pump_loop executor now owner cs s2 = (Inr rs, s')" "op_sound s'" "op_path s2 s'"
    "\<forall>i. JStr i \<in> (\<lambda>c. dget c ''operation-id'') ` set cs \<longrightarrow>
       (\<exists>u. op_rec s' i = Some u \<and> dget u ''state'' \<in> {JStr ''completed'', JStr ''failed''})"
    "\<forall>i. JStr i \<notin> (\<lambda>c. dget c ''operation-id'') ` set cs \<longrightarrow> op_rec s' i = op_rec s2 i"
    by (rule Cons.IH [OF _ e(2) dis acc])
  have run: "pump_loop executor now owner (c # cs) s = (Inr (v # rs), s')"
    using c(1) cl u(1) e(1) l(1) by (simp add: Let_def)
  have last: "op_rec s' i = Some v" using l(5) notin e(4) by simp
  have ids: "JStr j \<in> (\<lambda>c. dget c ''operation-id'') ` set (c # cs) \<longleftrightarrow> j = i \<or> JStr j \<in> (\<lambda>c. dget c ''operation-id'') ` set cs" for j
    using c(1) by (simp only: list.set image_insert insert_iff json.inject)
  show ?case
  proof (rule Cons.prems(1) [OF run l(2)])
    show "op_path s s'" using u(3) e(3) l(3) op_path_trans by blast
    show "\<forall>j. JStr j \<in> (\<lambda>c. dget c ''operation-id'') ` set (c # cs) \<longrightarrow>
       (\<exists>u. op_rec s' j = Some u \<and> dget u ''state'' \<in> {JStr ''completed'', JStr ''failed''})"
      unfolding ids using l(4) last e(5) by blast
    show "\<forall>j. JStr j \<notin> (\<lambda>c. dget c ''operation-id'') ` set (c # cs) \<longrightarrow> op_rec s' j = op_rec s j"
      unfolding ids using l(5) e(4) u(4) by simp
  qed
qed

section \<open>Creating, reading and listing\<close>

text \<open>Calls that only add records.\<close>

definition op_grows :: "opstore \<Rightarrow> opstore \<Rightarrow> bool" where
  "op_grows s s' \<longleftrightarrow> (\<forall>i r. op_rec s i = Some r \<longrightarrow> op_rec s' i = Some r)"

lemma op_grows_path: "op_grows s s' \<Longrightarrow> op_path s s'"
  by (auto simp: op_grows_def op_path_def)

lemma op_grows_rec: "op_rec s' = op_rec s \<Longrightarrow> op_grows s s'"
  by (simp add: op_grows_def)

lemma kind_value_node [simp]: "kind_value k = ''node-revoke'' \<longleftrightarrow> k = NODE_REVOKE"
  by (cases k) auto

lemma validate_node_revoke_again: "validate_node_revoke_scope v = Inr d \<Longrightarrow> v = JObj d"
  by (auto simp: validate_node_revoke_scope_def Let_def split: json.split_asm if_split_asm)

lemma op_created_valid:
  assumes "op_id_match i" "if k = NODE_REVOKE then validate_node_revoke_scope v = Inr scope else validate_op_scope v = Inr scope"
  shows "op_valid [(''contract-version'', JStr ''v1''), (''operation-id'', JStr i), (''kind'', JStr (kind_value k)),
    (''scope'', JObj scope), (''intent-digest'', dg), (''correlation-id'', corr), (''state'', JStr ''accepted''),
    (''revision'', JInt 0), (''owner-epoch'', JNull), (''created-at'', t), (''updated-at'', t),
    (''started-at'', JNull), (''finished-at'', JNull), (''result'', JNull), (''error'', JNull)]"
proof -
  have "if k = NODE_REVOKE then validate_node_revoke_scope (JObj scope) = Inr scope else validate_op_scope (JObj scope) = Inr scope"
    using assms(2) validate_node_revoke_again [of v scope] validate_scope_again [of v scope] by (auto split: if_split_asm)
  then show ?thesis using assms(1) by (auto simp: op_valid_def op_scope_ok_def OP_FIELDS_def dget_Cons split: if_split_asm)
qed

lemma op_create_grows:
  assumes "op_sound s" "op_create E now lo c s = (x, s')"
  shows "op_sound s' \<and> op_grows s s'"
proof (cases "rbind (require_op_id (mc_operation_id c)) (\<lambda>i.
           if mc_kind c = NODE_REVOKE \<and> \<not> lo then
             Inl (ag_error ''UNS-AGM-001'' ''node-revoke requires explicit local operation creation'' [])
           else if mc_kind c = NODE_REVOKE then validate_node_revoke_scope (mc_scope c)
           else validate_op_scope (mc_scope c))")
  case (Inl e)
  then show ?thesis using assms by (simp add: op_create_def op_grows_rec)
next
  case (Inr scope)
  then have id: "op_id_match (mc_operation_id c)"
    and sc: "if mc_kind c = NODE_REVOKE then validate_node_revoke_scope (mc_scope c) = Inr scope else validate_op_scope (mc_scope c) = Inr scope"
    by (auto simp: rbind_eq_Inr require_op_id_iff split: if_split_asm)
  let ?i = "mc_operation_id c"
  let ?s = "op_lock ?i s"
  have sd: "op_sound ?s" using id assms(1) by simp
  show ?thesis
  proof (cases "op_rec s ?i")
    case (Some r)
    then have r': "op_rec ?s ?i = Some r" by simp
    note m = op_rec_dir [OF r']
    have "s' = ?s" using assms(2) Inr m op_sound_rec(4) [OF sd r'] by (auto simp: op_create_def Let_def split: if_split_asm)
    then show ?thesis using sd by (simp add: op_grows_rec)
  next
    case None
    then have m: "map_of (op_dirs ?s) ?i \<in> {None, Some None}" using op_sound_norec(2) [OF sd] by simp
    define r where "r = [(''contract-version'', JStr ''v1''), (''operation-id'', JStr ?i), (''kind'', JStr (kind_value (mc_kind c))),
      (''scope'', JObj scope), (''intent-digest'', JStr (op_intent_digest E [(''kind'', JStr (kind_value (mc_kind c))), (''scope'', JObj scope),
      (''correlation-id'', opt_str (mc_correlation_id c))])), (''correlation-id'', opt_str (mc_correlation_id c)), (''state'', JStr ''accepted''),
      (''revision'', JInt 0), (''owner-epoch'', JNull), (''created-at'', JStr now), (''updated-at'', JStr now),
      (''started-at'', JNull), (''finished-at'', JNull), (''result'', JNull), (''error'', JNull)]"
    have v: "op_valid r" unfolding r_def by (rule op_created_valid [OF id sc])
    have i: "dget r ''operation-id'' = JStr ?i" by (simp add: r_def dget_Cons)
    obtain s2 where s2: "op_write_unlocked r ?s = (Inr (), s2)" "op_sound s2" "op_rec s2 = (op_rec ?s)(?i \<mapsto> r)"
      by (rule op_write_valid [OF sd v i id])
    have "s' = op_event_for r ''gateway.operation-created'' s2"
      using assms(2) Inr m s2(1) by (auto simp: op_create_def Let_def r_def [symmetric])
    then show ?thesis using s2 None by (auto simp: op_grows_def)
  qed
qed

lemma op_read_grows: "op_sound s \<Longrightarrow> op_read i s = (x, s') \<Longrightarrow> op_sound s' \<and> op_rec s' = op_rec s"
  by (auto simp: op_read_def require_op_id_def Let_def split: if_split_asm)

lemma list_loop_grows: "op_sound s \<Longrightarrow> list_dispatchable_loop n is s = (x, s') \<Longrightarrow> op_sound s' \<and> op_rec s' = op_rec s"
proof (induction "is" arbitrary: n s x)
  case (Cons i "is")
  obtain y s1 where rd: "op_read i s = (y, s1)" by fastforce
  note g = op_read_grows [OF Cons.prems(1) rd]
  note ih = Cons.IH [OF g [THEN conjunct1]]
  show ?case
  proof (cases y)
    case (Inl e)
    then show ?thesis using ih [of n x] Cons.prems(2) rd g by (cases e) auto
  next
    case (Inr r)
    then show ?thesis using ih [of n] ih [of "n - 1"] Cons.prems(2) rd g by (auto split: if_split_asm prod.split_asm sum.split_asm)
  qed
qed simp

lemma read_all_grows: "op_sound s \<Longrightarrow> op_read_all is s = (x, s') \<Longrightarrow> op_sound s' \<and> op_rec s' = op_rec s"
proof (induction "is" arbitrary: s x)
  case (Cons i "is")
  obtain y s1 where rd: "op_read i s = (y, s1)" by fastforce
  note g = op_read_grows [OF Cons.prems(1) rd]
  note ih = Cons.IH [OF g [THEN conjunct1]]
  show ?case
  proof (cases y)
    case (Inl e)
    then show ?thesis using ih [of x] Cons.prems(2) rd g by (cases e) auto
  next
    case (Inr r)
    then show ?thesis using ih Cons.prems(2) rd g by (auto split: prod.split_asm sum.split_asm)
  qed
qed simp

section \<open>Every call keeps the contract\<close>

text \<open>A record that the owner \<open>w\<close> holds or that is finished.\<close>

definition op_held :: "string \<Rightarrow> dict \<Rightarrow> bool" where
  "op_held w r \<longleftrightarrow> dget r ''state'' = JStr ''running'' \<and> dget r ''owner-epoch'' = JStr w \<or>
     dget r ''state'' \<in> {JStr ''completed'', JStr ''failed''}"

definition op_holds :: "string \<Rightarrow> opstore \<Rightarrow> opstore \<Rightarrow> bool" where
  "op_holds w s s' \<longleftrightarrow> (\<forall>i r. op_rec s i = Some r \<longrightarrow> op_held w r \<longrightarrow> (\<exists>r'. op_rec s' i = Some r' \<and> op_held w r'))"

lemma op_holds_refl [simp]: "op_holds w s s"
  by (simp add: op_holds_def)

lemma op_holds_trans: "op_holds w a b \<Longrightarrow> op_holds w b c \<Longrightarrow> op_holds w a c"
  unfolding op_holds_def by blast

lemma op_grows_holds: "op_grows s s' \<Longrightarrow> op_holds w s s'"
  by (auto simp: op_grows_def op_holds_def)

text \<open>The contract of a call: the store stays sound, records move along the contract, and what the
  owner \<open>w\<close> holds is not taken away.\<close>

locale operation_call =
  fixes w :: string and call :: "opstore \<Rightarrow> 'r \<times> opstore"
  assumes keeps: "op_sound s \<Longrightarrow> call s = (x, s') \<Longrightarrow> op_sound s' \<and> op_path s s'"
    and holds: "op_sound s \<Longrightarrow> call s = (x, s') \<Longrightarrow> op_holds w s s'"
begin

lemma sound: "op_sound s \<Longrightarrow> op_sound (snd (call s))"
  by (cases "call s") (simp add: keeps)

lemma path: "op_sound s \<Longrightarrow> op_path s (snd (call s))"
  by (cases "call s") (simp add: keeps)

lemma held: "op_sound s \<Longrightarrow> op_rec s i = Some r \<Longrightarrow> op_held w r \<Longrightarrow> \<exists>r'. op_rec (snd (call s)) i = Some r' \<and> op_held w r'"
  using holds by (cases "call s") (fastforce simp: op_holds_def)

end

text \<open>Calls that only add records meet it for every owner.\<close>

locale adding_call =
  fixes call :: "opstore \<Rightarrow> 'r \<times> opstore"
  assumes grows: "op_sound s \<Longrightarrow> call s = (x, s') \<Longrightarrow> op_sound s' \<and> op_grows s s'"

sublocale adding_call \<subseteq> operation_call w call for w
  by unfold_locales (auto dest: grows intro: op_grows_path op_grows_holds)

interpretation cre: adding_call "op_create E now lo c" for E now lo c
  by unfold_locales (rule op_create_grows)

interpretation rea: adding_call "op_read i" for i
  by unfold_locales (auto dest: op_read_grows intro: op_grows_rec)

interpretation lis: adding_call "list_dispatchable limit" for limit
  by unfold_locales (auto simp: list_dispatchable_def dest: list_loop_grows intro: op_grows_rec split: if_split_asm)

interpretation rec: adding_call "op_list_records limit" for limit
  by unfold_locales (auto simp: op_list_records_def dest: read_all_grows intro: op_grows_rec split: if_split_asm prod.split_asm sum.split_asm)

interpretation acc: adding_call active_count
  by unfold_locales (auto simp: active_count_def dest: read_all_grows intro: op_grows_rec split: prod.split_asm sum.split_asm)

interpretation app: adding_call "create_operation E now pol c" for E now pol c
  by unfold_locales (auto simp: create_operation_def Let_def dest: op_create_grows split: prod.split_asm sum.split_asm)

interpretation nrv: adding_call "create_local_node_revoke E now i n rv" for E now i n rv
  by unfold_locales (auto simp: create_local_node_revoke_def op_grows_rec dest: op_create_grows split: prod.split_asm sum.split_asm)

interpretation get: adding_call "get_operation i" for i
  by unfold_locales (auto simp: get_operation_def dest: op_read_grows intro: op_grows_rec split: prod.split_asm sum.split_asm)

interpretation lso: adding_call "list_operations limit" for limit
  by unfold_locales (auto simp: list_operations_def dest: rec.grows split: prod.split_asm sum.split_asm)

interpretation hac: adding_call has_active_operations
  by unfold_locales (auto simp: has_active_operations_def dest: acc.grows split: prod.split_asm sum.split_asm)

lemma op_holds_upd:
  "op_rec s i = Some r \<Longrightarrow> op_rec s' = (op_rec s)(i \<mapsto> u) \<Longrightarrow> (op_held w r \<Longrightarrow> op_held w u) \<Longrightarrow> op_holds w s s'"
  by (auto simp: op_holds_def)

interpretation clm: operation_call w "op_claim now i owner" for w now i owner
proof
  fix s x s'
  assume "op_sound s" "op_claim now i owner s = (x, s')"
  then have "op_sound s' \<and> op_path s s' \<and> op_holds w s s'"
  proof (cases rule: op_claim_cases)
    case (claimed r u)
    have "op_holds w s s'" by (rule op_holds_upd [OF claimed(4,5)]) (use claimed(7) in \<open>simp add: op_held_def\<close>)
    with claimed show ?thesis by simp
  qed (simp_all add: op_path_rec op_grows_holds op_grows_rec)
  then show "op_sound s' \<and> op_path s s'" "op_holds w s s'" by simp_all
qed

interpretation fin: operation_call w "op_finish now i owner result error" for w now i owner result error
proof
  fix s x s'
  assume "op_sound s" "op_finish now i owner result error s = (x, s')"
  then have "op_sound s' \<and> op_path s s' \<and> op_holds w s s'"
  proof (cases rule: op_finish_cases)
    case (finished r u)
    have "op_holds w s s'" by (rule op_holds_upd [OF finished(4,5)]) (use finished(9) in \<open>simp add: op_held_def\<close>)
    with finished show ?thesis by simp
  qed (simp_all add: op_path_rec op_grows_holds op_grows_rec)
  then show "op_sound s' \<and> op_path s s'" "op_holds w s s'" by simp_all
qed

interpretation fai: operation_call w "op_fail now i owner code" for w now i owner code
  unfolding op_fail_def by (rule fin.operation_call_axioms)

text \<open>What the recovery loop does to a record: a claim of another owner is returned, every other
  record is kept.\<close>

definition other_claim :: "string \<Rightarrow> dict \<Rightarrow> bool" where
  "other_claim w r \<longleftrightarrow> dget r ''state'' = JStr ''running'' \<and> dget r ''owner-epoch'' \<noteq> JStr w"

lemma recover_loop_step:
  assumes "op_sound s" "op_rec s i = Some r"
  obtains (kept) "\<not> other_claim w r" "recover_claims_loop now w (i # ids) s = recover_claims_loop now w ids s"
  | (returned) u s1 where "other_claim w r" "op_sound s1" "op_rec s1 = (op_rec s)(i \<mapsto> u)" "dget u ''state'' = JStr ''accepted''"
      "fst ` set (op_dirs s1) = fst ` set (op_dirs s)"
      "recover_claims_loop now w (i # ids) s = (case recover_claims_loop now w ids s1 of (Inl e, s2) \<Rightarrow> (Inl e, s2) | (Inr n, s2) \<Rightarrow> (Inr (Suc n), s2))"
proof (cases "other_claim w r")
  case False
  then show thesis using op_sound_rec(4) [OF assms] by (intro kept) (auto simp: other_claim_def)
next
  case True
  note v = op_sound_rec [OF assms]
  have run: "dget r ''state'' = JStr ''running''" using True by (simp add: other_claim_def)
  let ?u = "dupd r [(''state'', JStr ''accepted''), (''revision'', JInt (rev_of (dget r ''revision'') + 1)), (''updated-at'', JStr now),
     (''owner-epoch'', JNull), (''started-at'', JNull)]"
  have tr: "op_transition now r ''accepted'' = Inr (dupd r [(''state'', JStr ''accepted''), (''revision'', JInt (rev_of (dget r ''revision'') + 1)), (''updated-at'', JStr now)])"
    by (rule op_transition_ok [OF v(1) run]) simp
  obtain s2 where s2: "op_commit ''gateway.operation-requeued-after-owner-change'' ?u s = (Inr ?u, s2)" "op_sound s2"
    "op_rec s2 = (op_rec s)(i \<mapsto> ?u)" "fst ` set (op_dirs s2) = fst ` set (op_dirs s)"
    by (rule op_commit_succ [OF assms requeue_succ [OF v(1) run]])
  show thesis
    by (rule returned [of s2 ?u]) (use True v(4) tr s2 in \<open>simp_all add: dupd_append other_claim_def del: dupd.simps\<close>, simp)
qed

lemma recover_loop_rec:
  assumes "op_sound s" "recover_claims_loop now w is s = (x, s')" "op_rec s i = Some r"
  shows "\<exists>r'. op_rec s' i = Some r' \<and> (if other_claim w r then r' = r \<or> dget r' ''state'' = JStr ''accepted'' else r' = r)"
  using assms
proof (induction "is" arbitrary: s x r)
  case (Cons j "is")
  show ?case
  proof (cases "op_rec s j")
    case None
    then have "s' = s" using Cons.prems op_sound_norec(1) by auto
    then show ?thesis using Cons.prems(3) by simp
  next
    case (Some rj)
    from Cons.prems(1) Some show ?thesis
    proof (cases rule: recover_loop_step [where w = w and now = now and ids = "is"])
      case kept
      then show ?thesis using Cons.IH [OF Cons.prems(1) _ Cons.prems(3)] Cons.prems(2) by simp
    next
      case (returned u s1)
      obtain y s2 where y: "recover_claims_loop now w is s1 = (y, s2)" by fastforce
      then have s2: "s2 = s'" using returned(6) Cons.prems(2) by (cases y) auto
      show ?thesis
      proof (cases "i = j")
        case True
        have "\<not> other_claim w u" using returned(4) by (simp add: other_claim_def)
        then show ?thesis using Cons.IH [OF returned(2) y [unfolded s2], of u] returned True Some Cons.prems(3) by simp
      next
        case False
        then show ?thesis using Cons.IH [OF returned(2) y [unfolded s2], of r] returned(3) Cons.prems(3) by simp
      qed
    qed
  qed
qed auto

lemma recover_loop_none:
  "op_sound s \<Longrightarrow> op_rec s i = None \<Longrightarrow> recover_claims_loop now w ids s = (x, s') \<Longrightarrow> op_rec s' i = None"
proof (induction ids arbitrary: s x)
  case (Cons j ids)
  show ?case
  proof (cases "op_rec s j")
    case None
    then show ?thesis using Cons.prems op_sound_norec(1) by auto
  next
    case (Some rj)
    from Cons.prems(1) Some show ?thesis
    proof (cases rule: recover_loop_step [where w = w and now = now and ids = ids])
      case kept
      then show ?thesis using Cons.IH [OF Cons.prems(1,2)] Cons.prems(3) by simp
    next
      case (returned u s1)
      obtain y s2 where y: "recover_claims_loop now w ids s1 = (y, s2)" by fastforce
      then have s2: "s2 = s'" using returned(6) Cons.prems(3) by (cases y) auto
      have "op_rec s1 i = None" using returned(3) Cons.prems(2) Some by auto
      then show ?thesis using Cons.IH [OF returned(2) _ y [unfolded s2]] by blast
    qed
  qed
qed auto

lemma recover_keeps:
  assumes "op_sound s" "recover_prior_owner_claims now w s = (x, s')"
  shows "op_sound s' \<and> op_path s s'"
  using assms recover_loop_ok [OF assms(1), of now w "op_names s"] by (auto simp: recover_prior_owner_claims_def split: if_split_asm)

interpretation rcv: operation_call w "recover_prior_owner_claims now w" for w now
proof (unfold_locales, rule recover_keeps)
  fix s x s'
  assume a: "op_sound s" "recover_prior_owner_claims now w s = (x, s')"
  show "op_holds w s s'"
  proof (cases "w = []")
    case False
    then have l: "recover_claims_loop now w (op_names s) s = (x, s')" using a(2) by (simp add: recover_prior_owner_claims_def)
    show ?thesis unfolding op_holds_def
      using recover_loop_rec [OF a(1) l] by (fastforce simp: op_held_def other_claim_def)
  qed (use a in \<open>simp add: recover_prior_owner_claims_def\<close>)
qed

lemma pump_execute_keeps:
  assumes "op_sound s" "pump_execute ex now w i operation s = (x, s')"
  shows "op_sound s' \<and> op_path s s' \<and> op_holds v s s'"
proof (cases "ex operation")
  case (Inl e)
  then have "op_fail now i w ''INT-AGM-001'' s = (x, s')" using assms(2) by (simp add: pump_execute_def)
  then show ?thesis using fai.keeps [OF assms(1)] fai.holds [OF assms(1)] by blast
next
  case (Inr result)
  obtain y s1 where f: "op_finish now i w result JNull s = (y, s1)" by fastforce
  note a = fin.keeps [OF assms(1) f] fin.holds [OF assms(1) f]
  show ?thesis
  proof (cases y)
    case (Inl e)
    then have g: "op_fail now i w ''INT-AGM-001'' s1 = (x, s')" using assms(2) f Inr by (simp add: pump_execute_def)
    have "op_sound s1" using a(1) by blast
    then have "op_sound s'" "op_path s1 s'" "op_holds v s1 s'" using fai.keeps g fai.holds [of s1, OF _ g, where w = v] by blast+
    then show ?thesis using a(1) a(2) [where w = v] op_path_trans op_holds_trans by blast
  next
    case (Inr r)
    then have "s1 = s'" using assms(2) f \<open>ex operation = Inr result\<close> by (simp add: pump_execute_def)
    then show ?thesis using a by blast
  qed
qed

lemma pump_loop_keeps:
  assumes "op_sound s" "pump_loop ex now w cs s = (x, s')"
  shows "op_sound s' \<and> op_path s s' \<and> op_holds v s s'"
  using assms
proof (induction cs arbitrary: s x s')
  case (Cons c cs)
  let ?i = "str_of (dget c ''operation-id'')"
  obtain y s1 where c: "op_claim now ?i w s = (y, s1)" by fastforce
  have a: "op_sound s1" "op_path s s1" "op_holds v s s1" using clm.keeps [OF Cons.prems(1) c] clm.holds [OF Cons.prems(1) c] by blast+
  consider e where "y = Inl e" | "y = Inr None" | u where "y = Inr (Some u)" using sum.exhaust [of y] option.exhaust by metis
  then show ?case
  proof cases
    case 1
    then show ?thesis using Cons.prems(2) c a by (simp add: Let_def)
  next
    case 2
    then have "pump_loop ex now w cs s1 = (x, s')" using Cons.prems(2) c by (simp add: Let_def)
    then show ?thesis using Cons.IH [OF a(1)] a op_path_trans op_holds_trans by blast
  next
    case (3 u)
    obtain z s2 where e: "pump_execute ex now w ?i u s1 = (z, s2)" by fastforce
    have b: "op_sound s2" "op_path s s2" "op_holds v s s2"
      using pump_execute_keeps [OF a(1) e] a op_path_trans op_holds_trans by blast+
    obtain q s3 where l: "pump_loop ex now w cs s2 = (q, s3)" by fastforce
    have "s' = s2 \<or> s' = s3" using Cons.prems(2) c 3 e l by (cases z; cases q) (auto simp: Let_def)
    then show ?thesis using Cons.IH [OF b(1) l] b op_path_trans op_holds_trans by blast
  qed
qed simp

lemma pump_keeps:
  assumes "op_sound s" "pump_run_once ex now w limit s = (x, s')"
  shows "op_sound s' \<and> op_path s s'" "op_holds w s s'"
proof -
  obtain y s1 where r: "recover_prior_owner_claims now w s = (y, s1)" by fastforce
  have a: "op_sound s1" "op_path s s1" "op_holds w s s1" using rcv.keeps [OF assms(1) r] rcv.holds [OF assms(1) r] by blast+
  obtain z s2 where l: "list_dispatchable limit s1 = (z, s2)" by fastforce
  have b: "op_sound s2" "op_path s s2" "op_holds w s s2"
    using lis.keeps [OF a(1) l] lis.holds [OF a(1) l] a op_path_trans op_holds_trans by blast+
  have "s' = s1 \<or> s' = s2 \<or> (\<exists>cs. pump_loop ex now w cs s2 = (x, s'))"
    using assms(2) r l by (cases y; cases z) (auto simp: pump_run_once_def)
  then have "op_sound s' \<and> op_path s s' \<and> op_holds w s s'"
    using a b pump_loop_keeps [OF b(1)] op_path_trans op_holds_trans by blast
  then show "op_sound s' \<and> op_path s s'" "op_holds w s s'" by blast+
qed

interpretation pmp: operation_call w "pump_run_once ex now w limit" for ex now w limit
  by unfold_locales (erule (1) pump_keeps)+

section \<open>The system\<close>

text \<open>Any interleaving of calls; \<open>W\<close> is the set of service owners that claim, finish, recover and
  pump.\<close>

inductive op_sys :: "('a genv_scheme) \<Rightarrow> string set \<Rightarrow> opstore \<Rightarrow> opstore \<Rightarrow> bool" for E W where
  create: "op_sys E W s (snd (create_operation E now pol c s))"
| create_local: "op_sys E W s (snd (create_local_node_revoke E now i n rv s))"
| create_any: "op_sys E W s (snd (op_create E now lo c s))"
| read: "op_sys E W s (snd (op_read i s))"
| list: "op_sys E W s (snd (list_dispatchable limit s))"
| records: "op_sys E W s (snd (op_list_records limit s))"
| count: "op_sys E W s (snd (active_count s))"
| get: "op_sys E W s (snd (get_operation i s))"
| list_public: "op_sys E W s (snd (list_operations limit s))"
| active: "op_sys E W s (snd (has_active_operations s))"
| claim: "w \<in> W \<Longrightarrow> op_sys E W s (snd (op_claim now i w s))"
| finish: "w \<in> W \<Longrightarrow> op_sys E W s (snd (op_finish now i w result error s))"
| fail: "w \<in> W \<Longrightarrow> op_sys E W s (snd (op_fail now i w code s))"
| recover: "w \<in> W \<Longrightarrow> op_sys E W s (snd (recover_prior_owner_claims now w s))"
| pump: "w \<in> W \<Longrightarrow> op_sys E W s (snd (pump_run_once ex now w limit s))"

lemmas op_call_sound = app.sound nrv.sound cre.sound rea.sound lis.sound rec.sound acc.sound get.sound lso.sound hac.sound clm.sound fin.sound fai.sound rcv.sound pmp.sound

lemmas op_call_path = app.path nrv.path cre.path rea.path lis.path rec.path acc.path get.path lso.path hac.path clm.path fin.path fai.path rcv.path pmp.path

lemmas op_call_held = app.held nrv.held cre.held rea.held lis.held rec.held acc.held get.held lso.held hac.held clm.held fin.held fai.held rcv.held pmp.held

lemma op_sys_step: "op_sys E W s s' \<Longrightarrow> op_sound s \<Longrightarrow> op_sound s' \<and> op_path s s'"
  by (induction rule: op_sys.induct) (blast intro: op_call_sound op_call_path)+

lemma op_sys_steps: "(op_sys E W)\<^sup>*\<^sup>* s s' \<Longrightarrow> op_sound s \<Longrightarrow> op_sound s' \<and> op_path s s'"
  by (induction rule: rtranclp_induct) (auto dest: op_sys_step intro: op_path_trans)

lemma op_sys_held_step: "op_sys E {w} s s' \<Longrightarrow> op_sound s \<Longrightarrow> op_rec s i = Some r \<Longrightarrow> op_held w r \<Longrightarrow> \<exists>r'. op_rec s' i = Some r' \<and> op_held w r'"
  by (induction rule: op_sys.induct) (simp_all add: op_call_held)

lemma op_sys_held:
  "(op_sys E {w})\<^sup>*\<^sup>* s s' \<Longrightarrow> op_sound s \<Longrightarrow> op_rec s i = Some r \<Longrightarrow> op_held w r \<Longrightarrow> \<exists>r'. op_rec s' i = Some r' \<and> op_held w r'"
proof (induction rule: rtranclp_induct)
  case (step b c)
  then show ?case using op_sys_steps [OF step(1,4)] op_sys_held_step [OF step(2)] by blast
qed simp

definition op_empty :: opstore where
  "op_empty = \<lparr>op_dirs = [], op_timeline = []\<rparr>"

lemma op_empty_sound [simp]: "op_sound op_empty"
  by (simp add: op_sound_def op_empty_def)

text \<open>C11: Gateway operations follow their contract.  From an empty store, whatever calls run in
  whatever order and by whatever owners, every stored operation stays stored; its lifecycle moves by
  claims of an accepted operation, returns of a claimed one and finishes by the owner that claimed it,
  one revision each; what it was asked to do (kind, scope, digest) never changes; and once completed
  or failed its record never changes again.\<close>

theorem operations_refine_contract:
  assumes "(op_sys E UNIV)\<^sup>*\<^sup>* op_empty s" "(op_sys E UNIV)\<^sup>*\<^sup>* s s'" "op_rec s i = Some r"
  shows "\<exists>r'. op_rec s' i = Some r' \<and> op_step\<^sup>*\<^sup>* (oplc_of r) (oplc_of r') \<and>
    (\<forall>k \<in> set OP_INTENT_FIELDS. dget r' k = dget r k) \<and>
    (dget r ''state'' \<in> {JStr ''completed'', JStr ''failed''} \<longrightarrow> r' = r)"
proof -
  have "op_sound s" using op_sys_steps [OF assms(1)] by simp
  then have "op_path s s'" using op_sys_steps [OF assms(2)] by blast
  then show ?thesis using assms(3) unfolding op_path_def op_move_def by blast
qed

text \<open>C12: An operation is executed at most once per service owner.  After the owner's claim of an
  operation has succeeded, no later claim of that operation succeeds, through any interleaving of
  creations, reads, scans, finishes, recoveries and pump runs of that owner.\<close>

theorem operation_claimed_once:
  assumes "(op_sys E {w})\<^sup>*\<^sup>* op_empty s" "op_claim now i w s = (Inr (Some u), s1)" "(op_sys E {w})\<^sup>*\<^sup>* s1 s'" "w' \<noteq> []"
  shows "fst (op_claim now' i w' s') = Inr None"
proof -
  have sd: "op_sound s" using op_sys_steps [OF assms(1)] by simp
  from sd assms(2) obtain "op_sound s1" "op_rec s1 i = Some u" "op_held w u"
    by (cases rule: op_claim_cases) (simp_all add: op_held_def)
  then obtain r' where r: "op_sound s'" "op_rec s' i = Some r'" "op_held w r'"
    using op_sys_held [OF assms(3)] op_sys_steps [OF assms(3)] by blast
  have id: "op_id_match i" by (rule op_sound_rec(3) [OF r(1,2)])
  then have "op_read_unlocked i (op_lock i s') = Inr r'" using op_sound_rec(4) [of "op_lock i s'" i r'] r by simp
  moreover have "dget r' ''state'' \<noteq> JStr ''accepted''" using r(3) by (auto simp: op_held_def)
  ultimately show ?thesis using id assms(4) by (simp add: op_claim_def require_op_id_def Let_def)
qed

section \<open>Pump runs\<close>

lemma recover_loop_full:
  assumes "op_sound s" "\<forall>i \<in> set ids. op_rec s i \<noteq> None"
  shows "\<exists>n s'. recover_claims_loop now w ids s = (Inr n, s') \<and> (\<forall>i \<in> set ids. \<forall>r'. op_rec s' i = Some r' \<longrightarrow> \<not> other_claim w r')"
  using assms
proof (induction ids arbitrary: s)
  case (Cons i ids)
  then obtain r where r: "op_rec s i = Some r" by auto
  have done1: "\<not> other_claim w r'" if "op_sound t" "op_rec t i = Some u" "\<not> other_claim w u"
    "recover_claims_loop now w ids t = (x, t')" "op_rec t' i = Some r'" for t t' u x r'
    using recover_loop_rec [OF that(1,4,2)] that(3,5) by auto
  from Cons.prems(1) r show ?case
  proof (cases rule: recover_loop_step [where w = w and now = now and ids = ids])
    case kept
    obtain n s' where n: "recover_claims_loop now w ids s = (Inr n, s')"
      "\<forall>i \<in> set ids. \<forall>r'. op_rec s' i = Some r' \<longrightarrow> \<not> other_claim w r'" using Cons.IH [OF Cons.prems(1)] Cons.prems(2) by auto
    then show ?thesis using kept done1 [OF Cons.prems(1) r kept(1) n(1)] by auto
  next
    case (returned u s1)
    have "\<forall>i \<in> set ids. op_rec s1 i \<noteq> None" using Cons.prems(2) returned(3) by auto
    then obtain n s' where n: "recover_claims_loop now w ids s1 = (Inr n, s')"
      "\<forall>i \<in> set ids. \<forall>r'. op_rec s' i = Some r' \<longrightarrow> \<not> other_claim w r'" using Cons.IH [OF returned(2)] by auto
    have u: "op_rec s1 i = Some u" "\<not> other_claim w u" using returned(3,4) by (simp_all add: other_claim_def)
    then show ?thesis using returned(6) n done1 [OF returned(2) u n(1)] by auto
  qed
qed simp

lemma op_read_full: "op_sound s \<Longrightarrow> op_rec s i = Some r \<Longrightarrow> op_read i s = (Inr r, s)"
  using op_sound_rec(3,4) [of s i r] op_rec_dir [of s i r] by (simp add: op_read_def require_op_id_def op_lock_def Let_def)

lemma list_loop_full:
  assumes "op_sound s" "\<forall>i \<in> set ids. op_rec s i = Some (f i)" "length ids \<le> n"
  shows "list_dispatchable_loop n ids s = (Inr (filter (\<lambda>r. dget r ''state'' = JStr ''accepted'') (map f ids)), s)"
  using assms(2,3)
proof (induction ids arbitrary: n)
  case (Cons i ids)
  have rd: "op_read i s = (Inr (f i), s)" by (rule op_read_full [OF assms(1)]) (use Cons.prems(1) in simp)
  show ?case
  proof (cases "n \<le> 1")
    case True
    then have "ids = []" using Cons.prems(2) by (cases ids) auto
    then show ?thesis using rd True by auto
  next
    case False
    then show ?thesis using rd Cons.IH [of n] Cons.IH [of "n - 1"] Cons.prems by auto
  qed
qed simp

lemma set_op_names: "op_sound s \<Longrightarrow> set (op_names s) = fst ` set (op_dirs s)"
  by (auto simp: op_names_def op_sound_def)

lemma distinct_op_names: "op_sound s \<Longrightarrow> distinct (op_names s)"
  by (simp add: op_names_def op_sound_def)

lemma length_op_names:
  assumes "op_sound s" "op_sound s'" "fst ` set (op_dirs s') = fst ` set (op_dirs s)"
  shows "length (op_names s') = length (op_dirs s)"
proof -
  have "length (op_names s') = card (fst ` set (op_dirs s'))"
    using distinct_card [OF distinct_op_names [OF assms(2)]] set_op_names [OF assms(2)] by simp
  also have "\<dots> = length (op_dirs s)" using distinct_card [of "map fst (op_dirs s)"] assms by (simp add: op_sound_def)
  finally show ?thesis .
qed

lemma pump_finishes:
  assumes "op_sound s" "op_full s" "w \<noteq> []" "0 < limit" "int (length (op_dirs s)) \<le> limit"
  shows "\<exists>rs s'. pump_run_once ex now w limit s = (Inr rs, s') \<and> (\<forall>i r. op_rec s i = Some r \<longrightarrow>
    dget r ''state'' = JStr ''accepted'' \<or> other_claim w r \<longrightarrow>
    (\<exists>u. op_rec s' i = Some u \<and> dget u ''state'' \<in> {JStr ''completed'', JStr ''failed''}))"
proof -
  have all: "\<forall>i \<in> set (op_names s). op_rec s i \<noteq> None" using assms(2) set_op_names [OF assms(1)] by (auto simp: op_full_def)
  obtain n s1 where r: "recover_claims_loop now w (op_names s) s = (Inr n, s1)"
    "\<forall>i \<in> set (op_names s). \<forall>r'. op_rec s1 i = Some r' \<longrightarrow> \<not> other_claim w r'" using recover_loop_full [OF assms(1) all] by blast
  have s1: "op_sound s1" "fst ` set (op_dirs s1) = fst ` set (op_dirs s)"
    using recover_loop_ok [OF assms(1), of now w "op_names s"] r(1) by simp_all
  have names: "set (op_names s1) = set (op_names s)" using s1 set_op_names assms(1) by simp
  define f where "f i = the (op_rec s1 i)" for i
  have f: "op_rec s1 i = Some (f i)" if mem: "i \<in> set (op_names s1)" for i
  proof -
    obtain q where "op_rec s i = Some q" using all mem names by auto
    from recover_loop_rec [OF assms(1) r(1) this] show ?thesis by (auto simp: f_def)
  qed
  define cs where "cs = filter (\<lambda>r. dget r ''state'' = JStr ''accepted'') (map f (op_names s1))"
  have ld: "list_dispatchable limit s1 = (Inr cs, s1)"
    using list_loop_full [OF s1(1), of "op_names s1" f "nat limit"] f length_op_names [OF assms(1) s1] assms(4,5)
    by (simp add: list_dispatchable_def cs_def)
  have ids: "dget (f i) ''operation-id'' = JStr i" if "i \<in> set (op_names s1)" for i
    by (rule op_sound_rec(2) [OF s1(1) f [OF that]])
  have "map (\<lambda>c. dget c ''operation-id'') (map f (op_names s1)) = map JStr (op_names s1)" using ids by simp
  then have "distinct (map (\<lambda>c. dget c ''operation-id'') (map f (op_names s1)))"
    using distinct_op_names [OF s1(1)] by (simp only: distinct_map) (simp add: inj_on_def)
  then have d: "distinct (map (\<lambda>c. dget c ''operation-id'') cs)" unfolding cs_def by (rule distinct_map_filter)
  have a: "\<forall>c \<in> set cs. \<exists>i r. dget c ''operation-id'' = JStr i \<and> op_rec s1 i = Some r \<and> dget r ''state'' = JStr ''accepted''"
    using f ids by (auto simp: cs_def)
  obtain rs s' where p: "pump_loop ex now w cs s1 = (Inr rs, s')"
    "\<forall>i. JStr i \<in> (\<lambda>c. dget c ''operation-id'') ` set cs \<longrightarrow>
       (\<exists>u. op_rec s' i = Some u \<and> dget u ''state'' \<in> {JStr ''completed'', JStr ''failed''})"
    by (rule pump_loop_ok [OF s1(1) assms(3) d a])
  have run: "pump_run_once ex now w limit s = (Inr rs, s')"
    using assms(3) r(1) ld p(1) by (simp add: pump_run_once_def recover_prior_owner_claims_def)
  have "JStr i \<in> (\<lambda>c. dget c ''operation-id'') ` set cs"
    if i: "op_rec s i = Some q" "dget q ''state'' = JStr ''accepted'' \<or> other_claim w q" for i q
  proof -
    have nm: "i \<in> set (op_names s1)"
      using op_rec_dir [OF i(1)] names set_op_names [OF assms(1)] by (force dest: map_of_SomeD)
    obtain q' where q: "op_rec s1 i = Some q'" "if other_claim w q then q' = q \<or> dget q' ''state'' = JStr ''accepted'' else q' = q"
      using recover_loop_rec [OF assms(1) r(1) i(1)] by blast
    have fi: "q' = f i" using q(1) f [OF nm] by simp
    have "\<not> other_claim w q'" using r(2) nm names q(1) by blast
    then have "dget q' ''state'' = JStr ''accepted''" using q(2) i(2) by (cases "other_claim w q") auto
    then have "dget (f i) ''state'' = JStr ''accepted''" unfolding fi .
    then have "f i \<in> set cs" using nm by (simp add: cs_def)
    then have "dget (f i) ''operation-id'' \<in> (\<lambda>c. dget c ''operation-id'') ` set cs" by (rule imageI)
    then show ?thesis unfolding ids [OF nm] .
  qed
  with run p(2) show ?thesis by blast
qed


text \<open>A directory without a record stops every pump run before it claims anything.\<close>

lemma recover_loop_stops:
  "op_sound s \<Longrightarrow> \<exists>i \<in> set ids. op_rec s i = None \<Longrightarrow> \<exists>e s'. recover_claims_loop now w ids s = (Inl e, s')"
proof (induction ids arbitrary: s)
  case (Cons i ids)
  show ?case
  proof (cases "op_rec s i")
    case None
    then show ?thesis using op_sound_norec(1) [OF Cons.prems(1)] by simp
  next
    case (Some r)
    then have ex: "\<exists>i \<in> set ids. op_rec s i = None" using Cons.prems(2) by auto
    from Cons.prems(1) Some show ?thesis
    proof (cases rule: recover_loop_step [where w = w and now = now and ids = ids])
      case kept
      then show ?thesis using Cons.IH [OF Cons.prems(1) ex] by simp
    next
      case (returned u s1)
      obtain j where "j \<in> set ids" "op_rec s j = None" using ex by blast
      then have "\<exists>j \<in> set ids. op_rec s1 j = None" using Some returned(3) by (intro bexI [of _ j]) auto
      then obtain e s' where "recover_claims_loop now w ids s1 = (Inl e, s')" using Cons.IH [OF returned(2)] by blast
      then show ?thesis using returned(6) by auto
    qed
  qed
qed simp

lemma pump_stops:
  assumes "op_sound s" "w \<noteq> []" "i \<in> fst ` set (op_dirs s)" "op_rec s i = None"
  shows "\<exists>e s'. pump_run_once ex now w limit s = (Inl e, s') \<and> op_sound s' \<and> i \<in> fst ` set (op_dirs s') \<and> op_rec s' i = None \<and>
    (\<forall>j r. op_rec s j = Some r \<longrightarrow> \<not> other_claim w r \<longrightarrow> op_rec s' j = Some r)"
proof -
  have "\<exists>i \<in> set (op_names s). op_rec s i = None" using assms(3,4) set_op_names [OF assms(1)] by blast
  then obtain e s' where l: "recover_claims_loop now w (op_names s) s = (Inl e, s')" using recover_loop_stops [OF assms(1)] by blast
  then have run: "pump_run_once ex now w limit s = (Inl e, s')"
    using assms(2) by (simp add: pump_run_once_def recover_prior_owner_claims_def)
  have sd: "op_sound s'" "fst ` set (op_dirs s') = fst ` set (op_dirs s)"
    using recover_loop_ok [OF assms(1), of now w "op_names s"] l by simp_all
  have "op_rec s' i = None" using recover_loop_none [OF assms(1,4) l] .
  moreover have "op_rec s' j = Some r" if "op_rec s j = Some r" "\<not> other_claim w r" for j r
    using recover_loop_rec [OF assms(1) l that(1)] that(2) by simp
  ultimately show ?thesis using run sd assms(3) by blast
qed

text \<open>A run of the pump: executor, time, owner and limit.\<close>

type_synonym pump_call = "(dict \<Rightarrow> json res) \<times> string \<times> string \<times> int"

primrec pump_runs :: "pump_call list \<Rightarrow> opstore \<Rightarrow> opstore" where
  "pump_runs [] s = s"
| "pump_runs (c # cs) s = (case c of (ex, now, w, limit) \<Rightarrow> pump_runs cs (snd (pump_run_once ex now w limit s)))"

lemma pump_runs_stop:
  assumes "op_sound s" "i \<in> fst ` set (op_dirs s)" "op_rec s i = None" "op_rec s j = Some r" "dget r ''state'' = JStr ''accepted''"
    "\<forall>(ex, now, w, limit) \<in> set runs. w \<noteq> []"
  shows "op_sound (pump_runs runs s) \<and> i \<in> fst ` set (op_dirs (pump_runs runs s)) \<and> op_rec (pump_runs runs s) i = None \<and>
    op_rec (pump_runs runs s) j = Some r"
  using assms
proof (induction runs arbitrary: s)
  case (Cons c runs)
  obtain ex now w limit where c: "c = (ex, now, w, limit)" by (cases c) auto
  then have "w \<noteq> []" using Cons.prems(6) by simp
  from pump_stops [OF Cons.prems(1) this Cons.prems(2,3), of ex now limit] obtain e s' where
    s': "pump_run_once ex now w limit s = (Inl e, s')" "op_sound s'" "i \<in> fst ` set (op_dirs s')" "op_rec s' i = None"
    "\<not> other_claim w r \<Longrightarrow> op_rec s' j = Some r" using Cons.prems(4) by blast
  have nc: "\<not> other_claim w r" using Cons.prems(5) by (simp add: other_claim_def)
  show ?case using Cons.IH [OF s'(2-4) s'(5) [OF nc] Cons.prems(5)] Cons.prems(6) c s'(1) by simp
qed simp

text \<open>C40: Reading an operation that does not exist stops the pump for good.  The read takes the lock of
  the unknown operation, which creates its directory; from then on every pump run, of whatever owner,
  fails while it recovers claims, so an operation that was accepted is never claimed.\<close>

theorem read_unknown_blocks_pump:
  assumes "(op_sys E UNIV)\<^sup>*\<^sup>* op_empty s" "op_id_match i" "op_rec s i = None" "op_rec s j = Some r"
    "dget r ''state'' = JStr ''accepted''" "\<forall>(ex, now, w, limit) \<in> set runs. w \<noteq> []" "w \<noteq> []"
  shows "op_rec (pump_runs runs (snd (op_read i s))) j = Some r \<and>
    isl (fst (pump_run_once executor now w limit (pump_runs runs (snd (op_read i s)))))"
proof -
  have sd: "op_sound s" using op_sys_steps [OF assms(1)] by simp
  have rd: "snd (op_read i s) = op_lock i s" using assms(2) by (simp add: op_read_def require_op_id_def Let_def)
  have "i \<in> fst ` set (op_dirs (op_lock i s))"
    by (cases "map_of (op_dirs s) i") (auto simp: op_lock_def dest: map_of_SomeD intro: rev_image_eqI)
  then have a: "op_sound (pump_runs runs (op_lock i s))" "i \<in> fst ` set (op_dirs (pump_runs runs (op_lock i s)))"
    "op_rec (pump_runs runs (op_lock i s)) i = None" "op_rec (pump_runs runs (op_lock i s)) j = Some r"
    using pump_runs_stop [of "op_lock i s" i j r runs] sd assms(2-6) by simp_all
  then show ?thesis using pump_stops [OF a(1) assms(7) a(2,3), of executor now limit] unfolding rd by auto
qed

section \<open>Examples\<close>

definition op_command :: "string \<Rightarrow> ManagementCommand" where
  "op_command i = \<lparr>mc_operation_id = i, mc_kind = RECONCILE, mc_scope = JObj [(''reason'', JStr ''restart'')], mc_correlation_id = None\<rparr>"

definition op_one :: opstore where
  "op_one = snd (op_create env0 ''t0'' False (op_command ''op-1'') op_empty)"

lemma op_one_reached: "(op_sys env0 W)\<^sup>*\<^sup>* op_empty op_one"
  unfolding op_one_def by (intro r_into_rtranclp op_sys.create_any)

definition op_record1 :: dict where
  "op_record1 = [(''contract-version'', JStr ''v1''), (''operation-id'', JStr ''op-1''), (''kind'', JStr ''reconcile''),
     (''scope'', JObj [(''reason'', JStr ''restart'')]), (''intent-digest'', JStr ''{}''), (''correlation-id'', JNull),
     (''state'', JStr ''accepted''), (''revision'', JInt 0), (''owner-epoch'', JNull), (''created-at'', JStr ''t0''),
     (''updated-at'', JStr ''t0''), (''started-at'', JNull), (''finished-at'', JNull), (''result'', JNull), (''error'', JNull)]"

lemma op_one_eq: "op_one = \<lparr>op_dirs = [(''op-1'', Some (Doc (JObj op_record1)))],
    op_timeline = [\<lparr>oe_id = ''op-1'', oe_name = ''gateway.operation-created'', oe_state = JStr ''accepted'', oe_revision = JInt 0\<rparr>]\<rparr>"
  by code_simp

lemma op_one_rec: "op_rec op_one i = (if i = ''op-1'' then Some op_record1 else None)"
  by (simp add: op_one_eq op_rec_def)

lemma op_one_full: "op_full op_one"
  by (simp add: op_full_def op_one_rec) (simp add: op_one_eq)

lemma op_record1_state [simp]: "dget op_record1 ''state'' = JStr ''accepted''"
  by code_simp

theorem operations_refine_contract_witness:
  "\<exists>r'. op_rec (snd (op_claim ''t1'' ''op-1'' ''e1'' op_one)) ''op-1'' = Some r' \<and>
    op_step\<^sup>*\<^sup>* (oplc_of op_record1) (oplc_of r') \<and> (\<forall>k \<in> set OP_INTENT_FIELDS. dget r' k = dget op_record1 k) \<and>
    (dget op_record1 ''state'' \<in> {JStr ''completed'', JStr ''failed''} \<longrightarrow> r' = op_record1)"
proof (rule operations_refine_contract [OF op_one_reached])
  show "(op_sys env0 UNIV)\<^sup>*\<^sup>* op_one (snd (op_claim ''t1'' ''op-1'' ''e1'' op_one))" by (intro r_into_rtranclp op_sys.claim) simp
qed (simp add: op_one_rec)

theorem operation_claimed_once_witness:
  "fst (op_claim ''t2'' ''op-1'' ''e1'' (snd (recover_prior_owner_claims ''t2'' ''e1'' (snd (op_claim ''t1'' ''op-1'' ''e1'' op_one))))) = Inr None"
proof -
  have "case op_claim ''t1'' ''op-1'' ''e1'' op_one of (Inr (Some u), s1) \<Rightarrow> True | _ \<Rightarrow> False" by code_simp
  then obtain u s1 where c: "op_claim ''t1'' ''op-1'' ''e1'' op_one = (Inr (Some u), s1)"
    by (auto split: prod.split_asm sum.split_asm option.split_asm)
  have "(op_sys env0 {''e1''})\<^sup>*\<^sup>* s1 (snd (recover_prior_owner_claims ''t2'' ''e1'' s1))"
    by (intro r_into_rtranclp op_sys.recover) simp
  from operation_claimed_once [OF op_one_reached c this, of "''e1''" "''t2''"] show ?thesis using c by simp
qed


theorem read_unknown_blocks_pump_witness:
  "op_rec (pump_runs [(\<lambda>_. Inr JNull, ''t1'', ''e1'', 10)] (snd (op_read ''op-2'' op_one))) ''op-1'' = Some op_record1 \<and>
    isl (fst (pump_run_once (\<lambda>_. Inr JNull) ''t2'' ''e2'' 10 (pump_runs [(\<lambda>_. Inr JNull, ''t1'', ''e1'', 10)] (snd (op_read ''op-2'' op_one)))))"
  by (rule read_unknown_blocks_pump [OF op_one_reached]) (simp_all add: op_one_rec, code_simp)

end
