(* ===== verification/Session_Bindings.thy ===== *)
theory Session_Bindings
  imports Record_Reads
begin

text \<open>
  Bindings of gateway sessions to provider sessions (\<open>gateway/session/bindings.py\<close>): the key derived
  from a provider reference, the binding object, its public projections, and the project-wide index
  that keeps two sessions from owning the same provider session.  The index file is a document; the
  durable state of an indexed session is an argument (\<open>lookup\<close>, \<open>None\<close> when the session cannot be
  read).  The index is written by this module only, so session identifiers and keys in it are text; the
  file path in the details of its errors is left out.
\<close>

section \<open>Keys\<close>

definition DEFAULT_REF_NAMESPACE :: string where
  "DEFAULT_REF_NAMESPACE = ''provider-session-ref''"

definition DEFAULT_IDENTITY_CONTEXT :: string where
  "DEFAULT_IDENTITY_CONTEXT = ''unknown''"

definition DEFAULT_EXECUTION_CONTEXT :: string where
  "DEFAULT_EXECUTION_CONTEXT = ''unknown''"

text \<open>Python's \<open>s or default\<close> on an optional text.\<close>

definition opt_or :: "string option \<Rightarrow> string \<Rightarrow> string" where
  "opt_or x d = (case x of None \<Rightarrow> d | Some s \<Rightarrow> if s = [] then d else s)"

definition ref_key_parts :: "string option \<Rightarrow> string option \<Rightarrow> string option \<Rightarrow> string option \<Rightarrow> string \<Rightarrow> string list" where
  "ref_key_parts provider_id surface_id ns identity ref =
     [opt_or provider_id ''unknown-provider'', opt_or surface_id ''unknown-surface'', opt_or ns DEFAULT_REF_NAMESPACE,
      opt_or identity DEFAULT_IDENTITY_CONTEXT, ref]"

text \<open>What the hash is fed with: every part behind its length.\<close>

primrec ref_key_text :: "string list \<Rightarrow> string" where
  "ref_key_text [] = []"
| "ref_key_text (p # ps) = show_nat (length p) @ '':'' @ p @ ref_key_text ps"

definition provider_ref_key :: "('a genv_scheme) \<Rightarrow> string option \<Rightarrow> string option \<Rightarrow> string option \<Rightarrow> string option \<Rightarrow> string \<Rightarrow> string" where
  "provider_ref_key E provider_id surface_id ns identity ref =
     sha256_hex E (ref_key_text (ref_key_parts provider_id surface_id ns identity ref))"

section \<open>Binding objects\<close>

record binding_args =
  ba_provider_id :: "string option"
  ba_ref :: "string option"
  ba_generation :: int
  ba_relation :: string
  ba_ownership :: string
  ba_surface_id :: "string option"
  ba_surface_version :: "string option"
  ba_namespace :: "string option"
  ba_predecessor :: "string option"
  ba_identity :: "string option"
  ba_execution :: "string option"
  ba_context :: "string option"
  ba_definition :: "string option"
  ba_definition_digest :: "string option"
  ba_roles :: "string list option"
  ba_role_digest :: "string option"
  ba_profile_digest :: "string option"
  ba_capability_digest :: "string option"

definition binding_defaults :: binding_args where
  "binding_defaults = \<lparr>ba_provider_id = None, ba_ref = None, ba_generation = 1, ba_relation = ''opened'', ba_ownership = ''owned'',
     ba_surface_id = None, ba_surface_version = None, ba_namespace = None, ba_predecessor = None, ba_identity = None,
     ba_execution = None, ba_context = None, ba_definition = None, ba_definition_digest = None, ba_roles = None,
     ba_role_digest = None, ba_profile_digest = None, ba_capability_digest = None\<rparr>"

text \<open>\<open>fresh\<close> is the random part of the identifier.\<close>

definition build_binding :: "('a genv_scheme) \<Rightarrow> string \<Rightarrow> string \<Rightarrow> binding_args \<Rightarrow> json res" where
  "build_binding E fresh now a = (case ba_ref a of
     None \<Rightarrow> Inr JNull
   | Some ref \<Rightarrow>
      if ba_surface_id a \<in> {None, Some []} then
        Inl (ag_error ''VAL-AGW-102'' ''provider session binding requires a resolved surface id'' [(''provider-id'', opt_str (ba_provider_id a))])
      else Inr (JObj
        [(''binding-id'', JStr (''sbind_'' @ fresh)), (''generation'', JInt (ba_generation a)), (''provider-id'', opt_str (ba_provider_id a)),
         (''surface-id'', opt_str (ba_surface_id a)), (''surface-version'', opt_str (ba_surface_version a)),
         (''ref-namespace'', JStr (opt_or (ba_namespace a) DEFAULT_REF_NAMESPACE)), (''provider-session-ref'', JStr ref),
         (''provider-ref-key'', JStr (provider_ref_key E (ba_provider_id a) (ba_surface_id a) (ba_namespace a) (ba_identity a) ref)),
         (''relation'', JStr (ba_relation a)), (''ownership'', JStr (ba_ownership a)),
         (''predecessor-binding-id'', opt_str (ba_predecessor a)),
         (''identity-context-fingerprint'', JStr (opt_or (ba_identity a) DEFAULT_IDENTITY_CONTEXT)),
         (''execution-context-fingerprint'', JStr (opt_or (ba_execution a) DEFAULT_EXECUTION_CONTEXT)),
         (''context-id'', opt_str (ba_context a)), (''agent-definition-id'', opt_str (ba_definition a)),
         (''agent-definition-digest'', opt_str (ba_definition_digest a)),
         (''role-ids'', case ba_roles a of None \<Rightarrow> JNull | Some rs \<Rightarrow> JList (map JStr rs)),
         (''role-set-digest'', opt_str (ba_role_digest a)), (''execution-profile-digest'', opt_str (ba_profile_digest a)),
         (''effective-capability-digest'', opt_str (ba_capability_digest a)), (''created-at'', JStr now)]))"

definition build_migrated_v1_binding :: "json \<Rightarrow> json \<Rightarrow> json \<Rightarrow> json res" where
  "build_migrated_v1_binding session_id provider_id ref =
     (if ref = JNull then Inr JNull
      else Inl (ag_error ''VAL-AGW-103'' ''legacy session binding has no resolved surface id; migration refused''
        [(''session-id'', session_id), (''provider-id'', provider_id)]))"

text \<open>The entry points differ in the relation, the owner and the code of the empty reference.\<close>

definition require_binding :: "string \<Rightarrow> string \<Rightarrow> json \<Rightarrow> json res" where
  "require_binding code msg b = (if b = JNull then Inl (ag_error code msg []) else Inr b)"

definition create_open_binding :: "('a genv_scheme) \<Rightarrow> string \<Rightarrow> string \<Rightarrow> string option \<Rightarrow> string option \<Rightarrow> string \<Rightarrow>
    string option \<Rightarrow> string option \<Rightarrow> string option \<Rightarrow> json res" where
  "create_open_binding E fresh now pid surface ref ns identity execution =
     rbind (build_binding E fresh now (binding_defaults\<lparr>ba_provider_id := pid, ba_ref := Some ref, ba_relation := ''opened'',
        ba_surface_id := surface, ba_namespace := ns, ba_identity := identity, ba_execution := execution\<rparr>))
       (require_binding ''VAL-AGW-098'' ''provider ref is empty; cannot create open binding'')"

definition attach_binding :: "('a genv_scheme) \<Rightarrow> string \<Rightarrow> string \<Rightarrow> string option \<Rightarrow> string option \<Rightarrow> string \<Rightarrow> int \<Rightarrow> string \<Rightarrow>
    string option \<Rightarrow> string option \<Rightarrow> string option \<Rightarrow> string option \<Rightarrow> json res" where
  "attach_binding E fresh now pid surface ref gen ownership pred ns identity execution =
     (if ref = [] then Inl (ag_error ''VAL-AGW-099'' ''provider ref is empty; cannot attach to existing session'' [])
      else rbind (build_binding E fresh now (binding_defaults\<lparr>ba_provider_id := pid, ba_ref := Some ref, ba_generation := gen,
        ba_relation := ''attached'', ba_ownership := ownership, ba_surface_id := surface, ba_namespace := ns, ba_predecessor := pred,
        ba_identity := identity, ba_execution := execution\<rparr>))
       (require_binding ''VAL-AGW-099'' ''provider ref is empty; cannot create attach binding''))"

definition successor_binding :: "string \<Rightarrow> string \<Rightarrow> string \<Rightarrow> ('a genv_scheme) \<Rightarrow> string \<Rightarrow> string \<Rightarrow> string option \<Rightarrow> string option \<Rightarrow> string \<Rightarrow>
    string \<Rightarrow> string option \<Rightarrow> string option \<Rightarrow> string option \<Rightarrow> json res" where
  "successor_binding relation code msg E fresh now pid surface ref pred ns identity execution =
     (if ref = [] then Inl (ag_error code msg [])
      else rbind (build_binding E fresh now (binding_defaults\<lparr>ba_provider_id := pid, ba_ref := Some ref, ba_relation := relation,
        ba_ownership := ''owned'', ba_surface_id := surface, ba_namespace := ns, ba_predecessor := Some pred,
        ba_identity := identity, ba_execution := execution\<rparr>)) (require_binding code msg))"

definition resume_binding where
  "resume_binding = successor_binding ''resumed-from'' ''VAL-AGW-100'' ''provider ref is empty; cannot create resume binding''"

definition replace_binding where
  "replace_binding = successor_binding ''replaced'' ''VAL-AGW-101'' ''provider ref is empty; cannot create replacement binding''"

section \<open>Public projections\<close>

definition PUBLIC_BINDING_FIELDS :: "string list" where
  "PUBLIC_BINDING_FIELDS = [''binding-id'', ''generation'', ''provider-id'', ''surface-id'', ''surface-version'', ''relation'', ''ownership'',
     ''predecessor-binding-id'', ''context-id'', ''agent-definition-id'', ''agent-definition-digest'', ''role-ids'', ''role-set-digest'',
     ''execution-profile-digest'', ''effective-capability-digest'']"

definition key_prefix :: "json \<Rightarrow> json" where
  "key_prefix k = (case k of JStr s \<Rightarrow> if s = [] then JNull else JStr (take 12 s) | _ \<Rightarrow> JNull)"

definition public_binding_projection :: "json \<Rightarrow> json" where
  "public_binding_projection b = (if \<not> truthy b then JNull
     else JObj (map (\<lambda>k. (k, dget (obj_of b) k)) PUBLIC_BINDING_FIELDS @
       [(''provider-ref-key-prefix'', key_prefix (dget (obj_of b) ''provider-ref-key''))]))"

definition project_public_session :: "dict \<Rightarrow> dict" where
  "project_public_session r = dpop ''provider-session-ref'' (dset ''binding'' (public_binding_projection (dget r ''binding'')) r)"

definition CAPABILITIES_FORBIDDEN_KEYS :: "string list" where
  "CAPABILITIES_FORBIDDEN_KEYS = [''provider-session-ref'', ''raw-payload'', ''prompt'', ''output'', ''tool-args'', ''tool_args'',
     ''tool-calls'', ''tool_calls'', ''tool-arguments'', ''provider-surface'', ''surface-ref'', ''native-ref'']"

definition CAPABILITIES_SAFE_KEYS :: "string list" where
  "CAPABILITIES_SAFE_KEYS = [''surface-id'', ''surface-version'', ''declared-controls'', ''observation-mechanism'', ''observation-source'',
     ''supported-statuses'', ''evidence-tier'']"

text \<open>Redaction to scalars; \<open>JNull\<close> is \<open>None\<close>, a value that is dropped.\<close>

fun redact_capability :: "json \<Rightarrow> json"
  and redact_capability_items :: "json list \<Rightarrow> json list"
  and redact_capability_pairs :: "dict \<Rightarrow> dict" where
  "redact_capability (JList xs) = (let ys = redact_capability_items xs in if ys = [] then JNull else JList ys)"
| "redact_capability (JObj d) = (let e = redact_capability_pairs d in if e = [] then JNull else JObj e)"
| "redact_capability v = v"
| "redact_capability_items [] = []"
| "redact_capability_items (x # xs) =
     (let y = redact_capability x in if y = JNull then redact_capability_items xs else y # redact_capability_items xs)"
| "redact_capability_pairs [] = []"
| "redact_capability_pairs ((k, v) # d) =
     (let w = (if k \<in> set CAPABILITIES_FORBIDDEN_KEYS then JNull else redact_capability v)
      in if w = JNull then redact_capability_pairs d else (k, w) # redact_capability_pairs d)"

definition project_session_capabilities :: "dict \<Rightarrow> json" where
  "project_session_capabilities r =
     (case por (dget r ''capability-snapshot'') (por (dget r ''resolved-capabilities'') (dget r ''session-capabilities'')) of
        JObj raw \<Rightarrow>
          (let p = List.map_filter (\<lambda>k. let v = dget raw k; w = redact_capability v in
                 if v = JNull \<or> k \<in> set CAPABILITIES_FORBIDDEN_KEYS \<or> w = JNull then None else Some (k, w)) CAPABILITIES_SAFE_KEYS
           in if p = [] then JNull else JObj p)
      | _ \<Rightarrow> JNull)"

section \<open>The index\<close>

definition read_index :: "doc option \<Rightarrow> dict res" where
  "read_index f = (case f of
     None \<Rightarrow> Inr [(''contract-version'', JStr ''v1''), (''bindings'', JObj [])]
   | Some Garbage \<Rightarrow> Inl (ag_error ''IO-AGW-096'' ''gateway session binding index is unreadable'' [])
   | Some (Doc (JObj p)) \<Rightarrow>
       if is_dict (dget p ''bindings'') then Inr p
       else Inl (ag_error ''VAL-AGW-096'' ''gateway session binding index failed validation'' [])
   | Some (Doc _) \<Rightarrow> Inl (ag_error ''VAL-AGW-096'' ''gateway session binding index failed validation'' []))"

definition index_entries :: "dict \<Rightarrow> string \<Rightarrow> json list res" where
  "index_entries payload k = py_list (por (dget (obj_of (dget payload ''bindings'')) k) (JList []))"

definition put_entries :: "string \<Rightarrow> json list \<Rightarrow> dict \<Rightarrow> doc option" where
  "put_entries k es payload =
     Some (Doc (JObj (dset ''bindings'' (JObj (dset k (JList es) (obj_of (dget payload ''bindings'')))) payload)))"

definition entry_session :: "dict \<Rightarrow> string" where
  "entry_session e = (case dget e ''session-id'' of JStr s \<Rightarrow> s | _ \<Rightarrow> [])"

definition owned_active :: "dict \<Rightarrow> bool" where
  "owned_active e \<longleftrightarrow> dget e ''ownership'' = JStr ''owned'' \<and> dget e ''state'' = JStr ''active''"

text \<open>The loop over the entries of a key: foreign owned entries that are stale are corrected, a live
  one is a conflict.\<close>

fun reconcile_entries :: "(string \<Rightarrow> json option) \<Rightarrow> string \<Rightarrow> string \<Rightarrow> json \<Rightarrow> json \<Rightarrow> json list \<Rightarrow> json list res" where
  "reconcile_entries lookup now pfx sid incoming [] = Inr []"
| "reconcile_entries lookup now pfx sid incoming (JObj e # es) =
     (let rest = (\<lambda>e'. rbind (reconcile_entries lookup now pfx sid incoming es) (\<lambda>es'. Inr (JObj e' # es'))) in
      if jeq (dget e ''session-id'') sid then rest e
      else if owned_active e \<and> incoming = JStr ''owned'' then
        (case lookup (entry_session e) of
           Some st \<Rightarrow> if st \<noteq> JStr ''active'' then rest (dupd e [(''state'', st), (''retired-at'', JStr now)])
              else Inl (ag_error ''CON-AGW-096'' ''duplicate owned provider session binding'' [(''provider-ref-key-prefix'', JStr pfx)])
         | None \<Rightarrow> Inl (ag_error ''CON-AGW-096'' ''duplicate owned provider session binding'' [(''provider-ref-key-prefix'', JStr pfx)]))
      else rest e)"
| "reconcile_entries lookup now pfx sid incoming (v # es) = Inl AttributeError"

definition entry_for :: "dict \<Rightarrow> dict \<Rightarrow> json \<Rightarrow> dict" where
  "entry_for binding r sid = [(''binding-id'', dget binding ''binding-id''), (''session-id'', sid), (''ownership'', dget binding ''ownership''),
     (''relation'', dget binding ''relation''), (''state'', dget r ''state''), (''created-at'', dget binding ''created-at'')]"

definition register_open_binding :: "(string \<Rightarrow> json option) \<Rightarrow> string \<Rightarrow> dict \<Rightarrow> doc option \<Rightarrow> unit res \<times> doc option" where
  "register_open_binding lookup now r idx = (case dget r ''binding'' of
     JObj binding \<Rightarrow>
      (case dget binding ''provider-ref-key'' of
         JStr k \<Rightarrow>
          if k = [] \<or> \<not> truthy (dget binding ''binding-id'') then (Inr (), idx)
          else (case rbind (read_index idx) (\<lambda>payload.
                  rbind (index_entries payload k) (\<lambda>es.
                  rbind (ditem r ''session-id'') (\<lambda>sid.
                  rbind (reconcile_entries lookup now (take 12 k) sid (dget_or binding ''ownership'' (JStr ''owned'')) es) (\<lambda>es'.
                    Inr (put_entries k
                      (if list_ex (\<lambda>e. jeq (dget (obj_of e) ''session-id'') sid) es' then es' else es' @ [JObj (entry_for binding r sid)]) payload))))) of
             Inl e \<Rightarrow> (Inl e, idx)
           | Inr idx' \<Rightarrow> (Inr (), idx'))
       | _ \<Rightarrow> (Inr (), idx))
   | _ \<Rightarrow> (Inr (), idx))"

fun retire_entries :: "json \<Rightarrow> string \<Rightarrow> string \<Rightarrow> json list \<Rightarrow> json list res" where
  "retire_entries bid st now [] = Inr []"
| "retire_entries bid st now (JObj e # es) = rbind (retire_entries bid st now es) (\<lambda>es'.
     Inr (JObj (if jeq (dget e ''binding-id'') bid then dupd e [(''state'', JStr st), (''retired-at'', JStr now)] else e) # es'))"
| "retire_entries bid st now (v # es) = Inl AttributeError"

definition retire_binding :: "string \<Rightarrow> string \<Rightarrow> dict \<Rightarrow> doc option \<Rightarrow> unit res \<times> doc option" where
  "retire_binding st now r idx = (case dget r ''binding'' of
     JObj binding \<Rightarrow>
      (case dget binding ''provider-ref-key'' of
         JStr k \<Rightarrow>
          if k = [] \<or> \<not> truthy (dget binding ''binding-id'') then (Inr (), idx)
          else (case rbind (read_index idx) (\<lambda>payload.
                  rbind (index_entries payload k) (\<lambda>es.
                  rbind (retire_entries (dget binding ''binding-id'') st now es) (\<lambda>es'.
                    Inr (if list_ex (\<lambda>e. jeq (dget (obj_of e) ''binding-id'') (dget binding ''binding-id'')) es then put_entries k es' payload else idx)))) of
             Inl e \<Rightarrow> (Inl e, idx)
           | Inr idx' \<Rightarrow> (Inr (), idx'))
       | _ \<Rightarrow> (Inr (), idx))
   | _ \<Rightarrow> (Inr (), idx))"

fun other_sessions :: "json \<Rightarrow> json list \<Rightarrow> json list res" where
  "other_sessions sid [] = Inr []"
| "other_sessions sid (JObj e # es) = rbind (other_sessions sid es) (\<lambda>es'.
     Inr (if \<not> jeq (dget e ''session-id'') sid then JObj e # es' else es'))"
| "other_sessions sid (v # es) = Inl AttributeError"

definition purge_binding :: "dict \<Rightarrow> doc option \<Rightarrow> unit res \<times> doc option" where
  "purge_binding r idx = (case dget r ''binding'' of
     JObj binding \<Rightarrow>
      (case dget binding ''provider-ref-key'' of
         JStr k \<Rightarrow>
          if k = [] then (Inr (), idx)
          else (case rbind (read_index idx) (\<lambda>payload.
                  rbind (py_list (dget_or (obj_of (dget payload ''bindings'')) k (JList []))) (\<lambda>es.
                  rbind (other_sessions (dget r ''session-id'') es) (\<lambda>es'.
                    Inr (if es' \<noteq> [] then put_entries k es' payload
                         else Some (Doc (JObj (dset ''bindings'' (JObj (dpop k (obj_of (dget payload ''bindings'')))) payload))))))) of
             Inl e \<Rightarrow> (Inl e, idx)
           | Inr idx' \<Rightarrow> (Inr (), idx'))
       | _ \<Rightarrow> (Inr (), idx))
   | _ \<Rightarrow> (Inr (), idx))"

text \<open>The rebuild scans the session files; a file that does not parse is skipped.\<close>

fun rebuild_loop :: "(string \<times> doc) list \<Rightarrow> dict \<Rightarrow> dict res" where
  "rebuild_loop [] b = Inr b"
| "rebuild_loop ((i, Garbage) # fs) b = rebuild_loop fs b"
| "rebuild_loop ((i, Doc (JObj r)) # fs) b =
     (case (dget r ''binding'', dget (obj_of (dget r ''binding'')) ''provider-ref-key'') of
        (JObj binding, JStr k) \<Rightarrow>
          if k = [] \<or> dget r ''state'' \<in> {JStr ''closed'', JStr ''expired'', JStr ''failed''} then rebuild_loop fs b
          else rebuild_loop fs (dset k (JList (list_of (dget b k) @ [JObj (entry_for binding r (dget r ''session-id''))])) b)
      | _ \<Rightarrow> rebuild_loop fs b)"
| "rebuild_loop ((i, Doc v) # fs) b = Inl AttributeError"

definition rebuild_index :: "(string \<times> doc) list \<Rightarrow> doc option \<Rightarrow> dict res \<times> doc option" where
  "rebuild_index sessions idx = (case rebuild_loop (sort_key fst sessions) [] of
     Inl e \<Rightarrow> (Inl e, idx)
   | Inr b \<Rightarrow> (let payload = [(''contract-version'', JStr ''v1''), (''bindings'', JObj b)] in (Inr payload, Some (Doc (JObj payload)))))"

section \<open>Keys are injective\<close>

lemma of_digit_char: "n < 10 \<Longrightarrow> (of_char (digit_char n) :: nat) = 48 + n"
  by (simp add: digit_char_def)

lemma digits_val_snoc: "digits_val (s @ [c]) = 10 * digits_val s + (int (of_char c) - 48)"
  by (simp add: digits_val_def)

lemma show_nat_value: "digits_val (show_nat n) = int n"
proof (induction n rule: show_nat.induct)
  case (1 n)
  have d: "int (of_char (digit_char (n mod 10))) = 48 + int (n mod 10)" using of_digit_char [of "n mod 10"] by simp
  show ?case
  proof (cases "n < 10")
    case True
    then show ?thesis using of_digit_char [OF True] by (simp add: show_nat.simps [of n] digits_val_def)
  next
    case False
    have "int (of_char (digit_char (n mod 10)) :: nat) = 48 + int (n mod 10)" using of_digit_char [of "n mod 10"] by simp
    then have "digits_val (show_nat n) = 10 * int (n div 10) + int (n mod 10)"
      using 1 [OF False] False by (simp add: show_nat.simps [of n] digits_val_snoc)
    then show ?thesis by presburger
  qed
qed

lemma show_nat_inj: "show_nat m = show_nat n \<Longrightarrow> m = n"
  by (metis show_nat_value of_nat_eq_iff)

lemma show_nat_digits: "c \<in> set (show_nat n) \<Longrightarrow> is_digit c"
proof (induction n rule: show_nat.induct)
  case (1 n)
  have d: "is_digit (digit_char k)" if "k < 10" for k using of_digit_char [OF that] that by (simp add: is_digit_def)
  show ?case
  proof (cases "n < 10")
    case True
    then show ?thesis using 1(2) d by (simp add: show_nat.simps [of n])
  next
    case False
    then show ?thesis using 1(1) [OF False] 1(2) d [of "n mod 10"] by (auto simp: show_nat.simps [of n])
  qed
qed

lemma colon_not_digit: "CHR '':'' \<notin> set (show_nat n)"
  using show_nat_digits [of "CHR '':''" n] by (auto simp: is_digit_def)

lemma split_at_mark: "c \<notin> set a \<Longrightarrow> c \<notin> set b \<Longrightarrow> a @ c # x = b @ c # y \<longleftrightarrow> a = b \<and> x = y"
proof (induction a arbitrary: b)
  case Nil
  then show ?case by (cases b) auto
next
  case (Cons d a)
  then show ?case by (cases b) auto
qed

lemma ref_key_text_inj: "length ps = length qs \<Longrightarrow> ref_key_text ps = ref_key_text qs \<Longrightarrow> ps = qs"
proof (induction ps arbitrary: qs)
  case (Cons p ps)
  then obtain q qs' where q: "qs = q # qs'" by (cases qs) auto
  have "show_nat (length p) @ CHR '':'' # p @ ref_key_text ps = show_nat (length q) @ CHR '':'' # q @ ref_key_text qs'"
    using Cons.prems(2) by (simp add: q)
  then have n: "show_nat (length p) = show_nat (length q)" and t: "p @ ref_key_text ps = q @ ref_key_text qs'"
    by (simp_all add: split_at_mark colon_not_digit)
  have "length p = length q" by (rule show_nat_inj [OF n])
  with t have "p = q" "ref_key_text ps = ref_key_text qs'" by simp_all
  then show ?case using Cons.IH [of qs'] Cons.prems(1) by (simp add: q)
qed simp

text \<open>A provider reference key identifies what it was made of.  As long as the hash does not collide on
  the two inputs, two bindings with the same key agree in provider, surface, namespace, identity
  context and provider reference (after the defaults for absent parts), whatever bytes they contain.\<close>

theorem provider_ref_key_identifies:
  assumes "provider_ref_key E p s n i r = provider_ref_key E p' s' n' i' r'"
    "sha256_hex E (ref_key_text (ref_key_parts p s n i r)) = sha256_hex E (ref_key_text (ref_key_parts p' s' n' i' r')) \<Longrightarrow>
      ref_key_text (ref_key_parts p s n i r) = ref_key_text (ref_key_parts p' s' n' i' r')"
  shows "opt_or p ''unknown-provider'' = opt_or p' ''unknown-provider'' \<and> opt_or s ''unknown-surface'' = opt_or s' ''unknown-surface'' \<and>
    opt_or n DEFAULT_REF_NAMESPACE = opt_or n' DEFAULT_REF_NAMESPACE \<and>
    opt_or i DEFAULT_IDENTITY_CONTEXT = opt_or i' DEFAULT_IDENTITY_CONTEXT \<and> r = r'"
proof -
  have "ref_key_text (ref_key_parts p s n i r) = ref_key_text (ref_key_parts p' s' n' i' r')"
    using assms by (simp add: provider_ref_key_def)
  then have "ref_key_parts p s n i r = ref_key_parts p' s' n' i' r'" by (rule ref_key_text_inj [rotated]) (simp add: ref_key_parts_def)
  then show ?thesis by (simp add: ref_key_parts_def)
qed

section \<open>Owned bindings are exclusive\<close>

definition indexed :: "doc option \<Rightarrow> string \<Rightarrow> json list" where
  "indexed idx k = (case rbind (read_index idx) (\<lambda>p. index_entries p k) of Inl e \<Rightarrow> [] | Inr es \<Rightarrow> es)"

definition owned_unique :: "json list \<Rightarrow> bool" where
  "owned_unique es \<longleftrightarrow> (\<forall>a \<in> set es. \<forall>b \<in> set es. owned_active (obj_of a) \<longrightarrow> owned_active (obj_of b) \<longrightarrow>
     dget (obj_of a) ''session-id'' = dget (obj_of b) ''session-id'')"

lemma owned_unique_Nil [simp]: "owned_unique []"
  by (simp add: owned_unique_def)

lemma read_index_obj: "is_dict (dget p ''bindings'') \<Longrightarrow> read_index (Some (Doc (JObj p))) = Inr p"
  by (simp add: read_index_def)

lemma read_index_put [simp]:
  "read_index (put_entries k es p) = Inr (dset ''bindings'' (JObj (dset k (JList es) (obj_of (dget p ''bindings'')))) p)"
  by (simp add: read_index_def put_entries_def)

lemma indexed_put: "read_index idx = Inr p \<Longrightarrow> indexed (put_entries k es p) k' = (if k' = k then es else indexed idx k')"
  by (simp add: indexed_def index_entries_def por_def)

lemma reconcile_owned:
  "reconcile_entries lookup now pfx (JStr s) (JStr ''owned'') es = Inr es' \<Longrightarrow> e \<in> set es' \<Longrightarrow> owned_active (obj_of e) \<Longrightarrow>
    dget (obj_of e) ''session-id'' = JStr s"
proof (induction es arbitrary: es')
  case (Cons v es)
  show ?case
  proof (cases v)
    case (JObj d)
    with Cons.prems(1) have "\<exists>d' es1. es' = JObj d' # es1 \<and> reconcile_entries lookup now pfx (JStr s) (JStr ''owned'') es = Inr es1 \<and>
      (owned_active d' \<longrightarrow> dget d' ''session-id'' = JStr s)"
      by (auto simp: Let_def rbind_eq_Inr owned_active_def split: if_split_asm option.split_asm)
    then obtain d' es1 where d': "es' = JObj d' # es1" "reconcile_entries lookup now pfx (JStr s) (JStr ''owned'') es = Inr es1"
      "owned_active d' \<longrightarrow> dget d' ''session-id'' = JStr s" by blast
    then show ?thesis using Cons.IH [OF d'(2)] Cons.prems(2,3) by auto
  qed (use Cons.prems(1) in simp_all)
qed simp

lemma reconcile_other: "incoming \<noteq> JStr ''owned'' \<Longrightarrow> reconcile_entries lookup now pfx sid incoming es = Inr es' \<Longrightarrow> es' = es"
  by (induction lookup now pfx sid incoming es arbitrary: es' rule: reconcile_entries.induct)
    (auto simp: Let_def rbind_eq_Inr split: if_split_asm)

lemma register_open_binding_cases:
  assumes "register_open_binding lookup now r idx = (x, idx')"
  obtains (same) "idx' = idx"
  | (put) binding k payload es es' where "dget r ''binding'' = JObj binding" "dget binding ''provider-ref-key'' = JStr k"
      "read_index idx = Inr payload" "index_entries payload k = Inr es"
      "reconcile_entries lookup now (take 12 k) (dget r ''session-id'') (dget_or binding ''ownership'' (JStr ''owned'')) es = Inr es'"
      "idx' = put_entries k (if list_ex (\<lambda>e. jeq (dget (obj_of e) ''session-id'') (dget r ''session-id'')) es' then es'
         else es' @ [JObj (entry_for binding r (dget r ''session-id''))]) payload" "x = Inr ()"
proof (cases "dget r ''binding''")
  case (JObj binding)
  show thesis
  proof (cases "dget binding ''provider-ref-key''")
    case (JStr k)
    let ?f = "rbind (read_index idx) (\<lambda>payload. rbind (index_entries payload k) (\<lambda>es. rbind (ditem r ''session-id'') (\<lambda>sid.
       rbind (reconcile_entries lookup now (take 12 k) sid (dget_or binding ''ownership'' (JStr ''owned'')) es) (\<lambda>es'.
         Inr (put_entries k (if list_ex (\<lambda>e. jeq (dget (obj_of e) ''session-id'') sid) es' then es'
           else es' @ [JObj (entry_for binding r sid)]) payload)))))"
    show thesis
    proof (cases "k = [] \<or> \<not> truthy (dget binding ''binding-id'')")
      case True
      then show thesis using assms JObj JStr by (intro same) (auto simp: register_open_binding_def)
    next
      case False
      then have eq: "register_open_binding lookup now r idx = (case ?f of Inl e \<Rightarrow> (Inl e, idx) | Inr i \<Rightarrow> (Inr (), i))"
        using JObj JStr by (simp add: register_open_binding_def)
      show thesis
      proof (cases ?f)
        case (Inl e)
        then show thesis using assms eq by (intro same) simp
      next
        case (Inr i)
        then obtain payload es sid es' where a: "read_index idx = Inr payload" "index_entries payload k = Inr es" "ditem r ''session-id'' = Inr sid"
          "reconcile_entries lookup now (take 12 k) sid (dget_or binding ''ownership'' (JStr ''owned'')) es = Inr es'"
          "i = put_entries k (if list_ex (\<lambda>e. jeq (dget (obj_of e) ''session-id'') sid) es' then es'
            else es' @ [JObj (entry_for binding r sid)]) payload"
          unfolding rbind_eq_Inr by blast
        have sid: "sid = dget r ''session-id''" using a(3) ditem_Inr_dget by metis
        have "x = Inr ()" "idx' = i" using assms eq Inr by simp_all
        then show thesis using a(5) [unfolded sid] by (intro put [OF JObj JStr a(1,2) a(4) [unfolded sid]]) simp_all
      qed
    qed
  qed (use assms JObj in \<open>auto simp: register_open_binding_def intro: same\<close>)
qed (use assms in \<open>auto simp: register_open_binding_def intro: same\<close>)

lemma register_keeps_unique:
  assumes "register_open_binding lookup now r idx = (x, idx')" "dget r ''session-id'' = JStr s" "\<forall>k. owned_unique (indexed idx k)"
  shows "owned_unique (indexed idx' k)"
  using assms(1)
proof (cases rule: register_open_binding_cases)
  case same
  then show ?thesis using assms(3) by simp
next
  case (put binding k0 payload es es')
  let ?own = "dget_or binding ''ownership'' (JStr ''owned'')"
  have old: "indexed idx k0 = es" using put(3,4) by (simp add: indexed_def)
  define new where "new = (if list_ex (\<lambda>e. jeq (dget (obj_of e) ''session-id'') (dget r ''session-id'')) es' then es'
    else es' @ [JObj (entry_for binding r (dget r ''session-id''))])"
  have "owned_unique new"
  proof (cases "?own = JStr ''owned''")
    case True
    have "dget (obj_of e) ''session-id'' = JStr s" if "e \<in> set new" "owned_active (obj_of e)" for e
      using that reconcile_owned [of lookup now "take 12 k0" s es es' e] put(5) True assms(2)
      by (auto simp: new_def entry_for_def dget_Cons split: if_split_asm)
    then show ?thesis by (metis owned_unique_def)
  next
    case False
    then have same: "es' = es" using reconcile_other put(5) by blast
    have no: "\<not> owned_active (entry_for binding r v)" for v
      using False by (auto simp: owned_active_def entry_for_def dget_Cons dget_or_def dget_def split: option.split_asm)
    have "e \<in> set es" if "e \<in> set new" "owned_active (obj_of e)" for e
      using that no by (auto simp: new_def same split: if_split_asm)
    moreover have "owned_unique es" using assms(3) old by metis
    ultimately show ?thesis unfolding owned_unique_def by meson
  qed
  then show ?thesis using put(6) assms(3) by (simp add: indexed_put [OF put(3)] new_def)
qed

lemma owned_unique_subset:
  "owned_unique es \<Longrightarrow> (\<And>e. e \<in> set es' \<Longrightarrow> owned_active (obj_of e) \<Longrightarrow> e \<in> set es) \<Longrightarrow> owned_unique es'"
  unfolding owned_unique_def by meson

lemma retire_entries_owned:
  "retire_entries bid st now es = Inr es' \<Longrightarrow> st \<noteq> ''active'' \<Longrightarrow> e \<in> set es' \<Longrightarrow> owned_active (obj_of e) \<Longrightarrow> e \<in> set es"
proof (induction es arbitrary: es')
  case (Cons v es)
  show ?case
  proof (cases v)
    case (JObj d)
    with Cons.prems(1) obtain es1 where es1: "retire_entries bid st now es = Inr es1"
      "es' = JObj (if jeq (dget d ''binding-id'') bid then dupd d [(''state'', JStr st), (''retired-at'', JStr now)] else d) # es1"
      by (auto simp: rbind_eq_Inr)
    then show ?thesis using Cons.IH [OF es1(1) Cons.prems(2)] Cons.prems(2-4) JObj
      by (auto simp: owned_active_def split: if_split_asm)
  qed (use Cons.prems(1) in simp_all)
qed simp

lemma other_sessions_subset: "other_sessions sid es = Inr es' \<Longrightarrow> set es' \<subseteq> set es"
proof (induction es arbitrary: es')
  case (Cons v es)
  then show ?case by (cases v) (auto simp: rbind_eq_Inr split: if_split_asm)
qed simp

lemma retire_keeps_unique:
  assumes "retire_binding st now r idx = (x, idx')" "st \<noteq> ''active''" "\<forall>k. owned_unique (indexed idx k)"
  shows "owned_unique (indexed idx' k)"
proof -
  have "idx' = idx \<or> (\<exists>k0 payload bid es es'. read_index idx = Inr payload \<and> index_entries payload k0 = Inr es \<and>
      retire_entries bid st now es = Inr es' \<and> idx' = put_entries k0 es' payload)"
    using assms(1) unfolding retire_binding_def by (auto simp: rbind_eq_Inr rbind_eq_Inl split: json.split_asm sum.split_asm if_split_asm)
  then show ?thesis
  proof (elim disjE exE conjE)
    fix k0 payload bid es es'
    assume a: "read_index idx = Inr payload" "index_entries payload k0 = Inr es" "retire_entries bid st now es = Inr es'"
      "idx' = put_entries k0 es' payload"
    have "owned_unique es" using assms(3) a(1,2) by (metis indexed_def rbind_Inr sum.case(2))
    then have "owned_unique es'" by (rule owned_unique_subset) (rule retire_entries_owned [OF a(3) assms(2)])
    then show ?thesis using assms(3) by (simp add: a(4) indexed_put [OF a(1)])
  qed (use assms(3) in simp)
qed

lemma py_list_falsy: "py_list v = Inr es \<Longrightarrow> \<not> truthy v \<Longrightarrow> es = []"
  by (cases v) auto

lemma purge_keeps_unique:
  assumes "purge_binding r idx = (x, idx')" "\<forall>k. owned_unique (indexed idx k)"
  shows "owned_unique (indexed idx' k)"
proof -
  have "idx' = idx \<or> (\<exists>k0 payload es es'. read_index idx = Inr payload \<and> py_list (dget_or (obj_of (dget payload ''bindings'')) k0 (JList [])) = Inr es \<and>
      other_sessions (dget r ''session-id'') es = Inr es' \<and> (idx' = put_entries k0 es' payload \<or>
        idx' = Some (Doc (JObj (dset ''bindings'' (JObj (dpop k0 (obj_of (dget payload ''bindings'')))) payload)))))"
    using assms(1) unfolding purge_binding_def by (auto simp: rbind_eq_Inr rbind_eq_Inl split: json.split_asm sum.split_asm if_split_asm)
  then show ?thesis
  proof (elim disjE exE conjE)
    fix k0 payload es es'
    assume a: "read_index idx = Inr payload" "py_list (dget_or (obj_of (dget payload ''bindings'')) k0 (JList [])) = Inr es"
      "other_sessions (dget r ''session-id'') es = Inr es'" "idx' = put_entries k0 es' payload"
    have "indexed idx k0 = es" using a(1,2)
      by (cases "map_of (obj_of (dget payload ''bindings'')) k0") (auto simp: indexed_def index_entries_def dget_or_def dget_def por_def dest: py_list_falsy)
    then have "owned_unique es" using assms(2) by metis
    then have "owned_unique es'" by (rule owned_unique_subset) (use other_sessions_subset [OF a(3)] in blast)
    then show ?thesis using assms(2) by (simp add: a(4) indexed_put [OF a(1)])
  next
    fix k0 payload es es'
    assume a: "read_index idx = Inr payload" "idx' = Some (Doc (JObj (dset ''bindings'' (JObj (dpop k0 (obj_of (dget payload ''bindings'')))) payload)))"
    have "indexed idx' k = (if k = k0 then [] else indexed idx k)"
      unfolding indexed_def a(2) by (simp add: read_index_obj a(1) index_entries_def por_def)
    then show ?thesis using assms(2) by simp
  qed (use assms(2) in simp)
qed

lemma reconcile_conflict:
  "JObj e \<in> set es \<Longrightarrow> owned_active e \<Longrightarrow> dget e ''session-id'' \<noteq> JStr s \<Longrightarrow> lookup (entry_session e) = Some (JStr ''active'') \<Longrightarrow>
    isl (reconcile_entries lookup now pfx (JStr s) (JStr ''owned'') es)"
proof (induction es)
  case (Cons v es)
  then have tl: "isl (reconcile_entries lookup now pfx (JStr s) (JStr ''owned'') es)" if "v \<noteq> JObj e" using that by auto
  show ?case
  proof (cases v)
    case (JObj d)
    show ?thesis
    proof (cases "d = e")
      case True
      then show ?thesis using Cons.prems JObj by (simp add: Let_def)
    next
      case False
      then have "isl (reconcile_entries lookup now pfx (JStr s) (JStr ''owned'') es)" using tl JObj by simp
      then show ?thesis using JObj by (auto simp: Let_def isl_def rbind_def split: option.split)
    qed
  qed simp_all
qed simp

lemma register_conflict:
  assumes "dget r ''binding'' = JObj binding" "dget binding ''provider-ref-key'' = JStr k" "k \<noteq> []" "truthy (dget binding ''binding-id'')"
      "dget binding ''ownership'' = JStr ''owned''" "dget r ''session-id'' = JStr s" "JObj e \<in> set (indexed idx k)" "owned_active e"
      "dget e ''session-id'' \<noteq> JStr s" "lookup (entry_session e) = Some (JStr ''active'')"
  shows "isl (fst (register_open_binding lookup now r idx)) \<and> snd (register_open_binding lookup now r idx) = idx"
proof -
  obtain payload es where p: "read_index idx = Inr payload" "index_entries payload k = Inr es" "indexed idx k = es"
    using assms(7) by (cases "read_index idx"; cases "index_entries (projr (read_index idx)) k") (auto simp: indexed_def)
  have c: "isl (reconcile_entries lookup now (take 12 k) (JStr s) (JStr ''owned'') es)"
    by (rule reconcile_conflict [where lookup = lookup, OF _ assms(8-10)]) (use assms(7) p(3) in simp)
  have o: "dget_or binding ''ownership'' (JStr ''owned'') = JStr ''owned''"
    using assms(5) by (auto simp: dget_or_def dget_def split: option.split_asm)
  show ?thesis using c assms(1-4,6) p(1,2) o ditem_of_str [OF assms(6)]
    by (auto simp: register_open_binding_def isl_def)
qed

text \<open>The writers of the index, in any order; sessions retire into a state other than active.\<close>

inductive bind_step :: "doc option \<Rightarrow> doc option \<Rightarrow> bool" where
  register: "dget r ''session-id'' = JStr s \<Longrightarrow> bind_step idx (snd (register_open_binding lookup now r idx))"
| retire: "st \<noteq> ''active'' \<Longrightarrow> bind_step idx (snd (retire_binding st now r idx))"
| purge: "bind_step idx (snd (purge_binding r idx))"

lemma bind_step_unique: "bind_step idx idx' \<Longrightarrow> \<forall>k. owned_unique (indexed idx k) \<Longrightarrow> \<forall>k. owned_unique (indexed idx' k)"
proof (induction rule: bind_step.induct)
  case (register r s idx lookup now)
  then show ?case using register_keeps_unique [OF prod.collapse [symmetric]] by blast
next
  case (retire st idx now r)
  then show ?case using retire_keeps_unique [OF prod.collapse [symmetric]] by blast
next
  case (purge idx r)
  then show ?case using purge_keeps_unique [OF prod.collapse [symmetric]] by blast
qed

text \<open>C21: A provider session has one owner.  From an empty index, however sessions register, retire and are
  purged, and whatever the durable state of the sessions was when they did, all entries of a key that
  are owned and active belong to the same session; and a registration that meets a live owner of
  the key is refused and leaves the index as it is.\<close>

theorem owned_binding_exclusive:
  assumes "bind_step\<^sup>*\<^sup>* None idx"
  shows "(\<forall>a \<in> set (indexed idx k). \<forall>b \<in> set (indexed idx k). owned_active (obj_of a) \<longrightarrow> owned_active (obj_of b) \<longrightarrow>
      dget (obj_of a) ''session-id'' = dget (obj_of b) ''session-id'') \<and>
    (\<forall>r binding e s. dget r ''binding'' = JObj binding \<longrightarrow> dget binding ''provider-ref-key'' = JStr k \<longrightarrow> k \<noteq> [] \<longrightarrow>
      truthy (dget binding ''binding-id'') \<longrightarrow> dget binding ''ownership'' = JStr ''owned'' \<longrightarrow> dget r ''session-id'' = JStr s \<longrightarrow>
      JObj e \<in> set (indexed idx k) \<longrightarrow> owned_active e \<longrightarrow> dget e ''session-id'' \<noteq> JStr s \<longrightarrow>
      lookup (entry_session e) = Some (JStr ''active'') \<longrightarrow>
      isl (fst (register_open_binding lookup now r idx)) \<and> snd (register_open_binding lookup now r idx) = idx)"
proof -
  have "\<forall>k. owned_unique (indexed idx k)" using assms
  proof (induction rule: rtranclp_induct)
    case base
    show ?case by (simp add: owned_unique_def indexed_def read_index_def index_entries_def por_def dget_Cons)
  next
    case (step y z)
    then show ?case using bind_step_unique by blast
  qed
  then have u: "owned_unique (indexed idx k)" by blast
  have "isl (fst (register_open_binding lookup now r idx)) \<and> snd (register_open_binding lookup now r idx) = idx"
    if a: "dget r ''binding'' = JObj binding" "dget binding ''provider-ref-key'' = JStr k" "k \<noteq> []" "truthy (dget binding ''binding-id'')"
      "dget binding ''ownership'' = JStr ''owned''" "dget r ''session-id'' = JStr s" "JObj e \<in> set (indexed idx k)" "owned_active e"
      "dget e ''session-id'' \<noteq> JStr s" "lookup (entry_session e) = Some (JStr ''active'')" for r binding e s
    by (rule register_conflict [where lookup = lookup, OF a])
  with u show ?thesis unfolding owned_unique_def by blast
qed

section \<open>Examples\<close>

definition bound0 :: "string \<Rightarrow> dict" where
  "bound0 i = [(''session-id'', JStr i), (''state'', JStr ''active''), (''binding'', JObj [(''binding-id'', JStr (''sbind_'' @ i)),
     (''provider-ref-key'', JStr ''k1''), (''ownership'', JStr ''owned''), (''relation'', JStr ''opened''), (''created-at'', JStr ''t0'')])]"

definition index0 :: "doc option" where
  "index0 = snd (register_open_binding (\<lambda>_. Some (JStr ''active'')) ''t0'' (bound0 ''ses_a'') None)"

lemma index0_entries: "indexed index0 ''k1'' = [JObj (entry_for (obj_of (dget (bound0 ''ses_a'') ''binding'')) (bound0 ''ses_a'') (JStr ''ses_a''))]"
  by code_simp

theorem owned_binding_exclusive_witness:
  "isl (fst (register_open_binding (\<lambda>_. Some (JStr ''active'')) ''t1'' (bound0 ''ses_b'') index0)) \<and>
    snd (register_open_binding (\<lambda>_. Some (JStr ''active'')) ''t1'' (bound0 ''ses_b'') index0) = index0"
proof -
  have st: "bind_step\<^sup>*\<^sup>* None index0" unfolding index0_def
    by (intro r_into_rtranclp bind_step.register [where s = "''ses_a''"]) (simp add: bound0_def dget_Cons)
  note x = owned_binding_exclusive [OF st, of "''k1''" "\<lambda>_. Some (JStr ''active'')" "''t1''", THEN conjunct2, rule_format,
    of "bound0 ''ses_b''" "obj_of (dget (bound0 ''ses_b'') ''binding'')"
       "''ses_b''" "entry_for (obj_of (dget (bound0 ''ses_a'') ''binding'')) (bound0 ''ses_a'') (JStr ''ses_a'')"]
  show ?thesis by (rule x) (simp_all add: index0_entries, simp_all add: bound0_def entry_for_def owned_active_def dget_Cons)
qed

end
