(* ===== verification/Session_Records.thy ===== *)
theory Session_Records
  imports Session_Bindings
begin

text \<open>
  Durable gateway sessions (\<open>gateway/session/sessions_store.py\<close>): the record and its schema
  (\<open>foundation/contracts/schemas/agent-execution-session.schema.json\<close>), migration of older records,
  reading and writing, workflow transitions, recorded turns, retention claims and the expiry
  predicates.  The schema is translated to the predicate \<open>session_schema\<close>; the texts of the issues are
  jsonschema's and a parameter.  A call reads one record under the session lock, decides, and writes at
  most one successor; \<open>session_update\<close> is that shape.  The state \<open>sesw\<close> joins the project (the requests), the
  session files, the session timeline and the binding index.
\<close>

record senv = genv +
  ses_issues :: "dict \<Rightarrow> string list"
  parse_naive :: "string \<Rightarrow> rat option"
  parse_aware :: "string \<Rightarrow> rat option"
  py_text :: "json \<Rightarrow> string"

section \<open>The schema\<close>

definition sch_null_or :: "(json \<Rightarrow> bool) \<Rightarrow> json \<Rightarrow> bool" where
  "sch_null_or p v \<longleftrightarrow> v = JNull \<or> p v"

definition sch_enum :: "string list \<Rightarrow> json \<Rightarrow> bool" where
  "sch_enum xs v \<longleftrightarrow> (case v of JStr s \<Rightarrow> s \<in> set xs | _ \<Rightarrow> False)"

definition sch_text :: "nat \<Rightarrow> nat \<Rightarrow> json \<Rightarrow> bool" where
  "sch_text lo hi v \<longleftrightarrow> (case v of JStr s \<Rightarrow> lo \<le> length s \<and> length s \<le> hi | _ \<Rightarrow> False)"

definition sch_array :: "(json \<Rightarrow> bool) \<Rightarrow> json \<Rightarrow> bool" where
  "sch_array p v \<longleftrightarrow> (case v of JList xs \<Rightarrow> list_all p xs | _ \<Rightarrow> False)"

text \<open>\<open>integer\<close> admits a float with no fraction; a bool is not a number.\<close>

definition sch_integer :: "int \<Rightarrow> json \<Rightarrow> bool" where
  "sch_integer lo v \<longleftrightarrow> (case v of JInt i \<Rightarrow> lo \<le> i | JFloat q \<Rightarrow> q = of_int \<lfloor>q\<rfloor> \<and> of_int lo \<le> q | _ \<Rightarrow> False)"

fun sch_number :: "json \<Rightarrow> bool" where
  "sch_number (JInt _) = True"
| "sch_number (JFloat _) = True"
| "sch_number _ = False"

definition sch_object :: "bool \<Rightarrow> string list \<Rightarrow> (string \<times> (json \<Rightarrow> bool)) list \<Rightarrow> json \<Rightarrow> bool" where
  "sch_object extra req props v \<longleftrightarrow> (case v of
     JObj d \<Rightarrow> list_all (dhas d) req \<and>
       list_all (\<lambda>(k, w). case map_of props k of Some p \<Rightarrow> p w | None \<Rightarrow> extra) d
   | _ \<Rightarrow> False)"

definition binding_schema :: "json \<Rightarrow> bool" where
  "binding_schema = sch_null_or (sch_object False
     [''binding-id'', ''generation'', ''provider-id'', ''surface-id'', ''provider-session-ref'', ''provider-ref-key'', ''relation'',
      ''ownership'', ''identity-context-fingerprint'', ''execution-context-fingerprint'', ''created-at'']
     [(''binding-id'', is_str), (''generation'', sch_integer 1), (''provider-id'', sch_null_or is_str), (''surface-id'', is_str),
      (''surface-version'', sch_null_or is_str), (''ref-namespace'', is_str), (''provider-session-ref'', is_str),
      (''provider-ref-key'', is_str), (''relation'', sch_enum [''opened'', ''attached'', ''resumed-from'', ''replaced'']),
      (''ownership'', sch_enum [''owned'', ''external'', ''adopted'']), (''predecessor-binding-id'', sch_null_or is_str),
      (''identity-context-fingerprint'', is_str), (''execution-context-fingerprint'', is_str), (''context-id'', sch_null_or is_str),
      (''agent-definition-id'', sch_null_or is_str), (''agent-definition-digest'', sch_null_or is_str),
      (''role-ids'', sch_null_or (sch_array is_str)), (''role-set-digest'', sch_null_or is_str),
      (''execution-profile-digest'', sch_null_or is_str), (''effective-capability-digest'', sch_null_or is_str),
      (''created-at'', is_str)])"

definition retention_schema :: "json \<Rightarrow> bool" where
  "retention_schema = sch_object False [''operation-id'', ''claimed-at'']
     [(''operation-id'', sch_text 1 128), (''claimed-at'', is_str), (''stage'', sch_enum [''claimed'', ''deleting'']),
      (''plan'', sch_object False [''request-ids'', ''policy-digest'']
         [(''request-ids'', \<lambda>v. sch_array (sch_text 1 128) v \<and> length (list_of v) \<le> 10000), (''policy-digest'', sch_text 0 128)])]"

definition CLOSE_REASONS :: "string list" where
  "CLOSE_REASONS = [''client-request'', ''idle-timeout'', ''max-lifetime'', ''shutdown'', ''cancelled-turn'', ''post-turn-close'',
     ''failed'', ''orphaned'', ''turn-timeout'', ''turn-silence-timeout'', ''purge'']"

definition session_schema :: "json \<Rightarrow> bool" where
  "session_schema = sch_object False
     [''contract-version'', ''session-id'', ''execution-profile-id'', ''state'', ''binding'', ''timing'', ''activity'']
     [(''contract-version'', sch_enum [''v1'', ''v2'', ''v3'', ''v4'']), (''session-id'', is_str),
      (''created-by-request-id'', sch_null_or is_str), (''provider-transport-kind'', sch_enum [''worker'', ''provider-session'']),
      (''execution-profile-id'', is_str), (''state'', sch_enum [''active'', ''closing'', ''closed'', ''expired'', ''failed'']),
      (''binding'', binding_schema),
      (''provider'', sch_object False [] [(''provider-id'', is_str), (''model-id'', is_str), (''metadata'', sch_object True [] [])]),
      (''timing'', sch_object False [''created-at'', ''updated-at'', ''last-activity-at'']
         [(''created-at'', is_str), (''updated-at'', is_str), (''last-activity-at'', is_str), (''last-accepted-turn-at'', is_str),
          (''closed-at'', is_str)]),
      (''policy'', \<lambda>v. sch_object False [] [(''idle-timeout-seconds'', sch_number), (''max-lifetime-seconds'', sch_number)] v \<and> obj_of v \<noteq> []),
      (''activity'', sch_object False [''turn-count'', ''request-ids'']
         [(''turn-count'', sch_integer 0), (''request-ids'', sch_array is_str)]),
      (''retention-claim'', retention_schema), (''close-reason'', sch_enum CLOSE_REASONS),
      (''error'', sch_object False [''code'', ''message'', ''kind''] [(''code'', is_str), (''message'', is_str), (''kind'', is_str)])]"

section \<open>Lifecycle and accessors\<close>

definition session_workflow :: dict where
  "session_workflow = (case load_workflow agents_workflows_yaml ''gateway-session'' None of Inr (JObj w) \<Rightarrow> w | _ \<Rightarrow> [])"

definition SESSION_TERMINAL_STATES :: "string list" where
  "SESSION_TERMINAL_STATES = states_in_set session_workflow ''terminal''"

definition session_state_is_reusable :: "json \<Rightarrow> bool" where
  "session_state_is_reusable st \<longleftrightarrow> (case st of JStr s \<Rightarrow> wf_is_known_state session_workflow s \<and> s = ''active'' | _ \<Rightarrow> False)"

definition session_terminal :: "dict \<Rightarrow> bool" where
  "session_terminal r \<longleftrightarrow> dget r ''state'' \<in> JStr ` set SESSION_TERMINAL_STATES"

text \<open>A group is an object by the schema, or absent.\<close>

definition grp :: "string \<Rightarrow> dict \<Rightarrow> dict" where
  "grp g r = obj_of (dget r g)"

definition session_provider_id :: "dict \<Rightarrow> json" where
  "session_provider_id r = dget (grp ''provider'' r) ''provider-id''"

definition session_model_id :: "dict \<Rightarrow> json" where
  "session_model_id r = dget (grp ''provider'' r) ''model-id''"

definition session_provider_metadata :: "dict \<Rightarrow> dict" where
  "session_provider_metadata r = grp ''metadata'' (grp ''provider'' r)"

definition session_turn_count :: "dict \<Rightarrow> json" where
  "session_turn_count r = por (dget (grp ''activity'' r) ''turn-count'') (JInt 0)"

definition session_request_ids :: "dict \<Rightarrow> json list" where
  "session_request_ids r = list_of (dget (grp ''activity'' r) ''request-ids'')"

definition session_created_at :: "dict \<Rightarrow> json" where
  "session_created_at r = dget (grp ''timing'' r) ''created-at''"

definition session_idle_timeout_seconds :: "dict \<Rightarrow> json" where
  "session_idle_timeout_seconds r = dget (grp ''policy'' r) ''idle-timeout-seconds''"

definition session_max_lifetime_seconds :: "dict \<Rightarrow> json" where
  "session_max_lifetime_seconds r = dget (grp ''policy'' r) ''max-lifetime-seconds''"

text \<open>The two writes every call does: the metadata group and the time of the update.\<close>

definition put_metadata :: "dict \<Rightarrow> dict \<Rightarrow> dict" where
  "put_metadata md r = dset ''provider'' (JObj (dset ''metadata'' (JObj md) (grp ''provider'' r))) r"

definition touch :: "string \<Rightarrow> dict \<Rightarrow> dict" where
  "touch now r = dset ''timing'' (JObj (dset ''updated-at'' (JStr now) (grp ''timing'' r))) r"

section \<open>Expiry\<close>

definition session_created_age_seconds :: "('a senv_scheme) \<Rightarrow> rat \<Rightarrow> dict \<Rightarrow> rat option" where
  "session_created_age_seconds E now r = (case session_created_at r of
     JStr s \<Rightarrow> if strip s = [] then None else map_option (\<lambda>t. max 0 (now - t)) (parse_naive E s)
   | _ \<Rightarrow> None)"

text \<open>\<open>float(x)\<close> of a policy value, 0 when it is absent; the schema admits numbers only.\<close>

definition policy_cap :: "json \<Rightarrow> rat" where
  "policy_cap v = (case num_of v of Some q \<Rightarrow> q | None \<Rightarrow> 0)"

definition session_lifetime_expiry :: "('a senv_scheme) \<Rightarrow> rat \<Rightarrow> dict \<Rightarrow> rat option" where
  "session_lifetime_expiry E now r = (case (session_created_age_seconds E now r, session_created_at r) of
     (Some age, JStr s) \<Rightarrow>
       (case parse_naive E s of
          Some created \<Rightarrow> (let cap = policy_cap (session_max_lifetime_seconds r) in if cap \<le> 0 then None else Some (created + cap))
        | None \<Rightarrow> None)
   | _ \<Rightarrow> None)"

definition session_lifetime_expired :: "('a senv_scheme) \<Rightarrow> rat \<Rightarrow> dict \<Rightarrow> bool" where
  "session_lifetime_expired E now r = (case session_lifetime_expiry E now r of None \<Rightarrow> False | Some t \<Rightarrow> t < now)"

definition session_idle_expired :: "('a senv_scheme) \<Rightarrow> rat \<Rightarrow> dict \<Rightarrow> bool" where
  "session_idle_expired E now r =
     (let v = session_idle_timeout_seconds r;
          legacy = (case session_provider_id r of JStr p \<Rightarrow> starts_with ''gpt-auto'' p | _ \<Rightarrow> False);
          cap = (if v = JNull \<and> legacy then 1800 else policy_cap v) in
      if cap \<le> 0 then False
      else case dget (grp ''timing'' r) ''last-activity-at'' of
        JStr s \<Rightarrow> if strip s = [] then False else (case parse_naive E s of None \<Rightarrow> False | Some t \<Rightarrow> cap < now - t)
      | _ \<Rightarrow> False)"

section \<open>Construction and migration\<close>

record session_args =
  sa_session_id :: "string option"
  sa_created_by :: "string option"
  sa_transport :: string
  sa_profile :: string
  sa_provider_id :: "string option"
  sa_model_id :: "string option"
  sa_metadata :: dict
  sa_idle :: "rat option"
  sa_lifetime :: "rat option"
  sa_binding :: binding_args
  sa_created_at :: "string option"

definition nonneg_bound :: "string \<Rightarrow> string \<Rightarrow> string \<Rightarrow> rat option \<Rightarrow> unit res" where
  "nonneg_bound code msg key v = (case v of
     Some q \<Rightarrow> guard_r (0 \<le> q) (ag_error code msg [(key, JFloat q)]) | None \<Rightarrow> Inr ())"

definition opt_field :: "string \<Rightarrow> json option \<Rightarrow> dict" where
  "opt_field k v = (case v of None \<Rightarrow> [] | Some w \<Rightarrow> [(k, w)])"

definition group_field :: "string \<Rightarrow> dict \<Rightarrow> dict" where
  "group_field k d = (if d = [] then [] else [(k, JObj d)])"

definition migrate_session_v1 :: "dict \<Rightarrow> dict res" where
  "migrate_session_v1 p =
     (if dget p ''contract-version'' \<noteq> JStr ''v1'' then Inr p
      else (let m = dset ''contract-version'' (JStr ''v2'') (dpop ''provider-session-ref'' p) in
        rbind (build_migrated_v1_binding (por (dget m ''session-id'') (JStr [])) (dget m ''provider-id'') (dget p ''provider-session-ref''))
          (\<lambda>b. Inr (dset ''binding'' b m))))"

definition migrate_session_v2 :: "dict \<Rightarrow> dict res" where
  "migrate_session_v2 p =
     (if dget p ''contract-version'' \<noteq> JStr ''v2'' then Inr p
      else rbind (py_list (por (dget p ''request-ids'') (JList []))) (\<lambda>ids.
        rbind (if truthy (dget p ''provider-metadata'') then rbind (py_dict (dget p ''provider-metadata'')) (\<lambda>d. Inr (Some (JObj d))) else Inr None) (\<lambda>md.
        let opt = (\<lambda>k. if dget p k = JNull then None else Some (dget p k)) in
        Inr ([(''contract-version'', JStr ''v3''), (''session-id'', dget p ''session-id''),
              (''execution-profile-id'', dget p ''execution-profile-id''), (''binding'', dget p ''binding''), (''state'', dget p ''state''),
              (''timing'', JObj ([(''created-at'', dget p ''created-at''), (''updated-at'', dget p ''updated-at''),
                 (''last-activity-at'', por (dget p ''last-activity-at'') (dget p ''created-at''))] @ opt_field ''closed-at'' (opt ''closed-at''))),
              (''activity'', JObj [(''request-ids'', JList ids), (''turn-count'', por (dget p ''turn-count'') (JInt 0))])] @
             group_field ''provider'' (opt_field ''provider-id'' (opt ''provider-id'') @ opt_field ''model-id'' (opt ''model-id'') @ opt_field ''metadata'' md) @
             group_field ''policy'' (opt_field ''idle-timeout-seconds'' (opt ''idle-timeout-seconds'') @
               opt_field ''max-lifetime-seconds'' (opt ''max-lifetime-seconds'')) @
             opt_field ''close-reason'' (opt ''close-reason'') @ opt_field ''error'' (opt ''error'')))))"

definition validate_session :: "('a senv_scheme) \<Rightarrow> string \<Rightarrow> dict \<Rightarrow> dict res" where
  "validate_session E code p =
     rbind (rbind (migrate_session_v1 p) migrate_session_v2) (\<lambda>q.
       if session_schema (JObj q) then Inr q
       else Inl (ag_error code ''gateway session record failed schema validation'' [(''issues'', JList (map JStr (ses_issues E q)))]))"

definition build_session_record :: "('a senv_scheme) \<Rightarrow> string \<Rightarrow> string \<Rightarrow> string \<Rightarrow> session_args \<Rightarrow> dict res" where
  "build_session_record E fresh_id fresh_binding now a =
     rbind (nonneg_bound ''VAL-AGW-050'' ''idle_timeout_seconds must be positive, or 0 to disable the idle timeout'' ''idle_timeout_seconds'' (sa_idle a)) (\<lambda>_.
     rbind (nonneg_bound ''VAL-AGW-051'' ''max_lifetime_seconds must be positive, or 0 to disable the lifetime cap'' ''max_lifetime_seconds'' (sa_lifetime a)) (\<lambda>_.
     rbind (guard_r (sa_transport a \<in> {''worker'', ''provider-session''}) (ValueError ''unknown provider transport kind'')) (\<lambda>_.
     rbind (build_binding E fresh_binding now ((sa_binding a)\<lparr>ba_provider_id := sa_provider_id a\<rparr>)) (\<lambda>b.
     validate_session E ''VAL-AGW-052''
       ([(''contract-version'', JStr ''v4''), (''session-id'', JStr (opt_or (sa_session_id a) (''ses_'' @ fresh_id))),
         (''created-by-request-id'', opt_str (sa_created_by a)), (''provider-transport-kind'', JStr (sa_transport a)),
         (''execution-profile-id'', JStr (sa_profile a)), (''binding'', b), (''state'', JStr ''active''),
         (''timing'', JObj [(''created-at'', JStr (opt_or (sa_created_at a) now)), (''updated-at'', JStr now), (''last-activity-at'', JStr now)]),
         (''activity'', JObj [(''request-ids'', JList []), (''turn-count'', JInt 0)])] @
        group_field ''provider'' (opt_field ''provider-id'' (map_option JStr (sa_provider_id a)) @
          opt_field ''model-id'' (map_option JStr (sa_model_id a)) @ group_field ''metadata'' (sa_metadata a)) @
        group_field ''policy'' (opt_field ''idle-timeout-seconds'' (map_option JFloat (sa_idle a)) @
          opt_field ''max-lifetime-seconds'' (map_option JFloat (sa_lifetime a))))))))"

section \<open>Files\<close>

text \<open>The durable state a session call reads and writes.\<close>

record sesw =
  sw_proj :: proj
  sw_sessions :: "(string \<times> doc) list"
  sw_timeline :: "tl_event list"
  sw_index :: "doc option"

definition read_session_record :: "('a senv_scheme) \<Rightarrow> string \<Rightarrow> sesw \<Rightarrow> dict res" where
  "read_session_record E sid w = (case map_of (sw_sessions w) sid of
     None \<Rightarrow> Inl (ag_error ''RES-AGW-002'' ''gateway session not found'' [(''session-id'', JStr sid)])
   | Some Garbage \<Rightarrow> Inl (ag_error ''IO-AGW-002'' ''failed to read gateway session record'' [(''session-id'', JStr sid)])
   | Some (Doc (JObj p)) \<Rightarrow> validate_session E ''VAL-AGW-055'' p
   | Some (Doc _) \<Rightarrow> Inl AttributeError)"

definition read_session_record_raw :: "string \<Rightarrow> sesw \<Rightarrow> json" where
  "read_session_record_raw sid w = (case map_of (sw_sessions w) sid of Some (Doc v) \<Rightarrow> v | _ \<Rightarrow> JNull)"

definition put_session :: "string \<Rightarrow> dict \<Rightarrow> sesw \<Rightarrow> sesw" where
  "put_session sid q w = w\<lparr>sw_sessions := AList.update sid (Doc (JObj q)) (sw_sessions w)\<rparr>"

text \<open>The file is named after the record's own identifier; a path made of anything but text raises.\<close>

definition write_session_record :: "('a senv_scheme) \<Rightarrow> dict \<Rightarrow> sesw \<Rightarrow> unit res \<times> sesw" where
  "write_session_record E p w =
     (if \<not> truthy (dget p ''session-id'') then (Inl (ag_error ''VAL-AGW-053'' ''gateway session record missing session-id'' []), w)
      else case validate_session E ''VAL-AGW-054'' p of
        Inl e \<Rightarrow> (Inl e, w)
      | Inr q \<Rightarrow> (case dget p ''session-id'' of JStr sid \<Rightarrow> (Inr (), put_session sid q w) | _ \<Rightarrow> (Inl TypeError, w)))"

definition read_session_binding :: "('a senv_scheme) \<Rightarrow> string \<Rightarrow> sesw \<Rightarrow> json res" where
  "read_session_binding E sid w = (case read_session_record E sid w of
     Inl (AG c m d) \<Rightarrow> Inr JNull
   | Inl e \<Rightarrow> Inl e
   | Inr r \<Rightarrow> Inr (if is_dict (dget r ''binding'') then dget r ''binding'' else JNull))"

definition write_session_binding :: "('a senv_scheme) \<Rightarrow> string \<Rightarrow> json \<Rightarrow> sesw \<Rightarrow> unit res \<times> sesw" where
  "write_session_binding E sid b w =
     (let r = [(''contract-version'', JStr ''v2''), (''session-id'', JStr sid), (''binding'', b), (''state'', JStr ''active'')] in
      case validate_session E ''VAL-AGW-100'' r of Inl e \<Rightarrow> (Inl e, w) | Inr _ \<Rightarrow> (Inr (), put_session sid r w))"

text \<open>Listing skips what the gateway's own error rejects.\<close>

fun list_session_loop :: "('a senv_scheme) \<Rightarrow> string list \<Rightarrow> sesw \<Rightarrow> dict list res" where
  "list_session_loop E [] w = Inr []"
| "list_session_loop E (sid # sids) w = (case read_session_record E sid w of
     Inr r \<Rightarrow> rbind (list_session_loop E sids w) (\<lambda>rs. Inr (r # rs))
   | Inl (AG c m d) \<Rightarrow> list_session_loop E sids w
   | Inl e \<Rightarrow> Inl e)"

definition list_session_records :: "('a senv_scheme) \<Rightarrow> sesw \<Rightarrow> dict list res" where
  "list_session_records E w = list_session_loop E (sort (map fst (sw_sessions w))) w"

text \<open>A call under the session lock: read, decide, write at most one successor, then the timeline.\<close>

datatype 'r soutcome = SKeep 'r | SWrite dict 'r "(string \<times> json \<times> dict) option"

definition add_session_event :: "string \<Rightarrow> (string \<times> json \<times> dict) option \<Rightarrow> sesw \<Rightarrow> sesw" where
  "add_session_event sid ev w = (case ev of None \<Rightarrow> w
   | Some (nm, st, attrs) \<Rightarrow> w\<lparr>sw_timeline := sw_timeline w @
       [\<lparr>tl_request = sid, tl_name = nm, tl_state = st, tl_attributes = attrs\<rparr>]\<rparr>)"

definition session_commit :: "('a senv_scheme) \<Rightarrow> string \<Rightarrow> 'r soutcome \<Rightarrow> sesw \<Rightarrow> 'r res \<times> sesw" where
  "session_commit E sid oc w = (case oc of
     SKeep x \<Rightarrow> (Inr x, w)
   | SWrite q x ev \<Rightarrow> (case write_session_record E q w of
        (Inl e, w1) \<Rightarrow> (Inl e, w1)
      | (Inr _, w1) \<Rightarrow> (Inr x, add_session_event sid ev w1)))"

definition session_update :: "('a senv_scheme) \<Rightarrow> string \<Rightarrow> (dict \<Rightarrow> 'r soutcome res) \<Rightarrow> sesw \<Rightarrow> 'r res \<times> sesw" where
  "session_update E sid body w = (case rbind (read_session_record E sid w) body of
     Inl e \<Rightarrow> (Inl e, w) | Inr oc \<Rightarrow> session_commit E sid oc w)"

section \<open>Transitions\<close>

definition ensure_session_transition :: "string \<Rightarrow> string \<Rightarrow> unit res" where
  "ensure_session_transition cur new =
     rbind (guard_r (wf_is_known_state session_workflow cur) (ag_error ''VAL-AGW-056'' ''unknown gateway session state'' [(''state'', JStr cur)])) (\<lambda>_.
     guard_r (transition_allowed session_workflow cur new)
       (ag_error ''CON-AGW-002'' ''illegal gateway session state transition'' [(''from'', JStr cur), (''to'', JStr new)]))"

text \<open>A value handed over by the caller: JSON, or a raised exception with the name of its class.\<close>

datatype supd = SVal json | SExc py_error string

definition SESSION_ERROR_KEYS :: "string list" where
  "SESSION_ERROR_KEYS = [''code'', ''message'', ''kind'']"

definition error_summary :: "string \<Rightarrow> string \<Rightarrow> string \<Rightarrow> dict" where
  "error_summary code msg kind = [(''code'', JStr code), (''message'', JStr msg), (''kind'', JStr kind)]"

definition redact_session_error :: "supd \<Rightarrow> dict option res" where
  "redact_session_error e = (case e of
     SExc (AG c m d) ty \<Rightarrow> Inr (Some (error_summary c m ''agents''))
   | SExc (ValueError m) ty \<Rightarrow>
       Inr (Some (if m \<noteq> [] then error_summary ''VAL-AGW-999'' m ty else error_summary ''UNKNOWN'' ''unexpected error (see server logs)'' ty))
   | SExc _ ty \<Rightarrow> Inr (Some (error_summary ''UNKNOWN'' ''unexpected error (see server logs)'' ty))
   | SVal JNull \<Rightarrow> Inr None
   | SVal (JObj d) \<Rightarrow> Inr (Some (filter (\<lambda>(k, v). k \<in> set SESSION_ERROR_KEYS) d))
   | SVal _ \<Rightarrow> Inl AttributeError)"

definition MUTABLE_TRANSITION_FIELDS :: "string list" where
  "MUTABLE_TRANSITION_FIELDS = [''close-reason'', ''closed-at'', ''last-activity-at'', ''error'']"

definition hyphens :: "string \<Rightarrow> string" where
  "hyphens k = replace_char (CHR ''_'') (CHR ''-'') k"

definition set_or_pop :: "string \<Rightarrow> json option \<Rightarrow> dict \<Rightarrow> dict" where
  "set_or_pop k v d = (case v of None \<Rightarrow> dpop k d | Some w \<Rightarrow> dset k w d)"

text \<open>An exception in a field of text is a value the schema rejects, as an object is.\<close>

definition val_opt :: "supd \<Rightarrow> json option" where
  "val_opt u = (case u of SVal v \<Rightarrow> if v = JNull then None else Some v | SExc _ _ \<Rightarrow> Some (JObj []))"

fun apply_session_updates :: "(string \<times> supd) list \<Rightarrow> dict \<times> dict \<Rightarrow> (dict \<times> dict) res" where
  "apply_session_updates [] rt = Inr rt"
| "apply_session_updates ((k, u) # us) (r, t) =
     (if hyphens k \<in> {''closed-at'', ''last-activity-at''} then apply_session_updates us (r, set_or_pop (hyphens k) (val_opt u) t)
      else if hyphens k = ''close-reason'' then apply_session_updates us (set_or_pop ''close-reason'' (val_opt u) r, t)
      else if hyphens k = ''error'' then rbind (redact_session_error u) (\<lambda>e.
        apply_session_updates us (set_or_pop ''error'' (map_option JObj e) r, t))
      else apply_session_updates us (r, t))"

definition text_of :: "json \<Rightarrow> string" where
  "text_of v = (case v of JStr s \<Rightarrow> s | _ \<Rightarrow> [])"

definition transition_session_body :: "string \<Rightarrow> string \<Rightarrow> (string \<times> supd) list \<Rightarrow> dict \<Rightarrow> dict soutcome res" where
  "transition_session_body now new us r =
     rbind (ensure_session_transition (text_of (dget r ''state'')) new) (\<lambda>_.
     rbind (apply_session_updates us (dset ''state'' (JStr new) r, dset ''updated-at'' (JStr now) (grp ''timing'' r))) (\<lambda>(u, t).
       let r' = dset ''timing'' (JObj t) u in
       Inr (SWrite r' r' (Some (''state.changed'', JStr new,
         [(''from'', dget r ''state''), (''to'', JStr new), (''close-reason'', dget u ''close-reason''),
          (''updated-keys'', JList (map JStr (sort (map fst us))))])))))"

definition transition_session_record :: "('a senv_scheme) \<Rightarrow> string \<Rightarrow> string \<Rightarrow> string \<Rightarrow> (string \<times> supd) list \<Rightarrow> sesw \<Rightarrow> dict res \<times> sesw" where
  "transition_session_record E now sid new us w =
     (let illegal = filter (\<lambda>k. k \<notin> set MUTABLE_TRANSITION_FIELDS) (map (hyphens \<circ> fst) us) in
      if illegal \<noteq> [] then
        (Inl (ag_error ''VAL-AGW-097'' ''session transition may not modify immutable session identity fields''
           [(''session-id'', JStr sid), (''rejected-fields'', JList (map JStr (sort (remdups illegal))))]), w)
      else session_update E sid (transition_session_body now new us) w)"

section \<open>Provider metadata\<close>

definition RECOVERY_CHECKPOINT_KEYS :: "string list" where
  "RECOVERY_CHECKPOINT_KEYS = [''unresolved-turn-pending'', ''unresolved-turn-id'', ''submission-state'', ''submission-attempt-id'',
     ''submission-stage'', ''send-intent-ever'', ''submission-proven'', ''submission-proof-source'', ''submission-recovery-claim'',
     ''submission-recovery-generation'', ''recovery-state'', ''prompt-text-digest'', ''prompt-message-id'', ''assistant-message-id'',
     ''assistant-before-message-id'', ''assistant-before-id'', ''terminal-evidence'', ''unresolved-baseline-user-id'',
     ''unresolved-baseline-assistant-id'', ''unresolved-baseline-user-count'', ''unresolved-baseline-assistant-count'',
     ''unresolved-baseline-error-alert-occurrences'']"

text \<open>In sorted order, the order of the reported mismatches.\<close>

definition RECOVERY_IDENTITY_KEYS :: "string list" where
  "RECOVERY_IDENTITY_KEYS = [''prompt-text-digest'', ''submission-attempt-id'', ''submission-recovery-claim'',
     ''submission-recovery-generation'', ''unresolved-baseline-assistant-count'', ''unresolved-baseline-assistant-id'',
     ''unresolved-baseline-error-alert-occurrences'', ''unresolved-baseline-user-count'', ''unresolved-baseline-user-id'',
     ''unresolved-turn-id'']"

definition LOAD_BUDGET_KEYS :: "string list" where
  "LOAD_BUDGET_KEYS = [''conversation-load-recovery-attempts'', ''conversation-load-recovery-revision'']"

text \<open>The part of a caller's dictionary that is not under a fence of its own.\<close>

definition unfenced :: "dict \<Rightarrow> dict" where
  "unfenced d = filter (\<lambda>(k, v). k \<notin> set RECOVERY_CHECKPOINT_KEYS \<and> k \<notin> set LOAD_BUDGET_KEYS) d"

definition frozen_identity_mismatch_keys :: "dict \<Rightarrow> dict \<Rightarrow> string list" where
  "frozen_identity_mismatch_keys existing update =
     filter (\<lambda>k. dhas update k \<noteq> dhas existing k \<or> (dhas existing k \<and> \<not> jeq (dget update k) (dget existing k))) RECOVERY_IDENTITY_KEYS"

fun hashable :: "json \<Rightarrow> bool" where
  "hashable (JList _) = False"
| "hashable (JObj _) = False"
| "hashable _ = True"

text \<open>\<open>v in S\<close> for a set of values: an unhashable \<open>v\<close> raises.\<close>

definition in_set :: "json \<Rightarrow> json list \<Rightarrow> bool res" where
  "in_set v xs = (if hashable v then Inr (list_ex (jeq v) xs) else Inl TypeError)"

definition terminal_checkpoint_clear_is_proven :: "dict \<Rightarrow> dict \<Rightarrow> string \<Rightarrow> bool res" where
  "terminal_checkpoint_clear_is_proven existing update rid =
     (let ev = obj_of (dget update ''terminal-evidence''); vs = list_of (dget ev ''verification-evidence'') in
      if list_ex (\<lambda>v. \<not> hashable v) vs then Inl TypeError
      else Inr (dget existing ''unresolved-turn-pending'' = JBool True \<and> dget existing ''unresolved-turn-id'' = JStr rid \<and>
        dget update ''unresolved-turn-id'' = JStr rid \<and> dget update ''submission-proven'' = JBool True \<and>
        dget update ''submission-proof-source'' = JStr ''provider-user-message'' \<and>
        is_str (dget update ''prompt-text-digest'') \<and> truthy (dget update ''prompt-text-digest'') \<and>
        is_dict (dget update ''terminal-evidence'') \<and> dget ev ''turn-id'' = JStr rid \<and> dget ev ''policy'' = JStr ''response-complete'' \<and>
        JStr ''not-generating'' \<in> set vs \<and> JStr ''text-present'' \<in> set vs \<and>
        (JStr ''completion-control'' \<in> set vs \<or> JStr ''response-complete-status'' \<in> set vs) \<and>
        frozen_identity_mismatch_keys existing update = []))"

text \<open>\<open>update_provider_metadata\<close> where it touches no checkpoint field.\<close>

definition plain_metadata_body :: "string \<Rightarrow> dict \<Rightarrow> string list \<Rightarrow> dict \<Rightarrow> dict soutcome res" where
  "plain_metadata_body now md rm r =
     (let cur = fold dpop rm (dupd (session_provider_metadata r) md);
          prov = (if cur \<noteq> [] then dset ''metadata'' (JObj cur) (grp ''provider'' r) else dpop ''metadata'' (grp ''provider'' r));
          r' = touch now (dset ''provider'' (JObj prov) r)
      in Inr (SWrite r' r' None))"

text \<open>The metadata of a recorded turn: everything unfenced, and the terminal witness once it is proven.\<close>

definition turn_metadata :: "string \<Rightarrow> dict \<Rightarrow> dict \<Rightarrow> dict res" where
  "turn_metadata rid pm existing =
     rbind (terminal_checkpoint_clear_is_proven existing pm rid) (\<lambda>proven.
       let cur = dupd existing (unfenced pm) in
       Inr (if proven then dset ''terminal-evidence'' (dget pm ''terminal-evidence'') cur else cur))"

definition bump_turn_count :: "json \<Rightarrow> int" where
  "bump_turn_count v = (case int_or_0 v of Inr n \<Rightarrow> n + 1 | Inl _ \<Rightarrow> 1)"

definition record_turn_body :: "string \<Rightarrow> string \<Rightarrow> dict option \<Rightarrow> dict \<Rightarrow> dict soutcome res" where
  "record_turn_body now rid pm r =
     (if JStr rid \<in> set (session_request_ids r) then
        (case pm of
           None \<Rightarrow> Inr (SKeep r)
         | Some m \<Rightarrow> rbind (turn_metadata rid m (session_provider_metadata r)) (\<lambda>md.
             let r' = touch now (put_metadata md r) in Inr (SWrite r' r' None)))
      else
        (let act = dset ''turn-count'' (JInt (bump_turn_count (dget (grp ''activity'' r) ''turn-count'')))
               (dset ''request-ids'' (JList (session_request_ids r @ [JStr rid])) (grp ''activity'' r));
             u = dset ''activity'' (JObj act) r in
         rbind (case pm of None \<Rightarrow> Inr u
                | Some m \<Rightarrow> rbind (turn_metadata rid m (session_provider_metadata u)) (\<lambda>md. Inr (put_metadata md u))) (\<lambda>v.
           let r' = dset ''timing'' (JObj (dset ''updated-at'' (JStr now) (dset ''last-activity-at'' (JStr now) (grp ''timing'' v)))) v in
           Inr (SWrite r' r' (Some (''session.turn.recorded'', dget r' ''state'',
             [(''request-id'', JStr rid), (''turn-count'', dget act ''turn-count'')]))))))"

definition record_session_turn :: "('a senv_scheme) \<Rightarrow> string \<Rightarrow> string \<Rightarrow> string \<Rightarrow> dict option \<Rightarrow> sesw \<Rightarrow> dict res \<times> sesw" where
  "record_session_turn E now sid rid pm = session_update E sid (record_turn_body now rid pm)"

section \<open>Retention\<close>

definition retention_claimed :: "string \<Rightarrow> py_error" where
  "retention_claimed sid = ag_error ''CON-AGW-158'' ''session is claimed by a retention operation and cannot be resumed or continued''
     [(''session-id'', JStr sid)]"

definition assert_no_retention_claim :: "('a senv_scheme) \<Rightarrow> string \<Rightarrow> sesw \<Rightarrow> dict res" where
  "assert_no_retention_claim E sid w = rbind (read_session_record E sid w) (\<lambda>r.
     if dget r ''retention-claim'' \<noteq> JNull then Inl (retention_claimed sid) else Inr r)"

definition accepted_turn_body :: "string \<Rightarrow> string \<Rightarrow> dict \<Rightarrow> dict soutcome res" where
  "accepted_turn_body now sid r =
     (if dget r ''retention-claim'' \<noteq> JNull then Inl (retention_claimed sid)
      else (let t = grp ''timing'' r;
                t' = dset ''updated-at'' (JStr now) (dset ''last-accepted-turn-at'' (JStr (max now (text_of (dget t ''last-accepted-turn-at'')))) t);
                r' = dset ''timing'' (JObj t') r
            in Inr (SWrite r' r' None)))"

definition record_accepted_turn :: "('a senv_scheme) \<Rightarrow> string \<Rightarrow> string \<Rightarrow> sesw \<Rightarrow> dict res \<times> sesw" where
  "record_accepted_turn E now sid = session_update E sid (accepted_turn_body now sid)"

definition claim_retention_body :: "string \<Rightarrow> string \<Rightarrow> string \<Rightarrow> dict \<Rightarrow> dict soutcome res" where
  "claim_retention_body now sid op r =
     (if dget r ''retention-claim'' \<noteq> JNull then
        (if dget (grp ''retention-claim'' r) ''operation-id'' = JStr op then Inr (SKeep r) else Inl (retention_claimed sid))
      else if \<not> session_terminal r then
        Inl (ag_error ''CON-AGW-159'' ''only a terminal session can be claimed for retention'' [(''session-id'', JStr sid), (''state'', dget r ''state'')])
      else (let r' = dset ''retention-claim'' (JObj [(''operation-id'', JStr op), (''claimed-at'', JStr now)]) r in Inr (SWrite r' r' None)))"

definition claim_retention :: "('a senv_scheme) \<Rightarrow> string \<Rightarrow> string \<Rightarrow> string \<Rightarrow> sesw \<Rightarrow> dict res \<times> sesw" where
  "claim_retention E now sid op w =
     (if op = [] \<or> 128 < length op then (Inl (ag_error ''VAL-AGW-052'' ''retention claim requires a bounded operation id'' []), w)
      else session_update E sid (claim_retention_body now sid op) w)"

definition begin_deletion_body :: "string \<Rightarrow> string \<Rightarrow> string list \<Rightarrow> string \<Rightarrow> dict \<Rightarrow> dict soutcome res" where
  "begin_deletion_body sid op ids digest r =
     (let claim = grp ''retention-claim'' r in
      if dget r ''retention-claim'' = JNull \<or> dget claim ''operation-id'' \<noteq> JStr op then Inl (retention_claimed sid)
      else if dget claim ''stage'' = JStr ''deleting'' then Inr (SKeep r)
      else (let plan = JObj [(''request-ids'', JList (map JStr (sort (remdups ids)))), (''policy-digest'', JStr digest)];
                r' = dset ''retention-claim'' (JObj (dset ''plan'' plan (dset ''stage'' (JStr ''deleting'') claim))) r
            in Inr (SWrite r' r' None)))"

definition begin_retention_deletion :: "('a senv_scheme) \<Rightarrow> string \<Rightarrow> string \<Rightarrow> string list \<Rightarrow> string \<Rightarrow> sesw \<Rightarrow> dict res \<times> sesw" where
  "begin_retention_deletion E sid op ids digest = session_update E sid (begin_deletion_body sid op ids digest)"

definition release_retention_body :: "string \<Rightarrow> string \<Rightarrow> dict \<Rightarrow> dict soutcome res" where
  "release_retention_body sid op r =
     (let claim = grp ''retention-claim'' r in
      if dget r ''retention-claim'' = JNull then Inr (SKeep r)
      else if dget claim ''operation-id'' \<noteq> JStr op then Inl (retention_claimed sid)
      else if dget claim ''stage'' = JStr ''deleting'' then
        Inl (ag_error ''CON-AGW-168'' ''destruction has begun under this retention claim; it can only be completed'' [(''session-id'', JStr sid)])
      else (let r' = dpop ''retention-claim'' r in Inr (SWrite r' r' None)))"

definition release_retention_claim :: "('a senv_scheme) \<Rightarrow> string \<Rightarrow> string \<Rightarrow> sesw \<Rightarrow> dict res \<times> sesw" where
  "release_retention_claim E sid op = session_update E sid (release_retention_body sid op)"

section \<open>The first provider binding\<close>

definition durable_state :: "('a senv_scheme) \<Rightarrow> sesw \<Rightarrow> string \<Rightarrow> json option" where
  "durable_state E w sid = (case read_session_record E sid w of Inl e \<Rightarrow> None | Inr r \<Rightarrow> Some (dget r ''state''))"

definition register_in :: "('a senv_scheme) \<Rightarrow> string \<Rightarrow> dict \<Rightarrow> sesw \<Rightarrow> unit res \<times> sesw" where
  "register_in E now r w = (case register_open_binding (durable_state E w) now r (sw_index w) of (x, idx) \<Rightarrow> (x, w\<lparr>sw_index := idx\<rparr>))"

definition same_binding :: "dict \<Rightarrow> json \<Rightarrow> json \<Rightarrow> json \<Rightarrow> bool" where
  "same_binding b pid surface ref \<longleftrightarrow> jeq (dget b ''provider-session-ref'') ref \<and> jeq (dget b ''provider-id'') pid \<and> jeq (dget b ''surface-id'') surface"

definition first_binding :: "('a senv_scheme) \<Rightarrow> string \<Rightarrow> string \<Rightarrow> string \<Rightarrow> string \<Rightarrow> string \<Rightarrow> string \<Rightarrow> binding_args \<Rightarrow> dict \<Rightarrow> dict res" where
  "first_binding E fresh now sid pid surface ref ident r =
     (if is_dict (dget r ''binding'') then
        (if same_binding (grp ''binding'' r) (JStr pid) (JStr surface) (JStr ref) then Inr r
         else Inl (ag_error ''CON-AGW-120'' ''provider session binding is immutable within a session generation'' [(''session-id'', JStr sid)]))
      else rbind (build_binding E fresh now (ident\<lparr>ba_provider_id := Some pid, ba_ref := Some ref, ba_surface_id := Some surface\<rparr>)) (\<lambda>b.
        Inr (dset ''binding'' b (if is_dict (dget r ''provider'') then r else dset ''provider'' (JObj []) r))))"

definition initial_binding :: "('a senv_scheme) \<Rightarrow> string \<Rightarrow> string \<Rightarrow> string \<Rightarrow> string \<Rightarrow> string \<Rightarrow> string \<Rightarrow> binding_args \<Rightarrow> dict \<Rightarrow> dict \<Rightarrow> dict res" where
  "initial_binding E fresh now sid pid surface ref ident md r =
     (if truthy (session_provider_id r) \<and> session_provider_id r \<noteq> JStr pid then
        Inl (ag_error ''CON-AGW-120'' ''provider binding does not match the admitted session provider'' [(''session-id'', JStr sid), (''provider-id'', JStr pid)])
      else rbind (first_binding E fresh now sid pid surface ref ident r) (\<lambda>r1.
        Inr (touch now (if md = [] then r1 else put_metadata (dupd (session_provider_metadata r1) (unfenced md)) r1))))"

definition install_initial_provider_binding :: "('a senv_scheme) \<Rightarrow> string \<Rightarrow> string \<Rightarrow> string \<Rightarrow> string \<Rightarrow> string \<Rightarrow> string \<Rightarrow>
    binding_args \<Rightarrow> dict \<Rightarrow> sesw \<Rightarrow> dict res \<times> sesw" where
  "install_initial_provider_binding E fresh now sid pid surface ref ident md w =
     (case rbind (read_session_record E sid w) (\<lambda>r. rbind (initial_binding E fresh now sid pid surface ref ident md r) (\<lambda>r'.
             rbind (validate_session E ''VAL-AGW-120'' r') (\<lambda>_. Inr r'))) of
        Inl e \<Rightarrow> (Inl e, w)
      | Inr r' \<Rightarrow> (case register_in E now r' w of
           (Inl e, w1) \<Rightarrow> (Inl e, w1)
         | (Inr _, w1) \<Rightarrow> (Inr r', put_session sid r' w1)))"

end
