(* ===== verification/Session_Checkpoints.thy ===== *)
theory Session_Checkpoints
  imports Session_Records
begin

text \<open>
  The submission checkpoint of a session (\<open>gateway/session/sessions_store.py\<close>, the calls fenced by the
  request's dispatch owner): which turn is unresolved, how far its prompt got towards the provider
  (prepared, dispatching, proven), the recovery claim on a prepared turn with its generation, and the
  budget of conversation loads.  Every call holds the request lock and the session lock; it reads
  the request record (which may migrate the file), checks the owner, reads the session, decides and writes
  at most one successor.  Metadata values a caller passes are JSON, keys to remove are text.
\<close>

section \<open>Project of a conversation URL\<close>

text \<open>\<open>urlsplit(url).path\<close> for an ASCII host; a host with one bracket only raises.\<close>

definition is_c0_or_space :: "char \<Rightarrow> bool" where
  "is_c0_or_space c \<longleftrightarrow> (of_char c :: nat) \<le> 32"

definition is_alpha :: "char \<Rightarrow> bool" where
  "is_alpha c \<longleftrightarrow> 97 \<le> (of_char (lower_char c) :: nat) \<and> (of_char (lower_char c) :: nat) \<le> 122"

definition strip_scheme :: "string \<Rightarrow> string" where
  "strip_scheme u = (let s = takeWhile (\<lambda>c. c \<noteq> CHR '':'') u in
     if length s < length u \<and> s \<noteq> [] \<and> is_alpha (hd s) \<and> list_all (\<lambda>c. is_alpha c \<or> is_digit c \<or> c \<in> set ''+-.'') s
     then drop (length s + 1) u else u)"

definition url_path :: "string \<Rightarrow> string res" where
  "url_path url =
     (let u = strip_scheme (filter (\<lambda>c. c \<notin> {CHR 0x09, CHR 0x0A, CHR 0x0D}) (dropWhile is_c0_or_space url));
          host = (if take 2 u = ''//'' then takeWhile (\<lambda>c. c \<notin> set ''/?#'') (drop 2 u) else []);
          rest = (if take 2 u = ''//'' then drop (length host) (drop 2 u) else u)
      in if (CHR ''['' \<in> set host) \<noteq> (CHR '']'' \<in> set host) then Inl (ValueError ''Invalid IPv6 URL'')
         else Inr (takeWhile (\<lambda>c. c \<noteq> CHR ''?'') (takeWhile (\<lambda>c. c \<noteq> CHR ''#'') rest)))"

text \<open>The leftmost match of \<open>/g/(g-p-[^/]+)\<close>.\<close>

fun find_project :: "string \<Rightarrow> string option" where
  "find_project [] = None"
| "find_project (c # s) =
     (let m = takeWhile (\<lambda>c. c \<noteq> CHR ''/'') (drop 6 s) in
      if starts_with ''/g/g-p-'' (c # s) \<and> m \<noteq> [] then Some (''g-p-'' @ m) else find_project s)"

definition is_hex :: "char \<Rightarrow> bool" where
  "is_hex c \<longleftrightarrow> is_digit c \<or> lower_char c \<in> set ''abcdef''"

definition stable_project :: "string \<Rightarrow> string" where
  "stable_project p =
     (if 36 \<le> length p \<and> list_all is_hex (take 32 (drop 4 p)) \<and> (length p = 36 \<or> p ! 36 = CHR ''-'') then lower (take 36 p) else p)"

definition parse_project_id :: "string \<Rightarrow> json res" where
  "parse_project_id url = rbind (url_path url) (\<lambda>path. Inr (case find_project path of None \<Rightarrow> JNull | Some p \<Rightarrow> JStr (stable_project p)))"

section \<open>The owner fence\<close>

record cowner =
  co_epoch :: string
  co_worker :: string
  co_attempt :: int

definition ids :: "string \<Rightarrow> string \<Rightarrow> dict" where
  "ids rid sid = [(''request-id'', JStr rid), (''session-id'', JStr sid)]"

definition con125 :: "string \<Rightarrow> string \<Rightarrow> string \<Rightarrow> py_error" where
  "con125 rid sid msg = ag_error ''CON-AGW-125'' msg (ids rid sid)"

definition request_is_owned :: "bool \<Rightarrow> dict \<Rightarrow> bool" where
  "request_is_owned allow req \<longleftrightarrow> dget req ''state'' = JStr ''running'' \<or>
     (allow \<and> dget req ''state'' = JStr ''queued'' \<and> dget req ''recovery-required'' \<noteq> JBool True)"

definition owner_facts :: "bool \<Rightarrow> string \<Rightarrow> cowner \<Rightarrow> dict \<Rightarrow> dict" where
  "owner_facts allow sid ow req =
     [(''request-state-owned'', JBool (request_is_owned allow req)), (''session-id-matches'', JBool (dget req ''session-id'' = JStr sid)),
      (''dispatch-owner-epoch-matches'', JBool (dget req ''dispatch-owner-epoch'' = JStr (co_epoch ow))),
      (''worker-id-matches'', JBool (dget req ''worker-id'' = JStr (co_worker ow))),
      (''attempt-epoch-matches'', JBool (jeq (dget req ''attempt-epoch'') (JInt (co_attempt ow)))),
      (''allow-queued-pre-send'', JBool allow), (''recovery-required'', JBool (dget req ''recovery-required'' = JBool True))]"

definition owns_request :: "bool \<Rightarrow> string \<Rightarrow> cowner \<Rightarrow> dict \<Rightarrow> bool" where
  "owns_request allow sid ow req \<longleftrightarrow> list_all (\<lambda>(k, v). v = JBool True) (take 5 (owner_facts allow sid ow req))"

text \<open>The project a request or a session names: its own field, else the one in its URL.\<close>

definition project_text :: "('a senv_scheme) \<Rightarrow> json \<Rightarrow> string" where
  "project_text E v = (case v of JStr s \<Rightarrow> s | _ \<Rightarrow> py_text E v)"

definition named_project :: "('a senv_scheme) \<Rightarrow> json \<Rightarrow> dict \<Rightarrow> json res" where
  "named_project E direct md = (if is_str direct \<and> truthy direct then Inr direct
     else parse_project_id (project_text E (por (dget md ''project-url'') (por (dget md ''chat-url'') (JStr [])))))"

definition same_project :: "('a senv_scheme) \<Rightarrow> dict \<Rightarrow> dict \<Rightarrow> bool res" where
  "same_project E req ses =
     (if session_provider_id ses \<noteq> JStr ''gpt-auto'' then Inr True
      else (let rmd = grp ''provider-metadata'' req; smd = session_provider_metadata ses in
        rbind (named_project E (por (dget req ''project-id'') (dget rmd ''project-id'')) rmd) (\<lambda>a.
        rbind (named_project E (dget smd ''project-id'') smd) (\<lambda>b.
        Inr (is_str a \<and> truthy a \<and> is_str b \<and> truthy b \<and> a = b)))))"

definition assert_request_dispatch_owner :: "('a senv_scheme) \<Rightarrow> bool \<Rightarrow> string \<Rightarrow> string \<Rightarrow> cowner \<Rightarrow> sesw \<Rightarrow> dict res \<times> sesw" where
  "assert_request_dispatch_owner E allow rid sid ow w = (case read_record E True rid (sw_proj w) of
     (Inl e, p) \<Rightarrow> (Inl e, w\<lparr>sw_proj := p\<rparr>)
   | (Inr req, p) \<Rightarrow>
      (if \<not> owns_request allow sid ow req then
         Inl (ag_error ''CON-AGW-125'' ''prepared submission recovery lost its request owner fence''
           (ids rid sid @ [(''request-owner-fence'', JObj (owner_facts allow sid ow req))]))
       else rbind (read_session_record E sid w) (\<lambda>ses. rbind (same_project E req ses) (\<lambda>ok.
         if ok then Inr req
         else Inl (con125 rid sid ''prepared recovery request and session do not prove the same GPT project''))),
       w\<lparr>sw_proj := p\<rparr>))"

text \<open>A call of the owner: the fence, then one session update that may look at the request.\<close>

definition owned_session_update :: "('a senv_scheme) \<Rightarrow> bool \<Rightarrow> string \<Rightarrow> string \<Rightarrow> cowner \<Rightarrow> (dict \<Rightarrow> dict \<Rightarrow> 'r soutcome res) \<Rightarrow>
    sesw \<Rightarrow> 'r res \<times> sesw" where
  "owned_session_update E allow rid sid ow body w = (case assert_request_dispatch_owner E allow rid sid ow w of
     (Inl e, w1) \<Rightarrow> (Inl e, w1)
   | (Inr req, w1) \<Rightarrow> session_update E sid (body req) w1)"

definition write_checkpoint :: "string \<Rightarrow> dict \<Rightarrow> dict \<Rightarrow> dict" where
  "write_checkpoint now md r = touch now (put_metadata md r)"

section \<open>The conversation load budget\<close>

datatype budget_action = BRead | BIncrement "json \<times> json" | BReset "json \<times> json"

definition budget_error :: "string \<Rightarrow> py_error" where
  "budget_error msg = ag_error ''CON-AGW-125'' msg []"

fun nonneg_int :: "json \<Rightarrow> bool" where
  "nonneg_int (JInt i) = (0 \<le> i)"
| "nonneg_int _ = False"

definition budget_next :: "int \<Rightarrow> budget_action \<Rightarrow> int \<times> int \<Rightarrow> (int \<times> int) option" where
  "budget_next maximum act cur = (case act of
     BRead \<Rightarrow> None
   | BIncrement (a, b) \<Rightarrow> if a = JInt (fst cur) \<and> b = JInt (snd cur) \<and> fst cur < maximum then Some (fst cur + 1, snd cur + 1) else None
   | BReset (a, b) \<Rightarrow> if a = JInt (fst cur) \<and> b = JInt (snd cur) then Some (0, snd cur + 1) else None)"

definition load_budget_body :: "string \<Rightarrow> string \<Rightarrow> int \<Rightarrow> budget_action \<Rightarrow> dict \<Rightarrow> dict \<Rightarrow> (int \<times> int) soutcome res" where
  "load_budget_body now rid maximum act req r =
     (let md = session_provider_metadata r; turn = dget md ''unresolved-turn-id'' in
      case (dget_or md ''conversation-load-recovery-attempts'' (JInt 0), dget_or md ''conversation-load-recovery-revision'' (JInt 0)) of
        (JInt cnt, JInt revision) \<Rightarrow>
          if cnt < 0 \<or> revision < 0 \<or> turn \<notin> {JNull, JStr rid} \<or> (dget md ''unresolved-turn-pending'' = JBool True \<and> turn \<noteq> JStr rid)
          then Inl (budget_error ''conversation load budget has invalid or foreign authority'')
          else if act = BRead then Inr (SKeep (cnt, revision))
          else (case budget_next maximum act (cnt, revision) of
             None \<Rightarrow> Inl (budget_error ''conversation load budget compare-and-swap rejected'')
           | Some (c, v) \<Rightarrow> Inr (SWrite (write_checkpoint now (dupd md [(''conversation-load-recovery-attempts'', JInt c),
               (''conversation-load-recovery-revision'', JInt v)]) r) (c, v) None))
      | _ \<Rightarrow> Inl (budget_error ''conversation load budget has invalid or foreign authority''))"

definition owned_conversation_load_budget :: "('a senv_scheme) \<Rightarrow> string \<Rightarrow> string \<Rightarrow> string \<Rightarrow> cowner \<Rightarrow> int \<Rightarrow> budget_action \<Rightarrow> sesw \<Rightarrow>
    (int \<times> int) res \<times> sesw" where
  "owned_conversation_load_budget E now sid rid ow maximum act w =
     (if maximum < 0 \<or> 1000000 < maximum \<or> co_attempt ow < 0 \<or> co_epoch ow = [] \<or> co_worker ow = []
      then (Inl (ValueError ''invalid conversation load budget operation''), w)
      else owned_session_update E False rid sid ow (load_budget_body now rid maximum act) w)"

section \<open>Annotation and clearing\<close>

definition manual_reconcile_body :: "string \<Rightarrow> string \<Rightarrow> string \<Rightarrow> dict \<Rightarrow> dict \<Rightarrow> unit soutcome res" where
  "manual_reconcile_body now rid sid req r =
     (let md = session_provider_metadata r in
      if dget md ''unresolved-turn-pending'' \<noteq> JBool True \<or> dget md ''unresolved-turn-id'' \<noteq> JStr rid
      then Inl (con125 rid sid ''manual reconciliation annotation requires the current unresolved turn'')
      else Inr (SWrite (write_checkpoint now (dset ''recovery-state'' (JStr ''manual-reconcile-required'') md) r) () None))"

definition annotate_owned_manual_reconciliation :: "('a senv_scheme) \<Rightarrow> string \<Rightarrow> string \<Rightarrow> string \<Rightarrow> cowner \<Rightarrow> sesw \<Rightarrow> unit res \<times> sesw" where
  "annotate_owned_manual_reconciliation E now sid rid ow = owned_session_update E False rid sid ow (manual_reconcile_body now rid sid)"

definition UNSENT_STAGES :: "json list" where
  "UNSENT_STAGES = [JStr ''dispatching'', JStr ''composer-focused'', JStr ''composer-filled'', JStr ''composer-validated'']"

definition exact_unsent :: "string \<Rightarrow> string \<Rightarrow> dict \<Rightarrow> dict \<Rightarrow> bool res" where
  "exact_unsent rid attempt req md =
     (if dget req ''recovery-required'' = JBool True \<or> dget md ''unresolved-turn-id'' \<noteq> JStr rid \<or>
         dget md ''unresolved-turn-pending'' \<noteq> JBool True \<or> dget md ''submission-state'' \<noteq> JStr ''dispatching'' \<or> attempt = [] \<or>
         dget md ''submission-attempt-id'' \<noteq> JStr attempt \<or> dget md ''send-intent-ever'' \<noteq> JBool False \<or>
         dget md ''submission-proven'' = JBool True then Inr False
      else rbind (in_set (dget md ''submission-stage'') UNSENT_STAGES) (\<lambda>known.
        Inr (known \<and> dget md ''submission-recovery-claim'' = JNull \<and> dget md ''submission-recovery-generation'' = JNull)))"

definition clear_unsent_body :: "string \<Rightarrow> string \<Rightarrow> string \<Rightarrow> string \<Rightarrow> dict \<Rightarrow> dict \<Rightarrow> unit soutcome res" where
  "clear_unsent_body now rid sid attempt req r =
     rbind (exact_unsent rid attempt req (session_provider_metadata r)) (\<lambda>ok.
       if \<not> ok then Inl (con125 rid sid ''unsent checkpoint retirement requires the exact current no-Send attempt'')
       else Inr (SWrite (write_checkpoint now (dset ''unresolved-turn-pending'' (JBool False)
         (fold dpop RECOVERY_CHECKPOINT_KEYS (session_provider_metadata r))) r) () None))"

definition clear_owned_unsent_submission_checkpoint :: "('a senv_scheme) \<Rightarrow> string \<Rightarrow> string \<Rightarrow> string \<Rightarrow> string \<Rightarrow> cowner \<Rightarrow> sesw \<Rightarrow> unit res \<times> sesw" where
  "clear_owned_unsent_submission_checkpoint E now sid rid attempt ow = owned_session_update E False rid sid ow (clear_unsent_body now rid sid attempt)"

definition snapshot_differs :: "dict \<Rightarrow> dict \<Rightarrow> bool" where
  "snapshot_differs expected md \<longleftrightarrow> list_ex (\<lambda>k. dhas expected k \<noteq> dhas md k \<or> (dhas expected k \<and> \<not> jeq (dget expected k) (dget md k))) RECOVERY_CHECKPOINT_KEYS"

record clear_args =
  ca_recovery_state :: string
  ca_remove :: "string list"
  ca_expected :: "dict option"
  ca_frozen_binding :: "json option"
  ca_new_binding :: dict

text \<open>\<open>ca_frozen_binding\<close> is the expected binding where the caller asks for the check.\<close>

definition clear_terminal_body :: "string \<Rightarrow> string \<Rightarrow> clear_args \<Rightarrow> dict \<Rightarrow> bool soutcome res" where
  "clear_terminal_body now rid a r =
     (let md = session_provider_metadata r in
      if (case ca_frozen_binding a of Some b \<Rightarrow> \<not> jeq (dget r ''binding'') b | None \<Rightarrow> False) then Inr (SKeep False)
      else if dget md ''unresolved-turn-id'' \<noteq> JStr rid then Inr (SKeep False)
      else if (case ca_expected a of Some x \<Rightarrow> snapshot_differs x md | None \<Rightarrow> False) then Inr (SKeep False)
      else Inr (SWrite (write_checkpoint now (dupd (fold dpop (ca_remove a) (dset ''recovery-state'' (JStr (ca_recovery_state a))
             (dset ''unresolved-turn-pending'' (JBool False) md))) (ca_new_binding a)) r) True None))"

definition clear_terminal_submission_checkpoint :: "('a senv_scheme) \<Rightarrow> string \<Rightarrow> string \<Rightarrow> string \<Rightarrow> clear_args \<Rightarrow> sesw \<Rightarrow> bool res \<times> sesw" where
  "clear_terminal_submission_checkpoint E now sid rid a w = (case read_record E True rid (sw_proj w) of
     (Inl e, p) \<Rightarrow> (Inl e, w\<lparr>sw_proj := p\<rparr>)
   | (Inr req, p) \<Rightarrow>
      (let w1 = w\<lparr>sw_proj := p\<rparr> in
       if dget req ''state'' \<notin> JStr ` set TERMINAL_STATES \<or> dget req ''session-id'' \<noteq> JStr sid then
         (Inl (con125 rid sid ''provider checkpoint cleanup requires a terminal request bound to the session''), w1)
       else if \<not> list_all (\<lambda>k. k \<in> set RECOVERY_CHECKPOINT_KEYS - {''unresolved-turn-pending'', ''submission-recovery-claim''}) (ca_remove a) then
         (Inl (con125 rid sid ''terminal provider checkpoint cleanup contains unsupported fields''), w1)
       else if \<not> list_all (\<lambda>(k, v). k \<in> {''chat-url'', ''provider-session-id'', ''project-url'', ''chat-title'', ''target-id''}) (ca_new_binding a) then
         (Inl (con125 rid sid ''terminal checkpoint binding update contains unsupported fields''), w1)
       else session_update E sid (clear_terminal_body now rid a) w1))"

section \<open>Observation progress\<close>

definition STAGE_ORDER :: "(string \<times> nat) list" where
  "STAGE_ORDER = [(''dispatching'', 0), (''composer-focused'', 1), (''composer-filled'', 2), (''composer-validated'', 3),
     (''send-intent'', 4), (''send-click-acknowledged'', 5)]"

definition stage_order :: "json \<Rightarrow> nat option" where
  "stage_order v = (case v of JStr s \<Rightarrow> map_of STAGE_ORDER s | _ \<Rightarrow> None)"

definition validate_submission_observation_progress :: "dict \<Rightarrow> dict \<Rightarrow> string \<Rightarrow> string \<Rightarrow> unit res" where
  "validate_submission_observation_progress md upd rid sid =
     (let attempt = dget upd ''submission-attempt-id''; stage = dget upd ''submission-stage''; intent = dget upd ''send-intent-ever'';
          fail = con125 rid sid in
      rbind (guard_r (attempt = JNull \<or> (case attempt of JStr s \<Rightarrow> s \<noteq> [] \<and> length s \<le> 64 | _ \<Rightarrow> False))
        (fail ''submission observation attempt identity is invalid'')) (\<lambda>_.
      rbind (guard_r (attempt = JNull \<or> dget md ''submission-attempt-id'' = JNull \<or> jeq attempt (dget md ''submission-attempt-id''))
        (fail ''submission observation attempt identity cannot change'')) (\<lambda>_.
      rbind (guard_r (stage = JNull \<or> hashable stage) TypeError) (\<lambda>_.
      rbind (guard_r (stage = JNull \<or> stage_order stage \<noteq> None) (fail ''submission observation stage is invalid'')) (\<lambda>_.
      rbind (guard_r (case (stage_order stage, stage_order (dget md ''submission-stage'')) of (Some a, Some b) \<Rightarrow> b \<le> a | _ \<Rightarrow> True)
        (fail ''submission observation stage cannot move backwards'')) (\<lambda>_.
      rbind (guard_r (intent = JNull \<or> intent = JBool True \<or> intent = JBool False) (fail ''submission send-intent latch must be boolean'')) (\<lambda>_.
      rbind (guard_r (\<not> (dget md ''send-intent-ever'' = JBool True \<and> intent = JBool False)) (fail ''submission send-intent latch cannot be cleared'')) (\<lambda>_.
      guard_r (case stage_order stage of Some a \<Rightarrow> a < 4 \<or> (if intent \<noteq> JNull then intent else dget md ''send-intent-ever'') = JBool True | None \<Rightarrow> True)
        (fail ''send-intent observation requires the durable send-intent latch'')))))))))"

definition FRESH_SUBMISSION_DEFAULT_REMOVALS :: "string list" where
  "FRESH_SUBMISSION_DEFAULT_REMOVALS = [''submission-proven'', ''prompt-message-id'', ''assistant-message-id'', ''assistant-before-message-id'',
     ''assistant-before-id'', ''terminal-evidence'', ''prompt-text-digest'']"

text \<open>The two fields whose default may be stored as false.\<close>

definition false_default :: "dict \<Rightarrow> string \<Rightarrow> bool" where
  "false_default d k \<longleftrightarrow> k \<in> {''unresolved-turn-pending'', ''submission-proven''} \<and> dget d k = JBool False"

definition fresh_checkpoint_removals_are_safe :: "dict \<Rightarrow> dict \<Rightarrow> string list \<Rightarrow> bool" where
  "fresh_checkpoint_removals_are_safe md upd rm \<longleftrightarrow> list_all (\<lambda>k. k \<in> set FRESH_SUBMISSION_DEFAULT_REMOVALS \<and>
     (dhas upd k \<longrightarrow> false_default upd k) \<and> (k \<in> set RECOVERY_CHECKPOINT_KEYS \<and> dhas md k \<longrightarrow> false_default md k)) rm"

section \<open>Claiming a prepared turn\<close>

text \<open>\<open>max(a, b)\<close> on numbers and on texts; the stored generations are written by this module only.\<close>

definition py_max :: "json \<Rightarrow> json \<Rightarrow> json res" where
  "py_max a b = (case (num_of a, num_of b) of
     (Some x, Some y) \<Rightarrow> Inr (if x < y then b else a)
   | _ \<Rightarrow> (case (a, b) of (JStr s, JStr t) \<Rightarrow> Inr (if s < t then b else a) | _ \<Rightarrow> Inl TypeError))"

definition claim_expired :: "('a senv_scheme) \<Rightarrow> rat \<Rightarrow> dict \<Rightarrow> bool" where
  "claim_expired E clock c = (case parse_aware E (project_text E (dget c ''lease-expires-at'')) of None \<Rightarrow> False | Some t \<Rightarrow> t \<le> clock)"

definition claim_owner_is :: "cowner \<Rightarrow> dict \<Rightarrow> bool" where
  "claim_owner_is ow c \<longleftrightarrow> dget c ''dispatch-owner-epoch'' = JStr (co_epoch ow) \<and> dget c ''worker-id'' = JStr (co_worker ow) \<and>
     jeq (dget c ''attempt-epoch'') (JInt (co_attempt ow))"

definition next_generation :: "json \<Rightarrow> int" where
  "next_generation g = (case py_int g of Inr n \<Rightarrow> max 0 n + 1 | Inl _ \<Rightarrow> 1)"

definition prepared_unsent :: "string \<Rightarrow> dict \<Rightarrow> bool" where
  "prepared_unsent rid md \<longleftrightarrow> dget md ''unresolved-turn-pending'' = JBool True \<and> dget md ''unresolved-turn-id'' = JStr rid \<and>
     dget md ''submission-state'' = JStr ''prepared'' \<and> dget md ''submission-proven'' = JBool False"

definition recovery_claim_of :: "string \<Rightarrow> int \<Rightarrow> cowner \<Rightarrow> string \<Rightarrow> dict" where
  "recovery_claim_of cid gen ow expires = [(''claim-id'', JStr cid), (''generation'', JInt gen), (''dispatch-owner-epoch'', JStr (co_epoch ow)),
     (''worker-id'', JStr (co_worker ow)), (''attempt-epoch'', JInt (co_attempt ow)), (''lease-expires-at'', JStr expires)]"

text \<open>\<open>clock\<close> is the time as a number, \<open>now\<close> as text; \<open>cid\<close> is the fresh claim identifier.\<close>

definition claim_prepared_body :: "('a senv_scheme) \<Rightarrow> rat \<Rightarrow> string \<Rightarrow> string \<Rightarrow> string \<Rightarrow> string \<Rightarrow> cowner \<Rightarrow> rat \<Rightarrow> dict \<Rightarrow> dict \<Rightarrow> dict soutcome res" where
  "claim_prepared_body E clock now cid rid sid ow lease req r =
     (let md = session_provider_metadata r; gen0 = dget_or md ''submission-recovery-generation'' (JInt 0) in
      rbind (guard_r (dget r ''state'' = JStr ''active'' \<and> prepared_unsent rid md)
        (con125 rid sid ''prepared submission checkpoint changed before recovery claim'')) (\<lambda>_.
      rbind (case dget md ''submission-recovery-claim'' of
          JObj c \<Rightarrow> (if claim_owner_is ow c \<and> \<not> claim_expired E clock c then Inl (con125 rid sid ''prepared submission recovery is already claimed'')
            else py_max gen0 (dget_or c ''generation'' (JInt 0)))
        | _ \<Rightarrow> Inr gen0) (\<lambda>g.
      let gen = next_generation g; claim = recovery_claim_of cid gen ow (add_seconds E now (max 1 lease)) in
      Inr (SWrite (write_checkpoint now (dset ''submission-recovery-generation'' (JInt gen) (dset ''submission-recovery-claim'' (JObj claim) md)) r) claim None))))"

definition claim_prepared_submission_recovery :: "('a senv_scheme) \<Rightarrow> rat \<Rightarrow> string \<Rightarrow> string \<Rightarrow> string \<Rightarrow> string \<Rightarrow> cowner \<Rightarrow> rat \<Rightarrow> sesw \<Rightarrow> dict res \<times> sesw" where
  "claim_prepared_submission_recovery E clock now cid sid rid ow lease =
     owned_session_update E True rid sid ow (claim_prepared_body E clock now cid rid sid ow lease)"

definition holds_claim :: "string \<Rightarrow> string \<Rightarrow> cowner \<Rightarrow> dict \<Rightarrow> bool" where
  "holds_claim rid cid ow md \<longleftrightarrow> prepared_unsent rid md \<and> (case dget md ''submission-recovery-claim'' of
     JObj c \<Rightarrow> dget c ''claim-id'' = JStr cid \<and> claim_owner_is ow c \<and> jeq (dget c ''generation'') (dget md ''submission-recovery-generation'')
   | _ \<Rightarrow> False)"

definition assert_prepared_claim :: "string \<Rightarrow> string \<Rightarrow> string \<Rightarrow> cowner \<Rightarrow> dict \<Rightarrow> unit res" where
  "assert_prepared_claim rid sid cid ow r = guard_r (holds_claim rid cid ow (session_provider_metadata r))
     (con125 rid sid ''prepared submission recovery claim was lost before provider action'')"

definition assert_prepared_submission_recovery_claim :: "('a senv_scheme) \<Rightarrow> string \<Rightarrow> string \<Rightarrow> string \<Rightarrow> cowner \<Rightarrow> sesw \<Rightarrow> unit res \<times> sesw" where
  "assert_prepared_submission_recovery_claim E sid rid cid ow =
     owned_session_update E True rid sid ow (\<lambda>req r. rbind (assert_prepared_claim rid sid cid ow r) (\<lambda>u. Inr (SKeep u)))"

text \<open>The frozen identity an update may repeat but not replace.\<close>

definition replaces_identity :: "dict \<Rightarrow> dict \<Rightarrow> bool" where
  "replaces_identity md upd \<longleftrightarrow> list_ex (\<lambda>k. dhas upd k \<and> dhas md k \<and> \<not> jeq (dget upd k) (dget md k)) RECOVERY_IDENTITY_KEYS"

definition removal_details :: "string \<Rightarrow> string \<Rightarrow> dict \<Rightarrow> string list \<Rightarrow> dict" where
  "removal_details rid sid upd rm = ids rid sid @ [(''checkpoint-diagnostics'', JObj
     [(''removal-count'', JInt (int (length rm))),
      (''protected-removal-count'', JInt (int (length (remdups (filter (\<lambda>k. k \<in> set RECOVERY_CHECKPOINT_KEYS) rm))))),
      (''removal-conflicts-with-update'', JBool (list_ex (\<lambda>k. dhas upd k \<and> \<not> false_default upd k) rm))])]"

definition advance_body :: "string \<Rightarrow> string \<Rightarrow> string \<Rightarrow> string \<Rightarrow> cowner \<Rightarrow> dict \<Rightarrow> string list \<Rightarrow> dict \<Rightarrow> dict \<Rightarrow> dict soutcome res" where
  "advance_body now rid sid cid ow upd rm req r =
     (let md = session_provider_metadata r in
      rbind (assert_prepared_claim rid sid cid ow r) (\<lambda>_.
      rbind (guard_r (dget upd ''submission-state'' = JStr ''dispatching'') (con125 rid sid ''prepared recovery may only advance to dispatching'')) (\<lambda>_.
      rbind (guard_r (dget upd ''unresolved-turn-pending'' = JBool True \<and> dget upd ''unresolved-turn-id'' = JStr rid \<and> dget upd ''submission-proven'' \<noteq> JBool True)
        (con125 rid sid ''dispatching checkpoint does not preserve the unsent request identity'')) (\<lambda>_.
      rbind (guard_r (\<not> replaces_identity md upd) (con125 rid sid ''dispatching checkpoint cannot replace frozen turn identity'')) (\<lambda>_.
      rbind (guard_r (fresh_checkpoint_removals_are_safe md upd rm)
        (ag_error ''CON-AGW-125'' ''prepared recovery removal is not limited to absent/default fields'' (removal_details rid sid upd rm))) (\<lambda>_.
      rbind (validate_submission_observation_progress md upd rid sid) (\<lambda>_.
      let r' = write_checkpoint now (fold dpop (rm @ [''submission-recovery-claim'']) (dupd md upd)) r in
      Inr (SWrite r' r' None))))))))"

definition replaces_claim :: "dict \<Rightarrow> bool" where
  "replaces_claim upd \<longleftrightarrow> dhas upd ''submission-recovery-claim'' \<or> dhas upd ''submission-recovery-generation''"

definition advance_prepared_submission_to_dispatching :: "('a senv_scheme) \<Rightarrow> string \<Rightarrow> string \<Rightarrow> string \<Rightarrow> dict \<Rightarrow> string \<Rightarrow> cowner \<Rightarrow>
    string list \<Rightarrow> sesw \<Rightarrow> dict res \<times> sesw" where
  "advance_prepared_submission_to_dispatching E now sid rid upd cid ow rm w =
     (if replaces_claim upd then (Inl (con125 rid sid ''provider checkpoint cannot replace recovery claim identity''), w)
      else owned_session_update E True rid sid ow (advance_body now rid sid cid ow upd rm) w)"

definition release_claim_body :: "string \<Rightarrow> string \<Rightarrow> dict \<Rightarrow> bool soutcome res" where
  "release_claim_body now cid r =
     (let md = session_provider_metadata r in
      case dget md ''submission-recovery-claim'' of
        JObj c \<Rightarrow> (if dget c ''claim-id'' \<noteq> JStr cid then Inr (SKeep False)
          else Inr (SWrite (write_checkpoint now (dpop ''submission-recovery-claim'' md) r) True None))
      | _ \<Rightarrow> Inr (SKeep False))"

definition release_prepared_submission_recovery_claim :: "('a senv_scheme) \<Rightarrow> string \<Rightarrow> string \<Rightarrow> string \<Rightarrow> sesw \<Rightarrow> bool res \<times> sesw" where
  "release_prepared_submission_recovery_claim E now sid cid w = (case read_session_record E sid w of
     Inl (AG c m d) \<Rightarrow> (Inr False, w)
   | _ \<Rightarrow> session_update E sid (release_claim_body now cid) w)"

section \<open>Updating the checkpoint\<close>

text \<open>The arguments of an update, the load-budget fields already dropped.\<close>

record cupd =
  cu_update :: dict
  cu_remove :: "string list"
  cu_claim :: "string option"

definition CLEARED_ANNOTATIONS :: "json list" where
  "CLEARED_ANNOTATIONS = [JStr ''terminal-captured'', JStr ''stale-terminal-checkpoint-residue-cleared'', JStr ''orphaned-terminal-fence-cleared'']"

definition unproven :: "dict \<Rightarrow> bool" where
  "unproven md \<longleftrightarrow> dget md ''submission-proven'' = JNull \<or> dget md ''submission-proven'' = JBool False"

text \<open>No field of an earlier turn is left: only defaults, an empty list of alerts and a closing annotation.\<close>

definition no_prior_checkpoint :: "bool \<Rightarrow> dict \<Rightarrow> bool" where
  "no_prior_checkpoint cleared md \<longleftrightarrow> list_all (\<lambda>k. dhas md k \<longrightarrow>
     k \<in> {''unresolved-turn-pending'', ''submission-proven'', ''unresolved-baseline-error-alert-occurrences''} \<or> (cleared \<and> k = ''recovery-state''))
     RECOVERY_CHECKPOINT_KEYS \<and>
   list_all (\<lambda>k. \<not> dhas md k \<or> k = ''unresolved-baseline-error-alert-occurrences'') RECOVERY_IDENTITY_KEYS"

definition fresh_prepared_checkpoint :: "string \<Rightarrow> cupd \<Rightarrow> dict \<Rightarrow> bool res" where
  "fresh_prepared_checkpoint rid u md =
     rbind (in_set (dget md ''recovery-state'') CLEARED_ANNOTATIONS) (\<lambda>cleared.
       Inr (dget md ''submission-state'' = JNull \<and> dget md ''unresolved-turn-pending'' \<noteq> JBool True \<and> no_prior_checkpoint cleared md \<and>
         (dhas md ''unresolved-baseline-error-alert-occurrences'' \<longrightarrow> dget md ''unresolved-baseline-error-alert-occurrences'' = JList []) \<and>
         unproven md \<and> dget (cu_update u) ''submission-state'' = JStr ''prepared'' \<and> dget (cu_update u) ''unresolved-turn-pending'' = JBool True \<and>
         dget (cu_update u) ''unresolved-turn-id'' = JStr rid \<and> dget (cu_update u) ''submission-proven'' = JBool False \<and> cu_claim u = None))"

definition unclaimed :: "dict \<Rightarrow> bool" where
  "unclaimed md \<longleftrightarrow> dget md ''submission-recovery-claim'' = JNull \<and> dget md ''submission-recovery-generation'' = JNull"

definition fresh_prepared_dispatch :: "cupd \<Rightarrow> dict \<Rightarrow> bool" where
  "fresh_prepared_dispatch u md \<longleftrightarrow> dget md ''submission-state'' = JStr ''prepared'' \<and> cu_claim u = None \<and> unclaimed md"

definition check_fresh_checkpoint :: "string \<Rightarrow> string \<Rightarrow> cupd \<Rightarrow> dict \<Rightarrow> dict \<Rightarrow> unit res" where
  "check_fresh_checkpoint rid sid u md req =
     rbind (guard_r (dget req ''recovery-required'' \<noteq> JBool True) (con125 rid sid ''recovered request requires a prepared submission claim'')) (\<lambda>_.
     guard_r (list_all (\<lambda>k. k \<in> set RECOVERY_CHECKPOINT_KEYS \<and> dhas md k \<longrightarrow> false_default md k) (cu_remove u))
       (con125 rid sid ''initial prepared checkpoint cannot remove recovery evidence''))"

definition check_fresh_dispatch :: "string \<Rightarrow> string \<Rightarrow> cupd \<Rightarrow> dict \<Rightarrow> dict \<Rightarrow> unit res" where
  "check_fresh_dispatch rid sid u md req =
     guard_r (dget req ''recovery-required'' \<noteq> JBool True \<and> unclaimed md \<and> dget md ''unresolved-turn-pending'' = JBool True \<and>
         dget md ''unresolved-turn-id'' = JStr rid \<and> unproven md \<and> dget (cu_update u) ''submission-state'' = JStr ''dispatching'' \<and>
         dget (cu_update u) ''unresolved-turn-pending'' = JBool True \<and> dget (cu_update u) ''unresolved-turn-id'' = JStr rid \<and>
         dget (cu_update u) ''submission-proven'' \<noteq> JBool True)
       (con125 rid sid ''fresh prepared checkpoint cannot advance without its request owner'')"

section \<open>Proof of submission\<close>

definition prompt_message_durable :: "json \<Rightarrow> bool" where
  "prompt_message_durable v \<longleftrightarrow> (case v of JStr s \<Rightarrow> strip s \<noteq> [] \<and> \<not> starts_with ''fallback-'' s \<and> \<not> starts_with ''virtualized-prompt-for-'' s | _ \<Rightarrow> False)"

definition counts_match :: "string \<Rightarrow> dict \<Rightarrow> dict \<Rightarrow> bool" where
  "counts_match k md upd \<longleftrightarrow> is_int_strict (dget md k) \<and> jeq (dget upd k) (dget md k)"

definition digest_matches :: "dict \<Rightarrow> dict \<Rightarrow> bool" where
  "digest_matches md upd \<longleftrightarrow> is_str (dget md ''prompt-text-digest'') \<and> truthy (dget md ''prompt-text-digest'') \<and>
     dget upd ''prompt-text-digest'' = dget md ''prompt-text-digest''"

definition user_id_is_new :: "dict \<Rightarrow> dict \<Rightarrow> bool" where
  "user_id_is_new md upd \<longleftrightarrow> \<not> is_str (dget md ''unresolved-baseline-user-id'') \<or>
     dget upd ''prompt-message-id'' \<noteq> dget md ''unresolved-baseline-user-id''"

definition proof_keys_safe :: "dict \<Rightarrow> bool" where
  "proof_keys_safe upd \<longleftrightarrow> list_all (\<lambda>(k, v). k \<in> set RECOVERY_CHECKPOINT_KEYS \<or> k = ''target-id'') upd"

definition dispatching_to_proven :: "string \<Rightarrow> cupd \<Rightarrow> dict \<Rightarrow> dict \<Rightarrow> bool" where
  "dispatching_to_proven rid u md req \<longleftrightarrow> (let upd = cu_update u in
     dget md ''submission-state'' = JStr ''dispatching'' \<and> cu_claim u = None \<and> dget md ''unresolved-turn-pending'' = JBool True \<and>
     dget md ''unresolved-turn-id'' = JStr rid \<and> unproven md \<and> unclaimed md \<and>
     dget upd ''submission-state'' = JStr ''proven'' \<and> dget upd ''unresolved-turn-pending'' = JBool True \<and> dget upd ''unresolved-turn-id'' = JStr rid \<and>
     dget upd ''submission-proven'' = JBool True \<and> dget upd ''submission-proof-source'' = JStr ''provider-user-message'' \<and>
     proof_keys_safe upd \<and> frozen_identity_mismatch_keys md upd = [] \<and> prompt_message_durable (dget upd ''prompt-message-id'') \<and>
     digest_matches md upd \<and> counts_match ''unresolved-baseline-user-count'' md upd \<and>
     counts_match ''unresolved-baseline-assistant-count'' md upd \<and> user_id_is_new md upd \<and> dget req ''recovery-required'' \<noteq> JBool True)"

definition KNOWN_STAGES :: "string list" where
  "KNOWN_STAGES = [''prepared'', ''dispatching'', ''proven'', ''cleared'']"

definition stage_label :: "json \<Rightarrow> json" where
  "stage_label v = (case v of JNull \<Rightarrow> JNull | JStr s \<Rightarrow> if s \<in> set KNOWN_STAGES then JStr s else JStr ''other'' | _ \<Rightarrow> JStr ''other'')"

definition stage_diagnostics :: "string \<Rightarrow> cupd \<Rightarrow> dict \<Rightarrow> dict \<Rightarrow> dict" where
  "stage_diagnostics rid u md req = (let upd = cu_update u in
     [(''observed-stage'', stage_label (dget md ''submission-state'')), (''requested-stage'', stage_label (dget upd ''submission-state'')),
      (''unresolved-turn-pending'', JBool (dget md ''unresolved-turn-pending'' = JBool True)),
      (''turn-id-matches-request'', JBool (dget md ''unresolved-turn-id'' = JStr rid)), (''claim-id-supplied'', JBool (cu_claim u \<noteq> None)),
      (''claim-present'', JBool (dget md ''submission-recovery-claim'' \<noteq> JNull)),
      (''claim-generation-present'', JBool (dget md ''submission-recovery-generation'' \<noteq> JNull)),
      (''submission-proven'', case dget md ''submission-proven'' of JBool b \<Rightarrow> JBool b | _ \<Rightarrow> JStr ''missing-or-invalid''),
      (''request-recovery-required'', JBool (dget req ''recovery-required'' = JBool True)),
      (''proof-source-valid'', JBool (dget upd ''submission-proof-source'' = JStr ''provider-user-message'')),
      (''proof-update-keys-safe'', JBool (proof_keys_safe upd)), (''frozen-identity-unchanged'', JBool (frozen_identity_mismatch_keys md upd = [])),
      (''frozen-identity-mismatch-keys'', JList (map JStr (frozen_identity_mismatch_keys md upd))),
      (''provider-anchor-valid'', JBool (prompt_message_durable (dget upd ''prompt-message-id''))), (''fingerprint-equal'', JBool (digest_matches md upd)),
      (''baseline-user-count-matches'', JBool (counts_match ''unresolved-baseline-user-count'' md upd)),
      (''baseline-assistant-count-matches'', JBool (counts_match ''unresolved-baseline-assistant-count'' md upd)),
      (''baseline-user-id-is-new'', JBool (user_id_is_new md upd)), (''request-owner-is-current'', JBool (dget req ''recovery-required'' \<noteq> JBool True))])"

definition previous_turn_blocks :: "string \<Rightarrow> cupd \<Rightarrow> dict \<Rightarrow> dict \<Rightarrow> bool" where
  "previous_turn_blocks rid u md req \<longleftrightarrow> dget (cu_update u) ''submission-state'' = JStr ''prepared'' \<and> dget md ''unresolved-turn-pending'' = JBool True \<and>
     dget md ''unresolved-turn-id'' \<noteq> JStr rid \<and> unclaimed md \<and> dget req ''recovery-required'' \<noteq> JBool True"

definition stage_error :: "string \<Rightarrow> string \<Rightarrow> cupd \<Rightarrow> dict \<Rightarrow> dict \<Rightarrow> py_error" where
  "stage_error rid sid u md req = ag_error ''CON-AGW-125'' ''owned checkpoint update does not match the current dispatch stage''
     (ids rid sid @ [(''checkpoint-diagnostics'', JObj (stage_diagnostics rid u md req))] @
      (if previous_turn_blocks rid u md req then
         [(''failure-stage'', JStr ''submission''), (''submission-state'', JStr ''not_started''), (''submission-proven'', JBool False),
          (''submission-ambiguous'', JBool False), (''previous-turn-unresolved'', JBool True)] else []))"

text \<open>The stage of a turn that is neither fresh nor prepared: the answer says whether it is the proof.\<close>

definition check_dispatch_stage :: "string \<Rightarrow> string \<Rightarrow> cupd \<Rightarrow> dict \<Rightarrow> dict \<Rightarrow> bool res" where
  "check_dispatch_stage rid sid u md req =
     (let proven = dispatching_to_proven rid u md req in
      if dget md ''unresolved-turn-pending'' = JBool True \<and> dget md ''unresolved-turn-id'' = JStr rid \<and> \<not> hashable (dget md ''submission-state'') then Inl TypeError
      else if dget md ''unresolved-turn-pending'' = JBool True \<and> dget md ''unresolved-turn-id'' = JStr rid \<and>
         dget md ''submission-state'' \<in> {JNull, JStr ''dispatching''} \<and> cu_claim u = None \<and>
         (dget (cu_update u) ''submission-state'' \<noteq> JStr ''proven'' \<or> proven) then Inr proven
      else Inl (stage_error rid sid u md req))"

text \<open>What every branch checks before the write; \<open>fresh\<close> for a fresh checkpoint or dispatch.\<close>

definition changes_stage :: "dict \<Rightarrow> dict \<Rightarrow> bool res" where
  "changes_stage md upd =
     (if \<not> dhas upd ''submission-state'' then Inr False
      else if dget upd ''submission-state'' \<noteq> JStr ''dispatching'' then Inr True
      else rbind (in_set (dget md ''submission-state'') [JNull, JStr ''dispatching'']) (\<lambda>b. Inr (\<not> b)))"

definition checkpoint_guards :: "string \<Rightarrow> string \<Rightarrow> bool \<Rightarrow> bool \<Rightarrow> cupd \<Rightarrow> dict \<Rightarrow> unit res" where
  "checkpoint_guards rid sid fresh prv u md =
     (let upd = cu_update u; fail = con125 rid sid; prepared = dget md ''submission-state'' = JStr ''prepared'';
          protected = list_ex (\<lambda>k. k \<in> set RECOVERY_CHECKPOINT_KEYS) (cu_remove u);
          safe = fresh \<and> fresh_checkpoint_removals_are_safe md upd (cu_remove u) in
      rbind (changes_stage md upd) (\<lambda>ch.
      rbind (guard_r (\<not> ch \<or> fresh \<or> prv) (fail ''owned checkpoint update cannot change submission stage'')) (\<lambda>_.
      rbind (guard_r (\<not> dhas upd ''unresolved-turn-id'' \<or> dget upd ''unresolved-turn-id'' = JStr rid) (fail ''owned checkpoint update cannot change its request identity'')) (\<lambda>_.
      rbind (guard_r (\<not> (prepared \<and> dget upd ''submission-proven'' = JBool True)) (fail ''prepared checkpoint cannot claim a submitted prompt'')) (\<lambda>_.
      rbind (guard_r (\<not> (prepared \<and> dget upd ''unresolved-turn-pending'' = JBool False)) (fail ''prepared checkpoint cannot be completed before dispatch'')) (\<lambda>_.
      rbind (guard_r (dget upd ''unresolved-turn-pending'' \<noteq> JBool False) (fail ''running request cannot clear its recovery checkpoint'')) (\<lambda>_.
      rbind (guard_r (\<not> (dget md ''submission-proven'' = JBool True \<and> dget upd ''submission-proven'' = JBool False))
        (fail ''submission proof cannot regress from proven to unproven'')) (\<lambda>_.
      rbind (guard_r (\<not> replaces_identity md upd) (fail ''owned checkpoint update cannot replace frozen turn identity'')) (\<lambda>_.
      rbind (guard_r (\<not> fresh \<or> safe) (fail ''fresh checkpoint cleanup exceeds the absent/default allowlist'')) (\<lambda>_.
      rbind (guard_r (\<not> (prepared \<and> protected \<and> \<not> safe)) (fail ''prepared recovery evidence cannot be removed before dispatch'')) (\<lambda>_.
      rbind (guard_r (\<not> (protected \<and> \<not> safe)) (fail ''recovery evidence removal requires a terminal request'')) (\<lambda>_.
      validate_submission_observation_progress md upd rid sid))))))))))))"

definition checkpoint_write :: "string \<Rightarrow> cupd \<Rightarrow> dict \<Rightarrow> dict soutcome" where
  "checkpoint_write now u r =
     (let r' = write_checkpoint now (fold dpop (cu_remove u) (dupd (session_provider_metadata r) (cu_update u))) r in SWrite r' r' None)"

text \<open>The branch by stage: \<open>allow\<close> says whether a queued request may own it, the answer whether the
  update is fresh and whether it is the proof.\<close>

definition stage_check :: "string \<Rightarrow> string \<Rightarrow> cowner \<Rightarrow> cupd \<Rightarrow> bool \<Rightarrow> dict \<Rightarrow> dict \<Rightarrow> (bool \<times> bool) res" where
  "stage_check rid sid ow u fresh_cp req r =
     (let md = session_provider_metadata r in
      if fresh_cp then rbind (check_fresh_checkpoint rid sid u md req) (\<lambda>_. Inr (True, False))
      else if fresh_prepared_dispatch u md then rbind (check_fresh_dispatch rid sid u md req) (\<lambda>_. Inr (True, False))
      else if dget md ''submission-state'' = JStr ''prepared'' then
        rbind (assert_prepared_claim rid sid (case cu_claim u of Some c \<Rightarrow> c | None \<Rightarrow> []) ow r) (\<lambda>_. Inr (False, False))
      else rbind (check_dispatch_stage rid sid u md req) (\<lambda>p. Inr (False, p)))"

definition checkpoint_body :: "string \<Rightarrow> string \<Rightarrow> string \<Rightarrow> cowner \<Rightarrow> cupd \<Rightarrow> bool \<Rightarrow> dict \<Rightarrow> dict \<Rightarrow> dict soutcome res" where
  "checkpoint_body now rid sid ow u fresh_cp req r =
     rbind (stage_check rid sid ow u fresh_cp req r) (\<lambda>(fresh, proven).
     rbind (checkpoint_guards rid sid fresh proven u (session_provider_metadata r)) (\<lambda>_.
     Inr (checkpoint_write now u r)))"

definition no_budget_keys :: "dict \<Rightarrow> dict" where
  "no_budget_keys d = filter (\<lambda>(k, v). k \<notin> set LOAD_BUDGET_KEYS) d"

definition update_owned_submission_checkpoint :: "('a senv_scheme) \<Rightarrow> string \<Rightarrow> string \<Rightarrow> string \<Rightarrow> dict \<Rightarrow> cowner \<Rightarrow> string option \<Rightarrow>
    string list \<Rightarrow> sesw \<Rightarrow> dict res \<times> sesw" where
  "update_owned_submission_checkpoint E now sid rid upd0 ow claim rm w =
     (let u = \<lparr>cu_update = no_budget_keys upd0, cu_remove = filter (\<lambda>k. k \<notin> set LOAD_BUDGET_KEYS) rm, cu_claim = claim\<rparr> in
      if replaces_claim (cu_update u) then (Inl (con125 rid sid ''provider checkpoint cannot replace recovery claim identity''), w)
      else case rbind (read_session_record E sid w) (\<lambda>r. let md = session_provider_metadata r in
             rbind (fresh_prepared_checkpoint rid u md) (\<lambda>f. Inr (f, \<not> f \<and> \<not> fresh_prepared_dispatch u md \<and> dget md ''submission-state'' = JStr ''prepared''))) of
        Inl e \<Rightarrow> (Inl e, w)
      | Inr (fresh_cp, claimed) \<Rightarrow>
         (if claimed \<and> claim \<in> {None, Some []} then (Inl (con125 rid sid ''prepared checkpoint update requires its recovery claim''), w)
          else owned_session_update E claimed rid sid ow (checkpoint_body now rid sid ow u fresh_cp) w))"

definition update_provider_metadata :: "('a senv_scheme) \<Rightarrow> string \<Rightarrow> string \<Rightarrow> dict \<Rightarrow> string list \<Rightarrow> (string \<times> cowner) option \<Rightarrow> string option \<Rightarrow>
    sesw \<Rightarrow> dict res \<times> sesw" where
  "update_provider_metadata E now sid md0 rm0 owner claim w =
     (let md = no_budget_keys md0; rm = filter (\<lambda>k. k \<notin> set LOAD_BUDGET_KEYS) rm0 in
      if list_ex (\<lambda>(k, v). k \<in> set RECOVERY_CHECKPOINT_KEYS) md \<or> list_ex (\<lambda>k. k \<in> set RECOVERY_CHECKPOINT_KEYS) rm then
        (case owner of
           Some (rid, ow) \<Rightarrow> if rid \<noteq> [] \<and> co_epoch ow \<noteq> [] \<and> co_worker ow \<noteq> []
             then update_owned_submission_checkpoint E now sid rid md ow claim rm w
             else (Inl (ag_error ''CON-AGW-125'' ''provider recovery checkpoint requires its request-owner fence'' [(''session-id'', JStr sid)]), w)
         | None \<Rightarrow> (Inl (ag_error ''CON-AGW-125'' ''provider recovery checkpoint requires its request-owner fence'' [(''session-id'', JStr sid)]), w))
      else session_update E sid (plain_metadata_body now md rm) w)"

section \<open>Opening the provider again\<close>

definition install_prepared_record :: "('a senv_scheme) \<Rightarrow> string \<Rightarrow> string \<Rightarrow> string \<Rightarrow> string \<Rightarrow> string \<Rightarrow> string \<Rightarrow> string \<Rightarrow> dict \<Rightarrow> binding_args \<Rightarrow> dict \<Rightarrow> dict res" where
  "install_prepared_record E fresh now sid pid surface ref expected bmd ident r =
     (let conflict = (\<lambda>m. ag_error ''CON-AGW-120'' m [(''session-id'', JStr sid)]) in
      rbind (guard_r (\<not> (truthy (session_provider_id r) \<and> session_provider_id r \<noteq> JStr pid)) (conflict ''prepared provider binding conflicts with admitted provider'')) (\<lambda>_.
      rbind (guard_r (strip expected \<noteq> [] \<and> surface = expected) (conflict ''prepared provider binding does not match the admission-frozen surface'')) (\<lambda>_.
      rbind (case dget r ''binding'' of
          JObj b \<Rightarrow> rbind (guard_r (same_binding b (JStr pid) (JStr surface) (JStr ref)) (conflict ''prepared provider binding conflicts with existing session identity'')) (\<lambda>_. Inr r)
        | _ \<Rightarrow> rbind (build_binding E fresh now (ident\<lparr>ba_provider_id := Some pid, ba_ref := Some ref, ba_surface_id := Some surface\<rparr>)) (\<lambda>b. Inr (dset ''binding'' b r))) (\<lambda>r1.
      Inr (write_checkpoint now (dupd (session_provider_metadata r) (unfenced bmd)) r1)))))"

text \<open>The index entry is written before the record.\<close>

definition install_prepared_recovery_binding :: "('a senv_scheme) \<Rightarrow> string \<Rightarrow> string \<Rightarrow> string \<Rightarrow> string \<Rightarrow> string \<Rightarrow> string \<Rightarrow> string \<Rightarrow> string \<Rightarrow> cowner \<Rightarrow>
    string \<Rightarrow> dict \<Rightarrow> binding_args \<Rightarrow> sesw \<Rightarrow> dict res \<times> sesw" where
  "install_prepared_recovery_binding E fresh now sid rid pid surface ref cid ow expected bmd ident w =
     (case assert_request_dispatch_owner E True rid sid ow w of
        (Inl e, w1) \<Rightarrow> (Inl e, w1)
      | (Inr req, w1) \<Rightarrow>
         (case rbind (read_session_record E sid w1) (\<lambda>r. rbind (assert_prepared_claim rid sid cid ow r) (\<lambda>_.
                rbind (install_prepared_record E fresh now sid pid surface ref expected bmd ident r) (\<lambda>r'.
                rbind (validate_session E ''VAL-AGW-120'' r') (\<lambda>_. Inr r')))) of
            Inl e \<Rightarrow> (Inl e, w1)
          | Inr r' \<Rightarrow> (case register_in E now r' w1 of
               (Inl e, w2) \<Rightarrow> (Inl e, w2)
             | (Inr _, w2) \<Rightarrow> session_commit E sid (SWrite r' r' None) w2)))"

definition opened_record_merge :: "('a senv_scheme) \<Rightarrow> string \<Rightarrow> string \<Rightarrow> string \<Rightarrow> dict \<Rightarrow> dict \<Rightarrow> dict res" where
  "opened_record_merge E now sid expected opened r =
     (let conflict = (\<lambda>m. ag_error ''CON-AGW-120'' m [(''session-id'', JStr sid)]); cb = dget r ''binding'' in
      case dget opened ''binding'' of
        JObj ob \<Rightarrow>
          rbind (guard_r (strip expected \<noteq> [] \<and> dget ob ''surface-id'' = JStr expected) (conflict ''provider-open surface differs from the admission-frozen surface'')) (\<lambda>_.
          rbind (guard_r (case cb of JObj b \<Rightarrow> same_binding b (dget ob ''provider-id'') (dget ob ''surface-id'') (dget ob ''provider-session-ref'') | _ \<Rightarrow> True)
            (conflict ''provider-open result conflicts with the committed session binding'')) (\<lambda>_.
          rbind (guard_r (session_provider_id r = JNull \<or> jeq (session_provider_id r) (dget ob ''provider-id''))
            (conflict ''provider-open result conflicts with the admitted session provider'')) (\<lambda>_.
          rbind (guard_r (jeq (dget opened ''execution-profile-id'') (dget r ''execution-profile-id''))
            (conflict ''provider-open profile differs from the admitted session profile'')) (\<lambda>_.
          rbind (py_dict (dget opened ''provider'')) (\<lambda>op. rbind (py_dict (dget op ''metadata'')) (\<lambda>om.
            let prov = dset ''metadata'' (JObj (dupd (session_provider_metadata r) (unfenced om))) (dupd (grp ''provider'' r) (dpop ''metadata'' op)) in
            Inr (touch now (dset ''provider'' (JObj prov) (dset ''provider-transport-kind'' (JStr ''provider-session'') (dset ''binding'' (por cb (JObj ob)) r)))))))))) 
      | _ \<Rightarrow> Inl (conflict ''provider open did not return a durable session binding''))"

text \<open>Here the record comes first; when the index refuses the binding, the record is put back and a binding
  that was not there before is retired.  The caller's callback after the commit is not part of the model.\<close>

definition rollback_open :: "('a senv_scheme) \<Rightarrow> string \<Rightarrow> py_error \<Rightarrow> dict \<Rightarrow> dict \<Rightarrow> sesw \<Rightarrow> dict res \<times> sesw" where
  "rollback_open E now err prev r' w = (case write_session_record E prev w of
     (Inl e, w1) \<Rightarrow> (Inl e, w1)
   | (Inr _, w1) \<Rightarrow>
      (if is_dict (dget prev ''binding'') \<and> jeq (dget (grp ''binding'' prev) ''binding-id'') (dget (grp ''binding'' r') ''binding-id'') then (Inl err, w1)
       else (Inl err, w1\<lparr>sw_index := snd (retire_binding ''failed'' now r' (sw_index w1))\<rparr>)))"

definition commit_prepared_recovery_open :: "('a senv_scheme) \<Rightarrow> string \<Rightarrow> string \<Rightarrow> string \<Rightarrow> dict \<Rightarrow> string \<Rightarrow> cowner \<Rightarrow> string \<Rightarrow> sesw \<Rightarrow> dict res \<times> sesw" where
  "commit_prepared_recovery_open E now sid rid opened cid ow expected w =
     (case assert_request_dispatch_owner E True rid sid ow w of
        (Inl e, w1) \<Rightarrow> (Inl e, w1)
      | (Inr req, w1) \<Rightarrow>
         (case rbind (read_session_record E sid w1) (\<lambda>r. rbind (assert_prepared_claim rid sid cid ow r) (\<lambda>_.
                rbind (opened_record_merge E now sid expected opened r) (\<lambda>r'. rbind (validate_session E ''VAL-AGW-120'' r') (\<lambda>_. Inr (r, r'))))) of
            Inl e \<Rightarrow> (Inl e, w1)
          | Inr (r, r') \<Rightarrow> (case write_session_record E r' w1 of
               (Inl e, w2) \<Rightarrow> (Inl e, w2)
             | (Inr _, w2) \<Rightarrow> (case register_in E now r' w2 of
                  (Inl e, w3) \<Rightarrow> rollback_open E now e r r' w3
                | (Inr _, w3) \<Rightarrow> (Inr r', w3)))))"

end
