(* ===== verification/Session_Contract.thy ===== *)
theory Session_Contract
  imports Session_Checkpoints
begin

text \<open>
  What a session promises: its abstract view (lifecycle state, binding, retention claim, served turns,
  the unresolved turn, the claim generation, the load budget), the moves the view may make, and the
  effect of every call of the two theories before it on the view.
\<close>

section \<open>Validated records\<close>

definition current_session :: "dict \<Rightarrow> bool" where
  "current_session r \<longleftrightarrow> session_schema (JObj r) \<and> dget r ''contract-version'' \<notin> {JStr ''v1'', JStr ''v2''}"

lemma migrate_v2_result:
  assumes "migrate_session_v2 p = Inr q"
  shows "dget q ''session-id'' = dget p ''session-id'' \<and>
    (if dget p ''contract-version'' = JStr ''v2'' then dget q ''contract-version'' = JStr ''v3'' else q = p)"
proof (cases "dget p ''contract-version'' = JStr ''v2''")
  case True
  then have "\<exists>rest. q = (''contract-version'', JStr ''v3'') # (''session-id'', dget p ''session-id'') # rest"
    using assms by (simp only: migrate_session_v2_def rbind_eq_Inr Let_def append_Cons sum.inject simp_thms if_False) (elim exE conjE, blast)
  then show ?thesis using True by (auto simp: dget_Cons)
next
  case False
  then show ?thesis using assms by (simp add: migrate_session_v2_def)
qed

lemma migrate_v1_result:
  assumes "migrate_session_v1 p = Inr q"
  shows "dget q ''session-id'' = dget p ''session-id'' \<and>
    (if dget p ''contract-version'' = JStr ''v1'' then dget q ''contract-version'' = JStr ''v2'' else q = p)"
  using assms by (auto simp: migrate_session_v1_def res_iffs split: if_split_asm)

lemma validate_session_result:
  assumes "validate_session E c p = Inr q"
  shows "current_session q \<and> dget q ''session-id'' = dget p ''session-id'' \<and> (current_session p \<longrightarrow> q = p)"
proof -
  from assms obtain m where m: "migrate_session_v1 p = Inr m" "migrate_session_v2 m = Inr q" "session_schema (JObj q)"
    by (auto simp: validate_session_def res_iffs split: if_split_asm)
  show ?thesis using migrate_v1_result [OF m(1)] migrate_v2_result [OF m(2)] m(3)
    by (auto simp: current_session_def split: if_split_asm)
qed

lemma validate_current [simp]: "current_session r \<Longrightarrow> validate_session E c r = Inr r"
  by (simp add: current_session_def validate_session_def migrate_session_v1_def migrate_session_v2_def)

text \<open>A successor of a current record that is stored is stored as it is.\<close>

lemma validate_version:
  assumes "validate_session E c p = Inr q" "dget p ''contract-version'' = dget r ''contract-version''" "current_session r"
  shows "q = p \<and> current_session p"
proof -
  have v: "dget p ''contract-version'' \<notin> {JStr ''v1'', JStr ''v2''}" using assms(2,3) by (simp add: current_session_def)
  then have "session_schema (JObj p) \<and> q = p"
    using assms(1) by (auto simp: validate_session_def migrate_session_v1_def migrate_session_v2_def split: if_split_asm)
  then show ?thesis using v by (simp add: current_session_def)
qed

section \<open>The stored sessions\<close>

definition ses_of :: "('a senv_scheme) \<Rightarrow> sesw \<Rightarrow> string \<Rightarrow> dict option" where
  "ses_of E w sid = (case read_session_record E sid w of Inl _ \<Rightarrow> None | Inr r \<Rightarrow> Some r)"

definition ses_named :: "('a senv_scheme) \<Rightarrow> sesw \<Rightarrow> bool" where
  "ses_named E w \<longleftrightarrow> (\<forall>sid r. ses_of E w sid = Some r \<longrightarrow> dget r ''session-id'' = JStr sid)"

lemma ses_of_iff: "ses_of E w sid = Some r \<longleftrightarrow> read_session_record E sid w = Inr r"
  by (auto simp: ses_of_def split: sum.splits)

lemma ses_of_current: "ses_of E w sid = Some r \<Longrightarrow> current_session r"
  by (auto simp: ses_of_iff read_session_record_def dest!: validate_session_result split: option.split_asm doc.split_asm json.split_asm)

lemma ses_of_same: "sw_sessions w' = sw_sessions w \<Longrightarrow> ses_of E w' = ses_of E w"
  by (rule ext) (simp add: ses_of_def read_session_record_def)

lemma ses_of_put: "current_session q \<Longrightarrow> ses_of E (put_session sid q w) sid' = (if sid' = sid then Some q else ses_of E w sid')"
  by (simp add: ses_of_def read_session_record_def put_session_def update_conv')

lemma sessions_event [simp]: "sw_sessions (add_session_event sid ev w) = sw_sessions w"
  by (simp add: add_session_event_def split: option.split)

lemma sw_sessions_proj [simp]: "sw_sessions (w\<lparr>sw_proj := p\<rparr>) = sw_sessions w"
  by simp

text \<open>What a call may do to the stored sessions: each record stays, or moves by \<open>R\<close> to a record that keeps
  its name and version.\<close>

definition heir :: "dict \<Rightarrow> dict \<Rightarrow> bool" where
  "heir r r' \<longleftrightarrow> dget r' ''session-id'' = dget r ''session-id'' \<and> dget r' ''contract-version'' = dget r ''contract-version''"

definition ses_moves :: "('a senv_scheme) \<Rightarrow> (dict \<Rightarrow> dict \<Rightarrow> bool) \<Rightarrow> sesw \<Rightarrow> sesw \<Rightarrow> bool" where
  "ses_moves E R w w' \<longleftrightarrow> dom (map_of (sw_sessions w')) = dom (map_of (sw_sessions w)) \<and> (\<forall>sid. ses_of E w' sid = ses_of E w sid \<or>
     (\<exists>r r'. ses_of E w sid = Some r \<and> ses_of E w' sid = Some r' \<and> heir r r' \<and> R r r'))"

lemma ses_moves_same: "sw_sessions w' = sw_sessions w \<Longrightarrow> ses_moves E R w w'"
  using ses_of_same [of w' w E] by (simp add: ses_moves_def)

lemma ses_moves_mono: "ses_moves E R w w' \<Longrightarrow> (\<And>r r'. R r r' \<Longrightarrow> S r r') \<Longrightarrow> ses_moves E S w w'"
  unfolding ses_moves_def by blast

lemma ses_moves_proj: "ses_moves E R (w\<lparr>sw_proj := p\<rparr>) w' \<Longrightarrow> ses_moves E R w w'"
  by (simp add: ses_moves_def ses_of_same [of "w\<lparr>sw_proj := p\<rparr>" w])

lemma ses_moves_named: "ses_moves E R w w' \<Longrightarrow> ses_named E w \<Longrightarrow> ses_named E w'"
  unfolding ses_named_def
proof (intro allI impI)
  fix sid r'
  assume m: "ses_moves E R w w'" and n: "\<forall>sid r. ses_of E w sid = Some r \<longrightarrow> dget r ''session-id'' = JStr sid" and r': "ses_of E w' sid = Some r'"
  have "ses_of E w' sid = ses_of E w sid \<or> (\<exists>r q. ses_of E w sid = Some r \<and> ses_of E w' sid = Some q \<and> heir r q \<and> R r q)"
    using m [unfolded ses_moves_def, THEN conjunct2] by (rule spec)
  then show "dget r' ''session-id'' = JStr sid"
  proof
    assume "ses_of E w' sid = ses_of E w sid"
    then show ?thesis using n r' by simp
  next
    assume "\<exists>r q. ses_of E w sid = Some r \<and> ses_of E w' sid = Some q \<and> heir r q \<and> R r q"
    then show ?thesis using n r' by (fastforce simp: heir_def)
  qed
qed

lemma write_session_cases:
  assumes "write_session_record E r' w = (x, w')" "ses_named E w" "ses_of E w sid = Some r" "heir r r'"
  shows "(isl x \<and> w' = w) \<or> (x = Inr () \<and> current_session r' \<and> w' = put_session sid r' w)"
proof -
  have n: "dget r' ''session-id'' = JStr sid" using assms(2-4) by (simp add: heir_def ses_named_def)
  show ?thesis
  proof (cases "validate_session E ''VAL-AGW-054'' r'")
    case (Inl e)
    then show ?thesis using assms(1) n by (auto simp: write_session_record_def split: if_split_asm)
  next
    case (Inr q)
    then have "q = r' \<and> current_session r'"
      using validate_version [OF Inr _ ses_of_current [OF assms(3)]] assms(4) by (simp add: heir_def)
    then show ?thesis using assms(1) n Inr by (auto simp: write_session_record_def split: if_split_asm)
  qed
qed

lemma put_moves:
  assumes "ses_of E w sid = Some r" "heir r r'" "R r r'" "current_session r'"
  shows "ses_moves E R w (put_session sid r' w)"
proof -
  have "sid \<in> dom (map_of (sw_sessions w))"
    using assms(1) by (auto simp: ses_of_iff read_session_record_def split: option.split_asm)
  then have "dom (map_of (sw_sessions (put_session sid r' w))) = dom (map_of (sw_sessions w))"
    by (auto simp: put_session_def update_conv')
  then show ?thesis using assms by (auto simp: ses_moves_def ses_of_put)
qed

lemma session_commit_moves:
  assumes "ses_named E w" "ses_of E w sid = Some r" "\<And>q x ev. oc = SWrite q x ev \<Longrightarrow> heir r q \<and> R r q"
  shows "ses_moves E R w (snd (session_commit E sid oc w))"
proof (cases oc)
  case (SWrite q x ev)
  obtain y w' where wr: "write_session_record E q w = (y, w')" by fastforce
  have h: "heir r q" "R r q" using assms(3) [OF SWrite] by auto
  from write_session_cases [OF wr assms(1,2) h(1)] show ?thesis
  proof
    assume "isl y \<and> w' = w"
    then show ?thesis using wr SWrite by (auto simp: session_commit_def isl_def intro: ses_moves_same)
  next
    assume c: "y = Inr () \<and> current_session q \<and> w' = put_session sid q w"
    have "ses_moves E R w (put_session sid q w)" using put_moves [OF assms(2) h(1), of R] h(2) c by blast
    then show ?thesis using wr SWrite c by (simp add: session_commit_def ses_moves_def ses_of_same [OF sessions_event])
  qed
qed (simp add: session_commit_def ses_moves_same)

lemma session_update_moves:
  assumes "ses_named E w" "\<And>r q x ev. ses_of E w sid = Some r \<Longrightarrow> body r = Inr (SWrite q x ev) \<Longrightarrow> heir r q \<and> R r q"
  shows "ses_moves E R w (snd (session_update E sid body w))"
proof (cases "rbind (read_session_record E sid w) body")
  case (Inr oc)
  then obtain r where r: "ses_of E w sid = Some r" "body r = Inr oc" by (auto simp: res_iffs ses_of_iff)
  show ?thesis using session_commit_moves [OF assms(1) r(1), of oc R] assms(2) [OF r(1)] r(2) Inr
    by (simp add: session_update_def)
qed (simp add: session_update_def ses_moves_same)

lemma assert_owner_sessions:
  "sw_sessions (snd (assert_request_dispatch_owner E allow rid sid ow w)) = sw_sessions w"
  by (auto simp: assert_request_dispatch_owner_def split: prod.split sum.split)

lemma owned_update_moves:
  assumes "ses_named E w" "\<And>req r q x ev. ses_of E w sid = Some r \<Longrightarrow> body req r = Inr (SWrite q x ev) \<Longrightarrow> heir r q \<and> R r q"
  shows "ses_moves E R w (snd (owned_session_update E allow rid sid ow body w))"
proof -
  obtain x w1 where a: "assert_request_dispatch_owner E allow rid sid ow w = (x, w1)" by fastforce
  have s: "sw_sessions w1 = sw_sessions w" using assert_owner_sessions [of E allow rid sid ow w] a by simp
  have n: "ses_named E w1" using assms(1) by (simp add: ses_named_def ses_of_same [OF s])
  show ?thesis
  proof (cases x)
    case (Inl e)
    then show ?thesis using a s by (simp add: owned_session_update_def ses_moves_same)
  next
    case (Inr req)
    have "ses_moves E R w1 (snd (session_update E sid (body req) w1))"
      by (rule session_update_moves [OF n]) (rule assms(2), simp_all add: ses_of_same [OF s])
    then show ?thesis using a Inr by (simp add: owned_session_update_def ses_moves_def ses_of_same [OF s] s)
  qed
qed

section \<open>The view\<close>

record tview =
  tv_open :: bool
  tv_id :: json
  tv_stage :: json
  tv_sent :: bool
  tv_proven :: bool
  tv_rank :: "nat option"

definition turn_view :: "dict \<Rightarrow> tview" where
  "turn_view md = \<lparr>tv_open = (dget md ''unresolved-turn-pending'' = JBool True), tv_id = dget md ''unresolved-turn-id'',
     tv_stage = dget md ''submission-state'', tv_sent = (dget md ''send-intent-ever'' = JBool True),
     tv_proven = (dget md ''submission-proven'' = JBool True), tv_rank = stage_order (dget md ''submission-stage'')\<rparr>"

definition gen_of :: "dict \<Rightarrow> int" where
  "gen_of md = (case dget md ''submission-recovery-generation'' of JInt n \<Rightarrow> n | _ \<Rightarrow> 0)"

definition budget_of :: "dict \<Rightarrow> json \<times> json" where
  "budget_of md = (dget_or md ''conversation-load-recovery-attempts'' (JInt 0), dget_or md ''conversation-load-recovery-revision'' (JInt 0))"

definition retention_view :: "dict \<Rightarrow> (json \<times> bool) option" where
  "retention_view r = (if dget r ''retention-claim'' = JNull then None
     else Some (dget (grp ''retention-claim'' r) ''operation-id'', dget (grp ''retention-claim'' r) ''stage'' = JStr ''deleting''))"

record sview =
  sv_state :: string
  sv_binding :: json
  sv_retention :: "(json \<times> bool) option"
  sv_turns :: "json list"
  sv_count :: json
  sv_turn :: tview
  sv_gen :: int
  sv_budget :: "json \<times> json"

definition view :: "dict \<Rightarrow> sview" where
  "view r = (let md = session_provider_metadata r in
     \<lparr>sv_state = text_of (dget r ''state''), sv_binding = dget r ''binding'', sv_retention = retention_view r,
      sv_turns = session_request_ids r, sv_count = dget (grp ''activity'' r) ''turn-count'',
      sv_turn = turn_view md, sv_gen = gen_of md, sv_budget = budget_of md\<rparr>)"

section \<open>The moves\<close>

text \<open>The stage of a prompt only moves towards the provider.\<close>

inductive stage_le :: "json \<Rightarrow> json \<Rightarrow> bool" where
  same: "stage_le s s"
| undated: "stage_le JNull (JStr ''dispatching'')"
| dispatch: "stage_le (JStr ''prepared'') (JStr ''dispatching'')"
| prove: "stage_le (JStr ''dispatching'') (JStr ''proven'')"

definition rank_le :: "nat option \<Rightarrow> nat option \<Rightarrow> bool" where
  "rank_le a b \<longleftrightarrow> (case (a, b) of (None, _) \<Rightarrow> True | (Some m, Some n) \<Rightarrow> m \<le> n | _ \<Rightarrow> False)"

definition turn_progress :: "tview \<Rightarrow> tview \<Rightarrow> bool" where
  "turn_progress t t' \<longleftrightarrow> tv_open t \<and> tv_open t' \<and> tv_id t' = tv_id t \<and> stage_le (tv_stage t) (tv_stage t') \<and>
     (tv_sent t \<longrightarrow> tv_sent t') \<and> (tv_proven t \<longrightarrow> tv_proven t') \<and> rank_le (tv_rank t) (tv_rank t')"

text \<open>\<open>T\<close> is the set of requests that have ended.\<close>

inductive sv_step :: "string set \<Rightarrow> sview \<Rightarrow> sview \<Rightarrow> bool" for T where
  lifecycle: "transition_allowed session_workflow (sv_state v) st \<Longrightarrow> sv_step T v (v\<lparr>sv_state := st\<rparr>)"
| turn: "JStr rid \<notin> set (sv_turns v) \<Longrightarrow>
    sv_step T v (v\<lparr>sv_turns := sv_turns v @ [JStr rid], sv_count := JInt (bump_turn_count (sv_count v))\<rparr>)"
| retain: "sv_retention v = None \<Longrightarrow> sv_state v \<in> set SESSION_TERMINAL_STATES \<Longrightarrow> sv_step T v (v\<lparr>sv_retention := Some (op, False)\<rparr>)"
| delete: "sv_retention v = Some (op, False) \<Longrightarrow> sv_step T v (v\<lparr>sv_retention := Some (op, True)\<rparr>)"
| release: "sv_retention v = Some (op, False) \<Longrightarrow> sv_step T v (v\<lparr>sv_retention := None\<rparr>)"
| bind: "\<not> is_dict (sv_binding v) \<Longrightarrow> sv_step T v (v\<lparr>sv_binding := b\<rparr>)"
| budget: "sv_budget v = (JInt c, JInt n) \<Longrightarrow> 0 \<le> c \<Longrightarrow> c' = 0 \<or> c' = c + 1 \<Longrightarrow> sv_step T v (v\<lparr>sv_budget := (JInt c', JInt (n + 1))\<rparr>)"
| claim: "tv_open (sv_turn v) \<Longrightarrow> tv_stage (sv_turn v) = JStr ''prepared'' \<Longrightarrow> sv_gen v < g \<Longrightarrow> sv_step T v (v\<lparr>sv_gen := g\<rparr>)"
| prepare: "\<not> tv_open (sv_turn v) \<Longrightarrow> tv_open t \<Longrightarrow> tv_stage t = JStr ''prepared'' \<Longrightarrow> \<not> tv_proven t \<Longrightarrow> sv_step T v (v\<lparr>sv_turn := t\<rparr>)"
| progress: "turn_progress (sv_turn v) t \<Longrightarrow> sv_step T v (v\<lparr>sv_turn := t\<rparr>)"
| unsent: "tv_open (sv_turn v) \<Longrightarrow> tv_stage (sv_turn v) = JStr ''dispatching'' \<Longrightarrow> \<not> tv_sent (sv_turn v) \<Longrightarrow> \<not> tv_proven (sv_turn v) \<Longrightarrow>
    \<not> tv_open t \<Longrightarrow> sv_step T v (v\<lparr>sv_turn := t\<rparr>)"
| close: "tv_id (sv_turn v) = JStr rid \<Longrightarrow> rid \<in> T \<Longrightarrow> \<not> tv_open t \<Longrightarrow> sv_step T v (v\<lparr>sv_turn := t, sv_gen := g\<rparr>)"

definition sv_move :: "string set \<Rightarrow> dict \<Rightarrow> dict \<Rightarrow> bool" where
  "sv_move T r q \<longleftrightarrow> view q = view r \<or> sv_step T (view r) (view q)"

section \<open>Metadata\<close>

definition VIEWED_KEYS :: "string list" where
  "VIEWED_KEYS = [''unresolved-turn-pending'', ''unresolved-turn-id'', ''submission-state'', ''send-intent-ever'', ''submission-proven'',
     ''submission-stage'', ''submission-recovery-generation'', ''conversation-load-recovery-attempts'', ''conversation-load-recovery-revision'']"

definition same_viewed :: "dict \<Rightarrow> dict \<Rightarrow> bool" where
  "same_viewed md md' \<longleftrightarrow> list_all (\<lambda>k. map_of md' k = map_of md k) VIEWED_KEYS"

lemma map_of_dupd: "distinct (map fst u) \<Longrightarrow> map_of (dupd d u) k = (case map_of u k of None \<Rightarrow> map_of d k | Some v \<Rightarrow> Some v)"
proof (induction d u rule: dupd.induct)
  case (2 d j v u)
  then have "map_of u j = None" by (simp add: map_of_eq_None_iff)
  then show ?case using 2 by (cases "k = j") (auto split: option.split)
qed simp

lemma dget_dupd: "distinct (map fst u) \<Longrightarrow> dget (dupd d u) k = (if dhas u k then dget u k else dget d k)"
  by (auto simp: dget_def dhas_def map_of_dupd split: option.split)

lemma map_of_pops: "map_of (fold dpop ks d) k = (if k \<in> set ks then None else map_of d k)"
  by (induction ks arbitrary: d) auto

lemma dget_pops: "dget (fold dpop ks d) k = (if k \<in> set ks then JNull else dget d k)"
  by (simp add: dget_def map_of_pops)

lemma viewed_fenced: "k \<in> set VIEWED_KEYS \<Longrightarrow> k \<notin> fst ` set (unfenced u)"
  by (auto simp: VIEWED_KEYS_def unfenced_def RECOVERY_CHECKPOINT_KEYS_def LOAD_BUDGET_KEYS_def)

lemma same_viewed_unfenced: "same_viewed md (dupd md (unfenced u))"
  using viewed_fenced by (simp add: same_viewed_def list_all_iff map_of_dupd_other)

lemma same_viewed_parts:
  assumes "same_viewed md md'"
  shows "turn_view md' = turn_view md" "gen_of md' = gen_of md" "budget_of md' = budget_of md"
proof -
  have "dget md' k = dget md k" "dget_or md' k v = dget_or md k v" if "k \<in> set VIEWED_KEYS" for k v
    using assms that by (simp_all add: same_viewed_def list_all_iff dget_def dget_or_def)
  then show "turn_view md' = turn_view md" "gen_of md' = gen_of md" "budget_of md' = budget_of md"
    by (simp_all add: turn_view_def gen_of_def budget_of_def VIEWED_KEYS_def)
qed

section \<open>Records\<close>

lemma grp_dset [simp]: "grp g (dset k v r) = (if g = k then obj_of v else grp g r)"
  by (simp add: grp_def)

lemma metadata_dset [simp]: "k \<noteq> ''provider'' \<Longrightarrow> session_provider_metadata (dset k v r) = session_provider_metadata r"
  by (simp add: session_provider_metadata_def)

lemma metadata_put [simp]: "session_provider_metadata (put_metadata md r) = md"
  by (simp add: session_provider_metadata_def put_metadata_def)

lemma metadata_write [simp]: "session_provider_metadata (write_checkpoint now md r) = md"
  by (simp add: session_provider_metadata_def write_checkpoint_def touch_def put_metadata_def)

lemma dget_write: "k \<notin> {''provider'', ''timing''} \<Longrightarrow> dget (write_checkpoint now md r) k = dget r k"
  by (simp add: write_checkpoint_def touch_def put_metadata_def)

lemma view_frame:
  assumes "\<And>k. k \<in> {''state'', ''binding'', ''retention-claim'', ''activity''} \<Longrightarrow> dget q k = dget r k"
  shows "view q = (view r)\<lparr>sv_turn := turn_view (session_provider_metadata q), sv_gen := gen_of (session_provider_metadata q),
      sv_budget := budget_of (session_provider_metadata q)\<rparr>"
  using assms by (simp add: view_def Let_def retention_view_def session_request_ids_def grp_def)

lemma view_write:
  "view (write_checkpoint now md r) = (view r)\<lparr>sv_turn := turn_view md, sv_gen := gen_of md, sv_budget := budget_of md\<rparr>"
  by (subst view_frame [of _ r]) (auto simp: dget_write)

lemma heir_write: "heir r (write_checkpoint now md r)"
  by (simp add: heir_def dget_write)

lemma view_sel [simp]:
  "sv_turn (view r) = turn_view (session_provider_metadata r)" "sv_gen (view r) = gen_of (session_provider_metadata r)"
  "sv_budget (view r) = budget_of (session_provider_metadata r)" "sv_binding (view r) = dget r ''binding''"
  "sv_retention (view r) = retention_view r" "sv_turns (view r) = session_request_ids r" "sv_state (view r) = text_of (dget r ''state'')"
  "sv_count (view r) = dget (grp ''activity'' r) ''turn-count''"
  by (simp_all add: view_def Let_def)

lemma write_same_viewed: "same_viewed (session_provider_metadata r) md \<Longrightarrow> view (write_checkpoint now md r) = view r"
  by (simp add: view_write same_viewed_parts)

section \<open>Effects of the plain calls\<close>

lemma sv_move_frame:
  assumes "\<And>k. k \<in> {''state'', ''binding'', ''retention-claim'', ''activity''} \<Longrightarrow> dget q k = dget r k"
    "same_viewed (session_provider_metadata r) (session_provider_metadata q)"
  shows "sv_move T r q"
  using view_frame [OF assms(1)] same_viewed_parts [OF assms(2)] by (simp add: sv_move_def)

lemma same_viewed_refl [simp]: "same_viewed md md"
  by (simp add: same_viewed_def list_all_iff)

lemma accepted_turn_effect: "accepted_turn_body now sid r = Inr (SWrite q x ev) \<Longrightarrow> heir r q \<and> sv_move T r q"
  by (auto simp: accepted_turn_body_def Let_def heir_def session_provider_metadata_def split: if_split_asm intro!: sv_move_frame)

lemma plain_metadata_effect:
  assumes "plain_metadata_body now md rm r = Inr (SWrite q x ev)" "\<And>k. k \<in> set VIEWED_KEYS \<Longrightarrow> k \<notin> fst ` set md \<and> k \<notin> set rm"
  shows "heir r q \<and> sv_move T r q"
proof -
  let ?cur = "fold dpop rm (dupd (session_provider_metadata r) md)"
  have q: "q = touch now (dset ''provider'' (JObj (if ?cur \<noteq> [] then dset ''metadata'' (JObj ?cur) (grp ''provider'' r)
      else dpop ''metadata'' (grp ''provider'' r))) r)" using assms(1) by (simp add: plain_metadata_body_def Let_def)
  have "session_provider_metadata q = ?cur" by (simp add: q touch_def session_provider_metadata_def) (simp add: grp_def)
  moreover have "same_viewed (session_provider_metadata r) ?cur"
    using assms(2) by (simp add: same_viewed_def list_all_iff map_of_pops map_of_dupd_other)
  ultimately show ?thesis by (auto simp: q touch_def heir_def intro!: sv_move_frame)
qed

lemma dget_touch: "k \<noteq> ''timing'' \<Longrightarrow> dget (touch now r) k = dget r k"
  by (simp add: touch_def)

lemma metadata_touch [simp]: "session_provider_metadata (touch now r) = session_provider_metadata r"
  by (simp add: touch_def session_provider_metadata_def)

lemma turn_metadata_viewed: "turn_metadata rid pm md = Inr md' \<Longrightarrow> same_viewed md md'"
  using same_viewed_unfenced [of md pm]
  by (auto simp: turn_metadata_def res_iffs Let_def same_viewed_def list_all_iff VIEWED_KEYS_def split: if_split_asm)

lemma record_turn_effect:
  assumes "record_turn_body now rid pm r = Inr (SWrite q x ev)"
  shows "heir r q \<and> sv_move T r q"
proof (cases "JStr rid \<in> set (session_request_ids r)")
  case True
  then obtain m md where "turn_metadata rid m (session_provider_metadata r) = Inr md" "q = write_checkpoint now md r"
    using assms by (auto simp: record_turn_body_def res_iffs write_checkpoint_def Let_def split: option.split_asm)
  then show ?thesis using turn_metadata_viewed by (auto simp: sv_move_def heir_write write_same_viewed)
next
  case False
  let ?act = "dset ''turn-count'' (JInt (bump_turn_count (dget (grp ''activity'' r) ''turn-count'')))
               (dset ''request-ids'' (JList (session_request_ids r @ [JStr rid])) (grp ''activity'' r))"
  let ?u = "dset ''activity'' (JObj ?act) r"
  obtain v where c: "(case pm of None \<Rightarrow> Inr ?u | Some m \<Rightarrow> rbind (turn_metadata rid m (session_provider_metadata ?u)) (\<lambda>md. Inr (put_metadata md ?u))) = Inr v"
    and q: "q = dset ''timing'' (JObj (dset ''updated-at'' (JStr now) (dset ''last-activity-at'' (JStr now) (grp ''timing'' v)))) v"
    using assms by (simp only: record_turn_body_def False if_False Let_def rbind_eq_Inr) (elim exE conjE, simp)
  have v: "v = ?u \<or> (\<exists>m md. turn_metadata rid m (session_provider_metadata ?u) = Inr md \<and> v = put_metadata md ?u)"
    using c by (cases pm) (auto simp only: option.simps rbind_eq_Inr sum.inject)
  have md: "same_viewed (session_provider_metadata r) (session_provider_metadata q)"
    using v
  proof
    assume "\<exists>m md. turn_metadata rid m (session_provider_metadata ?u) = Inr md \<and> v = put_metadata md ?u"
    then obtain m md where t: "turn_metadata rid m (session_provider_metadata r) = Inr md" "v = put_metadata md ?u" by auto
    show ?thesis using turn_metadata_viewed [OF t(1)] by (simp add: q t(2))
  qed (simp add: q)
  have f: "dget q k = (if k = ''activity'' then JObj ?act else dget r k)" if "k \<notin> {''timing'', ''provider''}" for k
    using v
  proof
    assume "\<exists>m md. turn_metadata rid m (session_provider_metadata ?u) = Inr md \<and> v = put_metadata md ?u"
    then obtain md where t: "v = put_metadata md ?u" by blast
    show ?thesis using that by (simp add: q t put_metadata_def)
  next
    assume "v = ?u"
    then show ?thesis using that by (simp add: q)
  qed
  have "view q = (view r)\<lparr>sv_turns := sv_turns (view r) @ [JStr rid], sv_count := JInt (bump_turn_count (sv_count (view r)))\<rparr>"
    using same_viewed_parts [OF md] by (simp add: view_def Let_def f retention_view_def grp_def session_request_ids_def)
  then show ?thesis using sv_step.turn [of rid "view r" T] False f by (simp add: sv_move_def heir_def)
qed

lemma set_or_pop_other: "j \<noteq> k \<Longrightarrow> dget (set_or_pop k v d) j = dget d j"
  by (simp add: set_or_pop_def split: option.split)

lemma metadata_set_or_pop: "k \<noteq> ''provider'' \<Longrightarrow> session_provider_metadata (set_or_pop k v r) = session_provider_metadata r"
  by (simp add: session_provider_metadata_def grp_def set_or_pop_other)

lemma apply_session_updates_other:
  "apply_session_updates us (r, t) = Inr (u, t') \<Longrightarrow> k \<notin> {''close-reason'', ''error''} \<Longrightarrow> dget u k = dget r k"
  by (induction us "(r, t)" arbitrary: r t rule: apply_session_updates.induct)
     (auto simp: res_iffs set_or_pop_other split: if_split_asm)

lemma transition_session_effect:
  assumes "transition_session_body now st us r = Inr (SWrite q x ev)"
  shows "heir r q \<and> sv_move T r q"
proof -
  obtain u t where a: "transition_allowed session_workflow (text_of (dget r ''state'')) st"
    and u: "apply_session_updates us (dset ''state'' (JStr st) r, dset ''updated-at'' (JStr now) (grp ''timing'' r)) = Inr (u, t)"
    and q: "q = dset ''timing'' (JObj t) u"
    using assms by (auto simp: transition_session_body_def ensure_session_transition_def res_iffs Let_def split: prod.split_asm)
  have f: "dget q k = (if k = ''state'' then JStr st else dget r k)" if "k \<notin> {''close-reason'', ''error'', ''timing''}" for k
    using apply_session_updates_other [OF u, of k] that by (auto simp: q)
  have "view q = (view r)\<lparr>sv_state := st\<rparr>"
    by (simp add: view_def Let_def retention_view_def session_request_ids_def session_provider_metadata_def grp_def f text_of_def)
  then show ?thesis using sv_step.lifecycle [of "view r" st T] a f by (simp add: sv_move_def heir_def)
qed

lemma view_retention:
  "view (dset ''retention-claim'' (JObj c) r) = (view r)\<lparr>sv_retention := Some (dget c ''operation-id'', dget c ''stage'' = JStr ''deleting'')\<rparr>"
  "view (dpop ''retention-claim'' r) = (view r)\<lparr>sv_retention := None\<rparr>"
  by (simp_all add: view_def Let_def retention_view_def session_request_ids_def session_provider_metadata_def grp_def)

lemma claim_retention_effect:
  assumes "claim_retention_body now sid op r = Inr (SWrite q x ev)"
  shows "heir r q \<and> sv_move T r q"
proof -
  have g: "dget r ''retention-claim'' = JNull" "session_terminal r"
    and q: "q = dset ''retention-claim'' (JObj [(''operation-id'', JStr op), (''claimed-at'', JStr now)]) r"
    using assms by (auto simp: claim_retention_body_def Let_def split: if_split_asm)
  have "view q = (view r)\<lparr>sv_retention := Some (JStr op, False)\<rparr>" by (simp add: q view_retention dget_Cons)
  moreover have "text_of (dget r ''state'') \<in> set SESSION_TERMINAL_STATES" using g(2) by (auto simp: session_terminal_def text_of_def)
  ultimately show ?thesis using sv_step.retain [of "view r" T "JStr op"] g(1) by (simp add: sv_move_def heir_def q retention_view_def)
qed

lemma begin_deletion_effect:
  assumes "begin_deletion_body sid op ids0 digest r = Inr (SWrite q x ev)"
  shows "heir r q \<and> sv_move T r q"
proof -
  obtain plan where g: "dget r ''retention-claim'' \<noteq> JNull" "dget (grp ''retention-claim'' r) ''operation-id'' = JStr op"
      "dget (grp ''retention-claim'' r) ''stage'' \<noteq> JStr ''deleting''"
    and q: "q = dset ''retention-claim'' (JObj (dset ''plan'' plan (dset ''stage'' (JStr ''deleting'') (grp ''retention-claim'' r)))) r"
    using assms by (auto simp: begin_deletion_body_def Let_def split: if_split_asm)
  have "view q = (view r)\<lparr>sv_retention := Some (JStr op, True)\<rparr>" by (simp add: q view_retention g)
  then show ?thesis using sv_step.delete [of "view r" "JStr op" T] g by (simp add: sv_move_def heir_def q retention_view_def)
qed

lemma release_retention_effect:
  assumes "release_retention_body sid op r = Inr (SWrite q x ev)"
  shows "heir r q \<and> sv_move T r q"
proof -
  have g: "dget r ''retention-claim'' \<noteq> JNull" "dget (grp ''retention-claim'' r) ''operation-id'' = JStr op"
      "dget (grp ''retention-claim'' r) ''stage'' \<noteq> JStr ''deleting''" and q: "q = dpop ''retention-claim'' r"
    using assms by (auto simp: release_retention_body_def Let_def split: if_split_asm)
  show ?thesis using sv_step.release [of "view r" "JStr op" T] g by (simp add: sv_move_def heir_def q view_retention retention_view_def)
qed

lemma first_binding_result:
  assumes "first_binding E fresh now sid pid surface ref ident r = Inr r1"
  shows "session_provider_metadata r1 = session_provider_metadata r \<and> (r1 = r \<or> (\<not> is_dict (dget r ''binding'') \<and>
    (\<exists>b. \<forall>k. k \<notin> {''provider''} \<longrightarrow> dget r1 k = (if k = ''binding'' then b else dget r k))))"
proof (cases "is_dict (dget r ''binding'')")
  case True
  then show ?thesis using assms by (simp add: first_binding_def split: if_split_asm)
next
  case False
  then obtain b where b: "r1 = dset ''binding'' b (if is_dict (dget r ''provider'') then r else dset ''provider'' (JObj []) r)"
    using assms by (auto simp: first_binding_def res_iffs)
  have "session_provider_metadata r1 = session_provider_metadata r"
    by (cases "dget r ''provider''") (simp_all add: b session_provider_metadata_def grp_def)
  moreover have "dget r1 k = (if k = ''binding'' then b else dget r k)" if "k \<notin> {''provider''}" for k using that by (simp add: b)
  ultimately show ?thesis using False by blast
qed

text \<open>A record that gets its first binding, with metadata that leaves the fenced fields alone.\<close>

lemma bind_move:
  assumes "\<not> is_dict (dget r ''binding'')" "\<And>k. k \<notin> {''provider'', ''timing'', ''provider-transport-kind''} \<Longrightarrow> dget q k = (if k = ''binding'' then b else dget r k)"
    "same_viewed (session_provider_metadata r) (session_provider_metadata q)"
  shows "heir r q \<and> sv_move T r q"
proof -
  have "view q = (view r)\<lparr>sv_binding := b\<rparr>" using same_viewed_parts [OF assms(3)]
    by (simp add: view_def Let_def retention_view_def session_request_ids_def grp_def assms(2))
  then show ?thesis using sv_step.bind [of "view r" T b] assms by (simp add: sv_move_def heir_def)
qed

lemma initial_binding_effect:
  assumes "initial_binding E fresh now sid pid surface ref ident md r = Inr q"
  shows "heir r q \<and> sv_move T r q"
proof -
  obtain r1 where r1: "first_binding E fresh now sid pid surface ref ident r = Inr r1"
    and q: "q = touch now (if md = [] then r1 else put_metadata (dupd (session_provider_metadata r1) (unfenced md)) r1)"
  proof (cases "truthy (session_provider_id r) \<and> session_provider_id r \<noteq> JStr pid")
    case False
    then show ?thesis using assms that by (simp only: initial_binding_def if_False rbind_eq_Inr sum.inject) blast
  next
    case True
    then show ?thesis using assms by (simp add: initial_binding_def)
  qed
  have m1: "session_provider_metadata r1 = session_provider_metadata r" using first_binding_result [OF r1] by blast
  have sv: "same_viewed (session_provider_metadata r) (session_provider_metadata q)"
    using same_viewed_unfenced by (simp add: q m1)
  have f: "dget q k = dget r1 k" if "k \<notin> {''provider'', ''timing''}" for k using that by (simp add: q touch_def put_metadata_def)
  from first_binding_result [OF r1] have "r1 = r \<or> (\<not> is_dict (dget r ''binding'') \<and>
    (\<exists>b. \<forall>k. k \<notin> {''provider''} \<longrightarrow> dget r1 k = (if k = ''binding'' then b else dget r k)))" by blast
  then show ?thesis
  proof
    assume "r1 = r"
    then have e: "dget q k = dget r k" if "k \<notin> {''provider'', ''timing''}" for k using f [OF that] by simp
    have "sv_move T r q" by (rule sv_move_frame [OF _ sv]) (auto simp: e)
    then show ?thesis by (simp add: heir_def e)
  next
    assume "\<not> is_dict (dget r ''binding'') \<and> (\<exists>b. \<forall>k. k \<notin> {''provider''} \<longrightarrow> dget r1 k = (if k = ''binding'' then b else dget r k))"
    then obtain b where b: "\<not> is_dict (dget r ''binding'')" "\<And>k. k \<notin> {''provider''} \<Longrightarrow> dget r1 k = (if k = ''binding'' then b else dget r k)"
      by blast
    show ?thesis by (rule bind_move [OF b(1) _ sv, of b]) (simp add: f b(2))
  qed
qed

section \<open>Effects of the fenced calls\<close>

lemma load_budget_effect:
  assumes "load_budget_body now rid mx act req r = Inr (SWrite q x ev)"
  shows "heir r q \<and> sv_move T r q"
proof -
  let ?md = "session_provider_metadata r"
  obtain c n c' n' where b: "budget_of ?md = (JInt c, JInt n)" "0 \<le> c" "budget_next mx act (c, n) = Some (c', n')"
    and q: "q = write_checkpoint now (dupd ?md [(''conversation-load-recovery-attempts'', JInt c'), (''conversation-load-recovery-revision'', JInt n')]) r"
    using assms by (auto simp: load_budget_body_def Let_def budget_of_def split: if_split_asm json.split_asm option.split_asm)
  have n': "n' = n + 1" "c' = 0 \<or> c' = c + 1" using b(3) by (auto simp: budget_next_def split: budget_action.split_asm if_split_asm)
  have "view q = (view r)\<lparr>sv_budget := (JInt c', JInt (n + 1))\<rparr>"
    by (simp add: q view_write turn_view_def gen_of_def budget_of_def dget_or_def n')
  then show ?thesis using sv_step.budget [of "view r" c n c' T] b n' by (simp add: sv_move_def q heir_write)
qed

lemma manual_reconcile_effect:
  assumes "manual_reconcile_body now rid sid req r = Inr (SWrite q x ev)"
  shows "heir r q \<and> sv_move T r q"
proof -
  have "q = write_checkpoint now (dset ''recovery-state'' (JStr ''manual-reconcile-required'') (session_provider_metadata r)) r"
    using assms by (simp add: manual_reconcile_body_def Let_def split: if_split_asm)
  then show ?thesis by (auto simp: sv_move_def heir_write write_same_viewed same_viewed_def VIEWED_KEYS_def)
qed

lemma clear_unsent_effect:
  assumes "clear_unsent_body now rid sid attempt req r = Inr (SWrite q x ev)"
  shows "heir r q \<and> sv_move T r q"
proof -
  let ?md = "session_provider_metadata r"
  let ?md' = "dset ''unresolved-turn-pending'' (JBool False) (fold dpop RECOVERY_CHECKPOINT_KEYS ?md)"
  have ok: "exact_unsent rid attempt req ?md = Inr True" and q: "q = write_checkpoint now ?md' r"
    using assms by (auto simp: clear_unsent_body_def res_iffs split: if_split_asm)
  have p: "dget ?md ''unresolved-turn-pending'' = JBool True" "dget ?md ''submission-state'' = JStr ''dispatching''"
    "dget ?md ''send-intent-ever'' = JBool False" "dget ?md ''submission-proven'' \<noteq> JBool True" "dget ?md ''submission-recovery-generation'' = JNull"
    using ok by (auto simp: exact_unsent_def res_iffs split: if_split_asm)
  have g: "gen_of ?md' = gen_of ?md" "budget_of ?md' = budget_of ?md" "\<not> tv_open (turn_view ?md')"
    by (simp_all add: gen_of_def budget_of_def dget_pops dget_or_def map_of_pops turn_view_def p RECOVERY_CHECKPOINT_KEYS_def)
  have "view q = (view r)\<lparr>sv_turn := turn_view ?md'\<rparr>" by (simp add: q view_write g)
  then show ?thesis using sv_step.unsent [of "view r" "turn_view ?md'" T] p g(3) by (simp add: sv_move_def q heir_write turn_view_def)
qed

lemma clear_terminal_effect:
  assumes "clear_terminal_body now rid a r = Inr (SWrite q x ev)" "rid \<in> T"
    "\<And>k. k \<in> set (ca_remove a) \<Longrightarrow> k \<notin> set LOAD_BUDGET_KEYS \<and> k \<noteq> ''unresolved-turn-pending''"
    "\<And>k. k \<in> fst ` set (ca_new_binding a) \<Longrightarrow> k \<notin> set VIEWED_KEYS"
  shows "heir r q \<and> sv_move T r q"
proof -
  let ?md = "session_provider_metadata r"
  let ?md' = "dupd (fold dpop (ca_remove a) (dset ''recovery-state'' (JStr (ca_recovery_state a)) (dset ''unresolved-turn-pending'' (JBool False) ?md))) (ca_new_binding a)"
  have i: "dget ?md ''unresolved-turn-id'' = JStr rid" and q: "q = write_checkpoint now ?md' r"
    using assms(1) by (auto simp: clear_terminal_body_def Let_def split: if_split_asm)
  have m: "map_of ?md' k = map_of (fold dpop (ca_remove a) (dset ''recovery-state'' (JStr (ca_recovery_state a)) (dset ''unresolved-turn-pending'' (JBool False) ?md))) k"
    if "k \<in> set VIEWED_KEYS" for k using assms(4) that by (meson map_of_dupd_other)
  have "budget_of ?md' = budget_of ?md" using assms(3)
    by (auto simp: budget_of_def dget_or_def m VIEWED_KEYS_def map_of_pops LOAD_BUDGET_KEYS_def)
  moreover have o: "\<not> tv_open (turn_view ?md')" using assms(3) by (auto simp: turn_view_def dget_def m VIEWED_KEYS_def map_of_pops)
  ultimately have "view q = (view r)\<lparr>sv_turn := turn_view ?md', sv_gen := gen_of ?md'\<rparr>" by (simp add: q view_write)
  then show ?thesis using sv_step.close [of "view r" rid T "turn_view ?md'" "gen_of ?md'"] i o assms(2) by (simp add: sv_move_def q heir_write turn_view_def)
qed

section \<open>Effects of the submission calls\<close>

text \<open>An update as the code expects it: a dictionary whose two latches are booleans and whose two
  progress fields are not null.\<close>

definition typed_update :: "dict \<Rightarrow> bool" where
  "typed_update u \<longleftrightarrow> distinct (map fst u) \<and>
     list_all (\<lambda>k. dhas u k \<longrightarrow> dget u k \<in> {JBool True, JBool False}) [''unresolved-turn-pending'', ''submission-proven''] \<and>
     list_all (\<lambda>k. dhas u k \<longrightarrow> dget u k \<noteq> JNull) [''submission-stage'', ''send-intent-ever'']"

lemma next_generation_pos: "0 < next_generation g"
  by (simp add: next_generation_def split: sum.split)

lemma py_int_ge: "num_of a = Some x \<Longrightarrow> of_int n \<le> x \<Longrightarrow> n < next_generation a"
proof (cases a)
  case (JFloat q)
  assume x: "num_of a = Some x" "of_int n \<le> x"
  show ?thesis
  proof (cases "q < 0")
    case True
    have "(of_int n :: rat) < 0" using x JFloat True by simp
    then have "n < 0" by simp
    then show ?thesis using next_generation_pos [of a] by simp
  next
    case False
    then have "n \<le> \<lfloor>q\<rfloor>" using x JFloat by (simp add: le_floor_iff)
    then show ?thesis using False by (simp add: JFloat next_generation_def)
  qed
qed (auto simp: next_generation_def)

lemma py_max_ge: "py_max a b = Inr g \<Longrightarrow> num_of a = Some x \<Longrightarrow> \<exists>y. num_of g = Some y \<and> x \<le> y"
  by (auto simp: py_max_def split: option.split_asm prod.split_asm json.split_asm if_split_asm)

lemma claim_prepared_result:
  assumes "claim_prepared_body E clock now cid rid sid ow lease req r = Inr (SWrite q c ev)"
  obtains g where "prepared_unsent rid (session_provider_metadata r)" "gen_of (session_provider_metadata r) < g"
    "c = recovery_claim_of cid g ow (add_seconds E now (max 1 lease))"
    "q = write_checkpoint now (dset ''submission-recovery-generation'' (JInt g) (dset ''submission-recovery-claim'' (JObj c) (session_provider_metadata r))) r"
proof -
  let ?md = "session_provider_metadata r" and ?g0 = "dget_or (session_provider_metadata r) ''submission-recovery-generation'' (JInt 0)"
  obtain g where p: "prepared_unsent rid ?md" and g: "g = ?g0 \<or> (\<exists>b. py_max ?g0 b = Inr g)"
    and c: "c = recovery_claim_of cid (next_generation g) ow (add_seconds E now (max 1 lease))"
    and q: "q = write_checkpoint now (dset ''submission-recovery-generation'' (JInt (next_generation g)) (dset ''submission-recovery-claim'' (JObj c) ?md)) r"
    using assms by (auto simp: claim_prepared_body_def Let_def res_iffs split: json.split_asm if_split_asm)
  have "gen_of ?md < next_generation g"
  proof (cases "\<exists>n. dget ?md ''submission-recovery-generation'' = JInt n")
    case True
    then obtain n where n: "?g0 = JInt n" "gen_of ?md = n" by (auto simp: gen_of_def dget_or_def dget_def split: option.split_asm)
    have "\<exists>y. num_of g = Some y \<and> of_int n \<le> y" using g n(1) py_max_ge by fastforce
    then show ?thesis using py_int_ge n(2) by blast
  next
    case False
    then have "gen_of ?md = 0" by (auto simp: gen_of_def split: json.split)
    then show ?thesis using next_generation_pos by simp
  qed
  then show thesis using that p c q by blast
qed

lemma claim_prepared_effect:
  assumes "claim_prepared_body E clock now cid rid sid ow lease req r = Inr (SWrite q x ev)"
  shows "heir r q \<and> sv_move T r q"
proof -
  obtain g where g: "prepared_unsent rid (session_provider_metadata r)" "gen_of (session_provider_metadata r) < g"
    and q: "q = write_checkpoint now (dset ''submission-recovery-generation'' (JInt g) (dset ''submission-recovery-claim'' (JObj x) (session_provider_metadata r))) r"
    using claim_prepared_result [OF assms] by blast
  have "view q = (view r)\<lparr>sv_gen := g\<rparr>" by (simp add: q view_write turn_view_def gen_of_def budget_of_def dget_or_def)
  then show ?thesis using sv_step.claim [of "view r" g T] g by (simp add: sv_move_def q heir_write prepared_unsent_def turn_view_def)
qed

lemma release_claim_effect:
  assumes "release_claim_body now cid r = Inr (SWrite q x ev)"
  shows "heir r q \<and> sv_move T r q"
proof -
  have "q = write_checkpoint now (dpop ''submission-recovery-claim'' (session_provider_metadata r)) r"
    using assms by (simp add: release_claim_body_def Let_def split: json.split_asm if_split_asm)
  then show ?thesis by (auto simp: sv_move_def heir_write write_same_viewed same_viewed_def VIEWED_KEYS_def)
qed

text \<open>What the observation guard leaves of an update.\<close>

lemma observation_progress:
  assumes "validate_submission_observation_progress md u rid sid = Inr ()" "typed_update u" "dget md' ''submission-stage'' =
      (if dhas u ''submission-stage'' then dget u ''submission-stage'' else dget md ''submission-stage'')"
    "dget md' ''send-intent-ever'' = (if dhas u ''send-intent-ever'' then dget u ''send-intent-ever'' else dget md ''send-intent-ever'')"
  shows "tv_sent (turn_view md) \<longrightarrow> tv_sent (turn_view md')" "rank_le (tv_rank (turn_view md)) (tv_rank (turn_view md'))"
proof -
  have n: "dhas u ''send-intent-ever'' \<Longrightarrow> dget u ''send-intent-ever'' \<noteq> JNull" "dhas u ''submission-stage'' \<Longrightarrow> dget u ''submission-stage'' \<noteq> JNull"
    using assms(2) by (simp_all add: typed_update_def)
  have i: "dget u ''send-intent-ever'' \<in> {JNull, JBool True, JBool False}" "\<not> (dget md ''send-intent-ever'' = JBool True \<and> dget u ''send-intent-ever'' = JBool False)"
    and s: "dget u ''submission-stage'' = JNull \<or> stage_order (dget u ''submission-stage'') \<noteq> None"
    and o: "case (stage_order (dget u ''submission-stage''), stage_order (dget md ''submission-stage'')) of (Some a, Some b) \<Rightarrow> b \<le> a | _ \<Rightarrow> True"
    using assms(1) by (auto simp: validate_submission_observation_progress_def Let_def res_iffs)
  show "tv_sent (turn_view md) \<longrightarrow> tv_sent (turn_view md')" using n(1) i by (auto simp: turn_view_def assms(4))
  show "rank_le (tv_rank (turn_view md)) (tv_rank (turn_view md'))"
    using n(2) s o by (auto simp: turn_view_def assms(3) rank_le_def split: option.splits)
qed

definition merged :: "dict \<Rightarrow> dict \<Rightarrow> string list \<Rightarrow> dict" where
  "merged md u rm = fold dpop rm (dupd md u)"

lemma dget_merged: "distinct (map fst u) \<Longrightarrow> k \<notin> set rm \<Longrightarrow> dget (merged md u rm) k = (if dhas u k then dget u k else dget md k)"
  by (simp add: merged_def dget_pops dget_dupd)

lemma map_of_merged: "distinct (map fst u) \<Longrightarrow> k \<notin> set rm \<Longrightarrow> map_of u k = None \<Longrightarrow> map_of (merged md u rm) k = map_of md k"
  by (simp add: merged_def map_of_pops map_of_dupd)

text \<open>Which viewed fields a removal may touch: the proof, while it is not given.\<close>

definition mild_removal :: "string list \<Rightarrow> dict \<Rightarrow> bool" where
  "mild_removal rm md \<longleftrightarrow> (\<forall>k \<in> set rm. k \<in> set VIEWED_KEYS \<longrightarrow> k = ''submission-proven'' \<and> dget md k \<noteq> JBool True)"

lemma safe_removal_mild:
  assumes "fresh_checkpoint_removals_are_safe md u rm"
  shows "mild_removal (rm @ [''submission-recovery-claim'']) md" "mild_removal rm md"
proof -
  have "k = ''submission-proven'' \<and> dget md k \<noteq> JBool True" if k: "k \<in> set (rm @ [''submission-recovery-claim''])" "k \<in> set VIEWED_KEYS" for k
  proof -
    have "k \<in> set rm" using k by (auto simp: VIEWED_KEYS_def)
    then have f: "k \<in> set FRESH_SUBMISSION_DEFAULT_REMOVALS" "k \<in> set RECOVERY_CHECKPOINT_KEYS \<and> dhas md k \<longrightarrow> false_default md k"
      using assms by (auto simp: fresh_checkpoint_removals_are_safe_def list_all_iff)
    have e: "k = ''submission-proven''" using f(1) k(2) by (auto simp: FRESH_SUBMISSION_DEFAULT_REMOVALS_def VIEWED_KEYS_def)
    have "dget md ''submission-proven'' \<noteq> JBool True"
    proof (cases "dhas md ''submission-proven''")
      case True
      then show ?thesis using f(2) e by (simp add: RECOVERY_CHECKPOINT_KEYS_def false_default_def)
    next
      case False
      then show ?thesis by (simp add: dget_def dhas_def)
    qed
    then show ?thesis by (simp add: e)
  qed
  then show "mild_removal (rm @ [''submission-recovery-claim'']) md" "mild_removal rm md" by (auto simp: mild_removal_def)
qed

lemma mild_removal_key: "mild_removal rm md \<Longrightarrow> k \<in> set VIEWED_KEYS \<Longrightarrow> k \<noteq> ''submission-proven'' \<Longrightarrow> k \<notin> set rm"
  by (auto simp: mild_removal_def)

lemma merged_parts:
  assumes "distinct (map fst u)" "mild_removal rm md" "\<not> replaces_claim u" "no_budget_keys u = u"
  shows "gen_of (merged md u rm) = gen_of md" "budget_of (merged md u rm) = budget_of md"
proof -
  have b: "map_of u k = None" if "k \<in> set LOAD_BUDGET_KEYS" for k
  proof -
    have "k \<notin> fst ` set (no_budget_keys u)" using that by (auto simp: no_budget_keys_def)
    then show ?thesis by (simp add: assms(4) map_of_eq_None_iff)
  qed
  have g: "map_of u ''submission-recovery-generation'' = None" using assms(3) by (simp add: replaces_claim_def dhas_def)
  have m: "map_of (merged md u rm) k = map_of md k" if "k \<in> insert ''submission-recovery-generation'' (set LOAD_BUDGET_KEYS)" for k
  proof (rule map_of_merged [OF assms(1)])
    show "k \<notin> set rm" using that by (intro mild_removal_key [OF assms(2)]) (auto simp: VIEWED_KEYS_def LOAD_BUDGET_KEYS_def)
    show "map_of u k = None" using that b g by auto
  qed
  show "gen_of (merged md u rm) = gen_of md" by (simp add: gen_of_def dget_def m)
  show "budget_of (merged md u rm) = budget_of md" by (simp add: budget_of_def dget_or_def m LOAD_BUDGET_KEYS_def)
qed

lemma merged_progress:
  assumes u: "typed_update u" "mild_removal rm md" "validate_submission_observation_progress md u rid sid = Inr ()"
    and t: "dget md ''unresolved-turn-pending'' = JBool True" "dget u ''unresolved-turn-pending'' \<noteq> JBool False"
    and i: "dhas u ''unresolved-turn-id'' \<Longrightarrow> dget u ''unresolved-turn-id'' = dget md ''unresolved-turn-id''"
    and st: "dhas u ''submission-state'' \<Longrightarrow> stage_le (dget md ''submission-state'') (dget u ''submission-state'')"
    and pr: "\<not> (dget md ''submission-proven'' = JBool True \<and> dget u ''submission-proven'' = JBool False)"
  shows "turn_progress (turn_view md) (turn_view (merged md u rm))"
proof -
  let ?m = "merged md u rm"
  have d: "distinct (map fst u)" using u(1) by (simp add: typed_update_def)
  have k: "dget ?m k = (if dhas u k then dget u k else dget md k)" if "k \<in> set VIEWED_KEYS" "k \<noteq> ''submission-proven''" for k
    using dget_merged [OF d] mild_removal_key [OF u(2) that] by blast
  note ks = k [of "''unresolved-turn-pending''"] k [of "''unresolved-turn-id''"] k [of "''submission-state''"]
    k [of "''send-intent-ever''"] k [of "''submission-stage''"]
  have o: "tv_open (turn_view ?m)" using t u(1) ks(1) by (auto simp: turn_view_def VIEWED_KEYS_def typed_update_def)
  have sp: "tv_sent (turn_view md) \<longrightarrow> tv_sent (turn_view ?m)" "rank_le (tv_rank (turn_view md)) (tv_rank (turn_view ?m))"
    using observation_progress [OF u(3,1), of ?m] ks(4,5) by (simp_all add: VIEWED_KEYS_def)
  have pv: "tv_proven (turn_view md) \<longrightarrow> tv_proven (turn_view ?m)"
  proof
    assume "tv_proven (turn_view md)"
    then have p: "dget md ''submission-proven'' = JBool True" by (simp add: turn_view_def)
    then have "''submission-proven'' \<notin> set rm" using u(2) by (auto simp: mild_removal_def VIEWED_KEYS_def)
    then show "tv_proven (turn_view ?m)" using dget_merged [OF d, of "''submission-proven''" rm md] p pr u(1) by (auto simp: turn_view_def typed_update_def)
  qed
  show ?thesis unfolding turn_progress_def using o sp pv t(1) i st ks(2,3) stage_le.same
    by (auto simp: turn_view_def VIEWED_KEYS_def)
qed

lemma progress_move:
  assumes "turn_progress (turn_view (session_provider_metadata r)) (turn_view (merged (session_provider_metadata r) u rm))"
    "distinct (map fst u)" "mild_removal rm (session_provider_metadata r)" "\<not> replaces_claim u" "no_budget_keys u = u"
  shows "heir r (write_checkpoint now (merged (session_provider_metadata r) u rm) r) \<and>
    sv_move T r (write_checkpoint now (merged (session_provider_metadata r) u rm) r)"
proof -
  let ?m = "merged (session_provider_metadata r) u rm"
  have "view (write_checkpoint now ?m r) = (view r)\<lparr>sv_turn := turn_view ?m\<rparr>" by (simp add: view_write merged_parts [OF assms(2-5)])
  then show ?thesis using sv_step.progress [of "view r" "turn_view ?m" T] assms(1) by (simp add: sv_move_def heir_write)
qed

lemma advance_effect:
  assumes "advance_body now rid sid cid ow u rm req r = Inr (SWrite q x ev)" "typed_update u" "\<not> replaces_claim u" "no_budget_keys u = u"
  shows "heir r q \<and> sv_move T r q"
proof -
  let ?md = "session_provider_metadata r" and ?rm = "rm @ [''submission-recovery-claim'']"
  have p: "prepared_unsent rid ?md" "dget u ''submission-state'' = JStr ''dispatching''" "dget u ''unresolved-turn-pending'' = JBool True"
      "dget u ''unresolved-turn-id'' = JStr rid"
    and s: "fresh_checkpoint_removals_are_safe ?md u rm" and v: "validate_submission_observation_progress ?md u rid sid = Inr ()"
    and q: "q = write_checkpoint now (merged ?md u ?rm) r"
    using assms(1) by (auto simp: advance_body_def Let_def res_iffs assert_prepared_claim_def holds_claim_def merged_def)
  have m: "mild_removal ?rm ?md" by (rule safe_removal_mild(1) [OF s])
  have "turn_progress (turn_view ?md) (turn_view (merged ?md u ?rm))"
    by (rule merged_progress [OF assms(2) m v]) (use p stage_le.dispatch in \<open>auto simp: prepared_unsent_def\<close>)
  then show ?thesis unfolding q using progress_move [OF _ _ m assms(3,4), of now T] assms(2) by (simp add: typed_update_def)
qed

text \<open>What the guards of an update leave.\<close>

lemma checkpoint_guards_facts:
  assumes "checkpoint_guards rid sid fresh prv u md = Inr ()"
  shows "(\<exists>ch. changes_stage md (cu_update u) = Inr ch \<and> (ch \<longrightarrow> fresh \<or> prv))"
    "dhas (cu_update u) ''unresolved-turn-id'' \<longrightarrow> dget (cu_update u) ''unresolved-turn-id'' = JStr rid"
    "dget (cu_update u) ''unresolved-turn-pending'' \<noteq> JBool False"
    "\<not> (dget md ''submission-proven'' = JBool True \<and> dget (cu_update u) ''submission-proven'' = JBool False)"
    "fresh \<Longrightarrow> fresh_checkpoint_removals_are_safe md (cu_update u) (cu_remove u)"
    "\<not> fresh \<Longrightarrow> \<not> list_ex (\<lambda>k. k \<in> set RECOVERY_CHECKPOINT_KEYS) (cu_remove u)"
    "validate_submission_observation_progress md (cu_update u) rid sid = Inr ()"
  using assms by (simp_all only: checkpoint_guards_def Let_def rbind_eq_Inr guard_r_eq_Inr) blast+

lemma unprotected_mild:
  assumes "\<not> list_ex (\<lambda>k. k \<in> set RECOVERY_CHECKPOINT_KEYS) rm" "list_all (\<lambda>k. k \<notin> set LOAD_BUDGET_KEYS) rm"
  shows "mild_removal rm md"
proof -
  have "set VIEWED_KEYS \<subseteq> set RECOVERY_CHECKPOINT_KEYS \<union> set LOAD_BUDGET_KEYS"
    by (simp add: VIEWED_KEYS_def RECOVERY_CHECKPOINT_KEYS_def LOAD_BUDGET_KEYS_def)
  then show ?thesis using assms unfolding mild_removal_def list_ex_iff list_all_iff by blast
qed

lemma unchanged_stage:
  assumes "changes_stage md u = Inr False" "dhas u ''submission-state''"
  shows "dget u ''submission-state'' = JStr ''dispatching'' \<and> dget md ''submission-state'' \<in> {JNull, JStr ''dispatching''}"
  using assms by (auto simp: changes_stage_def in_set_def res_iffs split: if_split_asm)

lemma dhas_of_dget: "dget d k = v \<Longrightarrow> v \<noteq> JNull \<Longrightarrow> dhas d k"
  using dhas_dget by fastforce

text \<open>The three ways an update finds the turn it continues.\<close>

definition continues :: "string \<Rightarrow> dict \<Rightarrow> dict \<Rightarrow> bool" where
  "continues rid md u \<longleftrightarrow> dget md ''unresolved-turn-pending'' = JBool True \<and> dget md ''unresolved-turn-id'' = JStr rid \<and>
     (dhas u ''submission-state'' \<longrightarrow> stage_le (dget md ''submission-state'') (dget u ''submission-state''))"

lemma stage_check_continues:
  assumes c: "stage_check rid sid ow u False req r = Inr (fresh, prv)"
    and g: "checkpoint_guards rid sid fresh prv u (session_provider_metadata r) = Inr ()"
  shows "continues rid (session_provider_metadata r) (cu_update u)"
proof -
  let ?md = "session_provider_metadata r" and ?u = "cu_update u"
  obtain ch where ch: "changes_stage ?md ?u = Inr ch" "ch \<longrightarrow> fresh \<or> prv" using checkpoint_guards_facts(1) [OF g] by blast
  show ?thesis
  proof (cases "fresh_prepared_dispatch u ?md")
    case True
    then have "check_fresh_dispatch rid sid u ?md req = Inr ()" using c by (auto simp: stage_check_def Let_def res_iffs)
    then show ?thesis using True stage_le.dispatch by (simp add: check_fresh_dispatch_def continues_def fresh_prepared_dispatch_def res_iffs)
  next
    case nd: False
    show ?thesis
    proof (cases "dget ?md ''submission-state'' = JStr ''prepared''")
      case True
      then have h: "prepared_unsent rid ?md" "\<not> fresh" "\<not> prv"
        using c nd by (auto simp: stage_check_def Let_def res_iffs assert_prepared_claim_def holds_claim_def)
      then have "ch = False" using ch(2) by blast
      then have "\<not> dhas ?u ''submission-state''" using unchanged_stage [of ?md ?u] ch(1) True by auto
      then show ?thesis using h(1) by (simp add: continues_def prepared_unsent_def)
    next
      case False
      then have d: "check_dispatch_stage rid sid u ?md req = Inr prv" "\<not> fresh" using c nd by (auto simp: stage_check_def Let_def res_iffs)
      then have t: "dget ?md ''unresolved-turn-pending'' = JBool True" "dget ?md ''unresolved-turn-id'' = JStr rid" "prv = dispatching_to_proven rid u ?md req"
        by (auto simp: check_dispatch_stage_def Let_def split: if_split_asm)
      have "stage_le (dget ?md ''submission-state'') (dget ?u ''submission-state'')" if has: "dhas ?u ''submission-state''"
      proof (cases ch)
        case True
        then have "dispatching_to_proven rid u ?md req" using ch(2) d(2) t(3) by simp
        then show ?thesis using stage_le.prove by (simp add: dispatching_to_proven_def Let_def)
      next
        case False
        then show ?thesis using unchanged_stage [of ?md ?u] ch(1) has stage_le.undated stage_le.same by auto
      qed
      then show ?thesis using t by (simp add: continues_def)
    qed
  qed
qed

lemma checkpoint_effect:
  assumes b: "checkpoint_body now rid sid ow u fresh_cp req r = Inr (SWrite q x ev)"
    and f: "fresh_cp \<Longrightarrow> fresh_prepared_checkpoint rid u (session_provider_metadata r) = Inr True"
    and t: "typed_update (cu_update u)" "\<not> replaces_claim (cu_update u)" "no_budget_keys (cu_update u) = cu_update u"
    and rm: "list_all (\<lambda>k. k \<notin> set LOAD_BUDGET_KEYS) (cu_remove u)"
  shows "heir r q \<and> sv_move T r q"
proof -
  let ?md = "session_provider_metadata r" and ?u = "cu_update u" and ?rm = "cu_remove u"
  obtain fresh prv where c: "stage_check rid sid ow u fresh_cp req r = Inr (fresh, prv)" and g: "checkpoint_guards rid sid fresh prv u ?md = Inr ()"
    and q: "q = write_checkpoint now (merged ?md ?u ?rm) r"
    using b by (auto simp: checkpoint_body_def checkpoint_write_def merged_def Let_def res_iffs)
  note gf = checkpoint_guards_facts [OF g]
  have d: "distinct (map fst ?u)" using t(1) by (simp add: typed_update_def)
  have m: "mild_removal ?rm ?md" using gf(5,6) safe_removal_mild(2) unprotected_mild [OF _ rm] by (cases fresh) auto
  show ?thesis
  proof (cases fresh_cp)
    case True
    note fp = f [OF True]
    have n: "\<not> tv_open (turn_view ?md)" and up: "dget ?u ''submission-state'' = JStr ''prepared''" "dget ?u ''unresolved-turn-pending'' = JBool True"
        "dget ?u ''submission-proven'' = JBool False"
      using fp by (auto simp: fresh_prepared_checkpoint_def res_iffs turn_view_def)
    have k: "k \<in> set VIEWED_KEYS \<Longrightarrow> k \<noteq> ''submission-proven'' \<Longrightarrow> dhas ?u k \<Longrightarrow> dget (merged ?md ?u ?rm) k = dget ?u k" for k
      using dget_merged [OF d] mild_removal_key [OF m] by simp
    have pv: "dget (merged ?md ?u ?rm) ''submission-proven'' \<noteq> JBool True"
      using dget_merged [OF d, of "''submission-proven''" ?rm ?md] up(3) dhas_of_dget [OF up(3)] by (auto simp: merged_def dget_pops)
    have "tv_open (turn_view (merged ?md ?u ?rm))" "tv_stage (turn_view (merged ?md ?u ?rm)) = JStr ''prepared''" "\<not> tv_proven (turn_view (merged ?md ?u ?rm))"
      using k [of "''unresolved-turn-pending''"] k [of "''submission-state''"] dhas_of_dget [OF up(1)] dhas_of_dget [OF up(2)] up pv
      by (simp_all add: turn_view_def VIEWED_KEYS_def)
    then have "sv_step T (view r) ((view r)\<lparr>sv_turn := turn_view (merged ?md ?u ?rm)\<rparr>)" using n by (intro sv_step.prepare) simp_all
    moreover have "view q = (view r)\<lparr>sv_turn := turn_view (merged ?md ?u ?rm)\<rparr>" by (simp add: q view_write merged_parts [OF d m t(2,3)])
    ultimately show ?thesis by (simp add: sv_move_def q heir_write)
  next
    case False
    then have cn: "continues rid ?md ?u" using stage_check_continues [OF _ g] c by simp
    have "turn_progress (turn_view ?md) (turn_view (merged ?md ?u ?rm))"
      by (rule merged_progress [OF t(1) m gf(7)]) (use cn gf in \<open>auto simp: continues_def\<close>)
    then show ?thesis unfolding q by (rule progress_move [OF _ d m t(2,3)])
  qed
qed

end
