(* ===== verification/Session_System.thy ===== *)
theory Session_System
  imports Session_Contract
begin

text \<open>
  The session store as a system: every call of \<open>Session_Records\<close> and \<open>Session_Checkpoints\<close> satisfies the
  interface \<open>session_call\<close> (it moves each stored session along the contract and neither creates nor drops
  one), \<open>ses_sys\<close> is any interleaving of them, and the properties of sessions follow from the contract by
  induction over runs.
\<close>

section \<open>The interface\<close>

text \<open>The requests a call finds ended.\<close>

definition terminals :: "('a senv_scheme) \<Rightarrow> sesw \<Rightarrow> string set" where
  "terminals E w = {rid. \<exists>req p. read_record E True rid (sw_proj w) = (Inr req, p) \<and> dget req ''state'' \<in> JStr ` set TERMINAL_STATES}"

locale session_call =
  fixes E :: "'a senv_scheme" and call :: "sesw \<Rightarrow> 'r \<times> sesw"
  assumes moves: "ses_named E w \<Longrightarrow> ses_moves E (sv_move (terminals E w)) w (snd (call w))"
begin

lemma named: "ses_named E w \<Longrightarrow> ses_named E (snd (call w))"
  by (rule ses_moves_named [OF moves])

lemma kept:
  assumes "ses_named E w" "ses_of E w sid = Some r"
  shows "\<exists>r'. ses_of E (snd (call w)) sid = Some r' \<and> sv_move (terminals E w) r r'"
proof -
  from moves [OF assms(1)] have "ses_of E (snd (call w)) sid = ses_of E w sid \<or>
    (\<exists>r r'. ses_of E w sid = Some r \<and> ses_of E (snd (call w)) sid = Some r' \<and> heir r r' \<and> sv_move (terminals E w) r r')"
    unfolding ses_moves_def by blast
  then show ?thesis using assms(2) by (auto simp: sv_move_def)
qed

lemma files: "ses_named E w \<Longrightarrow> dom (map_of (sw_sessions (snd (call w)))) = dom (map_of (sw_sessions w))"
  using moves by (simp add: ses_moves_def)

lemma unread:
  assumes "ses_named E w" "ses_of E w sid = None"
  shows "ses_of E (snd (call w)) sid = None"
  using moves [OF assms(1)] assms(2) unfolding ses_moves_def by (metis option.distinct(1))

end

text \<open>A call that is one update of one record.\<close>

locale session_body_call =
  fixes E :: "'a senv_scheme" and sid :: string and body :: "dict \<Rightarrow> 'r soutcome res"
  assumes effect: "current_session r \<Longrightarrow> body r = Inr (SWrite q x ev) \<Longrightarrow> heir r q \<and> sv_move T r q"

sublocale session_body_call \<subseteq> session_call E "session_update E sid body"
  by unfold_locales (rule session_update_moves, simp, rule effect [OF ses_of_current])

text \<open>The same behind the fence of the request's owner.\<close>

locale owned_body_call =
  fixes E :: "'a senv_scheme" and allow :: bool and rid sid :: string and ow :: cowner and body :: "dict \<Rightarrow> dict \<Rightarrow> 'r soutcome res"
  assumes effect: "current_session r \<Longrightarrow> body req r = Inr (SWrite q x ev) \<Longrightarrow> heir r q \<and> sv_move T r q"

sublocale owned_body_call \<subseteq> session_call E "owned_session_update E allow rid sid ow body"
  by unfold_locales (rule owned_update_moves, simp, rule effect [OF ses_of_current])

section \<open>The calls implement it\<close>

interpretation trn: session_body_call E sid "transition_session_body now st us" for E sid now st us
  by unfold_locales (rule transition_session_effect)

interpretation rtn: session_body_call E sid "record_turn_body now rid pm" for E sid now rid pm
  by unfold_locales (rule record_turn_effect)

interpretation acc: session_body_call E sid "accepted_turn_body now sid" for E sid now
  by unfold_locales (rule accepted_turn_effect)

interpretation crt: session_body_call E sid "claim_retention_body now sid op" for E sid now op
  by unfold_locales (rule claim_retention_effect)

interpretation del: session_body_call E sid "begin_deletion_body sid op ids0 digest" for E sid op ids0 digest
  by unfold_locales (rule begin_deletion_effect)

interpretation rel: session_body_call E sid "release_retention_body sid op" for E sid op
  by unfold_locales (rule release_retention_effect)

interpretation rcl: session_body_call E sid "release_claim_body now cid" for E sid now cid
  by unfold_locales (rule release_claim_effect)

interpretation bud: owned_body_call E allow rid sid ow "load_budget_body now rid mx act" for E allow rid sid ow now mx act
  by unfold_locales (rule load_budget_effect)

interpretation man: owned_body_call E allow rid sid ow "manual_reconcile_body now rid sid" for E allow rid sid ow now
  by unfold_locales (rule manual_reconcile_effect)

interpretation uns: owned_body_call E allow rid sid ow "clear_unsent_body now rid sid attempt" for E allow rid sid ow now attempt
  by unfold_locales (rule clear_unsent_effect)

interpretation cpr: owned_body_call E allow rid sid ow "claim_prepared_body E clock now cid rid sid ow lease" for E allow rid sid ow clock now cid lease
  by unfold_locales (rule claim_prepared_effect)

interpretation transition: session_call E "transition_session_record E now sid st us" for E now sid st us
  by unfold_locales (simp add: transition_session_record_def Let_def ses_moves_same trn.moves)

interpretation turns: session_call E "record_session_turn E now sid rid pm" for E now sid rid pm
  by unfold_locales (simp add: record_session_turn_def rtn.moves)

interpretation accepted: session_call E "record_accepted_turn E now sid" for E now sid
  by unfold_locales (simp add: record_accepted_turn_def acc.moves)

interpretation retain: session_call E "claim_retention E now sid op" for E now sid op
  by unfold_locales (simp add: claim_retention_def ses_moves_same crt.moves)

interpretation deletion: session_call E "begin_retention_deletion E sid op ids0 digest" for E sid op ids0 digest
  by unfold_locales (simp add: begin_retention_deletion_def del.moves)

interpretation release: session_call E "release_retention_claim E sid op" for E sid op
  by unfold_locales (simp add: release_retention_claim_def rel.moves)

interpretation budget: session_call E "owned_conversation_load_budget E now sid rid ow mx act" for E now sid rid ow mx act
  by unfold_locales (simp add: owned_conversation_load_budget_def ses_moves_same bud.moves)

interpretation manual: session_call E "annotate_owned_manual_reconciliation E now sid rid ow" for E now sid rid ow
  by unfold_locales (simp add: annotate_owned_manual_reconciliation_def man.moves)

interpretation unsent: session_call E "clear_owned_unsent_submission_checkpoint E now sid rid attempt ow" for E now sid rid attempt ow
  by unfold_locales (simp add: clear_owned_unsent_submission_checkpoint_def uns.moves)

interpretation claim: session_call E "claim_prepared_submission_recovery E clock now cid sid rid ow lease" for E clock now cid sid rid ow lease
  by unfold_locales (simp add: claim_prepared_submission_recovery_def cpr.moves)

interpretation unclaim: session_call E "release_prepared_submission_recovery_claim E now sid cid" for E now sid cid
  by unfold_locales (auto simp: release_prepared_submission_recovery_claim_def ses_moves_same rcl.moves split: sum.split py_error.split)

lemma clear_terminal_moves:
  assumes "ses_named E w"
  shows "ses_moves E (sv_move (terminals E w)) w (snd (clear_terminal_submission_checkpoint E now sid rid a w))"
proof -
  obtain x p where rd: "read_record E True rid (sw_proj w) = (x, p)" by fastforce
  let ?w = "w\<lparr>sw_proj := p\<rparr>" and ?c = "clear_terminal_submission_checkpoint E now sid rid a w"
  have n: "ses_named E ?w" using assms by (simp add: ses_named_def ses_of_same [of ?w w])
  show ?thesis
  proof (cases x)
    case (Inl e)
    then show ?thesis by (simp add: clear_terminal_submission_checkpoint_def rd ses_moves_same)
  next
    case (Inr req)
    show ?thesis
    proof (cases "dget req ''state'' \<in> JStr ` set TERMINAL_STATES \<and> dget req ''session-id'' = JStr sid \<and>
        list_all (\<lambda>k. k \<in> set RECOVERY_CHECKPOINT_KEYS - {''unresolved-turn-pending'', ''submission-recovery-claim''}) (ca_remove a) \<and>
        list_all (\<lambda>(k, v). k \<in> {''chat-url'', ''provider-session-id'', ''project-url'', ''chat-title'', ''target-id''}) (ca_new_binding a)")
      case True
      then have c: "?c = session_update E sid (clear_terminal_body now rid a) ?w"
        by (simp add: clear_terminal_submission_checkpoint_def rd Inr Let_def)
      have t: "rid \<in> terminals E w" using True by (auto simp: terminals_def rd Inr)
      have rm: "k \<notin> set LOAD_BUDGET_KEYS \<and> k \<noteq> ''unresolved-turn-pending''" if "k \<in> set (ca_remove a)" for k
      proof -
        have "k \<in> set RECOVERY_CHECKPOINT_KEYS - {''unresolved-turn-pending'', ''submission-recovery-claim''}"
          using True that unfolding list_all_iff by blast
        then show ?thesis by (auto simp: RECOVERY_CHECKPOINT_KEYS_def LOAD_BUDGET_KEYS_def)
      qed
      have nb: "k \<notin> set VIEWED_KEYS" if kb: "k \<in> fst ` set (ca_new_binding a)" for k
      proof -
        obtain v where "(k, v) \<in> set (ca_new_binding a)" using kb by auto
        then have "k \<in> {''chat-url'', ''provider-session-id'', ''project-url'', ''chat-title'', ''target-id''}"
          using True unfolding list_all_iff by blast
        then show ?thesis by (auto simp: VIEWED_KEYS_def)
      qed
      have "ses_moves E (sv_move (terminals E w)) ?w (snd (session_update E sid (clear_terminal_body now rid a) ?w))"
        by (rule session_update_moves [OF n], rule clear_terminal_effect [OF _ t rm nb])
      then show ?thesis unfolding c by (rule ses_moves_proj)
    next
      case False
      then have "snd ?c = ?w" by (auto simp: clear_terminal_submission_checkpoint_def rd Inr Let_def)
      then show ?thesis by (simp add: ses_moves_same)
    qed
  qed
qed

interpretation clear: session_call E "clear_terminal_submission_checkpoint E now sid rid a" for E now sid rid a
  by unfold_locales (rule clear_terminal_moves)

lemma register_sessions: "sw_sessions (snd (register_in E now r w)) = sw_sessions w"
  by (simp add: register_in_def split: prod.split)

lemma install_initial_moves:
  assumes "ses_named E w"
  shows "ses_moves E (sv_move T) w (snd (install_initial_provider_binding E fresh now sid pid surface ref ident md w))"
proof (cases "rbind (read_session_record E sid w) (\<lambda>r. rbind (initial_binding E fresh now sid pid surface ref ident md r) (\<lambda>r'.
             rbind (validate_session E ''VAL-AGW-120'' r') (\<lambda>_. Inr r')))")
  case (Inl e)
  then show ?thesis by (simp add: install_initial_provider_binding_def ses_moves_same)
next
  case (Inr r')
  then obtain r q where r: "ses_of E w sid = Some r" and b: "initial_binding E fresh now sid pid surface ref ident md r = Inr r'"
    and v: "validate_session E ''VAL-AGW-120'' r' = Inr q" by (auto simp: res_iffs ses_of_iff)
  have h: "heir r r'" "sv_move T r r'" using initial_binding_effect [OF b] by blast+
  have c: "current_session r'" using validate_version [OF v _ ses_of_current [OF r]] h(1) by (simp add: heir_def)
  obtain y w1 where g: "register_in E now r' w = (y, w1)" by fastforce
  have s: "sw_sessions w1 = sw_sessions w" using register_sessions [of E now r' w] g by simp
  show ?thesis
  proof (cases y)
    case (Inl e)
    then show ?thesis using s by (simp add: install_initial_provider_binding_def Inr g ses_moves_same)
  next
    case y: (Inr u)
    have "ses_moves E (sv_move T) w1 (put_session sid r' w1)"
      using put_moves [of E w1 sid r r' "sv_move T"] r h c by (simp add: ses_of_same [OF s])
    then show ?thesis by (simp add: install_initial_provider_binding_def Inr g y ses_moves_def ses_of_same [OF s] s)
  qed
qed

interpretation install: session_call E "install_initial_provider_binding E fresh now sid pid surface ref ident md" for E fresh now sid pid surface ref ident md
  by unfold_locales (rule install_initial_moves)

lemma no_budget_idem: "no_budget_keys (no_budget_keys u) = no_budget_keys u"
  by (simp add: no_budget_keys_def)

lemma update_owned_moves:
  assumes "ses_named E w" "typed_update (no_budget_keys upd)"
  shows "ses_moves E (sv_move T) w (snd (update_owned_submission_checkpoint E now sid rid upd ow claim rm w))"
proof -
  let ?u = "\<lparr>cu_update = no_budget_keys upd, cu_remove = filter (\<lambda>k. k \<notin> set LOAD_BUDGET_KEYS) rm, cu_claim = claim\<rparr>"
  let ?pre = "rbind (read_session_record E sid w) (\<lambda>r. let md = session_provider_metadata r in
             rbind (fresh_prepared_checkpoint rid ?u md) (\<lambda>f. Inr (f, \<not> f \<and> \<not> fresh_prepared_dispatch ?u md \<and> dget md ''submission-state'' = JStr ''prepared'')))"
  show ?thesis
  proof (cases "replaces_claim (no_budget_keys upd)")
    case True
    then show ?thesis by (simp add: update_owned_submission_checkpoint_def Let_def ses_moves_same)
  next
    case nr: False
    show ?thesis
    proof (cases ?pre)
      case (Inl e)
      then show ?thesis using nr by (simp add: update_owned_submission_checkpoint_def Let_def ses_moves_same)
    next
      case (Inr fc)
      obtain f c where fc: "fc = (f, c)" by fastforce
      obtain r where r: "ses_of E w sid = Some r" "fresh_prepared_checkpoint rid ?u (session_provider_metadata r) = Inr f"
        using Inr fc by (auto simp: res_iffs ses_of_iff Let_def)
      have "ses_moves E (sv_move T) w (snd (owned_session_update E c rid sid ow (checkpoint_body now rid sid ow ?u f) w))"
      proof (rule owned_update_moves [OF assms(1)])
        fix req r' q x ev
        assume a: "ses_of E w sid = Some r'" "checkpoint_body now rid sid ow ?u f req r' = Inr (SWrite q x ev)"
        then have "r' = r" using r(1) by simp
        then show "heir r' q \<and> sv_move T r' q"
          using checkpoint_effect [OF a(2), of T] r(2) assms(2) nr by (simp add: no_budget_idem list_all_iff)
      qed
      then show ?thesis using nr Inr fc by (simp add: update_owned_submission_checkpoint_def Let_def ses_moves_same)
    qed
  qed
qed

lemma update_metadata_moves:
  assumes "ses_named E w" "typed_update (no_budget_keys md)"
  shows "ses_moves E (sv_move T) w (snd (update_provider_metadata E now sid md rm owner claim w))"
proof -
  let ?md = "no_budget_keys md" and ?rm = "filter (\<lambda>k. k \<notin> set LOAD_BUDGET_KEYS) rm"
  show ?thesis
  proof (cases "list_ex (\<lambda>(k, v). k \<in> set RECOVERY_CHECKPOINT_KEYS) ?md \<or> list_ex (\<lambda>k. k \<in> set RECOVERY_CHECKPOINT_KEYS) ?rm")
    case True
    have "ses_moves E (sv_move T) w (snd (update_owned_submission_checkpoint E now sid rid ?md ow claim ?rm w))" for rid ow
      by (rule update_owned_moves [OF assms(1)]) (simp add: no_budget_idem assms(2))
    then show ?thesis using True by (auto simp: update_provider_metadata_def Let_def ses_moves_same split: option.split)
  next
    case False
    have "set VIEWED_KEYS \<subseteq> set RECOVERY_CHECKPOINT_KEYS \<union> set LOAD_BUDGET_KEYS"
      by (simp add: VIEWED_KEYS_def RECOVERY_CHECKPOINT_KEYS_def LOAD_BUDGET_KEYS_def)
    then have "k \<notin> fst ` set ?md \<and> k \<notin> set ?rm" if "k \<in> set VIEWED_KEYS" for k
      using False that by (auto simp: list_ex_iff no_budget_keys_def) blast
    then have "ses_moves E (sv_move T) w (snd (session_update E sid (plain_metadata_body now ?md ?rm) w))"
      by (intro session_update_moves [OF assms(1)] plain_metadata_effect)
    then show ?thesis using False by (simp add: update_provider_metadata_def Let_def)
  qed
qed

lemma advance_moves:
  assumes "ses_named E w" "typed_update upd" "no_budget_keys upd = upd"
  shows "ses_moves E (sv_move T) w (snd (advance_prepared_submission_to_dispatching E now sid rid upd cid ow rm w))"
proof (cases "replaces_claim upd")
  case False
  then have "ses_moves E (sv_move T) w (snd (owned_session_update E True rid sid ow (advance_body now rid sid cid ow upd rm) w))"
    by (intro owned_update_moves [OF assms(1)] advance_effect [OF _ assms(2) _ assms(3)])
  then show ?thesis using False by (simp add: advance_prepared_submission_to_dispatching_def)
qed (simp add: advance_prepared_submission_to_dispatching_def ses_moves_same)

section \<open>Opening the provider again\<close>

lemma install_prepared_effect:
  assumes "install_prepared_record E fresh now sid pid surface ref expected bmd ident r = Inr q"
  shows "heir r q \<and> sv_move T r q"
proof (cases "is_dict (dget r ''binding'')")
  case True
  then have "q = write_checkpoint now (dupd (session_provider_metadata r) (unfenced bmd)) r"
    using assms by (auto simp: install_prepared_record_def Let_def res_iffs split: json.split_asm)
  then show ?thesis using same_viewed_unfenced by (simp add: sv_move_def heir_write write_same_viewed)
next
  case False
  then obtain b where q: "q = write_checkpoint now (dupd (session_provider_metadata r) (unfenced bmd)) (dset ''binding'' b r)"
    using assms by (auto simp: install_prepared_record_def Let_def res_iffs split: json.split_asm)
  show ?thesis by (rule bind_move [OF False, of q b]) (simp_all add: q dget_write same_viewed_unfenced)
qed

text \<open>The schema rules out an empty binding.\<close>

lemma current_binding:
  assumes "current_session r" "is_dict (dget r ''binding'')"
  shows "truthy (dget r ''binding'')"
proof -
  obtain b where b: "map_of r ''binding'' = Some (JObj b)"
    using assms(2) by (cases "dget r ''binding''") (auto simp: dget_def split: option.split_asm)
  have "list_all (\<lambda>(k, w). case map_of [(''binding'', binding_schema)] k of Some p \<Rightarrow> p w | None \<Rightarrow> True) r"
    using assms(1) by (simp add: current_session_def session_schema_def sch_object_def list_all_iff) (auto split: if_split_asm)
  then have "binding_schema (JObj b)" using map_of_SomeD [OF b] by (auto simp: list_all_iff)
  then show ?thesis using b by (auto simp: binding_schema_def sch_null_or_def sch_object_def dget_def dhas_def)
qed

lemma opened_merge_effect:
  assumes "opened_record_merge E now sid expected opened r = Inr q" "current_session r"
  shows "heir r q \<and> sv_move T r q"
proof -
  obtain ob where ob: "dget opened ''binding'' = JObj ob" using assms(1) by (cases "dget opened ''binding''") (auto simp: opened_record_merge_def Let_def)
  obtain opn om where q: "q = touch now (dset ''provider'' (JObj (dset ''metadata'' (JObj (dupd (session_provider_metadata r) (unfenced om)))
      (dupd (grp ''provider'' r) (dpop ''metadata'' opn)))) (dset ''provider-transport-kind'' (JStr ''provider-session'') (dset ''binding'' (por (dget r ''binding'') (JObj ob)) r)))"
    using assms(1) by (simp only: opened_record_merge_def Let_def ob json.case rbind_eq_Inr sum.inject) blast
  have f: "dget q k = (if k = ''binding'' then por (dget r ''binding'') (JObj ob) else dget r k)"
    if "k \<notin> {''provider'', ''timing'', ''provider-transport-kind''}" for k using that by (simp add: q touch_def)
  have "session_provider_metadata q = dupd (session_provider_metadata r) (unfenced om)" by (simp add: q) (simp add: session_provider_metadata_def)
  then have sv: "same_viewed (session_provider_metadata r) (session_provider_metadata q)" by (simp add: same_viewed_unfenced)
  show ?thesis
  proof (cases "is_dict (dget r ''binding'')")
    case True
    then have p: "por (dget r ''binding'') (JObj ob) = dget r ''binding''" using current_binding [OF assms(2)] by (simp add: por_def)
    have "sv_move T r q" by (rule sv_move_frame [OF _ sv]) (auto simp: f p)
    then show ?thesis by (simp add: heir_def f)
  next
    case False
    show ?thesis by (rule bind_move [OF False f sv])
  qed
qed

lemma validated_heir:
  assumes "validate_session E c q = Inr q'" "heir r q" "ses_of E w sid = Some r"
  shows "current_session q"
  using validate_version [OF assms(1) _ ses_of_current [OF assms(3)]] assms(2) by (simp add: heir_def)

lemma ses_moves_from: "sw_sessions w1 = sw_sessions w \<Longrightarrow> ses_moves E R w1 w' \<Longrightarrow> ses_moves E R w w'"
  using ses_of_same [of w1 w E] by (simp add: ses_moves_def)

lemma ses_moves_to: "sw_sessions w1 = sw_sessions w' \<Longrightarrow> ses_moves E R w w' \<Longrightarrow> ses_moves E R w w1"
  using ses_of_same [of w1 w' E] by (simp add: ses_moves_def)

lemma ses_named_from: "sw_sessions w1 = sw_sessions w \<Longrightarrow> ses_named E w \<Longrightarrow> ses_named E w1"
  using ses_of_same [of w1 w E] by (simp add: ses_named_def)

lemma install_prepared_moves:
  assumes "ses_named E w"
  shows "ses_moves E (sv_move T) w (snd (install_prepared_recovery_binding E fresh now sid rid pid surface ref cid ow expected bmd ident w))"
proof -
  obtain x w1 where a: "assert_request_dispatch_owner E True rid sid ow w = (x, w1)" by fastforce
  have s: "sw_sessions w1 = sw_sessions w" using assert_owner_sessions [of E True rid sid ow w] a by simp
  note n = ses_named_from [OF s assms]
  let ?pre = "rbind (read_session_record E sid w1) (\<lambda>r. rbind (assert_prepared_claim rid sid cid ow r) (\<lambda>_.
                rbind (install_prepared_record E fresh now sid pid surface ref expected bmd ident r) (\<lambda>r'.
                rbind (validate_session E ''VAL-AGW-120'' r') (\<lambda>_. Inr r'))))"
  show ?thesis
  proof (cases "isl x \<or> isl ?pre")
    case True
    then have "snd (install_prepared_recovery_binding E fresh now sid rid pid surface ref cid ow expected bmd ident w) = w1"
      using a by (auto simp: install_prepared_recovery_binding_def isl_def split: sum.split)
    then show ?thesis using s by (simp add: ses_moves_same)
  next
    case False
    then obtain req r' where x: "x = Inr req" and p: "?pre = Inr r'" by (cases x; cases ?pre) auto
    obtain r where r: "ses_of E w1 sid = Some r" "install_prepared_record E fresh now sid pid surface ref expected bmd ident r = Inr r'"
      using p by (auto simp: res_iffs ses_of_iff)
    obtain y w2 where g: "register_in E now r' w1 = (y, w2)" by fastforce
    have s2: "sw_sessions w2 = sw_sessions w1" using register_sessions [of E now r' w1] g by simp
    have h: "heir r r' \<and> sv_move T r r'" by (rule install_prepared_effect [OF r(2)])
    have "ses_moves E (sv_move T) w2 (snd (session_commit E sid (SWrite r' r' None) w2))"
      using session_commit_moves [OF ses_named_from [OF s2 n], of sid r "SWrite r' r' None" "sv_move T"] r(1) h
      by (simp add: ses_of_same [OF s2])
    then have "ses_moves E (sv_move T) w (snd (session_commit E sid (SWrite r' r' None) w2))"
      using ses_moves_from [of w2 w] s s2 by simp
    then show ?thesis using a x p g s s2
      by (cases y) (simp_all add: install_prepared_recovery_binding_def ses_moves_same)
  qed
qed

interpretation reinstall: session_call E "install_prepared_recovery_binding E fresh now sid rid pid surface ref cid ow expected bmd ident"
  for E fresh now sid rid pid surface ref cid ow expected bmd ident
  by unfold_locales (rule install_prepared_moves)

lemma rollback_moves:
  assumes "ses_named E w" "ses_of E w sid = Some r" "heir r r'" "sv_move T r r'" "current_session r'" "sw_sessions w3 = sw_sessions (put_session sid r' w)"
  shows "ses_moves E (sv_move T) w (snd (rollback_open E now err r r' w3))"
proof -
  have m: "ses_moves E (sv_move T) w w3" using ses_moves_to [OF assms(6)] put_moves [of E w sid r r' "sv_move T"] assms by blast
  have o: "ses_of E w3 sid = Some r'" using ses_of_same [OF assms(6), of E] ses_of_put [OF assms(5), of E sid w] by simp
  have h: "heir r' r" using assms(3) by (simp add: heir_def)
  obtain y w4 where wr: "write_session_record E r w3 = (y, w4)" by fastforce
  have i: "sw_sessions (snd (rollback_open E now err r r' w3)) = sw_sessions w4"
    by (simp add: rollback_open_def wr split: sum.split)
  from write_session_cases [OF wr ses_moves_named [OF m assms(1)] o h] show ?thesis
  proof
    assume "isl y \<and> w4 = w3"
    then show ?thesis using ses_moves_to [OF i] m by simp
  next
    assume w4: "y = Inr () \<and> current_session r \<and> w4 = put_session sid r w3"
    have "ses_of E w4 sid' = ses_of E w sid'" for sid'
      using w4 ses_of_put [of r E sid w3 sid'] ses_of_same [OF assms(6), of E] ses_of_put [OF assms(5), of E sid w sid'] assms(2) by simp
    moreover have "dom (map_of (sw_sessions w4)) = dom (map_of (sw_sessions w))"
      using w4 m o put_moves [of E w3 sid r' r "\<lambda>_ _. True"] h by (simp add: ses_moves_def)
    ultimately have "ses_moves E (sv_move T) w w4" by (simp add: ses_moves_def)
    then show ?thesis by (rule ses_moves_to [OF i])
  qed
qed

lemma commit_open_moves:
  assumes "ses_named E w"
  shows "ses_moves E (sv_move T) w (snd (commit_prepared_recovery_open E now sid rid opened cid ow expected w))"
proof -
  obtain x w1 where a: "assert_request_dispatch_owner E True rid sid ow w = (x, w1)" by fastforce
  have s: "sw_sessions w1 = sw_sessions w" using assert_owner_sessions [of E True rid sid ow w] a by simp
  note n = ses_named_from [OF s assms]
  let ?pre = "rbind (read_session_record E sid w1) (\<lambda>r. rbind (assert_prepared_claim rid sid cid ow r) (\<lambda>_.
                rbind (opened_record_merge E now sid expected opened r) (\<lambda>r'. rbind (validate_session E ''VAL-AGW-120'' r') (\<lambda>_. Inr (r, r')))))"
  let ?c = "commit_prepared_recovery_open E now sid rid opened cid ow expected w"
  show ?thesis
  proof (cases "isl x \<or> isl ?pre")
    case True
    then have "snd ?c = w1" using a by (auto simp: commit_prepared_recovery_open_def isl_def split: sum.split)
    then show ?thesis using s by (simp add: ses_moves_same)
  next
    case False
    then obtain req rr where x: "x = Inr req" and p: "?pre = Inr rr" by (cases x; cases ?pre) auto
    obtain r r' q where rr: "rr = (r, r')" and r: "ses_of E w1 sid = Some r" "opened_record_merge E now sid expected opened r = Inr r'"
      and v: "validate_session E ''VAL-AGW-120'' r' = Inr q"
      using p by (auto simp: res_iffs ses_of_iff)
    have h: "heir r r'" "sv_move T r r'" using opened_merge_effect [OF r(2) ses_of_current [OF r(1)]] by blast+
    note c = validated_heir [OF v h(1) r(1)]
    obtain y w2 where wr: "write_session_record E r' w1 = (y, w2)" by fastforce
    have "ses_moves E (sv_move T) w1 (snd ?c)"
    proof (cases y)
      case (Inl e)
      then have "w2 = w1" using write_session_cases [OF wr n r(1) h(1)] by auto
      then show ?thesis using a x p rr wr Inl by (simp add: commit_prepared_recovery_open_def ses_moves_same)
    next
      case (Inr u)
      then have w2: "w2 = put_session sid r' w1" using write_session_cases [OF wr n r(1) h(1)] by auto
      obtain z w3 where g: "register_in E now r' w2 = (z, w3)" by fastforce
      have s3: "sw_sessions w3 = sw_sessions (put_session sid r' w1)" using register_sessions [of E now r' w2] g w2 by simp
      show ?thesis
      proof (cases z)
        case z: (Inl e)
        then show ?thesis using a x p rr wr Inr g rollback_moves [OF n r(1) h c s3] by (simp add: commit_prepared_recovery_open_def)
      next
        case z: (Inr u')
        have "ses_moves E (sv_move T) w1 w3"
          using ses_moves_to [OF s3] put_moves [of E w1 sid r r' "sv_move T"] r(1) h c by blast
        then show ?thesis using a x p rr wr Inr g z by (simp add: commit_prepared_recovery_open_def)
      qed
    qed
    then show ?thesis by (rule ses_moves_from [OF s])
  qed
qed

interpretation reopen: session_call E "commit_prepared_recovery_open E now sid rid opened cid ow expected" for E now sid rid opened cid ow expected
  by unfold_locales (rule commit_open_moves)

section \<open>Runs\<close>

text \<open>Any call of the store, the creation of a session under a fresh name, and any activity that leaves the
  session files alone.  The two calls that write checkpoint fields get an update as their callers build it.\<close>

inductive ses_sys :: "('a senv_scheme) \<Rightarrow> sesw \<Rightarrow> sesw \<Rightarrow> bool" for E where
  elsewhere: "sw_sessions w' = sw_sessions w \<Longrightarrow> ses_sys E w w'"
| create: "build_session_record E fid fb now a = Inr r \<Longrightarrow> map_of (sw_sessions w) (text_of (dget r ''session-id'')) = None \<Longrightarrow>
    ses_sys E w (snd (write_session_record E r w))"
| transition: "ses_sys E w (snd (transition_session_record E now sid st us w))"
| turns: "ses_sys E w (snd (record_session_turn E now sid rid pm w))"
| accepted: "ses_sys E w (snd (record_accepted_turn E now sid w))"
| retain: "ses_sys E w (snd (claim_retention E now sid op w))"
| deletion: "ses_sys E w (snd (begin_retention_deletion E sid op ids0 digest w))"
| release: "ses_sys E w (snd (release_retention_claim E sid op w))"
| install: "ses_sys E w (snd (install_initial_provider_binding E fresh now sid pid surface ref ident md w))"
| metadata: "typed_update (no_budget_keys md) \<Longrightarrow> ses_sys E w (snd (update_provider_metadata E now sid md rm owner claim w))"
| budget: "ses_sys E w (snd (owned_conversation_load_budget E now sid rid ow mx act w))"
| manual: "ses_sys E w (snd (annotate_owned_manual_reconciliation E now sid rid ow w))"
| unsent: "ses_sys E w (snd (clear_owned_unsent_submission_checkpoint E now sid rid attempt ow w))"
| clear: "ses_sys E w (snd (clear_terminal_submission_checkpoint E now sid rid ca w))"
| claim: "ses_sys E w (snd (claim_prepared_submission_recovery E clock now cid sid rid ow lease w))"
| unclaim: "ses_sys E w (snd (release_prepared_submission_recovery_claim E now sid cid w))"
| advance: "typed_update upd \<Longrightarrow> no_budget_keys upd = upd \<Longrightarrow> ses_sys E w (snd (advance_prepared_submission_to_dispatching E now sid rid upd cid ow rm w))"
| owned: "typed_update (no_budget_keys upd) \<Longrightarrow> ses_sys E w (snd (update_owned_submission_checkpoint E now sid rid upd ow claim rm w))"
| reinstall: "ses_sys E w (snd (install_prepared_recovery_binding E fresh now sid rid pid surface ref cid ow expected bmd ident w))"
| reopen: "ses_sys E w (snd (commit_prepared_recovery_open E now sid rid opened cid ow expected w))"

text \<open>What one step leaves of the stored sessions: each keeps its file and its name and moves by the
  contract; a file that appears holds a valid record.\<close>

definition sys_moves :: "('a senv_scheme) \<Rightarrow> sesw \<Rightarrow> sesw \<Rightarrow> bool" where
  "sys_moves E w w' \<longleftrightarrow> ses_named E w' \<and>
     (\<forall>sid r. ses_of E w sid = Some r \<longrightarrow> (\<exists>r'. ses_of E w' sid = Some r' \<and> sv_move (terminals E w) r r')) \<and>
     (\<forall>sid \<in> dom (map_of (sw_sessions w')). sid \<in> dom (map_of (sw_sessions w)) \<or> ses_of E w' sid \<noteq> None)"

lemma sys_moves_of:
  assumes n: "ses_named E w" and m: "ses_moves E (sv_move (terminals E w)) w w'"
  shows "sys_moves E w w'"
proof -
  have "\<exists>r'. ses_of E w' sid = Some r' \<and> sv_move (terminals E w) r r'" if r: "ses_of E w sid = Some r" for sid r
  proof -
    from m have "ses_of E w' sid = ses_of E w sid \<or> (\<exists>r r'. ses_of E w sid = Some r \<and> ses_of E w' sid = Some r' \<and> heir r r' \<and> sv_move (terminals E w) r r')"
      unfolding ses_moves_def by blast
    then show ?thesis using r by (auto simp: sv_move_def)
  qed
  then show ?thesis using ses_moves_named [OF m n] m by (simp add: sys_moves_def ses_moves_def)
qed

lemma create_moves:
  assumes n: "ses_named E w" and f: "map_of (sw_sessions w) (text_of (dget r ''session-id'')) = None"
  shows "sys_moves E w (snd (write_session_record E r w))"
proof (cases "\<exists>sid q. dget r ''session-id'' = JStr sid \<and> write_session_record E r w = (Inr (), put_session sid q w) \<and> validate_session E ''VAL-AGW-054'' r = Inr q")
  case True
  then obtain sid q where sid: "dget r ''session-id'' = JStr sid" "write_session_record E r w = (Inr (), put_session sid q w)"
    and q: "current_session q" "dget q ''session-id'' = JStr sid" using validate_session_result by fastforce
  have "map_of (sw_sessions w) sid = None" using f sid(1) by (simp add: text_of_def)
  then have u: "ses_of E w sid = None" by (simp add: ses_of_def read_session_record_def)
  have "ses_named E (put_session sid q w)" using n q by (simp add: ses_named_def ses_of_put)
  moreover have "ses_of E (put_session sid q w) s = Some r'" if "ses_of E w s = Some r'" for s r'
    using that u q(1) by (auto simp: ses_of_put)
  moreover have "s \<in> dom (map_of (sw_sessions w)) \<or> ses_of E (put_session sid q w) s \<noteq> None" if "s \<in> dom (map_of (sw_sessions (put_session sid q w)))" for s
    using that q(1) by (auto simp: ses_of_put) (auto simp: put_session_def update_conv')
  ultimately show ?thesis using sid(2) by (simp add: sys_moves_def sv_move_def)
next
  case False
  then have "snd (write_session_record E r w) = w"
    by (auto simp: write_session_record_def split: sum.split json.split)
  then show ?thesis using sys_moves_of [OF n ses_moves_same] by simp
qed

lemma ses_sys_step: "ses_sys E w w' \<Longrightarrow> ses_named E w \<Longrightarrow> sys_moves E w w'"
proof (induction rule: ses_sys.induct)
  case (elsewhere w' w)
  then show ?case by (intro sys_moves_of ses_moves_same)
qed (auto intro!: sys_moves_of create_moves update_metadata_moves update_owned_moves advance_moves transition.moves turns.moves accepted.moves
  retain.moves deletion.moves release.moves install.moves budget.moves manual.moves unsent.moves clear.moves claim.moves unclaim.moves
  reinstall.moves reopen.moves)

definition sv_path :: "sview \<Rightarrow> sview \<Rightarrow> bool" where
  "sv_path = (\<lambda>v v'. \<exists>T. sv_step T v v')\<^sup>*\<^sup>*"

lemma sv_path_move: "sv_move T r r' \<Longrightarrow> sv_path (view r) (view r')"
  unfolding sv_move_def sv_path_def by (metis (mono_tags, lifting) r_into_rtranclp rtranclp.rtrancl_refl)

lemma ses_sys_run:
  "(ses_sys E)\<^sup>*\<^sup>* w w' \<Longrightarrow> ses_named E w \<Longrightarrow> ses_named E w' \<and>
    (\<forall>sid r. ses_of E w sid = Some r \<longrightarrow> (\<exists>r'. ses_of E w' sid = Some r' \<and> sv_path (view r) (view r')))"
proof (induction rule: rtranclp_induct)
  case base
  then show ?case by (auto simp: sv_path_def)
next
  case (step w1 w2)
  have m: "sys_moves E w1 w2" using ses_sys_step [OF step.hyps(2)] step by blast
  have "\<exists>r'. ses_of E w2 sid = Some r' \<and> sv_path (view r) (view r')" if r: "ses_of E w sid = Some r" for sid r
  proof -
    obtain r1 where r1: "ses_of E w1 sid = Some r1" "sv_path (view r) (view r1)" using step.IH [OF step.prems] r by blast
    obtain r2 where r2: "ses_of E w2 sid = Some r2" "sv_move (terminals E w1) r1 r2" using m r1(1) unfolding sys_moves_def by blast
    have "sv_path (view r) (view r2)" using rtranclp_trans [OF r1(2) [unfolded sv_path_def] sv_path_move [OF r2(2), unfolded sv_path_def]] by (simp add: sv_path_def)
    then show ?thesis using r2(1) by blast
  qed
  then show ?case using m by (simp add: sys_moves_def)
qed

section \<open>Consequences of the contract\<close>

lemma rtranclp_keeps:
  assumes "R\<^sup>*\<^sup>* a b" "P a" "\<And>x y. R x y \<Longrightarrow> P x \<Longrightarrow> P y"
  shows "P b"
  using assms by (induction rule: rtranclp_induct) blast+

lemmas sv_step_simps = sview.simps sview.surjective

lemma sv_step_binding: "sv_step T v v' \<Longrightarrow> is_dict (sv_binding v) \<Longrightarrow> sv_binding v' = sv_binding v"
  by (erule sv_step.cases) auto

lemma sv_step_deleting: "sv_step T v v' \<Longrightarrow> sv_retention v = Some (op, True) \<Longrightarrow> sv_retention v' = Some (op, True)"
  by (erule sv_step.cases) auto

definition counted :: "sview \<Rightarrow> bool" where
  "counted v \<longleftrightarrow> distinct (sv_turns v) \<and> sv_count v = JInt (int (length (sv_turns v)))"

lemma sv_step_counted: "sv_step T v v' \<Longrightarrow> counted v \<Longrightarrow> counted v'"
  by (erule sv_step.cases) (auto simp: counted_def bump_turn_count_def)

text \<open>The load budget: the revision grows with every change.\<close>

definition budget_after :: "json \<times> json \<Rightarrow> json \<times> json \<Rightarrow> bool" where
  "budget_after b b' \<longleftrightarrow> b' = b \<or> (\<exists>c n c' n'. b = (JInt c, JInt n) \<and> b' = (JInt c', JInt n') \<and> n < n' \<and> 0 \<le> c')"

lemma sv_step_budget: "sv_step T v v' \<Longrightarrow> budget_after (sv_budget v) (sv_budget v')"
  by (erule sv_step.cases) (auto simp: budget_after_def)

lemma budget_after_trans: "budget_after a b \<Longrightarrow> budget_after b c \<Longrightarrow> budget_after a c"
  by (fastforce simp: budget_after_def)

lemma sv_step_sent:
  assumes "sv_step T v v'" "tv_open (sv_turn v)" "tv_sent (sv_turn v) \<or> tv_proven (sv_turn v)"
  shows "(turn_progress (sv_turn v) (sv_turn v')) \<or> (\<exists>rid \<in> T. tv_id (sv_turn v) = JStr rid)"
  using assms by (cases rule: sv_step.cases) (auto simp: turn_progress_def rank_le_def intro: stage_le.same split: option.split)

end
