(* ===== verification/Session_Expiry.thy ===== *)
theory Session_Expiry
  imports Session_System Store_Results
begin

text \<open>
  Expiry of sessions: \<open>expire_session_if_policy_exceeded\<close>, \<open>_reconcile_nonterminal_requests_before_expiry\<close> and
  \<open>expire_session_if_lifetime_exceeded\<close> of \<open>session/sessions_store.py\<close>.  Expiry joins the two stores: a session
  past its policy is expired only together with its open requests.  It has two phases.  The first reads a
  snapshot of the session's requests with no lock held and decides which of them may be ended; the second takes
  the locks, compares the store with the snapshot, interrupts the requests and then expires the session.  What
  other processes do between the phases is an argument.
\<close>

section \<open>The snapshot\<close>

definition request_terminal :: "dict \<Rightarrow> bool" where
  "request_terminal r \<longleftrightarrow> dget r ''state'' \<in> JStr ` set TERMINAL_STATES"

definition request_key :: "('a senv_scheme) \<Rightarrow> dict \<Rightarrow> string" where
  "request_key E r = project_text E (dget r ''request-id'')"

definition expiry_reason :: "('a senv_scheme) \<Rightarrow> rat \<Rightarrow> dict \<Rightarrow> string option" where
  "expiry_reason E clk r =
     (if session_lifetime_expired E clk r then Some ''max-lifetime''
      else if session_idle_expired E clk r then Some ''idle-timeout'' else None)"

text \<open>The listed requests of the session by their identifier, and the identifiers of all its requests.\<close>

definition session_requests :: "('a senv_scheme) \<Rightarrow> string \<Rightarrow> dict list \<Rightarrow> (string \<times> dict) list" where
  "session_requests E sid recs = map (\<lambda>r. (request_key E r, r))
     (filter (\<lambda>r. dget r ''session-id'' = JStr sid \<and> truthy (dget r ''request-id'')) recs)"

definition session_roster :: "('a senv_scheme) \<Rightarrow> string \<Rightarrow> dict \<Rightarrow> dict list \<Rightarrow> string list" where
  "session_roster E sid ses recs = sort (remdups (map text_of (session_request_ids ses) @ map fst (session_requests E sid recs)))"

fun read_roster :: "('a senv_scheme) \<Rightarrow> string list \<Rightarrow> proj \<Rightarrow> dict list option \<times> proj" where
  "read_roster E [] p = (Some [], p)"
| "read_roster E (rid # rids) p = (case read_record E True rid p of
     (Inl e, p1) \<Rightarrow> (None, p1)
   | (Inr r, p1) \<Rightarrow> (case read_roster E rids p1 of (None, p2) \<Rightarrow> (None, p2) | (Some rs, p2) \<Rightarrow> (Some (r # rs), p2)))"

text \<open>The provider session and the provider of a session, where its metadata and its binding agree.\<close>

definition provider_identity :: "dict \<Rightarrow> (string \<times> string) option" where
  "provider_identity ses = (case (dget (session_provider_metadata ses) ''provider-session-id'', session_provider_id ses) of
     (JStr psid, JStr pid) \<Rightarrow>
       if strip psid \<noteq> [] \<and> strip pid \<noteq> [] \<and> dget (grp ''binding'' ses) ''provider-id'' = JStr pid \<and>
          dget (grp ''binding'' ses) ''provider-session-ref'' = JStr psid then Some (psid, pid) else None
   | _ \<Rightarrow> None)"

definition served_by :: "string \<times> string \<Rightarrow> dict \<Rightarrow> bool" where
  "served_by i r \<longleftrightarrow> is_dict (dget r ''provider-metadata'') \<and>
     dget (grp ''provider-metadata'' r) ''provider-session-id'' = JStr (fst i) \<and> dget r ''resolved-provider-id'' = JStr (snd i)"

text \<open>Only the lease of the provider counts; one that does not parse is none.\<close>

definition lease_live :: "('a senv_scheme) \<Rightarrow> rat \<Rightarrow> dict \<Rightarrow> bool" where
  "lease_live E clk r = (case dget (obj_of (dget (grp ''activity'' r) ''provider'')) ''lease-expires-at'' of
     JStr s \<Rightarrow> strip s \<noteq> [] \<and> (case parse_naive E s of Some t \<Rightarrow> clk < t | None \<Rightarrow> False)
   | _ \<Rightarrow> False)"

definition expiry_eligible :: "('a senv_scheme) \<Rightarrow> rat \<Rightarrow> dict \<Rightarrow> dict list \<Rightarrow> dict list option" where
  "expiry_eligible E clk ses snaps = (let nt = filter (\<lambda>r. \<not> request_terminal r) snaps in
     if nt = [] then Some []
     else case provider_identity ses of
       None \<Rightarrow> None
     | Some i \<Rightarrow> if list_all (\<lambda>r. served_by i r \<and> \<not> lease_live E clk r) nt then Some nt else None)"

definition expiry_plan :: "('a senv_scheme) \<Rightarrow> rat \<Rightarrow> dict \<Rightarrow> sesw \<Rightarrow> (string list \<times> dict list) option \<times> sesw" where
  "expiry_plan E clk ses w = (case dget ses ''session-id'' of
     JStr sid \<Rightarrow>
      (if sid = [] then (None, w)
       else case list_records E False None (sw_proj w) of
         (Inl e, p1) \<Rightarrow> (None, w\<lparr>sw_proj := p1\<rparr>)
       | (Inr recs, p1) \<Rightarrow> (let rids = session_roster E sid ses recs in
          case read_roster E rids p1 of
            (None, p2) \<Rightarrow> (None, w\<lparr>sw_proj := p2\<rparr>)
          | (Some snaps, p2) \<Rightarrow> (map_option (Pair rids) (expiry_eligible E clk ses snaps), w\<lparr>sw_proj := p2\<rparr>)))
   | _ \<Rightarrow> (None, w))"

section \<open>Under the locks\<close>

definition open_requests :: "('a senv_scheme) \<Rightarrow> string \<Rightarrow> string list \<Rightarrow> dict list \<Rightarrow> string list" where
  "open_requests E sid rids recs = (let by_id = map_of (rev (session_requests E sid recs)) in
     filter (\<lambda>rid. case by_id rid of Some r \<Rightarrow> \<not> request_terminal r | None \<Rightarrow> False) rids)"

fun snapshot_current :: "('a senv_scheme) \<Rightarrow> dict list \<Rightarrow> proj \<Rightarrow> bool res \<times> proj" where
  "snapshot_current E [] p = (Inr True, p)"
| "snapshot_current E (r # rs) p = (case read_record E True (request_key E r) p of
     (Inl e, p1) \<Rightarrow> (Inl e, p1)
   | (Inr c, p1) \<Rightarrow> if request_terminal c \<or> \<not> jeq (dget c ''revision'') (dget r ''revision'') then (Inr False, p1)
       else snapshot_current E rs p1)"

definition expiry_error :: "string \<Rightarrow> string \<Rightarrow> dict \<Rightarrow> dict" where
  "expiry_error sid reason r =
     [(''code'', JStr ''CON-AGW-084''), (''kind'', JStr ''agents''),
      (''message'', JStr ''provider session expired before the request reached a terminal state''),
      (''details'', JObj [(''session-id'', JStr sid), (''session-close-reason'', JStr reason),
         (''failure-reason'', JStr ''provider-session-expired''),
         (''side-effect-state'', por (dget (grp ''diagnostics'' r) ''side-effect-state'') (JStr ''may-have-started'')),
         (''watchdog-classification'', JStr ''expired-provider-session''), (''reconciliation'', JStr ''provider-capture-required''),
         (''retry-safe'', JBool False)])]"

definition stale_owner :: "dict \<Rightarrow> string option" where
  "stale_owner r = (case dget r ''dispatch-owner-epoch'' of JStr s \<Rightarrow> if s = [] then None else Some s | _ \<Rightarrow> None)"

definition stored_revision :: "dict \<Rightarrow> int option" where
  "stored_revision r = (case dget r ''revision'' of JInt i \<Rightarrow> Some i | _ \<Rightarrow> None)"

definition interrupt_request :: "('a senv_scheme) \<Rightarrow> clock \<Rightarrow> string \<Rightarrow> string \<Rightarrow> dict \<Rightarrow> gw \<Rightarrow> dict res \<times> gw" where
  "interrupt_request E t sid reason r s =
     transition_recovered_terminal E (request_key E r) ''interrupted'' (ErrMap (expiry_error sid reason r))
       (stale_owner r) (stored_revision r) (Some False) (Some ''provider-session-expired; reconcile or operator-capture before retry'') t s"

text \<open>The first request that cannot be interrupted stops the loop; those before it stay interrupted.\<close>

fun interrupt_requests :: "('a senv_scheme) \<Rightarrow> clock \<Rightarrow> string \<Rightarrow> string \<Rightarrow> dict list \<Rightarrow> gw \<Rightarrow> bool \<times> gw" where
  "interrupt_requests E t sid reason [] s = (True, s)"
| "interrupt_requests E t sid reason (r # rs) s = (case interrupt_request E t sid reason r s of
     (Inl e, s1) \<Rightarrow> (False, s1)
   | (Inr u, s1) \<Rightarrow> interrupt_requests E t sid reason rs
       (record_gateway_timeline (request_key E r) ''request.interrupted'' (dget u ''state'')
         [(''source'', JStr ''session-expiry-reconciliation''), (''session-id'', JStr sid), (''session-close-reason'', JStr reason)] s1))"

definition expire_record :: "('a senv_scheme) \<Rightarrow> string \<Rightarrow> string \<Rightarrow> string \<Rightarrow> dict \<Rightarrow> sesw \<Rightarrow> dict option res \<times> sesw" where
  "expire_record E now sid reason cur w =
     (case transition_session_body now ''expired'' [(''close-reason'', SVal (JStr reason)), (''closed-at'', SVal (JStr now))] cur of
        Inl e \<Rightarrow> (Inl e, w)
      | Inr oc \<Rightarrow> (case session_commit E sid oc w of
           (Inl e, w1) \<Rightarrow> (Inl e, w1)
         | (Inr r, w1) \<Rightarrow> (case retire_binding ''expired'' now r (sw_index w1) of
              (Inl e, idx) \<Rightarrow> (Inl e, w1\<lparr>sw_index := idx\<rparr>)
            | (Inr _, idx) \<Rightarrow> (Inr (Some r), w1\<lparr>sw_index := idx\<rparr>))))"

definition expire_requests :: "('a senv_scheme) \<Rightarrow> string \<Rightarrow> clock \<Rightarrow> string \<Rightarrow> string \<Rightarrow> dict \<Rightarrow> dict list \<Rightarrow> sesw \<Rightarrow> dict option res \<times> sesw" where
  "expire_requests E now t sid reason cur el w = (case snapshot_current E el (sw_proj w) of
     (Inl e, p1) \<Rightarrow> (Inl e, w\<lparr>sw_proj := p1\<rparr>)
   | (Inr False, p1) \<Rightarrow> (Inr None, w\<lparr>sw_proj := p1\<rparr>)
   | (Inr True, p1) \<Rightarrow> (case interrupt_requests E t sid reason el (pgw p1) of
        (False, s) \<Rightarrow> (Inr None, w\<lparr>sw_proj := p1\<lparr>pgw := s\<rparr>\<rparr>)
      | (True, s) \<Rightarrow> expire_record E now sid reason cur (w\<lparr>sw_proj := p1\<lparr>pgw := s\<rparr>\<rparr>)))"

definition expiry_locked :: "('a senv_scheme) \<Rightarrow> rat \<Rightarrow> string \<Rightarrow> clock \<Rightarrow> string \<Rightarrow> string list \<Rightarrow> dict list \<Rightarrow> sesw \<Rightarrow> dict option res \<times> sesw" where
  "expiry_locked E clk now t sid rids el w = (case read_session_record E sid w of
     Inl e \<Rightarrow> (Inl e, w)
   | Inr cur \<Rightarrow>
      (if session_terminal cur then (Inr (Some cur), w)
       else case expiry_reason E clk cur of
         None \<Rightarrow> (Inr (Some cur), w)
       | Some reason \<Rightarrow> (case list_records E False None (sw_proj w) of
            (Inl e, p1) \<Rightarrow> (Inr None, w\<lparr>sw_proj := p1\<rparr>)
          | (Inr recs, p1) \<Rightarrow>
             (let cur_ids = session_roster E sid cur recs; w1 = w\<lparr>sw_proj := p1\<rparr> in
              if cur_ids \<noteq> rids \<or> open_requests E sid cur_ids recs \<noteq> sort (remdups (map (request_key E) el))
              then (Inr None, w1) else expire_requests E now t sid reason cur el w1))))"

section \<open>The calls\<close>

text \<open>\<open>others\<close> is what other processes do between the snapshot and the locks.  A session that is handed back
  by the second phase is reported as expired in the timeline.\<close>

definition expire_session_if_policy_exceeded :: "('a senv_scheme) \<Rightarrow> rat \<Rightarrow> string \<Rightarrow> clock \<Rightarrow> string \<Rightarrow> (sesw \<Rightarrow> sesw) \<Rightarrow> sesw \<Rightarrow> dict res \<times> sesw" where
  "expire_session_if_policy_exceeded E clk now t sid others w = (case read_session_record E sid w of
     Inl e \<Rightarrow> (Inl e, w)
   | Inr r \<Rightarrow>
      (if session_terminal r then (Inr r, w)
       else case expiry_reason E clk r of
         None \<Rightarrow> (Inr r, w)
       | Some reason \<Rightarrow> (case expiry_plan E clk r w of
            (None, w1) \<Rightarrow> (read_session_record E sid w1, w1)
          | (Some (rids, el), w1) \<Rightarrow> (case expiry_locked E clk now t sid rids el (others w1) of
               (Inl e, w2) \<Rightarrow> (Inl e, w2)
             | (Inr None, w2) \<Rightarrow> (read_session_record E sid w2, w2)
             | (Inr (Some x), w2) \<Rightarrow>
                (Inr x, add_session_event sid (Some (''session.expired'', JStr ''expired'', [(''close-reason'', JStr reason)])) w2)))))"

definition expire_session_if_lifetime_exceeded :: "('a senv_scheme) \<Rightarrow> rat \<Rightarrow> string \<Rightarrow> clock \<Rightarrow> string \<Rightarrow> (sesw \<Rightarrow> sesw) \<Rightarrow> sesw \<Rightarrow> dict res \<times> sesw" where
  "expire_session_if_lifetime_exceeded E clk now t sid others w = (case read_session_record E sid w of
     Inl e \<Rightarrow> (Inl e, w)
   | Inr r \<Rightarrow> if session_terminal r \<or> \<not> session_lifetime_expired E clk r then (Inr r, w)
       else expire_session_if_policy_exceeded E clk now t sid others w)"

section \<open>One interrupted request\<close>

lemma locked_update_other:
  assumes ok: "store_ok s" and op: "lifecycle_op body" and u: "locked_update E rid body s = (x, s')" and ne: "rid' \<noteq> rid"
  shows "rec_of s' rid' = rec_of s rid'"
proof -
  obtain y s1 where rd: "read_record_locked E rid s = (y, s1)" by fastforce
  have o: "rec_of s1 rid' = rec_of s rid'" using rd by (cases rule: read_record_locked_cases) (use ne in auto)
  show ?thesis
  proof (cases "\<exists>d q ev. y = Inr d \<and> body d = Inr (Commit q ev)")
    case True
    then obtain d q ev where d: "y = Inr d" "body d = Inr (Commit q ev)" by blast
    have wf: "wf_rec d" "dget d ''request-id'' = JStr rid" using read_record_locked_ok(3) [OF ok rd d(1)] by auto
    have id: "dget q ''request-id'' = JStr rid" using lifecycle_op.commit [OF op wf(1) d(2)] wf(2) frozen_id [of d q] by (simp add: rec_step_def)
    obtain z s2 where wr: "write_record E q s1 = (z, s2)" by fastforce
    have "rec_of s2 rid' = rec_of s1 rid'" using wr by (cases rule: write_record_cases) (use id ne in auto)
    then show ?thesis using u o by (auto simp: locked_update_def rd d wr split: sum.splits option.splits)
  next
    case False
    then have "s' = s1" using u by (auto simp: locked_update_def rd split: sum.splits outcome.splits)
    then show ?thesis using o by simp
  qed
qed

lemma recovered_body_state:
  assumes "recovered_body rid st er se rv rr rs t d = Inr (Commit d' e)"
  shows "dget d' ''state'' = JStr st"
proof -
  obtain v u where u: "recovered_diagnostics st er d (dupd d (recovered_fields st er rr (t 0) v)) = Inr u"
    and d': "d' = ack_by_recovery (t 0) (recovered_evidence er rr rs u)"
    using assms unfolding recovered_body_def rbind_eq_Inr by (elim exE conjE) (simp add: that)
  have "dget u ''state'' = JStr st" using recovered_diagnostics_other [OF u, of "''state''"] by (simp add: recovered_fields_def)
  then show ?thesis by (simp add: d' ack_by_recovery_def recovered_evidence_def opt_set_other)
qed

lemma recovered_never_keeps: "recovered_body rid st er se rv rr rs t d \<noteq> Inr (Keep u)"
  by (auto simp: recovered_body_def res_iffs)

lemma interrupted_terminal: "''interrupted'' \<in> set TERMINAL_STATES"
  by (simp add: TERMINAL_STATES_eq)

lemma interrupt_effect:
  assumes ok: "store_ok s" and i: "interrupt_request E t sid reason r s = (x, s')"
  shows "store_ok s'" and "store_path s s'" and "rid \<noteq> request_key E r \<Longrightarrow> rec_of s' rid = rec_of s rid"
    and "x = Inr u \<Longrightarrow> \<exists>d. rec_of s' (request_key E r) = Some d \<and> dget d ''state'' = JStr ''interrupted''"
proof -
  let ?body = "recovered_body (request_key E r) ''interrupted'' (ErrMap (expiry_error sid reason r)) (stale_owner r) (stored_revision r)
    (Some False) (Some ''provider-session-expired; reconcile or operator-capture before retry'') t"
  have l: "locked_update E (request_key E r) ?body s = (x, s')"
    using i by (simp add: interrupt_request_def transition_recovered_terminal_def interrupted_terminal)
  note op = recovered_op [OF interrupted_terminal]
  show "store_ok s'" "store_path s s'" using lifecycle_op.refines [OF op ok l] by simp_all
  show "rec_of s' rid = rec_of s rid" if "rid \<noteq> request_key E r" by (rule locked_update_other [OF ok op l that])
  assume x: "x = Inr u"
  then have "\<exists>d. rec_of s (request_key E r) = Some d"
    using l by (cases "read_record_locked E (request_key E r) s" rule: prod.exhaust)
      (auto simp: locked_update_def elim: read_record_locked_cases split: sum.split_asm)
  then obtain d where d: "rec_of s (request_key E r) = Some d" by blast
  show "\<exists>d. rec_of s' (request_key E r) = Some d \<and> dget d ''state'' = JStr ''interrupted''"
    by (rule locked_results [OF ok d disjI1 [OF l [unfolded x]] op])
      (use recovered_never_keeps recovered_body_state in fastforce)+
qed

lemma rec_of_event: "rec_of (record_gateway_timeline rid n st a s) = rec_of s"
  by (rule ext) simp

lemma interrupts_effect:
  "store_ok s \<Longrightarrow> interrupt_requests E t sid reason el s = (b, s') \<Longrightarrow> store_ok s' \<and> store_path s s' \<and>
    (\<forall>rid. rid \<notin> request_key E ` set el \<longrightarrow> rec_of s' rid = rec_of s rid) \<and>
    (b \<longrightarrow> (\<forall>r \<in> set el. \<exists>d. rec_of s' (request_key E r) = Some d \<and> dget d ''state'' = JStr ''interrupted''))"
proof (induction el arbitrary: s)
  case (Cons r el)
  obtain x s1 where i: "interrupt_request E t sid reason r s = (x, s1)" by fastforce
  note e = interrupt_effect [OF Cons.prems(1) i]
  show ?case
  proof (cases x)
    case (Inl a)
    then show ?thesis using Cons.prems(2) e(1,2,3) i by auto
  next
    case (Inr u)
    let ?s = "record_gateway_timeline (request_key E r) ''request.interrupted'' (dget u ''state'')
         [(''source'', JStr ''session-expiry-reconciliation''), (''session-id'', JStr sid), (''session-close-reason'', JStr reason)] s1"
    have ok: "store_ok ?s" "store_path s ?s" using e(1,2) by (simp_all add: store_ok_def store_path_def)
    have n: "interrupt_requests E t sid reason el ?s = (b, s')" using Cons.prems(2) i Inr by simp
    note ih = Cons.IH [OF ok(1) n]
    obtain d where d: "rec_of s1 (request_key E r) = Some d" "dget d ''state'' = JStr ''interrupted''" using e(4) [OF Inr] by blast
    have "\<exists>d. rec_of s' (request_key E r) = Some d \<and> dget d ''state'' = JStr ''interrupted''" if b
      using ih d that by (cases "request_key E r \<in> request_key E ` set el") auto
    moreover have "rec_of s' rid = rec_of s rid" if "rid \<notin> request_key E ` set (r # el)" for rid
      using ih e(3) that by simp
    ultimately show ?thesis using ih store_path_trans [OF ok(2)] by auto
  qed
qed simp

section \<open>Reading a settled store\<close>

lemma snapshot_settled:
  assumes "settled_store E (pgw p)" "snapshot_current E el p = (Inr True, p')"
  shows "p' = p \<and> (\<forall>r \<in> set el. \<exists>d. rec_of (pgw p) (request_key E r) = Some d \<and> jeq (dget d ''revision'') (dget r ''revision''))"
  using assms(2)
proof (induction el)
  case (Cons r el)
  show ?case
  proof (cases "rec_of (pgw p) (request_key E r)")
    case None
    then have "map_of (requests (pgw p)) (request_key E r) = None" using settled_missing [OF assms(1)] by blast
    then show ?thesis using Cons.prems by (simp add: read_missing)
  next
    case (Some d)
    note rd = read_settled [OF assms(1) Some, of True]
    have "jeq (dget d ''revision'') (dget r ''revision'')" "snapshot_current E el p = (Inr True, p')"
      using Cons.prems by (auto simp: rd attach_output_other split: if_split_asm)
    then show ?thesis using Cons.IH Some by simp
  qed
qed simp

lemma roster_settled: "settled_store E (pgw p) \<Longrightarrow> snd (read_roster E rids p) = p"
proof (induction rids)
  case (Cons rid rids)
  obtain x where "read_record E True rid p = (x, p)"
  proof (cases "rec_of (pgw p) rid")
    case None
    then have "map_of (requests (pgw p)) rid = None" using settled_missing [OF Cons.prems] by blast
    then show thesis by (rule that [OF read_missing])
  next
    case (Some d)
    then show thesis by (rule that [OF read_settled [OF Cons.prems]])
  qed
  then show ?case using Cons by (auto split: sum.split prod.split option.split)
qed simp

lemma roster_member:
  assumes "settled_store E (pgw p)" "read_roster E rids p = (Some snaps, p')" "rid \<in> set rids" "rec_of (pgw p) rid = Some d"
  shows "attach_output E True rid p d \<in> set snaps"
  using assms(2,3)
proof (induction rids arbitrary: snaps)
  case (Cons a rids)
  show ?case
  proof (cases "rec_of (pgw p) a")
    case None
    then have "map_of (requests (pgw p)) a = None" using settled_missing [OF assms(1)] by blast
    then show ?thesis using Cons.prems(1) by (simp add: read_missing)
  next
    case (Some d')
    note rd = read_settled [OF assms(1) Some, of True]
    obtain rs where "read_roster E rids p = (Some rs, p')" "snaps = attach_output E True a p d' # rs"
      using Cons.prems(1) by (auto simp: rd split: prod.split_asm option.split_asm)
    then show ?thesis using Cons.IH [of rs] Cons.prems(2) Some assms(4) by auto
  qed
qed simp

text \<open>A stored request of the session is on the roster, and is the record listed under its identifier.\<close>

lemma request_listed:
  assumes st: "settled_store E (pgw p)" and d: "rec_of (pgw p) rid = Some d" "dget d ''session-id'' = JStr sid" "rid \<noteq> []"
    and l: "list_records E False None p = (Inr recs, p')"
  shows "p' = p" and "rid \<in> set (session_roster E sid ses recs)"
    and "map_of (rev (session_requests E sid recs)) rid = Some (attach_output E False rid p d)"
proof -
  have recs: "recs = newest_first (listed E False p)" and p: "p' = p" using l by (auto simp: list_settled [OF st])
  show "p' = p" by (rule p)
  let ?r = "attach_output E False rid p d"
  have k: "request_key E ?r = rid" using settled_rec(2) [OF st d(1)] by (simp add: request_key_def attach_output_other project_text_def)
  have "?r \<in> set recs" using rec_of_mem [OF d(1)] d(1) by (auto simp: recs listed_def intro!: image_eqI [of _ _ rid] rev_image_eqI)
  then have m: "(rid, ?r) \<in> set (session_requests E sid recs)"
    using k settled_rec(2) [OF st d(1)] d(2,3) by (force simp: session_requests_def attach_output_other)
  then show "rid \<in> set (session_roster E sid ses recs)" by (force simp: session_roster_def)
  have u: "x = ?r" if "(rid, x) \<in> set (session_requests E sid recs)" for x
  proof -
    have x: "x \<in> set (listed E False p)" "request_key E x = rid" using that by (auto simp: session_requests_def recs)
    obtain rid' f where f: "(rid', f) \<in> set (requests (pgw p))" "x = attach_output E False rid' p (the (rec_of (pgw p) rid'))" "request_key E x = rid"
      using x unfolding listed_def set_map image_iff by force
    obtain d' where d': "rec_of (pgw p) rid' = Some d'" using settled_file [OF st f(1)] by blast
    have "rid' = rid" using f(3) settled_rec(2) [OF st d'] by (simp add: f(2) d' request_key_def attach_output_other project_text_def)
    then show ?thesis using f(2) d(1) by simp
  qed
  show "map_of (rev (session_requests E sid recs)) rid = Some ?r"
  proof (cases "map_of (rev (session_requests E sid recs)) rid")
    case None
    then show ?thesis using m by (force simp: map_of_eq_None_iff)
  next
    case (Some x)
    then show ?thesis using u [of x] map_of_SomeD [OF Some] by simp
  qed
qed

lemma request_terminal_attach: "request_terminal (attach_output E io rid p d) = request_terminal d"
  by (simp add: request_terminal_def attach_output_other)

section \<open>The session side\<close>

lemma expired_is_terminal: "''expired'' \<in> set SESSION_TERMINAL_STATES" by code_simp

lemma expire_record_runs:
  assumes "read_session_record E sid w = Inr cur"
  shows "(ses_sys E)\<^sup>*\<^sup>* w (snd (expire_record E now sid reason cur w))"
proof -
  let ?us = "[(''close-reason'', SVal (JStr reason)), (''closed-at'', SVal (JStr now))]"
  let ?u = "transition_session_record E now sid ''expired'' ?us w"
  have h: "hyphens ''close-reason'' = ''close-reason''" "hyphens ''closed-at'' = ''closed-at''" by code_simp+
  have "sw_sessions (snd (expire_record E now sid reason cur w)) = sw_sessions (snd ?u)"
    using assms by (simp add: expire_record_def transition_session_record_def session_update_def h MUTABLE_TRANSITION_FIELDS_def split: sum.split prod.split)
  then show ?thesis using ses_sys.transition [of E w now sid "''expired''" ?us] ses_sys.elsewhere [of "snd (expire_record E now sid reason cur w)" "snd ?u" E]
    by (meson converse_rtranclp_into_rtranclp r_into_rtranclp)
qed

lemma expire_requests_runs:
  assumes "read_session_record E sid w = Inr cur"
  shows "(ses_sys E)\<^sup>*\<^sup>* w (snd (expire_requests E now t sid reason cur el w))"
proof -
  have e: "(ses_sys E)\<^sup>*\<^sup>* w (w\<lparr>sw_proj := p\<rparr>)" for p by (intro r_into_rtranclp ses_sys.elsewhere) simp
  have "(ses_sys E)\<^sup>*\<^sup>* w (snd (expire_record E now sid reason cur (w\<lparr>sw_proj := p\<rparr>)))" for p
    using rtranclp_trans [OF e expire_record_runs] assms by (simp add: read_session_record_def)
  then show ?thesis using e by (auto simp: expire_requests_def split: sum.split prod.split bool.split)
qed

lemma expiry_locked_runs: "(ses_sys E)\<^sup>*\<^sup>* w (snd (expiry_locked E clk now t sid rids el w))"
proof -
  have e: "(ses_sys E)\<^sup>*\<^sup>* w (w\<lparr>sw_proj := p\<rparr>)" for p by (intro r_into_rtranclp ses_sys.elsewhere) simp
  have "(ses_sys E)\<^sup>*\<^sup>* w (snd (expire_requests E now t sid reason cur el (w\<lparr>sw_proj := p\<rparr>)))" if "read_session_record E sid w = Inr cur" for p cur reason
    using rtranclp_trans [OF e expire_requests_runs] that by (simp add: read_session_record_def)
  then show ?thesis using e by (auto simp: expiry_locked_def Let_def split: sum.split prod.split option.split)
qed

lemma expiry_plan_sessions: "sw_sessions (snd (expiry_plan E clk r w)) = sw_sessions w"
  by (auto simp: expiry_plan_def Let_def split: sum.split prod.split option.split json.split)

lemma expire_runs:
  assumes "\<And>v. (ses_sys E)\<^sup>*\<^sup>* v (others v)"
  shows "(ses_sys E)\<^sup>*\<^sup>* w (snd (expire_session_if_policy_exceeded E clk now t sid others w))"
proof -
  have p: "(ses_sys E)\<^sup>*\<^sup>* w (snd (expiry_plan E clk r w))" for r by (intro r_into_rtranclp ses_sys.elsewhere expiry_plan_sessions)
  have l: "(ses_sys E)\<^sup>*\<^sup>* w (snd (expiry_locked E clk now t sid rids el (others (snd (expiry_plan E clk r w)))))" for r rids el
    using p assms expiry_locked_runs by (meson rtranclp_trans)
  have "(ses_sys E)\<^sup>*\<^sup>* w (add_session_event sid ev (snd (expiry_locked E clk now t sid rids el (others (snd (expiry_plan E clk r w))))))" for r rids el ev
    using l by (rule rtranclp.rtrancl_into_rtrancl) (rule ses_sys.elsewhere, simp)
  then show ?thesis using p l
    by (auto simp: expire_session_if_policy_exceeded_def split: sum.split prod.split option.split) (metis snd_conv)+
qed

end
