(* ===== verification/Session_Results.thy ===== *)
theory Session_Results
  imports Session_System
begin

text \<open>
  The properties of the session store, over runs of \<open>Session_System\<close>, with concrete sessions as witnesses.
\<close>

section \<open>A concrete store\<close>

definition senv0 :: senv where
  "senv0 = \<lparr>sha256_hex = (\<lambda>x. x), canonical_text = (\<lambda>_. ''{}''), schema_issues = (\<lambda>_. []), add_seconds = (\<lambda>t q. t), root_digest = (\<lambda>p. p),
     parse_utc = (\<lambda>_. None), parse_float = (\<lambda>_. None), dict_text = (\<lambda>_. ''{}''), ses_issues = (\<lambda>_. []), parse_naive = (\<lambda>_. None),
     parse_aware = (\<lambda>_. None), py_text = (\<lambda>_. [])\<rparr>"

definition session0 :: "string \<Rightarrow> dict \<Rightarrow> dict \<Rightarrow> dict" where
  "session0 st extra md = [(''contract-version'', JStr ''v4''), (''session-id'', JStr ''ses_a''), (''execution-profile-id'', JStr ''p1''),
     (''binding'', JNull), (''state'', JStr st),
     (''timing'', JObj [(''created-at'', JStr ''t0''), (''updated-at'', JStr ''t0''), (''last-activity-at'', JStr ''t0'')]),
     (''activity'', JObj [(''request-ids'', JList []), (''turn-count'', JInt 0)]), (''provider'', JObj [(''metadata'', JObj md)])] @ extra"

definition request0 :: "string \<Rightarrow> dict" where
  "request0 st = dupd (build_payload ''2026-01-01T00:00:00Z'' ''req_a'' [])
     [(''state'', JStr st), (''session-id'', JStr ''ses_a''), (''dispatch-owner-epoch'', JStr ''o1''), (''worker-id'', JStr ''w1''), (''attempt-epoch'', JInt 2)]"

definition world0 :: "string \<Rightarrow> dict \<Rightarrow> sesw" where
  "world0 rst r = \<lparr>sw_proj = proj_of (gw_of (request0 rst)), sw_sessions = [(''ses_a'', Doc (JObj r))], sw_timeline = [], sw_index = None\<rparr>"

definition owner0 :: cowner where
  "owner0 = \<lparr>co_epoch = ''o1'', co_worker = ''w1'', co_attempt = 2\<rparr>"

lemma world0_ses: "current_session r \<Longrightarrow> ses_of E (world0 st r) sid = (if sid = ''ses_a'' then Some r else None)"
  by (simp add: ses_of_def read_session_record_def world0_def)

lemma world0_named: "current_session r \<Longrightarrow> dget r ''session-id'' = JStr ''ses_a'' \<Longrightarrow> ses_named E (world0 st r)"
  by (simp add: ses_named_def world0_ses)

lemma run_Inr: "\<not> isl (fst m) \<Longrightarrow> \<exists>x. m = (Inr x, snd m)"
  by (cases "fst m") (auto simp: prod_eq_iff)

text \<open>A turn in flight, its prompt possibly sent.\<close>

definition sent0 :: dict where
  "sent0 = session0 ''active'' [] [(''unresolved-turn-pending'', JBool True), (''unresolved-turn-id'', JStr ''req_a''),
     (''submission-state'', JStr ''dispatching''), (''send-intent-ever'', JBool True), (''submission-stage'', JStr ''send-intent'')]"

lemma sent0_ok [simp]: "current_session sent0" "dget sent0 ''session-id'' = JStr ''ses_a''"
proof -
  show "current_session sent0" by (unfold current_session_def) code_simp
  show "dget sent0 ''session-id'' = JStr ''ses_a''" by code_simp
qed

section \<open>Refinement\<close>



section \<open>A sent prompt is not forgotten\<close>



section \<open>Binding, retention and turns\<close>

lemma run_view:
  assumes "(ses_sys E)\<^sup>*\<^sup>* w w'" "ses_named E w" "ses_of E w sid = Some r" "P (view r)" "\<And>T v v'. sv_step T v v' \<Longrightarrow> P v \<Longrightarrow> P v'"
  shows "\<exists>r'. ses_of E w' sid = Some r' \<and> P (view r')"
proof -
  obtain r' where r': "ses_of E w' sid = Some r'" "sv_path (view r) (view r')" using ses_sys_run [OF assms(1,2)] assms(3) by blast
  have "P (view r')" using rtranclp_keeps [OF r'(2) [unfolded sv_path_def], of P] assms(4,5) by blast
  then show ?thesis using r'(1) by blast
qed


definition bound_session0 :: dict where
  "bound_session0 = (case build_binding senv0 ''1'' ''t0'' (binding_defaults\<lparr>ba_ref := Some ''chat-1'', ba_provider_id := Some ''gpt'', ba_surface_id := Some ''web''\<rparr>) of
     Inr b \<Rightarrow> dset ''binding'' b (session0 ''active'' [] []) | Inl e \<Rightarrow> [])"

lemma bound_session0_ok [simp]: "current_session bound_session0" "dget bound_session0 ''session-id'' = JStr ''ses_a''"
proof -
  show "current_session bound_session0" by (unfold current_session_def) code_simp
  show "dget bound_session0 ''session-id'' = JStr ''ses_a''" by code_simp
qed


text \<open>C18: Once a retention operation has begun deleting a session, the claim stays with that operation for
  ever, and every later attempt to accept a turn on the session is refused and changes nothing.\<close>

theorem retention_deletion_final:
  assumes "(ses_sys E)\<^sup>*\<^sup>* w w'" "ses_named E w" "ses_of E w sid = Some r" "dget r ''retention-claim'' \<noteq> JNull"
    "dget (grp ''retention-claim'' r) ''stage'' = JStr ''deleting''"
  shows "(\<exists>r'. ses_of E w' sid = Some r' \<and> dget (grp ''retention-claim'' r') ''operation-id'' = dget (grp ''retention-claim'' r) ''operation-id'' \<and>
      dget (grp ''retention-claim'' r') ''stage'' = JStr ''deleting'') \<and>
    record_accepted_turn E now sid w' = (Inl (retention_claimed sid), w')"
proof -
  let ?op = "dget (grp ''retention-claim'' r) ''operation-id''"
  have "sv_retention (view r) = Some (?op, True)" using assms(4,5) by (simp add: retention_view_def)
  then obtain r' where r': "ses_of E w' sid = Some r'" "retention_view r' = Some (?op, True)"
    using run_view [OF assms(1-3), of "\<lambda>v. sv_retention v = Some (?op, True)"] sv_step_deleting by fastforce
  have c: "dget r' ''retention-claim'' \<noteq> JNull" "dget (grp ''retention-claim'' r') ''operation-id'' = ?op"
    "dget (grp ''retention-claim'' r') ''stage'' = JStr ''deleting''" using r'(2) by (auto simp: retention_view_def split: if_split_asm)
  have "record_accepted_turn E now sid w' = (Inl (retention_claimed sid), w')"
    using r'(1) c(1) by (simp add: record_accepted_turn_def session_update_def ses_of_iff accepted_turn_body_def)
  then show ?thesis using r'(1) c by blast
qed

definition deleting0 :: dict where
  "deleting0 = session0 ''closed'' [(''retention-claim'', JObj [(''operation-id'', JStr ''op_1''), (''claimed-at'', JStr ''t0''), (''stage'', JStr ''deleting''),
     (''plan'', JObj [(''request-ids'', JList [JStr ''req_a'']), (''policy-digest'', JStr ''d'')])])] []"

lemma deleting0_ok [simp]: "current_session deleting0" "dget deleting0 ''session-id'' = JStr ''ses_a''"
proof -
  show "current_session deleting0" by (unfold current_session_def) code_simp
  show "dget deleting0 ''session-id'' = JStr ''ses_a''" by code_simp
qed

theorem retention_deletion_final_witness:
  "record_accepted_turn senv0 ''t2'' ''ses_a'' (snd (release_retention_claim senv0 ''ses_a'' ''op_1'' (world0 ''completed'' deleting0))) =
     (Inl (retention_claimed ''ses_a''), snd (release_retention_claim senv0 ''ses_a'' ''op_1'' (world0 ''completed'' deleting0)))"
proof -
  have d: "dget deleting0 ''retention-claim'' \<noteq> JNull" "dget (grp ''retention-claim'' deleting0) ''stage'' = JStr ''deleting''" by code_simp+
  show ?thesis
    using retention_deletion_final [where w = "world0 ''completed'' deleting0" and r = deleting0 and E = senv0 and sid = "''ses_a''" and now = "''t2''",
      OF r_into_rtranclp [of "ses_sys senv0", OF ses_sys.release [of senv0 _ "''ses_a''" "''op_1''"]]] d
    by (simp add: world0_named world0_ses)
qed



section \<open>Valid files\<close>

definition sessions_valid :: "('a senv_scheme) \<Rightarrow> sesw \<Rightarrow> bool" where
  "sessions_valid E w \<longleftrightarrow> (\<forall>sid f. map_of (sw_sessions w) sid = Some f \<longrightarrow> (\<exists>r. ses_of E w sid = Some r \<and> session_schema (JObj r) \<and> dget r ''session-id'' = JStr sid))"

lemma sessions_valid_iff: "sessions_valid E w \<longleftrightarrow> ses_named E w \<and> (\<forall>sid \<in> dom (map_of (sw_sessions w)). ses_of E w sid \<noteq> None)"
proof
  assume v: "sessions_valid E w"
  have "dget r ''session-id'' = JStr sid" if "ses_of E w sid = Some r" for sid r
  proof -
    have "map_of (sw_sessions w) sid \<noteq> None" using that by (auto simp: ses_of_iff read_session_record_def split: option.split_asm)
    then show ?thesis using v that by (auto simp: sessions_valid_def)
  qed
  then show "ses_named E w \<and> (\<forall>sid \<in> dom (map_of (sw_sessions w)). ses_of E w sid \<noteq> None)"
    using v by (auto simp: ses_named_def sessions_valid_def dom_def)
next
  assume v: "ses_named E w \<and> (\<forall>sid \<in> dom (map_of (sw_sessions w)). ses_of E w sid \<noteq> None)"
  show "sessions_valid E w" unfolding sessions_valid_def
  proof (intro allI impI)
    fix sid f
    assume "map_of (sw_sessions w) sid = Some f"
    then obtain r where r: "ses_of E w sid = Some r" using v by blast
    then show "\<exists>r. ses_of E w sid = Some r \<and> session_schema (JObj r) \<and> dget r ''session-id'' = JStr sid"
      using v ses_of_current [OF r] by (auto simp: ses_named_def current_session_def)
  qed
qed

text \<open>C22: Every session file stays readable and well-typed: in a store whose files all read as records of the
  session schema under their own name, that holds after every run of store calls, creations included.\<close>

theorem sessions_stay_valid:
  assumes "(ses_sys E)\<^sup>*\<^sup>* w w'" "sessions_valid E w"
  shows "sessions_valid E w'"
  using assms
proof (induction rule: rtranclp_induct)
  case (step w1 w2)
  then have v: "sessions_valid E w1" by blast
  then have m: "sys_moves E w1 w2" using ses_sys_step [OF step.hyps(2)] by (simp add: sessions_valid_iff)
  have "ses_of E w2 sid \<noteq> None" if "sid \<in> dom (map_of (sw_sessions w2))" for sid
    using m v that unfolding sys_moves_def sessions_valid_iff by (metis not_None_eq)
  then show ?case using m by (simp add: sessions_valid_iff sys_moves_def)
qed

theorem sessions_stay_valid_witness:
  "sessions_valid senv0 (snd (transition_session_record senv0 ''t1'' ''ses_a'' ''closed'' [(''close_reason'', SVal (JStr ''client-request''))] (world0 ''running'' sent0)))"
  by (rule sessions_stay_valid [where w = "world0 ''running'' sent0", OF r_into_rtranclp])
     (simp_all add: ses_sys.transition sessions_valid_iff world0_named world0_ses, simp add: world0_def)

section \<open>Claims\<close>

lemma owned_isl:
  assumes "ses_of E w sid = Some r" "\<And>req. isl (body req r)"
  shows "isl (fst (owned_session_update E allow rid sid ow body w))"
proof -
  obtain x w1 where a: "assert_request_dispatch_owner E allow rid sid ow w = (x, w1)" by fastforce
  have s: "sw_sessions w1 = sw_sessions w" using assert_owner_sessions [of E allow rid sid ow w] a by simp
  have r: "read_session_record E sid w1 = Inr r" using assms(1) by (simp add: ses_of_iff [symmetric] ses_of_same [OF s])
  show ?thesis
  proof (cases x)
    case (Inr req)
    obtain e where "body req r = Inl e" using assms(2) [of req] by (auto simp: isl_def)
    then show ?thesis using a r Inr by (simp add: owned_session_update_def session_update_def)
  qed (simp add: owned_session_update_def a)
qed

lemma rbind_isl: "isl m \<Longrightarrow> isl (rbind m f)"
  by (auto simp: isl_def)

text \<open>Every call made under a claim checks it first.\<close>

lemma lost_claim_rejected:
  assumes r: "ses_of E w sid = Some r" and l: "\<not> holds_claim rid cid ow (session_provider_metadata r)"
  shows "isl (fst (assert_prepared_submission_recovery_claim E sid rid cid ow w))"
    "isl (fst (advance_prepared_submission_to_dispatching E now sid rid upd cid ow rm w))"
    "isl (fst (install_prepared_recovery_binding E fresh now sid rid pid surface ref cid ow expected bmd ident w))"
    "isl (fst (commit_prepared_recovery_open E now sid rid opened cid ow expected w))"
proof -
  have c: "isl (assert_prepared_claim rid sid cid ow r)" using l by (simp add: assert_prepared_claim_def)
  show "isl (fst (assert_prepared_submission_recovery_claim E sid rid cid ow w))"
    unfolding assert_prepared_submission_recovery_claim_def by (rule owned_isl [OF r]) (rule rbind_isl [OF c])
  have ab: "isl (advance_body now rid sid cid ow upd rm req r)" for req unfolding advance_body_def Let_def by (rule rbind_isl [OF c])
  show "isl (fst (advance_prepared_submission_to_dispatching E now sid rid upd cid ow rm w))"
    using owned_isl [where body = "advance_body now rid sid cid ow upd rm", OF r ab] by (simp add: advance_prepared_submission_to_dispatching_def)
  obtain x w1 where a: "assert_request_dispatch_owner E True rid sid ow w = (x, w1)" by fastforce
  have s: "sw_sessions w1 = sw_sessions w" using assert_owner_sessions [of E True rid sid ow w] a by simp
  have r1: "read_session_record E sid w1 = Inr r" using r by (simp add: ses_of_iff [symmetric] ses_of_same [OF s])
  obtain e where e: "assert_prepared_claim rid sid cid ow r = Inl e" using c by (auto simp: isl_def)
  show "isl (fst (install_prepared_recovery_binding E fresh now sid rid pid surface ref cid ow expected bmd ident w))"
    "isl (fst (commit_prepared_recovery_open E now sid rid opened cid ow expected w))"
    by (cases x; simp add: install_prepared_recovery_binding_def commit_prepared_recovery_open_def a r1 e)+
qed

lemma owned_success:
  assumes "owned_session_update E allow rid sid ow body w = (Inr x, w')" "ses_named E w"
  obtains req r where "ses_of E w sid = Some r" "body req r = Inr (SKeep x) \<and> sw_sessions w' = sw_sessions w \<or>
      (\<exists>q ev. body req r = Inr (SWrite q x ev) \<and> (heir r q \<longrightarrow> current_session q \<and> ses_of E w' sid = Some q))"
proof -
  obtain y w1 where a: "assert_request_dispatch_owner E allow rid sid ow w = (y, w1)" by fastforce
  have s: "sw_sessions w1 = sw_sessions w" using assert_owner_sessions [of E allow rid sid ow w] a by simp
  obtain req where y: "y = Inr req" using assms(1) a by (cases y) (auto simp: owned_session_update_def)
  have u: "session_update E sid (body req) w1 = (Inr x, w')" using assms(1) a y by (simp add: owned_session_update_def)
  obtain r oc where r: "read_session_record E sid w1 = Inr r" "body req r = Inr oc" "session_commit E sid oc w1 = (Inr x, w')"
    using u by (auto simp: session_update_def res_iffs split: sum.split_asm)
  have o: "ses_of E w1 sid = Some r" using r(1) by (simp add: ses_of_iff)
  show thesis
  proof (rule that)
    show "ses_of E w sid = Some r" using o by (simp add: ses_of_same [OF s])
    show "body req r = Inr (SKeep x) \<and> sw_sessions w' = sw_sessions w \<or> (\<exists>q ev. body req r = Inr (SWrite q x ev) \<and> (heir r q \<longrightarrow> current_session q \<and> ses_of E w' sid = Some q))"
    proof (cases oc)
      case (SKeep z)
      then show ?thesis using r(2,3) s by (auto simp: session_commit_def)
    next
      case (SWrite q z ev)
      obtain v w2 where wr: "write_session_record E q w1 = (v, w2)" by fastforce
      have z: "z = x" "v = Inr ()" "w' = add_session_event sid ev w2" using r(3) SWrite wr by (auto simp: session_commit_def split: sum.split_asm)
      have "current_session q \<and> ses_of E w' sid = Some q" if "heir r q"
        using write_session_cases [OF wr ses_named_from [OF s assms(2)] o that] z
        by (auto simp: ses_of_same [OF sessions_event] ses_of_put)
      then show ?thesis using r(2) SWrite z(1) by blast
    qed
  qed
qed

lemma claim_prepared_written:
  assumes "claim_prepared_body E clock now cid rid sid ow lease req r = Inr (SWrite q c ev)"
  shows "dget c ''claim-id'' = JStr cid \<and> dget c ''generation'' = JInt (gen_of (session_provider_metadata q)) \<and>
    dget (session_provider_metadata q) ''submission-recovery-claim'' = JObj c \<and>
    dget (session_provider_metadata q) ''submission-recovery-generation'' = JInt (gen_of (session_provider_metadata q)) \<and>
    gen_of (session_provider_metadata r) < gen_of (session_provider_metadata q)"
proof (rule claim_prepared_result [OF assms])
  fix g
  let ?md = "session_provider_metadata q"
  assume g: "gen_of (session_provider_metadata r) < g" and c: "c = recovery_claim_of cid g ow (add_seconds E now (max 1 lease))"
    and q: "q = write_checkpoint now (dset ''submission-recovery-generation'' (JInt g) (dset ''submission-recovery-claim'' (JObj c) (session_provider_metadata r))) r"
  have "gen_of ?md = g" "dget ?md ''submission-recovery-claim'' = JObj c" "dget ?md ''submission-recovery-generation'' = JInt g"
    by (simp_all add: q gen_of_def)
  moreover have "dget c ''claim-id'' = JStr cid" "dget c ''generation'' = JInt g" by (simp_all add: c recovery_claim_of_def dget_Cons)
  ultimately show ?thesis using g by simp
qed

lemma claim_success_stored:
  assumes "claim_prepared_submission_recovery E clock now cid sid rid ow lease w = (Inr c, w')" "ses_named E w" "ses_of E w sid = Some r"
  obtains q where "ses_of E w' sid = Some q" "dget c ''claim-id'' = JStr cid" "dget c ''generation'' = JInt (gen_of (session_provider_metadata q))"
    "dget (session_provider_metadata q) ''submission-recovery-claim'' = JObj c"
    "dget (session_provider_metadata q) ''submission-recovery-generation'' = JInt (gen_of (session_provider_metadata q))"
    "gen_of (session_provider_metadata r) < gen_of (session_provider_metadata q)"
proof (rule owned_success [OF assms(1) [unfolded claim_prepared_submission_recovery_def] assms(2)])
  fix req r0
  assume r0: "ses_of E w sid = Some r0" and b: "claim_prepared_body E clock now cid rid sid ow lease req r0 = Inr (SKeep c) \<and> sw_sessions w' = sw_sessions w \<or>
    (\<exists>q ev. claim_prepared_body E clock now cid rid sid ow lease req r0 = Inr (SWrite q c ev) \<and> (heir r0 q \<longrightarrow> current_session q \<and> ses_of E w' sid = Some q))"
  have nk: "claim_prepared_body E clock now cid rid sid ow lease req r0 \<noteq> Inr (SKeep c)"
    by (auto simp: claim_prepared_body_def Let_def res_iffs)
  obtain q ev where q: "claim_prepared_body E clock now cid rid sid ow lease req r0 = Inr (SWrite q c ev)" "heir r0 q \<longrightarrow> ses_of E w' sid = Some q"
    using b nk by blast
  show thesis using that [of q] claim_prepared_written [OF q(1)] claim_prepared_effect [OF q(1)] q(2) r0 assms(3) by simp
qed

text \<open>C17: A recovery claim on a prepared turn takes the turn from every earlier claimant: the new claim has a
  higher generation than any before, and under an earlier claim id the check, the advance to dispatching,
  the binding of a new provider session and the commit of a provider open all fail.\<close>

theorem superseded_session_claim:
  assumes "claim_prepared_submission_recovery E clock now cid' sid rid ow lease w = (Inr c, w')" "ses_named E w" "ses_of E w sid = Some r" "cid \<noteq> cid'"
  shows "\<exists>r'. ses_of E w' sid = Some r' \<and> gen_of (session_provider_metadata r) < gen_of (session_provider_metadata r') \<and>
    dget c ''generation'' = JInt (gen_of (session_provider_metadata r')) \<and>
    isl (fst (assert_prepared_submission_recovery_claim E sid rid' cid ow' w')) \<and>
    isl (fst (advance_prepared_submission_to_dispatching E now' sid rid' upd cid ow' rm w')) \<and>
    isl (fst (install_prepared_recovery_binding E fresh now' sid rid' pid surface ref cid ow' expected bmd ident w')) \<and>
    isl (fst (commit_prepared_recovery_open E now' sid rid' opened cid ow' expected w'))"
proof -
  obtain q where q: "ses_of E w' sid = Some q" "dget c ''claim-id'' = JStr cid'" "dget c ''generation'' = JInt (gen_of (session_provider_metadata q))"
    "dget (session_provider_metadata q) ''submission-recovery-claim'' = JObj c" "gen_of (session_provider_metadata r) < gen_of (session_provider_metadata q)"
    using claim_success_stored [OF assms(1-3)] by blast
  have "\<not> holds_claim rid' cid ow' (session_provider_metadata q)" using q(2,4) assms(4) by (simp add: holds_claim_def)
  note lost = lost_claim_rejected [OF q(1) this]
  show ?thesis using q(1,3,5) lost by (intro exI [of _ q] conjI)
qed

definition prepared0 :: dict where
  "prepared0 = session0 ''active'' [] [(''unresolved-turn-pending'', JBool True), (''unresolved-turn-id'', JStr ''req_a''),
     (''submission-state'', JStr ''prepared''), (''submission-proven'', JBool False), (''submission-attempt-id'', JStr ''a1'')]"

lemma prepared0_ok [simp]: "current_session prepared0" "dget prepared0 ''session-id'' = JStr ''ses_a''"
proof -
  show "current_session prepared0" by (unfold current_session_def) code_simp
  show "dget prepared0 ''session-id'' = JStr ''ses_a''" by code_simp
qed

definition claimed_run0 :: "dict res \<times> sesw" where
  "claimed_run0 = claim_prepared_submission_recovery senv0 0 ''t1'' ''c2'' ''ses_a'' ''req_a'' owner0 180 (world0 ''running'' prepared0)"

lemma claimed_run0_ok: "\<not> isl (fst claimed_run0)"
  by code_simp

theorem superseded_session_claim_witness:
  "\<exists>r'. ses_of senv0 (snd claimed_run0) ''ses_a'' = Some r' \<and> gen_of (session_provider_metadata prepared0) < gen_of (session_provider_metadata r') \<and>
    isl (fst (assert_prepared_submission_recovery_claim senv0 ''ses_a'' ''req_a'' ''c1'' owner0 (snd claimed_run0)))"
proof -
  obtain c where "claimed_run0 = (Inr c, snd claimed_run0)"  using run_Inr [OF claimed_run0_ok] by blast
  then have "claim_prepared_submission_recovery senv0 0 ''t1'' ''c2'' ''ses_a'' ''req_a'' owner0 180 (world0 ''running'' prepared0) = (Inr c, snd claimed_run0)"
    by (simp add: claimed_run0_def)
  from superseded_session_claim [where r = prepared0 and cid = "''c1''" and rid' = "''req_a''" and ow' = owner0, OF this world0_named]
  show ?thesis by (simp add: world0_ses) blast
qed

section \<open>The load budget\<close>

lemma load_budget_written:
  assumes "load_budget_body now rid mx (BIncrement (JInt c, JInt n)) req r = Inr oc"
  shows "\<exists>q. oc = SWrite q (c + 1, n + 1) None \<and> c < mx \<and> budget_of (session_provider_metadata r) = (JInt c, JInt n) \<and>
    budget_of (session_provider_metadata q) = (JInt (c + 1), JInt (n + 1))"
  using assms by (auto simp: load_budget_body_def Let_def budget_next_def budget_of_def dget_or_def split: if_split_asm json.split_asm option.split_asm)

lemma load_budget_refused:
  assumes "budget_of (session_provider_metadata r) \<noteq> (JInt c, JInt n)"
  shows "isl (load_budget_body now rid mx (BIncrement (JInt c, JInt n)) req r)"
proof (cases "load_budget_body now rid mx (BIncrement (JInt c, JInt n)) req r")
  case (Inr oc)
  then show ?thesis using load_budget_written [OF Inr] assms by blast
qed simp


definition budget_run0 :: "(int \<times> int) res \<times> sesw" where
  "budget_run0 = owned_conversation_load_budget senv0 ''t1'' ''ses_a'' ''req_a'' owner0 3 (BIncrement (JInt 0, JInt 0)) (world0 ''running'' sent0)"

lemma budget_run0_ok: "fst budget_run0 = Inr (1, 1)"
  by code_simp


section \<open>A recovered turn cannot be proven\<close>

lemma advance_written:
  assumes "advance_body now rid sid cid ow u rm req r = Inr oc" "distinct (map fst u)" "\<not> replaces_claim u"
  shows "\<exists>q. oc = SWrite q q None \<and> heir r q \<and> dget (session_provider_metadata q) ''submission-state'' = JStr ''dispatching'' \<and>
    dget (session_provider_metadata q) ''submission-recovery-generation'' = dget (session_provider_metadata r) ''submission-recovery-generation''"
proof -
  let ?md = "session_provider_metadata r" and ?rm = "rm @ [''submission-recovery-claim'']"
  have st: "dget u ''submission-state'' = JStr ''dispatching''" and s: "fresh_checkpoint_removals_are_safe ?md u rm"
    and oc: "oc = (let q = write_checkpoint now (merged ?md u ?rm) r in SWrite q q None)"
    using assms(1) by (auto simp: advance_body_def Let_def res_iffs merged_def)
  have m: "mild_removal ?rm ?md" by (rule safe_removal_mild(1) [OF s])
  have k: "dget (merged ?md u ?rm) k = (if dhas u k then dget u k else dget ?md k)" if "k \<in> set VIEWED_KEYS" "k \<noteq> ''submission-proven''" for k
    using dget_merged [OF assms(2)] mild_removal_key [OF m that] by blast
  have "dget (merged ?md u ?rm) ''submission-state'' = JStr ''dispatching''"
    using k [of "''submission-state''"] st dhas_of_dget [OF st] by (simp add: VIEWED_KEYS_def)
  moreover have "dget (merged ?md u ?rm) ''submission-recovery-generation'' = dget ?md ''submission-recovery-generation''"
    using k [of "''submission-recovery-generation''"] assms(3) by (simp add: VIEWED_KEYS_def replaces_claim_def)
  ultimately show ?thesis by (intro exI [of _ "write_checkpoint now (merged ?md u ?rm) r"]) (simp add: oc heir_write Let_def)
qed

lemma dget_no_budget: "k \<notin> set LOAD_BUDGET_KEYS \<Longrightarrow> dget (no_budget_keys u) k = dget u k"
  by (induction u) (auto simp: no_budget_keys_def dget_Cons split: if_split_asm)

lemma generation_blocks_proof:
  assumes r: "ses_of E w sid = Some r" and st: "dget (session_provider_metadata r) ''submission-state'' = JStr ''dispatching''"
    and g: "dget (session_provider_metadata r) ''submission-recovery-generation'' \<noteq> JNull" and p: "dget upd ''submission-state'' = JStr ''proven''"
  shows "isl (fst (update_owned_submission_checkpoint E now sid rid upd ow claim rm w))"
proof -
  let ?u = "\<lparr>cu_update = no_budget_keys upd, cu_remove = filter (\<lambda>k. k \<notin> set LOAD_BUDGET_KEYS) rm, cu_claim = claim\<rparr>" and ?md = "session_provider_metadata r"
  have p': "dget (no_budget_keys upd) ''submission-state'' = JStr ''proven''" using p by (simp add: dget_no_budget LOAD_BUDGET_KEYS_def)
  have n: "\<not> dispatching_to_proven rid ?u ?md req" for req using g by (simp add: dispatching_to_proven_def unclaimed_def Let_def)
  have "isl (check_dispatch_stage rid sid ?u ?md req)" for req using n p' by (simp add: check_dispatch_stage_def Let_def)
  then have "isl (stage_check rid sid ow ?u False req r)" for req
    using st by (simp add: stage_check_def Let_def fresh_prepared_dispatch_def rbind_isl)
  then have b: "isl (checkpoint_body now rid sid ow ?u False req r)" for req unfolding checkpoint_body_def by (rule rbind_isl)
  have o: "isl (fst (owned_session_update E False rid sid ow (checkpoint_body now rid sid ow ?u False) w))"
    by (rule owned_isl [OF r]) (rule b)
  have rd: "read_session_record E sid w = Inr r" using r by (simp add: ses_of_iff)
  show ?thesis
  proof (cases "replaces_claim (no_budget_keys upd)")
    case False
    show ?thesis
    proof (cases "in_set (dget ?md ''recovery-state'') CLEARED_ANNOTATIONS")
      case (Inr b)
      then have "fresh_prepared_checkpoint rid ?u ?md = Inr False" using st by (simp add: fresh_prepared_checkpoint_def)
      then show ?thesis using False rd st o by (simp add: update_owned_submission_checkpoint_def Let_def)
    qed (use False rd in \<open>simp add: update_owned_submission_checkpoint_def Let_def fresh_prepared_checkpoint_def\<close>)
  qed (simp add: update_owned_submission_checkpoint_def Let_def)
qed

lemma generation_blocks_unsent:
  assumes r: "ses_of E w sid = Some r" and g: "dget (session_provider_metadata r) ''submission-recovery-generation'' \<noteq> JNull"
  shows "isl (fst (clear_owned_unsent_submission_checkpoint E now sid rid attempt ow w))"
proof -
  have "isl (clear_unsent_body now rid sid attempt req r)" for req
  proof (cases "exact_unsent rid attempt req (session_provider_metadata r)")
    case (Inr ok)
    then have "\<not> ok" using g by (auto simp: exact_unsent_def res_iffs split: if_split_asm)
    then show ?thesis by (simp add: clear_unsent_body_def Inr)
  qed (simp add: clear_unsent_body_def)
  then show ?thesis unfolding clear_owned_unsent_submission_checkpoint_def by (rule owned_isl [OF r])
qed


definition dispatch_update0 :: dict where
  "dispatch_update0 = [(''submission-state'', JStr ''dispatching''), (''unresolved-turn-pending'', JBool True), (''unresolved-turn-id'', JStr ''req_a''),
     (''submission-stage'', JStr ''dispatching''), (''send-intent-ever'', JBool False)]"

definition claimed1 :: dict where
  "claimed1 = session0 ''active'' [] [(''unresolved-turn-pending'', JBool True), (''unresolved-turn-id'', JStr ''req_a''),
     (''submission-state'', JStr ''prepared''), (''submission-proven'', JBool False),
     (''submission-recovery-claim'', JObj (recovery_claim_of ''c2'' 1 owner0 ''t9'')), (''submission-recovery-generation'', JInt 1)]"

lemma claimed1_ok [simp]: "current_session claimed1" "dget claimed1 ''session-id'' = JStr ''ses_a''"
proof -
  show "current_session claimed1" by (unfold current_session_def) code_simp
  show "dget claimed1 ''session-id'' = JStr ''ses_a''" by code_simp
qed

lemma owner0_claimed1: "\<not> isl (fst (assert_request_dispatch_owner senv0 True ''req_a'' ''ses_a'' owner0 (world0 ''running'' claimed1)))"
  by code_simp

text \<open>The advance of that claim succeeds: each guard is evaluated on its own.\<close>

lemma advance0_ok: "\<not> isl (fst (advance_prepared_submission_to_dispatching senv0 ''t2'' ''ses_a'' ''req_a'' dispatch_update0 ''c2'' owner0 [] (world0 ''running'' claimed1)))"
proof -
  let ?md = "session_provider_metadata claimed1" and ?q = "write_checkpoint ''t2'' (dpop ''submission-recovery-claim'' (dupd (session_provider_metadata claimed1) dispatch_update0)) claimed1"
  obtain req w1 where a: "assert_request_dispatch_owner senv0 True ''req_a'' ''ses_a'' owner0 (world0 ''running'' claimed1) = (Inr req, w1)" using run_Inr [OF owner0_claimed1] by blast
  have s: "sw_sessions w1 = sw_sessions (world0 ''running'' claimed1)" using assert_owner_sessions [of senv0 True "''req_a''" "''ses_a''" owner0] a by (metis snd_conv)
  have h: "holds_claim ''req_a'' ''c2'' owner0 ?md" by code_simp
  have d: "\<not> replaces_identity ?md dispatch_update0" "\<not> replaces_claim dispatch_update0" by code_simp+
  have u: "dget dispatch_update0 ''submission-state'' = JStr ''dispatching''" "dget dispatch_update0 ''unresolved-turn-pending'' = JBool True"
    "dget dispatch_update0 ''unresolved-turn-id'' = JStr ''req_a''" "dget dispatch_update0 ''submission-proven'' = JNull"
    "dget dispatch_update0 ''submission-attempt-id'' = JNull" "dget dispatch_update0 ''submission-stage'' = JStr ''dispatching''"
    "dget dispatch_update0 ''send-intent-ever'' = JBool False" by code_simp+
  have m: "dget ?md ''submission-stage'' = JNull" "dget ?md ''send-intent-ever'' = JNull" "stage_order (JStr ''dispatching'') = Some 0" "stage_order JNull = None" by code_simp+
  have v: "validate_submission_observation_progress ?md dispatch_update0 ''req_a'' ''ses_a'' = Inr ()"
    by (simp add: validate_submission_observation_progress_def Let_def u m)
  have c: "current_session ?q" by (unfold current_session_def) code_simp
  have n: "dget ?q ''session-id'' = JStr ''ses_a''" by code_simp
  have b: "advance_body ''t2'' ''req_a'' ''ses_a'' ''c2'' owner0 dispatch_update0 [] req claimed1 = Inr (SWrite ?q ?q None)"
    by (simp add: advance_body_def Let_def assert_prepared_claim_def h u d v fresh_checkpoint_removals_are_safe_def)
  have r: "read_session_record senv0 ''ses_a'' w1 = Inr claimed1"
    using world0_ses [of claimed1 senv0 "''running''" "''ses_a''"] by (simp add: ses_of_iff [symmetric] ses_of_same [OF s])
  show ?thesis
    by (simp add: advance_prepared_submission_to_dispatching_def d owned_session_update_def a session_update_def r b session_commit_def write_session_record_def n c)
qed


section \<open>Gaps of the fences\<close>

text \<open>The guard against clearing the fence tests for false only: a null closes an open turn of a running request.\<close>

lemma null_update_closes_turn:
  assumes md: "dget (session_provider_metadata r) ''unresolved-turn-pending'' = JBool True" "dget (session_provider_metadata r) ''unresolved-turn-id'' = JStr rid"
    "dget (session_provider_metadata r) ''submission-state'' = JStr ''dispatching''"
    and u: "u = \<lparr>cu_update = [(''unresolved-turn-pending'', JNull)], cu_remove = [], cu_claim = None\<rparr>"
  shows "\<exists>q. checkpoint_body now rid sid ow u False req r = Inr (SWrite q q None) \<and> \<not> tv_open (turn_view (session_provider_metadata q))"
proof -
  let ?md = "session_provider_metadata r"
  have g: "dget (cu_update u) k = JNull" "dhas (cu_update u) k \<longleftrightarrow> k = ''unresolved-turn-pending''" for k by (simp_all add: u dget_Cons dhas_def)
  have "stage_check rid sid ow u False req r = Inr (False, False)"
    by (simp add: stage_check_def Let_def fresh_prepared_dispatch_def check_dispatch_stage_def dispatching_to_proven_def md g u(1) dget_Cons)
  moreover have "checkpoint_guards rid sid False False u ?md = Inr ()"
    by (simp add: checkpoint_guards_def Let_def changes_stage_def g md replaces_identity_def RECOVERY_IDENTITY_KEYS_def u(1)
        validate_submission_observation_progress_def stage_order_def dget_Cons dhas_def)
  ultimately show ?thesis by (simp add: checkpoint_body_def checkpoint_write_def Let_def turn_view_def u)
qed

text \<open>The advance does not leave out the load-budget fields of its update, so a stale copy replaces them.\<close>

lemma advance_overwrites_budget:
  assumes "advance_body now rid sid cid ow u rm req r = Inr (SWrite q x ev)" "distinct (map fst u)" "map_of u ''conversation-load-recovery-revision'' = Some v"
  shows "snd (budget_of (session_provider_metadata q)) = v"
proof -
  let ?rm = "rm @ [''submission-recovery-claim'']"
  have s: "fresh_checkpoint_removals_are_safe (session_provider_metadata r) u rm" and q: "q = write_checkpoint now (merged (session_provider_metadata r) u ?rm) r"
    using assms(1) by (auto simp: advance_body_def Let_def res_iffs merged_def)
  have "''conversation-load-recovery-revision'' \<notin> set ?rm" using mild_removal_key [OF safe_removal_mild(1) [OF s]] by (simp add: VIEWED_KEYS_def)
  then show ?thesis using assms(2,3) by (simp add: q budget_of_def dget_or_def merged_def map_of_pops map_of_dupd)
qed

text \<open>The record \<open>write_session_binding\<close> builds has no execution profile, which the schema requires: it always raises.\<close>

lemma write_session_binding_always_fails: "isl (fst (write_session_binding E sid b w))"
proof -
  have "\<not> session_schema (JObj q)"
    if "migrate_session_v2 [(''contract-version'', JStr ''v2''), (''session-id'', JStr sid), (''binding'', b), (''state'', JStr ''active'')] = Inr q" for q
  proof -
    have "(''execution-profile-id'', JNull) \<in> set q"
      using that by (auto simp: migrate_session_v2_def res_iffs dget_Cons Let_def)
    then show ?thesis by (fastforce simp: session_schema_def sch_object_def list_all_iff)
  qed
  then show ?thesis
    by (auto simp: write_session_binding_def Let_def validate_session_def migrate_session_v1_def dget_Cons rbind_def split: sum.split)
qed

end
