(* ===== verification/Expiry_Results.thy ===== *)
theory Expiry_Results
  imports Session_Expiry Session_Results
begin

text \<open>
  The properties of expiry, with concrete stores as witnesses: what holds of the requests of a session that has
  been expired, what keeps a session from being expired, and two places where the call does not do what it
  means to.
\<close>

section \<open>A session past its lifetime\<close>

definition senv1 :: senv where
  "senv1 = senv0\<lparr>parse_naive := \<lambda>s. if s = ''later'' then Some 200 else Some 0\<rparr>"

definition aged0 :: dict where
  "aged0 = session0 ''active'' [(''policy'', JObj [(''max-lifetime-seconds'', JInt 50)])] []"

lemma aged0_ok [simp]: "current_session aged0" "dget aged0 ''session-id'' = JStr ''ses_a''" "\<not> session_terminal aged0"
proof -
  show "current_session aged0" by (unfold current_session_def) code_simp
  show "dget aged0 ''session-id'' = JStr ''ses_a''" "\<not> session_terminal aged0" by code_simp+
qed

lemma aged0_reason: "expiry_reason senv1 100 aged0 = Some ''max-lifetime''"
  by (simp add: expiry_reason_def session_lifetime_expired_def session_lifetime_expiry_def session_created_age_seconds_def session_created_at_def grp_def
    aged0_def session0_def dget_Cons senv1_def strip_def is_space_def policy_cap_def session_max_lifetime_seconds_def)

lemma request0_id: "dget (request0 st) ''request-id'' = JStr ''req_a''" "dget (request0 st) ''session-id'' = JStr ''ses_a''"
  by (simp_all add: request0_def build_payload_def dget_Cons por_def)

lemma one_request:
  assumes "wf_rec d" "dget d ''prompt-body'' = JNull" "dget d ''request-id'' = JStr ''req_a''" "current_shape d" "dget d ''node-admission'' = JNull"
  shows "store_ok (gw_of d)" "settled_store senv1 (gw_of d)"
  using assms by (simp add: store_ok_def rec_of_gw_of) (use assms in \<open>simp add: settled_store_def gw_of_def settled_def validate_record_def senv1_def senv0_def\<close>)

lemma ended0_store: "store_ok (gw_of (request0 ''completed''))" "settled_store senv1 (gw_of (request0 ''completed''))"
proof -
  have d: "wf_rec (request0 ''completed'')" "dget (request0 ''completed'') ''prompt-body'' = JNull" "current_shape (request0 ''completed'')"
    "dget (request0 ''completed'') ''node-admission'' = JNull" by code_simp+
  then show "store_ok (gw_of (request0 ''completed''))" "settled_store senv1 (gw_of (request0 ''completed''))"
    using one_request [OF d(1,2) request0_id(1) d(3,4)] by simp_all
qed

lemma ended0_expires: "case fst (expiry_locked senv1 100 ''t1'' clock0 ''ses_a'' [''req_a''] [] (world0 ''completed'' aged0)) of
    Inr (Some r) \<Rightarrow> dget r ''state'' = JStr ''expired'' | _ \<Rightarrow> False"
proof -
  let ?w = "world0 ''completed'' aged0"
  have rd: "read_session_record senv1 ''ses_a'' ?w = Inr aged0" using world0_ses [of aged0 senv1 "''completed''" "''ses_a''"] by (simp add: ses_of_iff)
  have p: "settled_store senv1 (pgw (sw_proj ?w))" using ended0_store(2) by (simp add: world0_def proj_of_def)
  have li: "list_records senv1 False None (sw_proj ?w) = (Inr [request0 ''completed''], sw_proj ?w)"
    unfolding list_settled [OF p]
    by (simp add: listed_def newest_first_def world0_def proj_of_def rec_of_gw_of attach_output_def) (simp add: gw_of_def rec_of_def)
  have ro: "session_roster senv1 ''ses_a'' aged0 [request0 ''completed''] = [''req_a'']"
    by (simp add: session_roster_def session_requests_def request_key_def project_text_def request0_id session_request_ids_def aged0_def session0_def grp_def dget_Cons)
  have op: "open_requests senv1 ''ses_a'' [''req_a''] [request0 ''completed''] = []" by code_simp
  have "case fst (expire_record senv1 ''t1'' ''ses_a'' ''max-lifetime'' aged0 ?w) of Inr (Some r) \<Rightarrow> dget r ''state'' = JStr ''expired'' | _ \<Rightarrow> False"
    by code_simp
  then show ?thesis by (simp add: expiry_locked_def rd aged0_reason li ro op expire_requests_def)
qed

section \<open>Expired sessions have no open request\<close>

text \<open>The second phase that goes through: the snapshot was current, and the session was written.\<close>

lemma expire_requests_done:
  assumes "expire_requests E now t sid reason cur el w = (Inr (Some r), w')"
  obtains p1 s where "snapshot_current E el (sw_proj w) = (Inr True, p1)" "interrupt_requests E t sid reason el (pgw p1) = (True, s)"
    "expire_record E now sid reason cur (w\<lparr>sw_proj := p1\<lparr>pgw := s\<rparr>\<rparr>) = (Inr (Some r), w')"
  using assms by (auto simp: expire_requests_def split: sum.split_asm prod.split_asm bool.split_asm)

lemma commit_proj: "sw_proj (snd (session_commit E sid oc w)) = sw_proj w"
  by (auto simp: session_commit_def write_session_record_def put_session_def add_session_event_def split: soutcome.split sum.split json.split option.split prod.split)

lemma expire_record_done:
  assumes "expire_record E now sid reason cur w = (Inr (Some r), w')" "ses_of E w sid = Some cur" "ses_named E w"
  shows "sw_proj w' = sw_proj w" "ses_of E w' sid = Some r"
proof -
  let ?us = "[(''close-reason'', SVal (JStr reason)), (''closed-at'', SVal (JStr now))]"
  obtain oc w1 idx where b: "transition_session_body now ''expired'' ?us cur = Inr oc" and c: "session_commit E sid oc w = (Inr r, w1)"
    and w': "w' = w1\<lparr>sw_index := idx\<rparr>"
    using assms(1) by (auto simp: expire_record_def split: sum.split_asm prod.split_asm)
  show "sw_proj w' = sw_proj w" using commit_proj [of E sid oc w] by (simp add: c w')
  obtain q ev where oc: "oc = SWrite q q ev" using b by (auto simp: transition_session_body_def res_iffs Let_def split: prod.split_asm)
  have h: "heir cur q" using transition_session_effect b oc by blast
  obtain x w2 where wr: "write_session_record E q w = (x, w2)" by fastforce
  have x: "x = Inr ()" "r = q" "w1 = add_session_event sid ev w2" using c by (auto simp: oc session_commit_def wr split: sum.split_asm)
  have "current_session q \<and> w2 = put_session sid q w" using write_session_cases [OF wr assms(3,2) h] x(1) by auto
  then have "ses_of E w2 sid = Some q" by (simp add: ses_of_put)
  moreover have "sw_sessions w' = sw_sessions w2" by (simp add: w' x(3))
  ultimately show "ses_of E w' sid = Some r" using ses_of_same [of w' w2 E] x(2) by simp
qed

text \<open>C23: A session is expired only together with its requests.  When the second phase of an expiry, on whatever
  snapshot the first one took, has expired the session, then every stored request of the session has ended; the
  requests it ended stood at the very revision of the snapshot, and no other request changed.\<close>

theorem expired_session_settled:
  assumes ok: "store_ok (pgw (sw_proj w))" "settled_store E (pgw (sw_proj w))" "ses_named E w"
    and cur: "ses_of E w sid = Some cur" "\<not> session_terminal cur"
    and e: "expiry_locked E clk now t sid rids el w = (Inr (Some r), w')" "dget r ''state'' = JStr ''expired''"
  shows "ses_of E w' sid = Some r \<and>
    (\<forall>rid d. rid \<noteq> [] \<and> rec_of (pgw (sw_proj w')) rid = Some d \<and> dget d ''session-id'' = JStr sid \<longrightarrow> request_terminal d) \<and>
    (\<forall>x \<in> set el. \<exists>d. rec_of (pgw (sw_proj w)) (request_key E x) = Some d \<and> jeq (dget d ''revision'') (dget x ''revision'')) \<and>
    (\<forall>rid. rid \<notin> request_key E ` set el \<longrightarrow> rec_of (pgw (sw_proj w')) rid = rec_of (pgw (sw_proj w)) rid)"
proof -
  let ?p = "sw_proj w"
  have rd: "read_session_record E sid w = Inr cur" using cur(1) by (simp add: ses_of_iff)
  have "r \<noteq> cur" using cur(2) e(2) expired_is_terminal by (auto simp: session_terminal_def)
  then obtain reason recs where l: "list_records E False None ?p = (Inr recs, ?p)"
    and op: "open_requests E sid (session_roster E sid cur recs) recs = sort (remdups (map (request_key E) el))"
    and x: "expire_requests E now t sid reason cur el w = (Inr (Some r), w')"
    using e(1) list_settled [OF ok(2), of False None]
    by (auto simp: expiry_locked_def rd cur(2) Let_def split: option.split_asm if_split_asm)
  obtain p1 s where sn: "snapshot_current E el ?p = (Inr True, p1)" and i: "interrupt_requests E t sid reason el (pgw p1) = (True, s)"
    and c: "expire_record E now sid reason cur (w\<lparr>sw_proj := p1\<lparr>pgw := s\<rparr>\<rparr>) = (Inr (Some r), w')" using expire_requests_done [OF x] .
  note snap = snapshot_settled [OF ok(2) sn]
  have ie: "\<forall>rid. rid \<notin> request_key E ` set el \<longrightarrow> rec_of s rid = rec_of (pgw ?p) rid"
    "\<forall>x \<in> set el. \<exists>d. rec_of s (request_key E x) = Some d \<and> dget d ''state'' = JStr ''interrupted''"
    using interrupts_effect [OF ok(1), of E t sid reason el True s] i snap by (simp_all only: simp_thms) blast+
  have w': "pgw (sw_proj w') = s" "ses_of E w' sid = Some r"
    using expire_record_done [OF c] cur(1) ok(3) ses_of_same [of "w\<lparr>sw_proj := p1\<lparr>pgw := s\<rparr>\<rparr>" w E] by (simp_all add: ses_named_def)
  have "request_terminal d" if d: "rid \<noteq> []" "rec_of s rid = Some d" "dget d ''session-id'' = JStr sid" for rid d
  proof (cases "rid \<in> request_key E ` set el")
    case True
    then show ?thesis using ie(2) d(2) interrupted_terminal by (auto simp: request_terminal_def)
  next
    case False
    then have r0: "rec_of (pgw ?p) rid = Some d" using ie(1) d(2) by simp
    note li = request_listed [OF ok(2) r0 d(3,1) l]
    have "rid \<notin> set (open_requests E sid (session_roster E sid cur recs) recs)" using False by (simp add: op)
    then show ?thesis using li(2) [of cur] by (simp add: open_requests_def Let_def li(3) request_terminal_attach)
  qed
  then show ?thesis unfolding w'(1) using w'(2) snap ie(1) by blast
qed

theorem expired_session_settled_witness:
  "\<exists>r w'. expiry_locked senv1 100 ''t1'' clock0 ''ses_a'' [''req_a''] [] (world0 ''completed'' aged0) = (Inr (Some r), w') \<and>
    ses_of senv1 w' ''ses_a'' = Some r \<and> dget r ''state'' = JStr ''expired'' \<and>
    (\<forall>rid d. rid \<noteq> [] \<and> rec_of (pgw (sw_proj w')) rid = Some d \<and> dget d ''session-id'' = JStr ''ses_a'' \<longrightarrow> request_terminal d)"
proof -
  obtain r w' where e: "expiry_locked senv1 100 ''t1'' clock0 ''ses_a'' [''req_a''] [] (world0 ''completed'' aged0) = (Inr (Some r), w')"
    "dget r ''state'' = JStr ''expired''"
    using ended0_expires by (cases "expiry_locked senv1 100 ''t1'' clock0 ''ses_a'' [''req_a''] [] (world0 ''completed'' aged0)")
      (auto split: sum.split_asm option.split_asm)
  have "store_ok (pgw (sw_proj (world0 ''completed'' aged0)))" "settled_store senv1 (pgw (sw_proj (world0 ''completed'' aged0)))"
    using ended0_store by (simp_all add: world0_def proj_of_def)
  note x = expired_session_settled [OF this _ _ _ e]
  have "ses_named senv1 (world0 ''completed'' aged0)" "ses_of senv1 (world0 ''completed'' aged0) ''ses_a'' = Some aged0"
    by (simp_all add: world0_named world0_ses)
  then show ?thesis using x [OF _ _ aged0_ok(3)] e by blast
qed

section \<open>What keeps a session alive\<close>

text \<open>C24: A request that the provider is still working on keeps its session alive: while an open request of the
  session has a provider lease that has not run out, expiry answers the stored session and changes nothing,
  whatever the session's age.\<close>

theorem live_lease_blocks_expiry:
  assumes st: "settled_store E (pgw (sw_proj w))" and cur: "ses_of E w sid = Some cur" "ses_named E w"
    and d: "rec_of (pgw (sw_proj w)) rid = Some d" "rid \<noteq> []" "dget d ''session-id'' = JStr sid" "\<not> request_terminal d" "lease_live E clk d"
  shows "expire_session_if_policy_exceeded E clk now t sid others w = (Inr cur, w)"
proof -
  let ?p = "sw_proj w"
  have rd: "read_session_record E sid w = Inr cur" and id: "dget cur ''session-id'' = JStr sid"
    using cur by (auto simp: ses_of_iff ses_named_def)
  obtain recs where l: "list_records E False None ?p = (Inr recs, ?p)" using list_settled [OF st, of False None] by simp
  let ?rids = "session_roster E sid cur recs" and ?d = "attach_output E True rid ?p d"
  have m: "rid \<in> set ?rids" by (rule request_listed(2) [OF st d(1,3,2) l])
  have live: "\<not> request_terminal ?d" "lease_live E clk ?d" using d(4,5) by (simp_all add: request_terminal_attach lease_live_def grp_def attach_output_other)
  have "expiry_eligible E clk cur snaps = None" if "read_roster E ?rids ?p = (Some snaps, ?p)" for snaps
    using roster_member [OF st that m d(1)] live by (auto simp: expiry_eligible_def Let_def list_all_iff filter_empty_conv split: option.split)
  then have "expiry_plan E clk cur w = (None, w)"
    using roster_settled [OF st, of ?rids] by (cases "read_roster E ?rids ?p") (auto simp: expiry_plan_def id l Let_def split: option.split)
  then show ?thesis by (auto simp: expire_session_if_policy_exceeded_def rd split: option.split)
qed

text \<open>A running request whose provider lease ends later than now.\<close>

definition leased0 :: dict where
  "leased0 = dset ''activity'' (JObj (dset ''provider'' (JObj [(''first-at'', JNull), (''lease-expires-at'', JStr ''later'')]) default_activity)) (request0 ''running'')"

definition leased_world0 :: sesw where
  "leased_world0 = (world0 ''running'' aged0)\<lparr>sw_proj := proj_of (gw_of leased0)\<rparr>"

theorem live_lease_blocks_expiry_witness:
  "expiry_reason senv1 100 aged0 = Some ''max-lifetime'' \<and>
   expire_session_if_policy_exceeded senv1 100 ''t1'' clock0 ''ses_a'' id leased_world0 = (Inr aged0, leased_world0)"
proof -
  have s: "settled_store senv1 (gw_of leased0)" by (rule one_request; code_simp)
  have w: "pgw (sw_proj leased_world0) = gw_of leased0" "ses_of senv1 leased_world0 ''ses_a'' = Some aged0" "ses_named senv1 leased_world0"
    using ses_of_same [of leased_world0 "world0 ''running'' aged0" senv1] world0_named [of aged0 senv1 "''running''"]
    by (simp_all add: leased_world0_def proj_of_def world0_ses ses_named_def)
  have d: "dget leased0 ''session-id'' = JStr ''ses_a''" "\<not> request_terminal leased0" by code_simp+
  have "lease_live senv1 100 leased0"
    by (simp add: lease_live_def leased0_def grp_def dget_Cons senv1_def strip_def is_space_def)
  then have "expire_session_if_policy_exceeded senv1 100 ''t1'' clock0 ''ses_a'' id leased_world0 = (Inr aged0, leased_world0)"
    using live_lease_blocks_expiry [of senv1 leased_world0 "''ses_a''" aged0 "''req_a''" leased0 100] s w d by (simp add: rec_of_gw_of)
  then show ?thesis using aged0_reason by simp
qed

section \<open>Gaps\<close>

text \<open>The workflow has no move from closing to expired: expiry of a closing session raises, after its requests
  have been interrupted.\<close>

lemma closing_never_expires:
  assumes "dget cur ''state'' = JStr ''closing''"
  shows "expire_record E now sid reason cur w = (Inl (ag_error ''CON-AGW-002'' ''illegal gateway session state transition''
    [(''from'', JStr ''closing''), (''to'', JStr ''expired'')]), w)"
proof -
  have "wf_is_known_state session_workflow ''closing''" "\<not> transition_allowed session_workflow ''closing'' ''expired''" by code_simp+
  then show ?thesis using assms by (simp add: expire_record_def transition_session_body_def ensure_session_transition_def text_of_def)
qed

text \<open>A session that became active again between the phases is handed back, and reported as expired.\<close>

lemma revived_session_reported_expired:
  assumes "ses_of E w sid = Some r" "\<not> session_terminal r" "expiry_reason E clk r = Some reason" "expiry_plan E clk r w = (Some (rids, el), w1)"
    "ses_of E (others w1) sid = Some cur" "expiry_reason E clk cur = None"
  shows "expire_session_if_policy_exceeded E clk now t sid others w = (Inr cur,
    add_session_event sid (Some (''session.expired'', JStr ''expired'', [(''close-reason'', JStr reason)])) (others w1))"
  using assms by (simp add: expire_session_if_policy_exceeded_def expiry_locked_def ses_of_iff)

end
