(* ===== verification/Simulation.thy ===== *)
theory Simulation
  imports Main
begin

text \<open>
  Sequences of calls on a state, and the interface by which an implementation is shown equivalent to a
  reference: a relation between their states under which every admissible call gives the same answer and
  keeps the relation.
\<close>

fun run_calls :: "('c \<Rightarrow> 's \<Rightarrow> 'x \<times> 's) \<Rightarrow> 'c list \<Rightarrow> 's \<Rightarrow> 'x list \<times> 's" where
  "run_calls f [] s = ([], s)"
| "run_calls f (c # cs) s = (let (x, s1) = f c s; (xs, s2) = run_calls f cs s1 in (x # xs, s2))"

locale same_answers =
  fixes impl :: "'c \<Rightarrow> 's \<Rightarrow> 'x \<times> 's" and ref :: "'c \<Rightarrow> 'a \<Rightarrow> 'x \<times> 'a" and rel :: "'s \<Rightarrow> 'a \<Rightarrow> bool" and admissible :: "'c \<Rightarrow> bool"
  assumes step: "rel s a \<Longrightarrow> admissible c \<Longrightarrow> fst (impl c s) = fst (ref c a) \<and> rel (snd (impl c s)) (snd (ref c a))"
begin

lemma run:
  assumes "list_all admissible cs" "rel s a"
  shows "fst (run_calls impl cs s) = fst (run_calls ref cs a) \<and> rel (snd (run_calls impl cs s)) (snd (run_calls ref cs a))"
  using assms
proof (induction cs arbitrary: s a)
  case (Cons c cs)
  obtain x s1 y a1 where c: "impl c s = (x, s1)" "ref c a = (y, a1)" by fastforce
  have "x = y" "rel s1 a1" using step [OF Cons.prems(2), of c] Cons.prems(1) c by simp_all
  then show ?case using Cons.IH [of s1 a1] Cons.prems(1) c by (simp add: case_prod_beta)
qed simp

end

end
