(* ===== verification/Pending_Queue.thy ===== *)
theory Pending_Queue
  imports Py_Prelude Simulation "HOL-Library.Multiset"
begin

text \<open>
  The pending-work authority of the scheduler, \<open>queue/pending.py\<close>: requests wait in FIFO lanes, projects are served
  in rotation.  The code keeps four structures (queues by lane, lanes by project, requests by identifier, the
  rotation).  The reference keeps the waiting requests in one list, in the order of their arrival, and the
  rotation; the two give the same answers to every sequence of calls, and rotation is fair.
\<close>

section \<open>State\<close>

text \<open>A lane is any hashable key: a project name, or a tuple (\<open>_pending_lane\<close> uses profile and project).\<close>

datatype lane = LName string | LTuple "string list"

record 'v preq =
  pr_id :: string
  pr_project :: string
  pr_value :: 'v
  pr_lane :: "lane option"
  pr_sequence :: nat

definition lane_key :: "'v preq \<Rightarrow> lane" where
  "lane_key r = (case pr_lane r of None \<Rightarrow> LName (pr_project r) | Some l \<Rightarrow> l)"

record 'v pending =
  by_lane :: "lane \<Rightarrow> 'v preq list option"
  lanes_of_project :: "string \<Rightarrow> lane list option"
  by_request :: "(string \<times> 'v preq) list"
  rotation :: "string list"
  next_sequence :: nat

definition empty_pending :: "'v pending" where
  "empty_pending = \<lparr>by_lane = (\<lambda>_. None), lanes_of_project = (\<lambda>_. None), by_request = [], rotation = [], next_sequence = 1\<rparr>"

section \<open>Operations\<close>

definition enqueue_state :: "'v preq \<Rightarrow> 'v pending \<Rightarrow> 'v pending" where
  "enqueue_state r s =
     (let k = lane_key r; p = pr_project r;
          s1 = (case by_lane s k of
             Some q \<Rightarrow> s\<lparr>by_lane := (by_lane s)(k \<mapsto> q @ [r])\<rparr>
           | None \<Rightarrow> s\<lparr>by_lane := (by_lane s)(k \<mapsto> [r]),
               lanes_of_project := (lanes_of_project s)(p \<mapsto> (case lanes_of_project s p of None \<Rightarrow> [] | Some ls \<Rightarrow> ls) @ [k])\<rparr>)
      in s1\<lparr>by_request := by_request s @ [(pr_id r, r)], rotation := (if p \<in> set (rotation s) then rotation s else rotation s @ [p]),
           next_sequence := next_sequence s + 1\<rparr>)"

definition pq_enqueue :: "string \<Rightarrow> string \<Rightarrow> 'v \<Rightarrow> lane option \<Rightarrow> 'v pending \<Rightarrow> unit res \<times> 'v pending" where
  "pq_enqueue rid project v l s =
     (if rid = [] \<or> project = [] then (Inl (ValueError ''pending request identity is invalid''), s)
      else if map_of (by_request s) rid \<noteq> None then (Inl (ValueError (''request is already pending: '' @ rid)), s)
      else (Inr (), enqueue_state \<lparr>pr_id = rid, pr_project = project, pr_value = v, pr_lane = l, pr_sequence = next_sequence s\<rparr> s))"

text \<open>\<open>list.remove\<close> and \<open>deque.remove\<close>: the first equal element, an error when there is none.\<close>

definition list_remove :: "'x \<Rightarrow> 'x list \<Rightarrow> 'x list res" where
  "list_remove x xs = (if x \<in> set xs then Inr (remove1 x xs) else Inl (ValueError ''list.remove(x): x not in list''))"

text \<open>The lane of a project is gone: drop it, and the project with its last lane.\<close>

definition drop_lane :: "'v preq \<Rightarrow> 'v pending \<Rightarrow> unit res \<times> 'v pending" where
  "drop_lane r s =
     (let p = pr_project r; s1 = s\<lparr>by_lane := (by_lane s)(lane_key r := None)\<rparr> in
      case lanes_of_project s1 p of
        None \<Rightarrow> (Inl (KeyError p), s1)
      | Some ls \<Rightarrow> (case list_remove (lane_key r) ls of
           Inl e \<Rightarrow> (Inl e, s1)
         | Inr [] \<Rightarrow>
            (let s2 = s1\<lparr>lanes_of_project := (lanes_of_project s1)(p := None)\<rparr> in
             case list_remove p (rotation s2) of Inl e \<Rightarrow> (Inl e, s2) | Inr ro \<Rightarrow> (Inr (), s2\<lparr>rotation := ro\<rparr>))
         | Inr ls' \<Rightarrow> (Inr (), s1\<lparr>lanes_of_project := (lanes_of_project s1)(p \<mapsto> ls')\<rparr>)))"

definition rotate_project :: "string \<Rightarrow> 'v pending \<Rightarrow> 'v pending" where
  "rotate_project p s = (if p \<in> set (rotation s) then s\<lparr>rotation := remove1 p (rotation s) @ [p]\<rparr> else s)"

definition remove_locked :: "string \<Rightarrow> bool \<Rightarrow> 'v pending \<Rightarrow> 'v preq option res \<times> 'v pending" where
  "remove_locked rid rot s = (case map_of (by_request s) rid of
     None \<Rightarrow> (Inr None, s)
   | Some r \<Rightarrow>
      (let s1 = s\<lparr>by_request := AList.delete rid (by_request s)\<rparr> in
       case by_lane s1 (lane_key r) of
         None \<Rightarrow> (Inl (KeyError rid), s1)
       | Some q \<Rightarrow> (case list_remove r q of
            Inl e \<Rightarrow> (Inl e, s1)
          | Inr q' \<Rightarrow>
             (case (if q' = [] then drop_lane r s1 else (Inr (), s1\<lparr>by_lane := (by_lane s1)(lane_key r \<mapsto> q')\<rparr>)) of
                (Inl e, s2) \<Rightarrow> (Inl e, s2)
              | (Inr _, s2) \<Rightarrow> (Inr (Some r), if rot then rotate_project (pr_project r) s2 else s2)))))"

definition pq_remove :: "string \<Rightarrow> 'v pending \<Rightarrow> 'v preq option res \<times> 'v pending" where
  "pq_remove rid = remove_locked rid False"

definition pq_claim :: "string \<Rightarrow> 'v pending \<Rightarrow> 'v preq option res \<times> 'v pending" where
  "pq_claim rid = remove_locked rid True"

definition project_heads :: "'v pending \<Rightarrow> string \<Rightarrow> 'v preq list" where
  "project_heads s p = sort_key pr_sequence
     (List.map_filter (\<lambda>l. case by_lane s l of Some (r # _) \<Rightarrow> Some r | _ \<Rightarrow> None) (case lanes_of_project s p of Some ls \<Rightarrow> ls | None \<Rightarrow> []))"

definition candidates :: "'v pending \<Rightarrow> 'v preq list" where
  "candidates s = concat (map (project_heads s) (rotation s))"

text \<open>The two loops stop at the first eligible head.\<close>

definition claim_next :: "('v preq \<Rightarrow> bool) \<Rightarrow> 'v pending \<Rightarrow> 'v preq option res \<times> 'v pending" where
  "claim_next eligible s = (case find eligible (candidates s) of
     None \<Rightarrow> (Inr None, s)
   | Some c \<Rightarrow> (case remove_locked (pr_id c) True s of (Inl e, s1) \<Rightarrow> (Inl e, s1) | (Inr _, s1) \<Rightarrow> (Inr (Some c), s1)))"

definition pq_contains :: "string \<Rightarrow> 'v pending \<Rightarrow> bool" where
  "pq_contains rid s \<longleftrightarrow> map_of (by_request s) rid \<noteq> None"

definition pq_get :: "string \<Rightarrow> 'v pending \<Rightarrow> 'v preq option" where
  "pq_get rid s = map_of (by_request s) rid"

definition pq_count :: "('v preq \<Rightarrow> bool) \<Rightarrow> 'v pending \<Rightarrow> nat" where
  "pq_count p s = length (filter p (map snd (by_request s)))"

fun tally :: "'k list \<Rightarrow> ('k \<times> nat) list \<Rightarrow> ('k \<times> nat) list" where
  "tally [] m = m"
| "tally (k # ks) m = tally ks (AList.update k ((case map_of m k of Some n \<Rightarrow> n | None \<Rightarrow> 0) + 1) m)"

definition count_by :: "('v preq \<Rightarrow> 'k) \<Rightarrow> 'v pending \<Rightarrow> ('k \<times> nat) list" where
  "count_by key s = tally (map (key \<circ> snd) (by_request s)) []"

definition depths :: "'v pending \<Rightarrow> (string \<times> nat) list" where
  "depths s = count_by pr_project s"

section \<open>Reference\<close>

text \<open>The waiting requests in the order of their arrival, the rotation, and the next sequence number.\<close>

record 'v waiting =
  w_requests :: "'v preq list"
  w_rotation :: "string list"
  w_next :: nat

definition no_waiting :: "'v waiting" where
  "no_waiting = \<lparr>w_requests = [], w_rotation = [], w_next = 1\<rparr>"

definition ref_enqueue :: "string \<Rightarrow> string \<Rightarrow> 'v \<Rightarrow> lane option \<Rightarrow> 'v waiting \<Rightarrow> unit res \<times> 'v waiting" where
  "ref_enqueue rid project v l a =
     (if rid = [] \<or> project = [] then (Inl (ValueError ''pending request identity is invalid''), a)
      else if rid \<in> pr_id ` set (w_requests a) then (Inl (ValueError (''request is already pending: '' @ rid)), a)
      else (Inr (), \<lparr>w_requests = w_requests a @ [\<lparr>pr_id = rid, pr_project = project, pr_value = v, pr_lane = l, pr_sequence = w_next a\<rparr>],
        w_rotation = (if project \<in> set (w_rotation a) then w_rotation a else w_rotation a @ [project]), w_next = w_next a + 1\<rparr>))"

definition ref_take :: "string \<Rightarrow> bool \<Rightarrow> 'v waiting \<Rightarrow> 'v preq option \<times> 'v waiting" where
  "ref_take rid rot a = (case find (\<lambda>r. pr_id r = rid) (w_requests a) of
     None \<Rightarrow> (None, a)
   | Some r \<Rightarrow>
      (let ws = filter (\<lambda>x. pr_id x \<noteq> rid) (w_requests a); ro = filter (\<lambda>p. p \<noteq> pr_project r) (w_rotation a) in
       (Some r, a\<lparr>w_requests := ws, w_rotation :=
          (if pr_project r \<notin> pr_project ` set ws then ro else if rot then ro @ [pr_project r] else w_rotation a)\<rparr>)))"

text \<open>The first request of each lane of a project, oldest first.\<close>

fun lane_heads :: "lane list \<Rightarrow> 'v preq list \<Rightarrow> 'v preq list" where
  "lane_heads seen [] = []"
| "lane_heads seen (r # rs) = (if lane_key r \<in> set seen then lane_heads seen rs else r # lane_heads (lane_key r # seen) rs)"

definition ref_candidates :: "'v waiting \<Rightarrow> 'v preq list" where
  "ref_candidates a = concat (map (\<lambda>p. filter (\<lambda>r. pr_project r = p) (lane_heads [] (w_requests a))) (w_rotation a))"

section \<open>Calls and answers\<close>

datatype 'v pcall =
    Enqueue string string 'v "lane option"
  | Remove string
  | ClaimNext "'v preq \<Rightarrow> bool"
  | Claim string
  | Contains string
  | Get string
  | Candidates
  | Count "'v preq \<Rightarrow> bool"
  | Depths

datatype 'v panswer = PDone | PRequest "'v preq option" | PBool bool | PRequests "'v preq list" | PCount nat | PDepths "(string \<times> nat) list"

definition answer :: "('x \<Rightarrow> 'v panswer) \<Rightarrow> 'x res \<times> 's \<Rightarrow> 'v panswer res \<times> 's" where
  "answer f x = (map_sum id f (fst x), snd x)"

fun pq_call :: "'v pcall \<Rightarrow> 'v pending \<Rightarrow> 'v panswer res \<times> 'v pending" where
  "pq_call (Enqueue rid p v l) s = answer (\<lambda>_. PDone) (pq_enqueue rid p v l s)"
| "pq_call (Remove rid) s = answer PRequest (pq_remove rid s)"
| "pq_call (ClaimNext e) s = answer PRequest (claim_next e s)"
| "pq_call (Claim rid) s = answer PRequest (pq_claim rid s)"
| "pq_call (Contains rid) s = (Inr (PBool (pq_contains rid s)), s)"
| "pq_call (Get rid) s = (Inr (PRequest (pq_get rid s)), s)"
| "pq_call Candidates s = (Inr (PRequests (candidates s)), s)"
| "pq_call (Count p) s = (Inr (PCount (pq_count p s)), s)"
| "pq_call Depths s = (Inr (PDepths (depths s)), s)"

fun ref_call :: "'v pcall \<Rightarrow> 'v waiting \<Rightarrow> 'v panswer res \<times> 'v waiting" where
  "ref_call (Enqueue rid p v l) a = answer (\<lambda>_. PDone) (ref_enqueue rid p v l a)"
| "ref_call (Remove rid) a = (case ref_take rid False a of (x, b) \<Rightarrow> (Inr (PRequest x), b))"
| "ref_call (ClaimNext e) a = (case find e (ref_candidates a) of
     None \<Rightarrow> (Inr (PRequest None), a) | Some r \<Rightarrow> (Inr (PRequest (Some r)), snd (ref_take (pr_id r) True a)))"
| "ref_call (Claim rid) a = (case ref_take rid True a of (x, b) \<Rightarrow> (Inr (PRequest x), b))"
| "ref_call (Contains rid) a = (Inr (PBool (rid \<in> pr_id ` set (w_requests a))), a)"
| "ref_call (Get rid) a = (Inr (PRequest (find (\<lambda>r. pr_id r = rid) (w_requests a))), a)"
| "ref_call Candidates a = (Inr (PRequests (ref_candidates a)), a)"
| "ref_call (Count p) a = (Inr (PCount (length (filter p (w_requests a)))), a)"
| "ref_call Depths a = (Inr (PDepths (tally (map pr_project (w_requests a)) [])), a)"

section \<open>The relation\<close>

text \<open>\<open>f\<close> tells the project of a lane; the callers make lanes that name their project.\<close>

definition waiting_ok :: "(lane \<Rightarrow> string) \<Rightarrow> 'v waiting \<Rightarrow> bool" where
  "waiting_ok f a \<longleftrightarrow> distinct (map pr_id (w_requests a)) \<and> sorted_wrt (<) (map pr_sequence (w_requests a)) \<and>
     (\<forall>r \<in> set (w_requests a). pr_sequence r < w_next a \<and> f (lane_key r) = pr_project r) \<and>
     distinct (w_rotation a) \<and> set (w_rotation a) = pr_project ` set (w_requests a)"

definition lane_queue :: "'v preq list \<Rightarrow> lane \<Rightarrow> 'v preq list" where
  "lane_queue ws k = filter (\<lambda>r. lane_key r = k) ws"

definition project_lanes :: "'v preq list \<Rightarrow> string \<Rightarrow> lane set" where
  "project_lanes ws p = lane_key ` {r \<in> set ws. pr_project r = p}"

definition lanes_ok :: "'v preq list \<Rightarrow> (string \<Rightarrow> lane list option) \<Rightarrow> bool" where
  "lanes_ok ws m \<longleftrightarrow> (\<forall>p. case m p of None \<Rightarrow> project_lanes ws p = {} | Some ls \<Rightarrow> ls \<noteq> [] \<and> distinct ls \<and> set ls = project_lanes ws p)"

definition represents :: "(lane \<Rightarrow> string) \<Rightarrow> 'v pending \<Rightarrow> 'v waiting \<Rightarrow> bool" where
  "represents f s a \<longleftrightarrow> waiting_ok f a \<and> (\<forall>k. by_lane s k = (if lane_queue (w_requests a) k = [] then None else Some (lane_queue (w_requests a) k))) \<and>
     lanes_ok (w_requests a) (lanes_of_project s) \<and> by_request s = map (\<lambda>r. (pr_id r, r)) (w_requests a) \<and>
     rotation s = w_rotation a \<and> next_sequence s = w_next a"

lemma lanes_okD: "lanes_ok ws m \<Longrightarrow> m p = Some ls \<Longrightarrow> ls \<noteq> [] \<and> distinct ls \<and> set ls = project_lanes ws p"
  "lanes_ok ws m \<Longrightarrow> m p = None \<Longrightarrow> project_lanes ws p = {}"
  unfolding lanes_ok_def by (drule spec [of _ p], simp)+

lemma no_lanes: "project_lanes ws p = {} \<longleftrightarrow> p \<notin> pr_project ` set ws"
  by (auto simp: project_lanes_def)

lemma map_of_ids: "map_of (map (\<lambda>r. (pr_id r, r)) ws) rid = find (\<lambda>r. pr_id r = rid) ws"
  by (induction ws) auto

lemma find_filter: "find P xs = (case filter P xs of [] \<Rightarrow> None | x # _ \<Rightarrow> Some x)"
  by (induction xs) auto

lemma find_id_None: "find (\<lambda>r. pr_id r = rid) ws = None \<longleftrightarrow> rid \<notin> pr_id ` set ws"
  by (induction ws) auto

lemma find_id_Some: "find (\<lambda>r. pr_id r = rid) ws = Some r \<Longrightarrow> r \<in> set ws \<and> pr_id r = rid"
  by (auto simp: find_Some_iff)

section \<open>Heads\<close>

lemma lane_heads_iff: "r \<in> set (lane_heads seen ws) \<longleftrightarrow> lane_key r \<notin> set seen \<and> find (\<lambda>x. lane_key x = lane_key r) ws = Some r"
  by (induction ws arbitrary: seen) auto

lemma lane_heads_sorted: "sorted_wrt Q (map g ws) \<Longrightarrow> sorted_wrt Q (map g (lane_heads seen ws))"
proof (induction ws arbitrary: seen)
  case (Cons r ws)
  have "set (lane_heads seen' ws) \<subseteq> set ws" for seen' by (auto simp: lane_heads_iff find_Some_iff)
  then show ?case using Cons by (auto simp: subset_iff)
qed simp

lemma heads_lane: "lane_queue ws k = r # rs \<Longrightarrow> lane_key r = k \<and> r \<in> set ws"
  by (auto simp: lane_queue_def filter_eq_Cons_iff)

lemma sorted_strict: "sorted_wrt (<) (map (g :: 'x \<Rightarrow> nat) xs) \<Longrightarrow> sorted (map g xs) \<and> distinct xs \<and> inj_on g (set xs)"
  by (metis distinct_map strict_sorted_iff)

lemma project_heads_eq:
  assumes "represents f s a"
  shows "project_heads s p = filter (\<lambda>r. pr_project r = p) (lane_heads [] (w_requests a))"
proof -
  let ?ws = "w_requests a"
  let ?hs = "List.map_filter (\<lambda>l. case by_lane s l of Some (r # _) \<Rightarrow> Some r | _ \<Rightarrow> None) (case lanes_of_project s p of Some ls \<Rightarrow> ls | None \<Rightarrow> [])"
  let ?ls = "case lanes_of_project s p of Some ls \<Rightarrow> ls | None \<Rightarrow> []"
  let ?ys = "filter (\<lambda>r. pr_project r = p) (lane_heads [] ?ws)"
  have bl: "by_lane s k = (if lane_queue ?ws k = [] then None else Some (lane_queue ?ws k))" for k
    using assms by (simp add: represents_def)
  have ok: "waiting_ok f a" using assms by (simp add: represents_def)
  have ls: "distinct ?ls \<and> set ?ls = project_lanes ?ws p"
  proof -
    have "case lanes_of_project s p of None \<Rightarrow> project_lanes ?ws p = {} | Some ls \<Rightarrow> ls \<noteq> [] \<and> distinct ls \<and> set ls = project_lanes ?ws p"
      using assms unfolding represents_def lanes_ok_def by blast
    then show ?thesis by (cases "lanes_of_project s p") simp_all
  qed
  have q: "lane_queue ?ws l \<noteq> []" if "l \<in> set ?ls" for l using that ls by (auto simp: project_lanes_def lane_queue_def filter_empty_conv)
  have hs: "?hs = map (\<lambda>l. hd (lane_queue ?ws l)) ?ls"
    unfolding map_filter_def using q by (auto simp: bl hd_def split: list.split option.split intro!: map_cong)
  have pl: "pr_project r = f (lane_key r)" if "r \<in> set ?ws" for r using ok that by (simp add: waiting_ok_def)
  have hd: "lane_key (hd (lane_queue ?ws l)) = l \<and> hd (lane_queue ?ws l) \<in> set ?ws" if "l \<in> set ?ls" for l
    using q [OF that] heads_lane by (cases "lane_queue ?ws l") fastforce+
  have st: "set ?hs = set ?ys"
  proof (intro set_eqI iffI)
    fix r assume "r \<in> set ?hs"
    then obtain l where l: "l \<in> set ?ls" "r = hd (lane_queue ?ws l)" unfolding hs by auto
    have k: "lane_key r = l" "r \<in> set ?ws" using hd [OF l(1)] l(2) by auto
    have "find (\<lambda>x. lane_key x = lane_key r) ?ws = Some r"
      using q [OF l(1)] l(2) k(1) unfolding find_filter lane_queue_def by (auto split: list.split)
    moreover have "pr_project r = p" using l(1) k pl ls by (auto simp: project_lanes_def)
    ultimately show "r \<in> set ?ys" by (simp add: lane_heads_iff)
  next
    fix r assume "r \<in> set ?ys"
    then have r: "find (\<lambda>x. lane_key x = lane_key r) ?ws = Some r" "pr_project r = p" by (auto simp: lane_heads_iff)
    have "r \<in> set ?ws" using r(1) by (auto simp: find_Some_iff)
    then have "lane_key r \<in> set ?ls" using ls r(2) by (auto simp: project_lanes_def)
    moreover have "hd (lane_queue ?ws (lane_key r)) = r" using r(1) by (auto simp: find_filter lane_queue_def split: list.split_asm)
    ultimately show "r \<in> set ?hs" unfolding hs set_map by (intro image_eqI [of _ _ "lane_key r"]) simp_all
  qed
  have "inj_on (\<lambda>l. hd (lane_queue ?ws l)) (set ?ls)"
  proof (rule inj_onI)
    fix x y
    assume a: "x \<in> set ?ls" "y \<in> set ?ls" "hd (lane_queue ?ws x) = hd (lane_queue ?ws y)"
    show "x = y" using hd [OF a(1)] hd [OF a(2)] a(3) by metis
  qed
  then have dh: "distinct ?hs" unfolding hs using ls by (simp only: distinct_map simp_thms)
  have sw: "sorted_wrt (<) (map pr_sequence (lane_heads [] ?ws))" using ok by (simp add: waiting_ok_def lane_heads_sorted)
  have sy: "sorted (map pr_sequence ?ys)" "distinct ?ys" "inj_on pr_sequence (set ?ys)"
    using sorted_strict [OF sw] by (auto simp: sorted_filter intro: inj_on_subset)
  have "mset ?hs = mset ?ys" using st dh sy(2) set_eq_iff_mset_eq_distinct by blast
  then show ?thesis unfolding project_heads_def using sort_key_inj_key_eq sy(1,3) st by metis
qed

lemma candidates_eq:
  assumes "represents f s a"
  shows "candidates s = ref_candidates a"
proof -
  have "rotation s = w_rotation a" using assms by (simp add: represents_def)
  then show ?thesis unfolding candidates_def ref_candidates_def project_heads_eq [OF assms] by simp
qed

section \<open>The operations\<close>

text \<open>Removing one request from the lists the structures represent.\<close>

lemma remove_eq_filter:
  assumes "distinct (map pr_id ws)" "r \<in> set ws"
  shows "remove1 r (filter P ws) = filter P (filter (\<lambda>x. pr_id x \<noteq> pr_id r) ws)"
proof -
  have "remove1 r (filter P ws) = filter (\<lambda>x. x \<noteq> r) (filter P ws)"
    using assms(1) by (simp add: distinct_map distinct_remove1_removeAll removeAll_filter_not_eq eq_commute)
  also have "\<dots> = filter P (filter (\<lambda>x. pr_id x \<noteq> pr_id r) ws)"
    using assms by (auto simp: distinct_map inj_on_def intro!: filter_cong)
  finally show ?thesis .
qed

lemma lanes_ok_remove:
  assumes ok: "lanes_ok ws m" and d: "distinct (map pr_id ws)" and r: "r \<in> set ws" and f: "\<forall>x \<in> set ws. f (lane_key x) = pr_project x"
    and ws': "ws' = filter (\<lambda>x. pr_id x \<noteq> pr_id r) ws"
  shows "lane_queue ws' (lane_key r) \<noteq> [] \<Longrightarrow> lanes_ok ws' m"
    and "lane_queue ws' (lane_key r) = [] \<Longrightarrow> m (pr_project r) = Some ls \<Longrightarrow> ls' = remove1 (lane_key r) ls \<Longrightarrow>
      lanes_ok ws' (m(pr_project r := (if ls' = [] then None else Some ls')))"
proof -
  have u: "x = r" if "x \<in> set ws" "pr_id x = pr_id r" for x using d r that by (auto simp: distinct_map inj_on_def)
  have o: "project_lanes ws' p = project_lanes ws p" if "p \<noteq> pr_project r" for p
    using that u by (auto simp: project_lanes_def ws')
  show "lanes_ok ws' m" if ne: "lane_queue ws' (lane_key r) \<noteq> []"
  proof -
    obtain y where y: "y \<in> set ws'" "lane_key y = lane_key r" using ne by (auto simp: lane_queue_def filter_empty_conv)
    then have "pr_project y = pr_project r" using f r by (metis filter_is_subset subsetD ws')
    then have "project_lanes ws' (pr_project r) = project_lanes ws (pr_project r)" using y u unfolding project_lanes_def ws' by (auto simp: image_iff) metis
    then have eq: "project_lanes ws' = project_lanes ws" using o by (intro ext) metis
    show ?thesis using ok unfolding lanes_ok_def eq .
  qed
  assume q: "lane_queue ws' (lane_key r) = []" and ls: "m (pr_project r) = Some ls" "ls' = remove1 (lane_key r) ls"
  have "project_lanes ws' (pr_project r) = project_lanes ws (pr_project r) - {lane_key r}"
    using q u by (auto simp: project_lanes_def ws' lane_queue_def filter_empty_conv)
  moreover have "ls \<noteq> [] \<and> distinct ls \<and> set ls = project_lanes ws (pr_project r)" by (rule lanes_okD(1) [where m = m]) (fact ok, fact ls(1))
  ultimately have "distinct ls' \<and> set ls' = project_lanes ws' (pr_project r)" using ls(2) by simp
  then show "lanes_ok ws' (m(pr_project r := (if ls' = [] then None else Some ls')))"
    using lanes_okD [OF ok] o by (auto simp: lanes_ok_def split: option.split)
qed

lemma remove_represents:
  assumes "represents f s a"
  shows "fst (remove_locked rid rot s) = Inr (fst (ref_take rid rot a)) \<and> represents f (snd (remove_locked rid rot s)) (snd (ref_take rid rot a))"
proof (cases "find (\<lambda>r. pr_id r = rid) (w_requests a)")
  case None
  then show ?thesis using assms by (simp add: remove_locked_def ref_take_def represents_def map_of_ids)
next
  case (Some r)
  let ?ws = "w_requests a" and ?ws' = "filter (\<lambda>x. pr_id x \<noteq> rid) (w_requests a)" and ?k = "lane_key r" and ?p = "pr_project r"
  have r: "r \<in> set ?ws" "pr_id r = rid" using find_id_Some [OF Some] by auto
  have R: "waiting_ok f a" "\<And>k. by_lane s k = (if lane_queue ?ws k = [] then None else Some (lane_queue ?ws k))"
    "lanes_ok ?ws (lanes_of_project s)" "by_request s = map (\<lambda>r. (pr_id r, r)) ?ws" "rotation s = w_rotation a" "next_sequence s = w_next a"
    using assms by (simp_all add: represents_def)
  have W: "distinct (map pr_id ?ws)" "\<forall>x \<in> set ?ws. f (lane_key x) = pr_project x" "distinct (w_rotation a)" "set (w_rotation a) = pr_project ` set ?ws"
    using R(1) by (simp_all add: waiting_ok_def)
  have stay: "p \<in> pr_project ` set ?ws'" if p: "p \<in> set (w_rotation a)" "p \<noteq> ?p" for p
  proof -
    obtain x where x: "x \<in> set ?ws" "pr_project x = p" using p(1) W(4) by auto
    then have "pr_id x \<noteq> rid" using W(1) r p(2) by (auto simp: distinct_map inj_on_def)
    then show ?thesis using x by (intro image_eqI [of _ _ x]) simp_all
  qed
  have m: "map_of (by_request s) rid = Some r" using Some by (simp add: R(4) map_of_ids)
  have rq: "lane_queue ?ws ?k \<noteq> []" "r \<in> set (lane_queue ?ws ?k)" using r(1) by (auto simp: lane_queue_def filter_empty_conv)
  have rm: "remove1 r (lane_queue ?ws ?k) = lane_queue ?ws' ?k" using remove_eq_filter [OF W(1) r(1)] r(2) by (simp add: lane_queue_def)
  have other: "lane_queue ?ws' k = lane_queue ?ws k" if "k \<noteq> ?k" for k
    using that W(1) r by (auto simp: lane_queue_def distinct_map inj_on_def intro!: filter_cong)
  obtain ls where ls: "lanes_of_project s ?p = Some ls" "distinct ls" "set ls = project_lanes ?ws ?p"
    using R(3) r(1) unfolding lanes_ok_def by (cases "lanes_of_project s ?p") (auto simp: project_lanes_def dest!: spec [of _ ?p])
  have kl: "?k \<in> set ls" using ls(3) r(1) by (auto simp: project_lanes_def)
  have pr: "?p \<in> set (w_rotation a)" using W(4) r(1) by auto
  have ro: "remove1 ?p (w_rotation a) = filter (\<lambda>p. p \<noteq> ?p) (w_rotation a)"
    using W(3) by (simp add: distinct_remove1_removeAll removeAll_filter_not_eq eq_commute)
  have br: "AList.delete rid (by_request s) = map (\<lambda>r. (pr_id r, r)) ?ws'" by (simp add: R(4) AList.delete_eq filter_map o_def case_prod_beta eq_commute)
  let ?s1 = "s\<lparr>by_request := AList.delete rid (by_request s)\<rparr>"
  have lo: "lane_queue ?ws' ?k \<noteq> [] \<Longrightarrow> lanes_ok ?ws' (lanes_of_project s)"
    "lane_queue ?ws' ?k = [] \<Longrightarrow> lanes_ok ?ws' ((lanes_of_project s)(?p := (if remove1 ?k ls = [] then None else Some (remove1 ?k ls))))"
    using lanes_ok_remove [OF R(3) W(1) r(1) W(2), of ?ws'] ls(1) r(2) by simp_all
  have gone: "?p \<notin> pr_project ` set ?ws' \<longleftrightarrow> lane_queue ?ws' ?k = [] \<and> remove1 ?k ls = []"
  proof (cases "lane_queue ?ws' ?k = []")
    case True
    note l' = lo(2) [OF True]
    have "remove1 ?k ls = [] \<longleftrightarrow> project_lanes ?ws' ?p = {}"
      using lanes_okD [OF l', of ?p] by (cases "remove1 ?k ls = []") auto
    then show ?thesis using True unfolding no_lanes by simp
  next
    case False
    then obtain y where "y \<in> set ?ws'" "lane_key y = ?k" by (auto simp: lane_queue_def filter_empty_conv)
    then have "pr_project y = ?p" using W(2) r(1) by (metis filter_is_subset subsetD)
    then have "?p \<in> pr_project ` set ?ws'" using \<open>y \<in> set ?ws'\<close> by (metis imageI)
    then show ?thesis using False by simp
  qed
  have kept: "waiting_ok f (a\<lparr>w_requests := ?ws', w_rotation := ro'\<rparr>)" if "distinct ro'" "set ro' = pr_project ` set ?ws'" for ro'
    using R(1) that by (auto simp: waiting_ok_def distinct_map sorted_wrt_map intro: inj_on_subset sorted_wrt_filter)
  have keep2: "waiting_ok f (a\<lparr>w_requests := ?ws', w_rotation := w_rotation a\<rparr>) \<and>
      waiting_ok f (a\<lparr>w_requests := ?ws', w_rotation := filter (\<lambda>p. p \<noteq> ?p) (w_rotation a) @ [?p]\<rparr>)" if "?p \<in> pr_project ` set ?ws'"
  proof -
    have "set ?ws' \<subseteq> set ?ws" by auto
    then have e: "set (w_rotation a) = pr_project ` set ?ws'" using stay that W(4) by blast
    have "set (filter (\<lambda>p. p \<noteq> ?p) (w_rotation a) @ [?p]) = set (w_rotation a)" using pr by auto
    then show ?thesis using kept [OF W(3) e] kept [of "filter (\<lambda>p. p \<noteq> ?p) (w_rotation a) @ [?p]"] W(3) e by simp
  qed
  show ?thesis
  proof (cases "lane_queue ?ws' ?k = []")
    case q: True
    show ?thesis
    proof (cases "remove1 ?k ls = []")
      case True
      then have g: "?p \<notin> pr_project ` set ?ws'" using gone q by simp
      have "filter (\<lambda>p. p \<noteq> ?p) (w_rotation a) = filter (\<lambda>p. p \<in> pr_project ` set ?ws') (w_rotation a)"
        using g stay by (intro filter_cong) blast+
      then have "waiting_ok f (a\<lparr>w_requests := ?ws', w_rotation := filter (\<lambda>p. p \<noteq> ?p) (w_rotation a)\<rparr>)" using W(3,4) by (intro kept) auto
      then show ?thesis using q True g lo(2) [OF q] other
        by (simp add: remove_locked_def m Let_def R(2,5,6) rq list_remove_def rm drop_lane_def ls(1) kl pr ro br ref_take_def Some represents_def rotate_project_def)
    next
      case False
      then obtain l ls' where l: "remove1 ?k ls = l # ls'" by (cases "remove1 ?k ls") auto
      have g: "?p \<in> pr_project ` set ?ws'" using gone False by simp
      then show ?thesis using keep2 q l lo(2) [OF q] other
        by (simp add: remove_locked_def m Let_def R(2,5,6) rq list_remove_def rm drop_lane_def ls(1) kl pr ro br ref_take_def Some represents_def rotate_project_def)
    qed
  next
    case q: False
    then have g: "?p \<in> pr_project ` set ?ws'" using gone by simp
    then show ?thesis using keep2 q lo(1) [OF q] other
      by (simp add: remove_locked_def m Let_def R(2,5,6) rq list_remove_def rm pr ro br ref_take_def Some represents_def rotate_project_def)
  qed
qed

lemma enqueue_represents:
  assumes "represents f s a" "f (case l of None \<Rightarrow> LName p | Some k \<Rightarrow> k) = p"
  shows "fst (pq_enqueue rid p v l s) = fst (ref_enqueue rid p v l a) \<and> represents f (snd (pq_enqueue rid p v l s)) (snd (ref_enqueue rid p v l a))"
proof -
  let ?ws = "w_requests a" and ?r = "\<lparr>pr_id = rid, pr_project = p, pr_value = v, pr_lane = l, pr_sequence = w_next a\<rparr>"
  have R: "waiting_ok f a" "\<And>k. by_lane s k = (if lane_queue ?ws k = [] then None else Some (lane_queue ?ws k))"
    "lanes_ok ?ws (lanes_of_project s)" "by_request s = map (\<lambda>r. (pr_id r, r)) ?ws" "rotation s = w_rotation a" "next_sequence s = w_next a"
    using assms(1) by (simp_all add: represents_def)
  have m: "map_of (by_request s) rid = None \<longleftrightarrow> rid \<notin> pr_id ` set ?ws" by (simp add: R(4) map_of_ids find_id_None)
  show ?thesis
  proof (cases "rid = [] \<or> p = [] \<or> rid \<in> pr_id ` set ?ws")
    case True
    then show ?thesis using assms(1) m by (auto simp: pq_enqueue_def ref_enqueue_def)
  next
    case False
    let ?k = "lane_key ?r" and ?a = "\<lparr>w_requests = ?ws @ [?r], w_rotation = (if p \<in> set (w_rotation a) then w_rotation a else w_rotation a @ [p]), w_next = w_next a + 1\<rparr>"
    have fk: "f ?k = p" using assms(2) by (cases l) (simp_all add: lane_key_def)
    have W: "waiting_ok f ?a" using R(1) False fk by (auto simp: waiting_ok_def sorted_wrt_append less_Suc_eq)
    have lq: "lane_queue (?ws @ [?r]) k = lane_queue ?ws k @ (if k = ?k then [?r] else [])" for k by (auto simp: lane_queue_def)
    have pl: "project_lanes (?ws @ [?r]) q = project_lanes ?ws q \<union> (if q = p then {?k} else {})" for q by (auto simp: project_lanes_def)
    have new: "?k \<in> project_lanes ?ws p \<longleftrightarrow> lane_queue ?ws ?k \<noteq> []"
    proof
      assume "lane_queue ?ws ?k \<noteq> []"
      then obtain x where x: "x \<in> set ?ws" "lane_key x = ?k" by (auto simp: lane_queue_def filter_empty_conv)
      then have "pr_project x = p" using R(1) fk unfolding waiting_ok_def by metis
      then show "?k \<in> project_lanes ?ws p" using x unfolding project_lanes_def by (intro image_eqI [of _ _ x]) simp_all
    qed (auto simp: project_lanes_def lane_queue_def filter_empty_conv)
    have "lanes_ok (?ws @ [?r]) (lanes_of_project (enqueue_state ?r s))"
    proof (cases "lane_queue ?ws ?k = []")
      case True
      then have e: "lanes_of_project (enqueue_state ?r s) = (lanes_of_project s)(p \<mapsto> (case lanes_of_project s p of None \<Rightarrow> [] | Some ls \<Rightarrow> ls) @ [?k])"
        by (simp add: enqueue_state_def Let_def R(2))
      show ?thesis unfolding e using lanes_okD [OF R(3)] new True by (auto simp: lanes_ok_def pl split: option.split)
    next
      case q: False
      then have e: "lanes_of_project (enqueue_state ?r s) = lanes_of_project s" by (simp add: enqueue_state_def Let_def R(2))
      have "project_lanes (?ws @ [?r]) = project_lanes ?ws" using new q by (intro ext) (auto simp: pl)
      then show ?thesis unfolding e using R(3) by (simp add: lanes_ok_def cong: option.case_cong)
    qed
    then have "represents f (enqueue_state ?r s) ?a"
      using W by (auto simp: represents_def lq) (auto simp: enqueue_state_def Let_def R split: option.split)
    then show ?thesis using False m by (simp add: pq_enqueue_def ref_enqueue_def R(6))
  qed
qed

section \<open>Equivalence\<close>

definition lanes_named :: "(lane \<Rightarrow> string) \<Rightarrow> 'v pcall \<Rightarrow> bool" where
  "lanes_named f c \<longleftrightarrow> (case c of Enqueue rid p v l \<Rightarrow> f (case l of None \<Rightarrow> LName p | Some k \<Rightarrow> k) = p | _ \<Rightarrow> True)"

lemma candidate_waiting: "r \<in> set (ref_candidates a) \<Longrightarrow> r \<in> set (w_requests a)"
  by (auto simp: ref_candidates_def lane_heads_iff find_Some_iff)

lemma claim_represents:
  assumes "represents f s a"
  shows "fst (pq_call (ClaimNext e) s) = fst (ref_call (ClaimNext e) a) \<and> represents f (snd (pq_call (ClaimNext e) s)) (snd (ref_call (ClaimNext e) a))"
proof (cases "find e (ref_candidates a)")
  case None
  then show ?thesis using assms by (simp add: claim_next_def candidates_eq [OF assms] answer_def)
next
  case (Some r)
  obtain x t where x: "remove_locked (pr_id r) True s = (x, t)" by fastforce
  have "x = Inr (fst (ref_take (pr_id r) True a))" "represents f t (snd (ref_take (pr_id r) True a))"
    using remove_represents [OF assms, of "pr_id r" True] x by simp_all
  then show ?thesis using Some x by (simp add: claim_next_def candidates_eq [OF assms] answer_def)
qed

lemma call_represents:
  assumes r: "represents f s a" and c: "lanes_named f c"
  shows "fst (pq_call c s) = fst (ref_call c a) \<and> represents f (snd (pq_call c s)) (snd (ref_call c a))"
proof -
  have b: "by_request s = map (\<lambda>r. (pr_id r, r)) (w_requests a)" using r by (simp add: represents_def)
  show "fst (pq_call c s) = fst (ref_call c a) \<and> represents f (snd (pq_call c s)) (snd (ref_call c a))"
  proof (cases c)
    case (Enqueue rid p v l)
    then show ?thesis using enqueue_represents [OF r, where l = l and p = p and rid = rid and v = v] c by (simp add: answer_def lanes_named_def)
  next
    case (Remove rid)
    then show ?thesis using remove_represents [OF r, of rid False] by (simp add: answer_def pq_remove_def case_prod_beta)
  next
    case (Claim rid)
    then show ?thesis using remove_represents [OF r, of rid True] by (simp add: answer_def pq_claim_def case_prod_beta)
  next
    case (ClaimNext e)
    then show ?thesis using claim_represents [OF r] by simp
  next
    case Candidates
    then show ?thesis using r by (simp add: candidates_eq)
  qed (use r in \<open>simp_all add: b pq_contains_def pq_get_def map_of_ids find_id_None pq_count_def depths_def count_by_def o_def del: not_None_eq\<close>)
qed

interpretation pending: same_answers pq_call ref_call "represents f" "lanes_named f" for f
  by unfold_locales (rule call_represents)

lemma empty_represents: "represents f empty_pending no_waiting"
  by (simp add: represents_def empty_pending_def no_waiting_def waiting_ok_def lane_queue_def lanes_ok_def project_lanes_def)

text \<open>C25: Whatever calls are made in whatever order, the four structures of the pending authority answer as the plain
  list of waiting requests does: candidates are the oldest request of each lane, projects in rotation; removals,
  claims, counts and errors agree; and no call ever raises because the structures disagree with one another.\<close>

theorem pending_equivalent:
  assumes "list_all (lanes_named f) cs"
  shows "fst (run_calls pq_call cs empty_pending) = fst (run_calls ref_call cs no_waiting)"
  using pending.run [OF assms empty_represents] by blast

theorem pending_equivalent_witness:
  "fst (run_calls pq_call [Enqueue ''r1'' ''p'' True (Some (LTuple [''a'', ''p''])), Enqueue ''r2'' ''q'' True None, ClaimNext pr_value, Candidates] empty_pending) =
   fst (run_calls ref_call [Enqueue ''r1'' ''p'' True (Some (LTuple [''a'', ''p''])), Enqueue ''r2'' ''q'' True None, ClaimNext pr_value, Candidates] no_waiting)"
  by (rule pending_equivalent [where f = "\<lambda>l. case l of LName p \<Rightarrow> p | LTuple xs \<Rightarrow> last xs"]) (simp add: lanes_named_def)

section \<open>Fairness\<close>

lemma find_two: "find P (xs @ ys) = (case find P xs of None \<Rightarrow> find P ys | Some x \<Rightarrow> Some x)"
  by (induction xs) auto

lemma find_Some_mem: "find P xs = Some x \<Longrightarrow> x \<in> set xs \<and> P x"
  by (auto simp: find_Some_iff)

lemma claim_order:
  assumes "w_rotation a = xs @ pr_project h # ys" "h \<in> set (lane_heads [] (w_requests a))" "e h"
  obtains c where "find e (ref_candidates a) = Some c" "pr_project c \<in> set (xs @ [pr_project h])" "c \<in> set (lane_heads [] (w_requests a))"
proof -
  let ?H = "\<lambda>p. filter (\<lambda>r. pr_project r = p) (lane_heads [] (w_requests a))" and ?pre = "concat (map (\<lambda>p. filter (\<lambda>r. pr_project r = p) (lane_heads [] (w_requests a))) (xs @ [pr_project h]))"
  have "h \<in> set ?pre" using assms(2) by simp
  then obtain c where c: "find e ?pre = Some c" using assms(3) by (cases "find e ?pre") (auto simp: find_None_iff)
  have "ref_candidates a = ?pre @ concat (map ?H ys)" by (simp add: ref_candidates_def assms(1))
  then have "find e (ref_candidates a) = Some c" using c by (simp only: find_two option.case)
  moreover have "c \<in> set ?pre" using find_Some_mem [OF c] by blast
  ultimately show thesis by (intro that [of c]) auto
qed

lemma head_stays:
  assumes "waiting_ok f a" "h \<in> set (lane_heads [] (w_requests a))" "c \<in> set (w_requests a)" "pr_project c \<noteq> pr_project h"
  shows "h \<in> set (lane_heads [] (filter (\<lambda>x. pr_id x \<noteq> pr_id c) (w_requests a)))"
proof -
  let ?ws = "w_requests a"
  have h: "find (\<lambda>x. lane_key x = lane_key h) ?ws = Some h" "h \<in> set ?ws" using assms(2) find_Some_mem by (fastforce simp: lane_heads_iff)+
  have "lane_key c \<noteq> lane_key h" using assms(1,3,4) h(2) unfolding waiting_ok_def by metis
  then have "lane_queue (filter (\<lambda>x. pr_id x \<noteq> pr_id c) ?ws) (lane_key h) = lane_queue ?ws (lane_key h)"
    using assms(1,3) by (auto simp: lane_queue_def waiting_ok_def distinct_map inj_on_def intro!: filter_cong)
  then show ?thesis using h(1) by (simp add: lane_heads_iff find_filter lane_queue_def)
qed

lemma ref_fair:
  "represents f s a \<Longrightarrow> h \<in> set (lane_heads [] (w_requests a)) \<Longrightarrow> w_rotation a = xs @ pr_project h # ys \<Longrightarrow> length xs < length es \<Longrightarrow> \<forall>e \<in> set es. e h \<Longrightarrow>
   \<exists>r. Inr (PRequest (Some r)) \<in> set (fst (run_calls ref_call (map ClaimNext es) a)) \<and> pr_project r = pr_project h"
proof (induction es arbitrary: s a xs ys)
  case (Cons e es)
  let ?q = "pr_project h"
  have W: "waiting_ok f a" using Cons.prems(1) by (simp add: represents_def)
  obtain c where c: "find e (ref_candidates a) = Some c" "pr_project c \<in> set (xs @ [?q])" "c \<in> set (lane_heads [] (w_requests a))"
    using claim_order [OF Cons.prems(3,2)] Cons.prems(5) by auto
  let ?b = "snd (ref_take (pr_id c) True a)"
  have st: "ref_call (ClaimNext e) a = (Inr (PRequest (Some c)), ?b)" by (simp add: c(1))
  show ?case
  proof (cases "pr_project c = ?q")
    case True
    then show ?thesis using st by (auto simp: case_prod_beta)
  next
    case ne: False
    have cw: "c \<in> set (w_requests a)" using c(3) find_Some_mem by (fastforce simp: lane_heads_iff)
    have fc: "find (\<lambda>r. pr_id r = pr_id c) (w_requests a) = Some c"
      using cw W by (cases "find (\<lambda>r. pr_id r = pr_id c) (w_requests a)") (auto simp: find_id_None waiting_ok_def distinct_map inj_on_def dest!: find_id_Some)
    have b: "w_requests ?b = filter (\<lambda>x. pr_id x \<noteq> pr_id c) (w_requests a)"
      "\<exists>zs. w_rotation ?b = filter (\<lambda>p. p \<noteq> pr_project c) (w_rotation a) @ zs" by (simp_all add: ref_take_def fc Let_def)
    then obtain zs where ro: "w_rotation ?b = filter (\<lambda>p. p \<noteq> pr_project c) xs @ ?q # (filter (\<lambda>p. p \<noteq> pr_project c) ys @ zs)"
      using ne Cons.prems(3) by auto
    have "length (filter (\<lambda>p. p \<noteq> pr_project c) xs) < length xs" using c(2) ne by (intro length_filter_less [of "pr_project c"]) auto
    moreover have "represents f (snd (pq_call (ClaimNext e) s)) ?b" using claim_represents [OF Cons.prems(1), of e] st by simp
    ultimately have "\<exists>r. Inr (PRequest (Some r)) \<in> set (fst (run_calls ref_call (map ClaimNext es) ?b)) \<and> pr_project r = ?q"
      using head_stays [OF W Cons.prems(2) cw ne] Cons.prems(4,5) by (intro Cons.IH [OF _ _ ro]) (auto simp: b(1))
    then show ?thesis by (auto simp: c(1) case_prod_beta)
  qed
qed simp

text \<open>C26: Rotation is fair.  If a project has an eligible request at the head of one of its lanes and \<open>k\<close> projects
  are before it in the rotation, then among any \<open>k + 1\<close> claims that find this request eligible one is served to
  the project, whatever else is eligible and however many requests the other projects have.\<close>

theorem claim_next_fair:
  assumes "list_all (lanes_named f) cs" "s = snd (run_calls pq_call cs empty_pending)"
    "h \<in> set (candidates s)" "rotation s = xs @ pr_project h # ys" "length xs < length es" "\<forall>e \<in> set es. e h"
  shows "\<exists>r. Inr (PRequest (Some r)) \<in> set (fst (run_calls pq_call (map ClaimNext es) s)) \<and> pr_project r = pr_project h"
proof -
  let ?a = "snd (run_calls ref_call cs no_waiting)"
  have r: "represents f s ?a" using pending.run [OF assms(1) empty_represents] assms(2) by simp
  have "h \<in> set (lane_heads [] (w_requests ?a))" using assms(3) unfolding candidates_eq [OF r] by (auto simp: ref_candidates_def)
  moreover have "w_rotation ?a = xs @ pr_project h # ys" using r assms(4) by (simp add: represents_def)
  moreover have "fst (run_calls pq_call (map ClaimNext es) s) = fst (run_calls ref_call (map ClaimNext es) ?a)"
    using pending.run [OF _ r, of "map ClaimNext es"] by (simp add: list_all_iff lanes_named_def)
  ultimately show ?thesis using ref_fair [OF r _ _ assms(5,6)] by simp
qed

definition queued_calls0 :: "bool pcall list" where
  "queued_calls0 = [Enqueue ''r1'' ''p'' True None, Enqueue ''r2'' ''p'' True None, Enqueue ''r3'' ''q'' True None]"

theorem claim_next_fair_witness:
  "\<exists>r. Inr (PRequest (Some r)) \<in> set (fst (run_calls pq_call (map ClaimNext [pr_value, pr_value]) (snd (run_calls pq_call queued_calls0 empty_pending)))) \<and>
    pr_project r = ''q''"
proof -
  let ?h = "\<lparr>pr_id = ''r3'', pr_project = ''q'', pr_value = True, pr_lane = None, pr_sequence = 3\<rparr>"
  have "list_all (lanes_named (\<lambda>l. case l of LName p \<Rightarrow> p | LTuple xs \<Rightarrow> last xs)) queued_calls0" by (simp add: queued_calls0_def lanes_named_def)
  moreover have "?h \<in> set (candidates (snd (run_calls pq_call queued_calls0 empty_pending)))" by code_simp
  moreover have "rotation (snd (run_calls pq_call queued_calls0 empty_pending)) = [''p''] @ pr_project ?h # []" by code_simp
  ultimately show ?thesis using claim_next_fair [where h = ?h and es = "[pr_value, pr_value]" and xs = "[''p'']" and ys = "[]", OF _ refl] by simp
qed

end
