(* ===== verification/Spec2Isabelle.thy ===== *)
theory Spec2Isabelle
  imports Cancel_Results Activity_Results Node_System Admission_System Recovery_Journal Operation_System
    Expiry_Results Pending_Queue
begin

text \<open>
  Verification of the durable core of the AUDiaGentic agent gateway
  (\<open>src/src/audiagentic/components/agents/gateway\<close>, with the parts of \<open>foundation\<close> it rests on).

  \<^bold>\<open>The program.\<close>  Clients admit requests to the gateway; a service process claims them, starts attempts
  in workers or on nodes, records activity and receipts, and settles them.  Everything that must survive
  a restart is a JSON file that is read, changed and written under a lock: the request records with
  their timeline, the work index, the idempotency index and the enqueue counter, the response files,
  the recovery journal, the management operations, the provider sessions and their binding index.
  Many processes call these operations
  concurrently; the fences (owner epoch, worker, attempt epoch, revision, claim generation) decide who
  may write.  That is what this development models: every operation is a function from the durable
  state to a result (a value, or the exception raised) and the new durable state, an interleaving is a
  sequence of operations, and a property over histories is proved by induction over such sequences.

  \<^bold>\<open>Theories and sources.\<close>  (File names are relative to the gateway unless they start with foundation.)

    \<^item> \<open>Py_Prelude\<close>: JSON values, Python dictionaries as association lists in insertion order, the
      operations of Python the sources use, exceptions as the datatype \<open>py_error\<close> and results
      \<open>py_error + 'a\<close> with \<open>rbind\<close>.
    \<^item> \<open>Workflow\<close>: \<open>foundation/workflow/transition_engine.py\<close>, \<open>transitions.py\<close>, the shipped
      \<open>components/agents/workflows.yaml\<close>.  The transition tables are computed from the YAML data.
    \<^item> \<open>Errors\<close>: \<open>foundation/contracts/errors.py\<close>; \<open>Diagnostics\<close>: \<open>diagnostics.py\<close>;
      \<open>Error_Projection\<close>: what of an error reaches a record (\<open>store/_records.py\<close>, \<open>store/_shared.py\<close>).
    \<^item> \<open>Node_Contracts\<close>: \<open>node/contracts.py\<close>, \<open>node/preparation.py\<close>, \<open>node/admission_contract.py\<close>.
    \<^item> \<open>Work_Index\<close>: \<open>queue/work_index.py\<close>, state \<open>ixdir\<close> (one directory and its quarantine).
    \<^item> \<open>Request_Records\<close>: record files of \<open>store/_records.py\<close>; the state \<open>gw\<close> holds the request files, the
      timeline, the work indexes and the active-work files.
    \<^item> \<open>Lifecycle\<close>: the abstract contract of a request (\<open>lc_step\<close>).  \<open>Request_Store\<close>: the locked
      read-modify-write every operation shares, and the locale \<open>lifecycle_op\<close>: a body that steps along
      the contract on records gives an operation that does so on the store.
    \<^item> \<open>Request_Transitions\<close>, \<open>Request_Ownership\<close>, \<open>Request_Activity\<close>, \<open>Node_Dispatch\<close>: the operations of
      \<open>store/_transitions.py\<close>, each interpreted as a \<open>lifecycle_op\<close>.  \<open>Store_System\<close> is the
      relation of all of them; \<open>Store_Fences\<close>, \<open>Store_Results\<close>, \<open>Cancel_Results\<close>, \<open>Activity_Results\<close> and
      \<open>Node_System\<close> hold what they reject, what they leave on disk and what holds along histories.
    \<^item> \<open>Response_Artifacts\<close>: \<open>output.py\<close>.  \<open>Record_Reads\<close>: building, reading, listing and publishing
      records (\<open>store/_records.py\<close>).  \<open>Admission\<close>, \<open>Admission_System\<close>: \<open>store/_admission.py\<close> and the
      interleaving of admissions; state \<open>proj\<close> (the gateway state and the project's other files).
    \<^item> \<open>Recovery_Journal\<close>: \<open>replay.py\<close>, state \<open>rjournal\<close>.
    \<^item> \<open>Operation_Store\<close>, \<open>Operation_System\<close>: \<open>operations/operation_store.py\<close>, \<open>contracts.py\<close>,
      \<open>pump.py\<close>, \<open>application.py\<close>, state \<open>opstore\<close>; the locales \<open>operation_call\<close> and \<open>adding_call\<close>
      state what a call keeps, and every call of the store is an interpretation.
    \<^item> \<open>Session_Bindings\<close>: \<open>session/bindings.py\<close>.  \<open>Session_Records\<close>, \<open>Session_Checkpoints\<close>: the operations of
      \<open>session/sessions_store.py\<close> with the session schema, state \<open>sesw\<close> (the project, the session files, the
      session timeline and the binding index).  \<open>Session_Contract\<close>: the abstract contract of a session
      (\<open>sview\<close>, \<open>sv_step\<close>) and the effect of every call on it.  \<open>Session_System\<close>: the locales \<open>session_call\<close>,
      \<open>session_body_call\<close> and \<open>owned_body_call\<close> with an interpretation per call, and the relation of all
      calls; \<open>Session_Results\<close>: the properties.

  \<^bold>\<open>What is shown.\<close>  Requests: the store refines the lifecycle contract under every interleaving; owned
  operations of a stale owner, worker or attempt are rejected and change no lifecycle; a claim is
  exclusive; finished requests stay finished; revisions and attempts only grow; cancellation flags are
  never lost; takeover fences the previous owner.  Admission: idempotent under every loss of the
  index, ordinals newest and unique under concurrency.  Nodes: bound identity immutable, receipts
  monotone, a no-effect fence permanent.  Activity: synthetic liveness never renews a lease, the
  watchdog never ends a request, evidence is bounded.  Recovery: retries stay in budget and
  are released only without a proven submission, an active claim excludes others and a lost claim is
  fenced.  Management operations: refinement of their contract, at most one execution per owner, and
  liveness of a pump run.  Sessions: the store refines the session contract and keeps every file
  well-typed; a turn that may have been sent is never dropped before its request has ended; bindings are
  immutable and a provider reference has one owner; a newer recovery claim fences the older ones; turns
  are counted once, a load budget is spent once, and a deletion that has begun is final.  Data: response files read back exactly, previews and error summaries are
  bounded, secrets are redacted, the public status depends on the published fields only.  Some
  properties show behaviour that is not what the code means to do; they are listed with the findings.

  \<^bold>\<open>Parameters.\<close>  \<open>crypto\<close> and \<open>genv\<close> collect what is not in the sources: SHA-256, the canonical JSON
  text, the JSON-schema check, date arithmetic and parsing, the digest of a resolved path.  Clock
  readings, fresh identifiers, callbacks and the executor of the pump are arguments.  Hypotheses on
  the parameters are stated in the theorems that need them.

  \<^bold>\<open>Bounds and termination.\<close>  Every loop of the modelled code runs over a listing or a list, so the
  model recurses on it; there is no fuel and every definition is total.  Integers are unbounded
  as in Python; texts are byte lists.

  \<^bold>\<open>Faithfulness.\<close>  A locked section is one atomic step.  Writing and renaming files succeeds unless the
  model says otherwise; torn writes and failing disks are outside it.  Files hold a document or
  bytes that do not parse.  Advisory mirrors (logs, observations) that the code writes in a
  \<open>try\<close> block and ignores are left out.

  \<^bold>\<open>Not modelled.\<close>  Threads, timers and sockets of the queue manager, the service host, HTTP and the
  dashboard (\<open>queue/queue.py\<close>, \<open>service\<close>, \<open>api.py\<close>): they call the modelled operations.  The session
  runtime (\<open>session/sessions.py\<close>, \<open>dispatch.py\<close>), the reports over session timelines, and the request
  transitions that call it.  Node transport and
  receipts.  The executors of management operations and retention.  Paging of journals and histories.
  Providers, planning, ledger, memory, agent jobs, project worktrees, the language-server component
  and the command line: separate components with their own files.
\<close>

section \<open>Properties of every store history\<close>

text \<open>C1: The store refines the lifecycle contract.  Whatever operations run on a sound store, in
  whatever order, every record that was there is still there, its admission identity is unchanged, its
  prompt is not on disk, and its lifecycle has moved along steps of the contract only.\<close>

theorem store_refines_lifecycle:
  assumes "(store_step E)\<^sup>*\<^sup>* s s'" "store_ok s" "rec_of s rid = Some d"
  shows "\<exists>d'. rec_of s' rid = Some d' \<and> lc_step\<^sup>*\<^sup>* (lc_of d) (lc_of d') \<and>
    (\<forall>k \<in> set FROZEN_FIELDS. dget d' k = dget d k) \<and> dget d' ''prompt-body'' = JNull"
proof -
  from store_steps_contract [OF assms(1,2)] have ok: "store_ok s'" "store_path s s'" by blast+
  then obtain d' where d': "rec_of s' rid = Some d'" "rec_path d d'" using assms(3) by (auto simp: store_path_def)
  with ok(1) show ?thesis by (auto simp: rec_path_def frozen_def list_all_iff store_ok_def)
qed

theorem store_refines_lifecycle_witness:
  "\<exists>d'. rec_of cancelled0 ''req_a'' = Some d' \<and>
    lc_step\<^sup>*\<^sup>* (lc_of (record0 ''running'' (JStr ''o1'') (JStr ''w1''))) (lc_of d') \<and>
    (\<forall>k \<in> set FROZEN_FIELDS. dget d' k = dget (record0 ''running'' (JStr ''o1'') (JStr ''w1'')) k) \<and>
    dget d' ''prompt-body'' = JNull"
  by (rule store_refines_lifecycle [OF running0_step]) simp_all

text \<open>C30: Revisions only grow and attempt epochs never go back: between two points of a request's
  history either the lifecycle is the same or the revision is strictly larger.\<close>

theorem revision_and_attempt_monotone:
  assumes "(store_step E)\<^sup>*\<^sup>* s s'" "store_ok s" "rec_of s rid = Some d"
  shows "\<exists>d'. rec_of s' rid = Some d' \<and> lc_attempt (lc_of d) \<le> lc_attempt (lc_of d') \<and>
    (lc_of d' = lc_of d \<or> lc_revision (lc_of d) < lc_revision (lc_of d'))"
proof -
  from store_steps_contract [OF assms(1,2)] assms(3) obtain d' where
    d': "rec_of s' rid = Some d'" "lc_step\<^sup>*\<^sup>* (lc_of d) (lc_of d')" by (auto simp: store_path_def rec_path_def)
  then show ?thesis using lc_steps_revision [OF d'(2)] lc_steps_attempt [OF d'(2)] by auto
qed

theorem revision_and_attempt_monotone_witness:
  "\<exists>d'. rec_of cancelled0 ''req_a'' = Some d' \<and> 2 \<le> lc_attempt (lc_of d') \<and>
    (lc_of d' = lc_of (record0 ''running'' (JStr ''o1'') (JStr ''w1'')) \<or> 3 < lc_revision (lc_of d'))"
  using revision_and_attempt_monotone [OF running0_step, of "''req_a''" "record0 ''running'' (JStr ''o1'') (JStr ''w1'')"]
  by simp

text \<open>C4: A completed or rejected request is final: no sequence of operations changes its state, and
  nobody becomes its owner or worker again, so no later write of a worker passes the ownership fence.\<close>

theorem closed_request_final:
  assumes "(store_step E)\<^sup>*\<^sup>* s s'" "store_ok s" "rec_of s rid = Some d" "lc_state (lc_of d) \<in> {''completed'', ''rejected''}"
  shows "\<exists>d'. rec_of s' rid = Some d' \<and> lc_state (lc_of d') = lc_state (lc_of d) \<and>
    lc_owner (lc_of d') = lc_owner (lc_of d) \<and> lc_worker (lc_of d') = lc_worker (lc_of d)"
proof -
  from store_steps_contract [OF assms(1,2)] assms(3) obtain d' where
    d': "rec_of s' rid = Some d'" "lc_step\<^sup>*\<^sup>* (lc_of d) (lc_of d')" by (auto simp: store_path_def rec_path_def)
  then show ?thesis using lc_steps_closed [OF d'(2)] assms(4) by (simp add: closed_states_def)
qed

theorem closed_request_final_witness:
  "\<exists>d'. rec_of (snd (start_attempt env0 ''req_a'' ''w2'' clock0 completed0)) ''req_a'' = Some d' \<and>
    lc_state (lc_of d') = ''completed'' \<and> lc_owner (lc_of d') = None \<and> lc_worker (lc_of d') = None"
  using closed_request_final [OF completed0_step, of "''req_a''" "record0 ''completed'' JNull JNull"] by simp



text \<open>C3: Exclusive claims: once one owner's claim of a request has succeeded, every claim by
  another owner is rejected, whatever revision it expects.\<close>

theorem claim_exclusive:
  assumes "store_ok s" "claim_dispatch E pr rid o1 rv sr t s = (Inr u, s1)" "o1 \<noteq> o2"
  shows "rejects s1 (claim_dispatch E pr' rid o2 rv' sr' t' s1)"
proof -
  from claim_success [OF assms(1,2)] obtain d where d: "rec_of s1 rid = Some d" "lc_owner (lc_of d) = Some o1" by blast
  have "store_ok s1" using contractD [OF claim_dispatch_contract assms(1), of E pr rid o1 rv sr t] assms(2) by simp
  then show ?thesis by (rule claim_rejects [OF _ d(1)]) (use d(2) assms(3) in auto)
qed

theorem claim_exclusive_witness:
  "\<exists>u s1. claim_dispatch env0 ''/p'' ''req_a'' ''o1'' 3 None clock0 queued0 = (Inr u, s1) \<and>
     rejects s1 (claim_dispatch env0 ''/p'' ''req_a'' ''o2'' 4 None clock0 s1)"
proof -
  let ?c = "claim_dispatch env0 ''/p'' ''req_a'' ''o1'' 3 None clock0 queued0"
  have "\<not> isl (fst ?c)" by code_simp
  then obtain u s1 where "?c = (Inr u, s1)" by (cases ?c; cases "fst ?c") auto
  with claim_exclusive [OF stores_ok(2) this, of "''o2''"] show ?thesis by auto
qed

text \<open>C31: A requested cancellation is never lost: once the flag is on a record, it is on the record after
  every sequence of operations.\<close>

theorem cancel_request_never_lost:
  assumes "(store_step E)\<^sup>*\<^sup>* s s'" "store_ok s" "rec_of s rid = Some d" "lc_cancel (lc_of d)"
  shows "\<exists>d'. rec_of s' rid = Some d' \<and> lc_cancel (lc_of d')"
proof -
  from store_steps_contract [OF assms(1,2)] assms(3) obtain d' where
    d': "rec_of s' rid = Some d'" "lc_step\<^sup>*\<^sup>* (lc_of d) (lc_of d')" by (auto simp: store_path_def rec_path_def)
  then show ?thesis using lc_steps_cancel [OF d'(2) assms(4)] by blast
qed

theorem cancel_request_never_lost_witness:
  "\<exists>d d'. rec_of (gw_of (dset ''cancel-requested'' (JBool True) (record0 ''running'' (JStr ''o1'') (JStr ''w1'')))) ''req_a'' = Some d \<and>
     rec_of (snd (release_stale_claim env0 ''req_a'' ''o1'' clock0
       (gw_of (dset ''cancel-requested'' (JBool True) (record0 ''running'' (JStr ''o1'') (JStr ''w1'')))))) ''req_a'' = Some d' \<and>
     lc_cancel (lc_of d')"
proof -
  let ?d = "dset ''cancel-requested'' (JBool True) (record0 ''running'' (JStr ''o1'') (JStr ''w1''))"
  have ok: "store_ok (gw_of ?d)" "rec_of (gw_of ?d) ''req_a'' = Some ?d" "lc_cancel (lc_of ?d)"
    by (simp_all add: store_ok_def rec_of_gw_of record0_def wf_rec_def lc_of_def dget_Cons CONTRACT_VERSION_def)
  have "(store_step env0)\<^sup>*\<^sup>* (gw_of ?d) (snd (release_stale_claim env0 ''req_a'' ''o1'' clock0 (gw_of ?d)))"
    by (blast intro: store_step.release)
  from cancel_request_never_lost [OF this ok] ok(2) show ?thesis by blast
qed

text \<open>An attempt starts only from a claim: each of the three operations that assign a worker to a
  claimed request is rejected, and changes nothing, unless the caller owns the request and names its
  exact revision.\<close>

theorem start_needs_owner_and_revision:
  assumes "store_ok s" "rec_of s rid = Some d" "lc_owner (lc_of d) \<noteq> Some ow \<or> lc_revision (lc_of d) \<noteq> rv"
  shows "rejects s (start_owned_attempt E rid ow wk rv t s) \<and>
    rejects s (prepare_owned_session_attempt E rid ow wk rv o1 o2 o3 o4 t s) \<and>
    rejects s (bind_and_start_owned_attempt E rid ow wk rv src mdl o3 o4 t s)"
  by (intro conjI start_ops_reject [OF assms])

end
